(* ===== verification/Prelude.thy ===== *)
theory Prelude
  imports Complex_Main "HOL-Library.Word"
begin

text \<open>
  Shared vocabulary of the development: the numeric types of the C++ code, the clocks the
  handlers read, decimal printing (\<open>std::to_string\<close>, \<open>%llu\<close>, \<open>%d\<close>), the fixed-size C buffers that
  \<open>snprintf\<close> fills, and the generic list, word and arithmetic lemmas the components use.

  A C++ \<open>double\<close> is a \<open>real\<close>: arithmetic is exact, and NaN, infinities and the sign of zero are
  outside the model.  Unsigned integers keep their width (\<open>uint64_t\<close> is \<open>64 word\<close>, so \<open>+\<close> and \<open>-\<close>
  wrap).  \<open>std::size_t\<close> values that only count elements of a container are \<open>nat\<close>; \<open>int\<close> settings and
  \<open>std::chrono\<close> counts are \<open>int\<close>.
\<close>

unbundle bit_operations_syntax

type_synonym double = real
type_synonym u8 = "8 word"
type_synonym u16 = "16 word"
type_synonym u32 = "32 word"
type_synonym u64 = "64 word"

text \<open>A reading of a \<open>std::chrono\<close> clock, in nanoseconds since the clock's epoch.\<close>

type_synonym nanos = int

text \<open>
  \<open>model_defs\<close> collects the definitions that a proof unfolds as a group when it evaluates a handler
  on a concrete input; \<open>frame\<close> collects the lemmas saying which fields an operation leaves alone.
\<close>

named_theorems model_defs "definitions unfolded to evaluate a handler"
named_theorems frame "what an operation does not change"


section \<open>Durations\<close>

text \<open>C++ integer division truncates towards zero, and \<open>duration_cast\<close> is that division.\<close>

definition trunc_div :: "int \<Rightarrow> int \<Rightarrow> int" where
  "trunc_div a b = sgn a * sgn b * (\<bar>a\<bar> div \<bar>b\<bar>)"

definition ns_to_ms :: "nanos \<Rightarrow> int" where
  "ns_to_ms d = trunc_div d 1000000"

definition ms_ns :: "int \<Rightarrow> nanos" where
  "ms_ns ms = ms * 1000000"

definition sec_ns :: "int \<Rightarrow> nanos" where
  "sec_ns s = s * 1000000000"

lemma ns_to_ms_nonneg: "0 \<le> d \<Longrightarrow> ns_to_ms d = d div 1000000"
  by (cases "d = 0") (auto simp: ns_to_ms_def trunc_div_def)

lemma ns_to_ms_mono: "0 \<le> d \<Longrightarrow> d \<le> e \<Longrightarrow> ns_to_ms d \<le> ns_to_ms e"
  by (simp add: ns_to_ms_nonneg zdiv_mono1)


section \<open>Clocks\<close>

text \<open>
  The handlers read three clocks: \<open>steady_clock\<close>, \<open>system_clock\<close> and the time-stamp counter.  What a
  read returns is the environment's choice, so a clock is three streams of readings and the number
  of reads made so far; every read advances that number.  Nothing is assumed of the streams unless
  a theorem says so.
\<close>

record clock =
  ck_steady :: "nat \<Rightarrow> nanos"
  ck_wall :: "nat \<Rightarrow> nanos"
  ck_tsc :: "nat \<Rightarrow> u64"
  ck_reads :: nat

definition clock_tick :: "clock \<Rightarrow> clock" where
  "clock_tick c = c\<lparr>ck_reads := Suc (ck_reads c)\<rparr>"

definition steady_now :: "clock \<Rightarrow> nanos" where
  "steady_now c = ck_steady c (ck_reads c)"

definition wall_now :: "clock \<Rightarrow> nanos" where
  "wall_now c = ck_wall c (ck_reads c)"

definition tsc_now :: "clock \<Rightarrow> u64" where
  "tsc_now c = ck_tsc c (ck_reads c)"

text \<open>Two moments of the same clocks.\<close>

definition same_clock :: "clock \<Rightarrow> clock \<Rightarrow> bool" where
  "same_clock c c' \<longleftrightarrow> ck_steady c' = ck_steady c \<and> ck_wall c' = ck_wall c \<and> ck_tsc c' = ck_tsc c"

lemma same_clock_refl [simp]: "same_clock c c"
  by (simp add: same_clock_def)

lemma same_clock_trans: "same_clock a b \<Longrightarrow> same_clock b c \<Longrightarrow> same_clock a c"
  by (simp add: same_clock_def)

lemma same_clock_tick [simp]: "same_clock c (clock_tick c)" "same_clock c (clock_tick c') = same_clock c c'"
  by (simp_all add: same_clock_def clock_tick_def)


text \<open>A clock that advances by a millisecond per read, for the concrete inputs of the witnesses.\<close>

definition demo_clock :: clock where
  "demo_clock = \<lparr>ck_steady = (\<lambda>n. int n * 1000000), ck_wall = (\<lambda>n. int n * 1000000),
     ck_tsc = (\<lambda>n. of_nat n), ck_reads = 0\<rparr>"


section \<open>Decimal printing\<close>

definition digit_char :: "nat \<Rightarrow> char" where
  "digit_char d = char_of (48 + d)"

fun dec_nat :: "nat \<Rightarrow> string" where
  "dec_nat n = (if n < 10 then [digit_char n] else dec_nat (n div 10) @ [digit_char (n mod 10)])"

declare dec_nat.simps [simp del]

definition dec_int :: "int \<Rightarrow> string" where
  "dec_int i = (if i < 0 then ''-'' @ dec_nat (nat (- i)) else dec_nat (nat i))"

definition dec_u64 :: "u64 \<Rightarrow> string" where
  "dec_u64 w = dec_nat (unat w)"

text \<open>Reading the digits back, which makes printing injective.\<close>

definition dec_val :: "string \<Rightarrow> nat" where
  "dec_val s = foldl (\<lambda>a c. 10 * a + (of_char c - 48)) 0 s"

definition is_digit :: "char \<Rightarrow> bool" where
  "is_digit c \<longleftrightarrow> 48 \<le> (of_char c :: nat) \<and> of_char c \<le> (57 :: nat)"

lemma of_char_digit_char [simp]: "d < 10 \<Longrightarrow> (of_char (digit_char d) :: nat) = 48 + d"
  by (simp add: digit_char_def)

lemma dec_val_snoc [simp]: "dec_val (s @ [c]) = 10 * dec_val s + (of_char c - 48)"
  by (simp add: dec_val_def)

lemma dec_val_single [simp]: "dec_val [c] = of_char c - 48"
  by (simp add: dec_val_def)

lemma dec_val_dec_nat [simp]: "dec_val (dec_nat n) = n"
proof (induction n rule: dec_nat.induct)
  case (1 n)
  then show ?case
    by (cases "n < 10") (simp_all add: dec_nat.simps [of n])
qed

lemma dec_nat_inject [simp]: "dec_nat m = dec_nat n \<longleftrightarrow> m = n"
  by (metis dec_val_dec_nat)

lemma dec_nat_digits: "c \<in> set (dec_nat n) \<Longrightarrow> is_digit c"
proof (induction n rule: dec_nat.induct)
  case (1 n)
  then show ?case
    by (cases "n < 10") (auto simp: dec_nat.simps [of n] is_digit_def)
qed

lemma dec_nat_not_Nil [simp]: "dec_nat n \<noteq> []"
  by (simp add: dec_nat.simps [of n])

lemma dec_u64_inject [simp]: "dec_u64 a = dec_u64 b \<longleftrightarrow> a = b"
  by (simp add: dec_u64_def word_unat_eq_iff)


lemma length_dec_nat: "n < 10 ^ d \<Longrightarrow> 0 < d \<Longrightarrow> length (dec_nat n) \<le> d"
proof (induction n arbitrary: d rule: dec_nat.induct)
  case (1 n)
  show ?case
  proof (cases "n < 10")
    case True
    then show ?thesis
      using 1 by (simp add: dec_nat.simps [of n])
  next
    case False
    then obtain e where e: "d = Suc e" "0 < e"
      using 1 by (cases d; cases "d - 1") auto
    then have "n div 10 < 10 ^ e"
      using 1 by (simp add: div_less_iff_less_mult mult.commute)
    with 1 False e have "length (dec_nat (n div 10)) \<le> e"
      by blast
    then show ?thesis
      using False e by (simp add: dec_nat.simps [of n])
  qed
qed

lemma length_dec_u64: "length (dec_u64 w) \<le> 20"
proof -
  have "unat w < 2 ^ LENGTH(64)"
    by (rule unsigned_less)
  then have "unat w < 10 ^ 20"
    by simp
  then show ?thesis
    unfolding dec_u64_def by (rule length_dec_nat) simp
qed


section \<open>Fixed-point printing\<close>

text \<open>
  \<open>%.nf\<close>, and \<open>std::to_string(double)\<close>, which is \<open>%f\<close>: the exact decimal value rounded to \<open>n\<close>
  places, ties to even, with a minus sign for negative arguments.
\<close>

definition round_half_even :: "real \<Rightarrow> int" where
  "round_half_even x =
     (let f = \<lfloor>x\<rfloor>; d = x - of_int f in
      if d < 1 / 2 then f
      else if 1 / 2 < d then f + 1
      else if even f then f else f + 1)"

definition pad0 :: "nat \<Rightarrow> string \<Rightarrow> string" where
  "pad0 n s = replicate (n - length s) (CHR ''0'') @ s"

definition fmt_fixed :: "nat \<Rightarrow> double \<Rightarrow> string" where
  "fmt_fixed n x =
     (let m = nat (round_half_even (\<bar>x\<bar> * 10 ^ n))
      in (if x < 0 then ''-'' else []) @ dec_nat (m div 10 ^ n) @
         (if n = 0 then [] else ''.'' @ pad0 n (dec_nat (m mod 10 ^ n))))"

text \<open>\<open>%0nd\<close>: the width counts the sign.\<close>

definition fmt_0d :: "nat \<Rightarrow> int \<Rightarrow> string" where
  "fmt_0d n i = (if i < 0 then ''-'' @ pad0 (n - 1) (dec_nat (nat (- i))) else pad0 n (dec_nat (nat i)))"

lemma fmt_0d_digits:
  assumes "0 \<le> i" and "i < 10 ^ n" and "0 < n"
  shows "length (fmt_0d n i) = n" and "list_all is_digit (fmt_0d n i)"
proof -
  have "length (dec_nat (nat i)) \<le> n"
    using assms by (intro length_dec_nat) (simp_all add: nat_less_iff)
  then show "length (fmt_0d n i) = n"
    using assms(1) by (simp add: fmt_0d_def pad0_def)
  show "list_all is_digit (fmt_0d n i)"
    using assms(1) dec_nat_digits by (auto simp: fmt_0d_def pad0_def list_all_iff is_digit_def)
qed

definition to_string_f :: "double \<Rightarrow> string" where
  "to_string_f x = fmt_fixed 6 x"


section \<open>C buffers\<close>

text \<open>What \<open>snprintf(buf, n, "%s", s)\<close> leaves in a \<open>char buf[n]\<close>, read as a C string.\<close>

definition c_buf :: "nat \<Rightarrow> string \<Rightarrow> string" where
  "c_buf n s = take (n - 1) s"

lemma length_c_buf: "0 < n \<Longrightarrow> length (c_buf n s) < n"
  by (simp add: c_buf_def)

lemma c_buf_short [simp]: "length s < n \<Longrightarrow> c_buf n s = s"
  by (simp add: c_buf_def)


section \<open>Sorting a prefix of an array\<close>

text \<open>
  \<open>std::sort(a.begin(), a.begin() + n, cmp)\<close> for a comparator on a numeric key.  The standard leaves
  the order of equal keys open; the model keeps them in place.
\<close>

definition sort_prefix :: "nat \<Rightarrow> ('a \<Rightarrow> 'k::linorder) \<Rightarrow> 'a list \<Rightarrow> 'a list" where
  "sort_prefix n f xs = sort_key f (take n xs) @ drop n xs"

lemma length_sort_prefix [simp]: "length (sort_prefix n f xs) = length xs"
  by (simp add: sort_prefix_def)

lemma take_sort_prefix [simp]:
  "n \<le> length xs \<Longrightarrow> take n (sort_prefix n f xs) = sort_key f (take n xs)"
  by (simp add: sort_prefix_def)

lemma drop_sort_prefix [simp]:
  "n \<le> length xs \<Longrightarrow> drop n (sort_prefix n f xs) = drop n xs"
  by (simp add: sort_prefix_def)

lemma hd_sort_key_le:
  assumes "x \<in> set xs"
  shows "f (hd (sort_key f xs)) \<le> f x"
proof -
  from assms have x: "x \<in> set (sort_key f xs)"
    by simp
  then obtain y ys where ys: "sort_key f xs = y # ys"
    by (cases "sort_key f xs") auto
  moreover have "sorted (map f (sort_key f xs))"
    by simp
  ultimately have "\<forall>z \<in> set ys. f y \<le> f z"
    by simp
  with x ys show ?thesis
    by auto
qed

lemma nth_0_sort_prefix:
  assumes "0 < n" and "n \<le> length xs"
  shows "sort_prefix n f xs ! 0 = hd (sort_key f (take n xs))"
proof -
  from assms have "sort_key f (take n xs) \<noteq> []"
    by (metis length_sort length_take length_greater_0_conv min.absorb2)
  then show ?thesis
    using assms by (simp add: sort_prefix_def nth_append hd_conv_nth)
qed


section \<open>Sliding windows\<close>

text \<open>
  \<open>while (!q.empty() && q.front() < cutoff) q.pop_front();\<close>
\<close>

definition purge :: "nanos \<Rightarrow> nanos list \<Rightarrow> nanos list" where
  "purge cutoff q = dropWhile (\<lambda>t. t < cutoff) q"

lemma purge_sorted:
  "sorted q \<Longrightarrow> purge cutoff q = filter (\<lambda>t. cutoff \<le> t) q"
proof (induction q)
  case (Cons t q)
  then show ?case
    by (cases "t < cutoff") (auto simp: purge_def intro!: filter_True [symmetric])
qed (simp add: purge_def)

lemma sorted_purge: "sorted q \<Longrightarrow> sorted (purge cutoff q)"
  by (simp add: purge_def sorted_dropWhile)

lemma set_purge_subset: "set (purge cutoff q) \<subseteq> set q"
  by (auto simp: purge_def dest: set_dropWhileD)

lemma length_purge_le: "length (purge cutoff q) \<le> length q"
  by (simp add: purge_def length_dropWhile_le)

lemma purge_append_new:
  "sorted (q @ [t]) \<Longrightarrow> cutoff \<le> t \<Longrightarrow> purge cutoff q @ [t] = purge cutoff (q @ [t])"
  by (simp add: purge_sorted sorted_append)


text \<open>
  What a window that is purged when it is used, rather than all the time, still tells: \<open>q\<close> agrees
  with the complete record \<open>hist\<close> of times on everything younger than \<open>w\<close>.
\<close>

definition window_tracks :: "nanos \<Rightarrow> nanos list \<Rightarrow> nanos list \<Rightarrow> nanos \<Rightarrow> bool" where
  "window_tracks w hist q now \<longleftrightarrow>
     sorted q \<and> (\<forall>t \<in> set q. t \<le> now) \<and>
     (\<forall>c. now - w \<le> c \<longrightarrow> filter (\<lambda>t. c \<le> t) q = filter (\<lambda>t. c \<le> t) hist)"

lemma window_tracks_Nil [simp]: "window_tracks w [] [] now"
  by (simp add: window_tracks_def)

lemma window_tracks_later:
  "window_tracks w hist q now \<Longrightarrow> now \<le> later \<Longrightarrow> window_tracks w hist q later"
  by (force simp: window_tracks_def)

lemma window_tracks_purge:
  assumes "window_tracks w hist q now" and "c0 \<le> now - w"
  shows "window_tracks w hist (purge c0 q) now"
proof -
  have q: "sorted q" "\<And>c. now - w \<le> c \<Longrightarrow> filter (\<lambda>t. c \<le> t) q = filter (\<lambda>t. c \<le> t) hist"
    using assms(1) by (auto simp: window_tracks_def)
  have "filter (\<lambda>t. c \<le> t) (purge c0 q) = filter (\<lambda>t. c \<le> t) hist" if "now - w \<le> c" for c
  proof -
    have "filter (\<lambda>t. c \<le> t) (purge c0 q) = filter (\<lambda>t. c \<le> t) q"
      using assms(2) that by (auto simp: purge_sorted [OF q(1)] intro!: filter_cong)
    with q(2) [OF that] show ?thesis
      by simp
  qed
  then show ?thesis
    using assms(1) q(1) sorted_purge set_purge_subset [of c0 q] by (auto simp: window_tracks_def)
qed

lemma window_tracks_add:
  assumes "window_tracks w hist q now"
  shows "window_tracks w (hist @ [now]) (q @ [now]) now"
  using assms by (auto simp: window_tracks_def sorted_append)

lemma window_tracks_count:
  assumes "window_tracks w hist q now"
  shows "length (purge (now - w) q) = length (filter (\<lambda>t. now - w \<le> t) hist)"
  using assms by (simp add: window_tracks_def purge_sorted)


section \<open>Partial results\<close>

lemma length_those: "those xs = Some ys \<Longrightarrow> length ys = length xs"
  by (induction xs arbitrary: ys) (auto split: option.splits)


section \<open>Masking as remainder\<close>

lemma unat_and_pow2_minus_1:
  fixes w :: u64
  assumes "k \<le> 64"
  shows "unat (w AND (2 ^ k - 1)) = unat w mod 2 ^ k"
proof -
  have "w AND (2 ^ k - 1) = take_bit k w"
    by (simp add: take_bit_eq_mask mask_eq_exp_minus_1)
  then show ?thesis
    by (simp only: unsigned_take_bit_eq) (simp add: take_bit_eq_mod)
qed

lemma unat_succ_and_mask:
  fixes w :: u64
  assumes "k \<le> 64"
  shows "unat ((w + 1) AND (2 ^ k - 1)) = (unat w + 1) mod 2 ^ k"
proof -
  have dvd: "(2::nat) ^ k dvd 2 ^ 64"
    using assms by (rule le_imp_power_dvd)
  have "unat (w + 1) = (unat w + 1) mod 2 ^ 64"
    by (simp add: unat_word_ariths)
  then show ?thesis
    using assms dvd by (simp add: unat_and_pow2_minus_1 mod_mod_cancel)
qed

end
