(* ===== verification/Ring.thy ===== *)
theory Ring
  imports Prelude
begin

text \<open>
  \<open>SpscRingBuffer<T, N>\<close> of \<open>src/src/transport/spsc_ring_buffer.hpp\<close>: the sequential behaviour of
  \<open>push\<close>, \<open>pop\<close>, \<open>empty\<close> and \<open>capacity\<close> over the two \<open>std::size_t\<close> indices and the array, the
  bounded-queue contract the rest of the engine relies on (locale \<open>bounded_queue\<close>), and the proof
  that the ring provides it.  Theory \<open>RingConc\<close> splits the two operations into their memory accesses.
\<close>

section \<open>The buffer and its operations\<close>

text \<open>\<open>N\<close> is the length of the array; \<open>head_\<close> and \<open>tail_\<close> are 64-bit.\<close>

record 'a ring =
  rg_head :: u64
  rg_tail :: u64
  rg_buf :: "'a list"

definition kMask :: "'a ring \<Rightarrow> u64" where
  "kMask r = of_nat (length (rg_buf r)) - 1"

definition ring_init :: "nat \<Rightarrow> 'a \<Rightarrow> 'a ring" where
  "ring_init n d = \<lparr>rg_head = 0, rg_tail = 0, rg_buf = replicate n d\<rparr>"

definition ring_push :: "'a ring \<Rightarrow> 'a \<Rightarrow> bool \<times> 'a ring" where
  "ring_push r item =
     (let head = rg_head r;
          next = (head + 1) AND kMask r
      in if next = rg_tail r then (False, r)
         else (True, r\<lparr>rg_buf := (rg_buf r)[unat head := item], rg_head := next\<rparr>))"

text \<open>\<open>None\<close> is the return value \<open>false\<close>, which leaves \<open>out\<close> alone.\<close>

definition ring_pop :: "'a ring \<Rightarrow> ('a \<times> 'a ring) option" where
  "ring_pop r =
     (let tail = rg_tail r
      in if tail = rg_head r then None
         else Some (rg_buf r ! unat tail, r\<lparr>rg_tail := (tail + 1) AND kMask r\<rparr>))"

definition ring_empty :: "'a ring \<Rightarrow> bool" where
  "ring_empty r \<longleftrightarrow> rg_head r = rg_tail r"

definition ring_capacity :: "'a ring \<Rightarrow> nat" where
  "ring_capacity r = length (rg_buf r) - 1"


section \<open>Representation: the queued items\<close>

text \<open>
  The static assertions of the template (\<open>N\<close> a power of two, at least 2) and the range of the two
  indices.
\<close>

definition ring_ok :: "'a ring \<Rightarrow> bool" where
  "ring_ok r \<longleftrightarrow>
     (\<exists>k. 1 \<le> k \<and> k < 64 \<and> length (rg_buf r) = 2 ^ k) \<and>
     unat (rg_head r) < length (rg_buf r) \<and> unat (rg_tail r) < length (rg_buf r)"

definition ring_count :: "'a ring \<Rightarrow> nat" where
  "ring_count r =
     (unat (rg_head r) + length (rg_buf r) - unat (rg_tail r)) mod length (rg_buf r)"

definition ring_items :: "'a ring \<Rightarrow> 'a list" where
  "ring_items r =
     map (\<lambda>i. rg_buf r ! ((unat (rg_tail r) + i) mod length (rg_buf r))) [0..<ring_count r]"

lemma length_ring_items [simp]: "length (ring_items r) = ring_count r"
  by (simp add: ring_items_def)

lemma ring_ok_len:
  assumes "ring_ok r"
  shows "2 \<le> length (rg_buf r)"
proof -
  from assms obtain k where "1 \<le> k" "length (rg_buf r) = 2 ^ k"
    by (auto simp: ring_ok_def)
  then show ?thesis
    using power_increasing [of 1 k "2::nat"] by simp
qed

text \<open>One step of an index, as the remainder it computes.\<close>

lemma unat_next_index:
  fixes r :: "'a ring"
  assumes "ring_ok r"
  shows "unat ((w + 1) AND kMask r) = (unat w + 1) mod length (rg_buf r)"
proof -
  from assms obtain k where k: "k < 64" "length (rg_buf r) = 2 ^ k"
    by (auto simp: ring_ok_def)
  then have "kMask r = 2 ^ k - 1"
    by (simp add: kMask_def)
  with k show ?thesis
    by (simp add: unat_succ_and_mask)
qed

lemma kMask_upd [simp]:
  "kMask (r\<lparr>rg_head := h\<rparr>) = kMask r"
  "kMask (r\<lparr>rg_tail := t\<rparr>) = kMask r"
  "kMask (r\<lparr>rg_buf := (rg_buf r)[i := x]\<rparr>) = kMask r"
  by (simp_all add: kMask_def)

text \<open>Arithmetic of the distance between two indices below \<open>n\<close>.\<close>

lemma dist_cases:
  fixes h t n :: nat
  assumes "h < n" "t < n"
  obtains (ahead) "t \<le> h" "(h + n - t) mod n = h - t"
  | (wrapped) "h < t" "(h + n - t) mod n = h + n - t"
proof (cases "t \<le> h")
  case True
  then have "h + n - t = (h - t) + n"
    by simp
  then have "(h + n - t) mod n = (h - t + n) mod n"
    by (rule arg_cong)
  also have "\<dots> = h - t"
    using assms by simp
  finally show ?thesis
    using True ahead by blast
next
  case False
  with assms wrapped show ?thesis
    by simp
qed

lemma succ_mod:
  fixes h n :: nat
  assumes "h < n"
  shows "(h + 1) mod n = (if h + 1 = n then 0 else h + 1)"
    and "Suc h mod n = (if Suc h = n then 0 else Suc h)"
  using assms by (simp_all add: Suc_lessI)

lemma dist_succ_head:
  fixes h t n :: nat
  assumes "h < n" "t < n" "(h + 1) mod n \<noteq> t"
  shows "((h + 1) mod n + n - t) mod n = Suc ((h + n - t) mod n)"
    and "(h + n - t) mod n < n - 1"
    and "(t + (h + n - t) mod n) mod n = h"
proof -
  have b: "(h + 1) mod n < n"
    using assms by simp
  show "((h + 1) mod n + n - t) mod n = Suc ((h + n - t) mod n)"
    using assms
    by (cases rule: dist_cases [OF assms(1,2)]; cases rule: dist_cases [OF b assms(2)])
      (auto simp: succ_mod split: if_splits)
  show "(h + n - t) mod n < n - 1"
    using assms by (cases rule: dist_cases [OF assms(1,2)]) (auto simp: succ_mod split: if_splits)
  show "(t + (h + n - t) mod n) mod n = h"
    using assms by (cases rule: dist_cases [OF assms(1,2)]) auto
qed

lemma dist_succ_tail:
  fixes h t n :: nat
  assumes "h < n" "t < n" "h \<noteq> t"
  shows "Suc ((h + n - (t + 1) mod n) mod n) = (h + n - t) mod n"
proof -
  have b: "(t + 1) mod n < n"
    using assms by simp
  show ?thesis
    using assms by (cases rule: dist_cases [OF assms(1,2)]; cases rule: dist_cases [OF assms(1) b])
      (auto simp: succ_mod split: if_splits)
qed

lemma dist_full:
  fixes h t n :: nat
  assumes "h < n" "t < n" "(h + 1) mod n = t"
  shows "(h + n - t) mod n = n - 1"
  using assms by (cases rule: dist_cases [OF assms(1,2)]) (auto simp: succ_mod split: if_splits)

lemma dist_eq_0:
  fixes h t n :: nat
  assumes "h < n" "t < n"
  shows "(h + n - t) mod n = 0 \<longleftrightarrow> h = t"
  using assms by (cases rule: dist_cases [OF assms]) auto

lemma offset_neq:
  fixes t i c n :: nat
  assumes "i < c" "c < n"
  shows "(t + i) mod n \<noteq> (t + c) mod n"
proof
  assume "(t + i) mod n = (t + c) mod n"
  then have "n dvd (t + c) - (t + i)"
    using assms by (metis mod_eq_dvd_iff_nat add_le_cancel_left less_imp_le)
  with assms show False
    by (auto dest!: dvd_imp_le)
qed


section \<open>What each operation does to the queued items\<close>

lemma ring_count_le:
  assumes "ring_ok r"
  shows "ring_count r \<le> ring_capacity r"
proof -
  from assms have "ring_count r < length (rg_buf r)"
    using ring_ok_len [of r] by (auto simp: ring_count_def intro!: mod_less_divisor)
  then show ?thesis
    by (simp add: ring_capacity_def)
qed

lemma ring_items_Nil_iff:
  assumes "ring_ok r"
  shows "ring_items r = [] \<longleftrightarrow> rg_head r = rg_tail r"
proof -
  have "ring_items r = [] \<longleftrightarrow> ring_count r = 0"
    by (simp add: ring_items_def)
  also have "\<dots> \<longleftrightarrow> unat (rg_head r) = unat (rg_tail r)"
    using assms by (simp add: ring_count_def ring_ok_def dist_eq_0)
  finally show ?thesis
    by (simp add: word_unat_eq_iff)
qed

lemma ring_push_full:
  assumes "ring_ok r" and "ring_count r = ring_capacity r"
  shows "ring_push r x = (False, r)"
proof -
  let ?n = "length (rg_buf r)" and ?h = "unat (rg_head r)" and ?t = "unat (rg_tail r)"
  have b: "?h < ?n" "?t < ?n"
    using assms(1) by (auto simp: ring_ok_def)
  have "(?h + 1) mod ?n = ?t"
  proof (rule ccontr)
    assume "(?h + 1) mod ?n \<noteq> ?t"
    from dist_succ_head(2) [OF b this] assms(2) show False
      by (simp add: ring_count_def ring_capacity_def)
  qed
  then have "(rg_head r + 1) AND kMask r = rg_tail r"
    using unat_next_index [OF assms(1), of "rg_head r"] by (simp add: word_unat_eq_iff)
  then show ?thesis
    by (simp add: ring_push_def)
qed

text \<open>Writing the slot at \<open>head_\<close> is invisible; storing the next \<open>head_\<close> appends what it holds.\<close>

lemma ring_head_offset:
  assumes "ring_ok r"
  shows "(unat (rg_tail r) + ring_count r) mod length (rg_buf r) = unat (rg_head r)"
proof -
  have b: "unat (rg_head r) < length (rg_buf r)" "unat (rg_tail r) < length (rg_buf r)"
    using assms by (auto simp: ring_ok_def)
  show ?thesis
    unfolding ring_count_def by (cases rule: dist_cases [OF b]) (use b in auto)
qed

lemma ring_write_items:
  assumes ok: "ring_ok r"
  shows "ring_items (r\<lparr>rg_buf := (rg_buf r)[unat (rg_head r) := x]\<rparr>) = ring_items r"
proof -
  let ?n = "length (rg_buf r)"
  have lt: "ring_count r < ?n"
    using ring_count_le [OF ok] ring_ok_len [OF ok] by (simp add: ring_capacity_def)
  have "unat (rg_head r) \<noteq> (unat (rg_tail r) + i) mod ?n" if "i < ring_count r" for i
    using offset_neq [OF that lt] ring_head_offset [OF ok] by metis
  then show ?thesis
    by (simp add: ring_items_def ring_count_def)
qed

lemma ring_ok_write: "ring_ok r \<Longrightarrow> ring_ok (r\<lparr>rg_buf := (rg_buf r)[i := x]\<rparr>)"
  by (simp add: ring_ok_def)

lemma ring_publish:
  assumes ok: "ring_ok r" and ne: "(rg_head r + 1) AND kMask r \<noteq> rg_tail r"
  defines "r' \<equiv> r\<lparr>rg_head := (rg_head r + 1) AND kMask r\<rparr>"
  shows "ring_items r' = ring_items r @ [rg_buf r ! unat (rg_head r)]" and "ring_ok r'"
proof -
  let ?n = "length (rg_buf r)" and ?h = "unat (rg_head r)" and ?t = "unat (rg_tail r)"
  have b: "?h < ?n" "?t < ?n"
    using ok by (auto simp: ring_ok_def)
  have nx: "unat ((rg_head r + 1) AND kMask r) = (?h + 1) mod ?n"
    by (rule unat_next_index [OF ok])
  have ne': "(?h + 1) mod ?n \<noteq> ?t"
    using ne nx by (auto simp: word_unat_eq_iff)
  have cnt: "ring_count r' = Suc (ring_count r)"
    using dist_succ_head(1) [OF b ne'] nx by (simp add: r'_def ring_count_def)
  show "ring_items r' = ring_items r @ [rg_buf r ! ?h]"
    using ring_head_offset [OF ok] by (simp add: ring_items_def cnt) (simp add: r'_def)
  show "ring_ok r'"
    using ok b nx by (auto simp: r'_def ring_ok_def)
qed

lemma ring_push_room:
  assumes ok: "ring_ok r" and room: "ring_count r < ring_capacity r"
  obtains r' where "ring_push r x = (True, r')" "ring_ok r'"
    "ring_items r' = ring_items r @ [x]" "ring_capacity r' = ring_capacity r"
proof -
  let ?n = "length (rg_buf r)" and ?h = "unat (rg_head r)" and ?t = "unat (rg_tail r)"
  let ?w = "r\<lparr>rg_buf := (rg_buf r)[?h := x]\<rparr>"
  have b: "?h < ?n" "?t < ?n"
    using ok by (auto simp: ring_ok_def)
  have ne: "(rg_head r + 1) AND kMask r \<noteq> rg_tail r"
  proof
    assume eq: "(rg_head r + 1) AND kMask r = rg_tail r"
    then have "(?h + 1) mod ?n = ?t"
      using unat_next_index [OF ok, of "rg_head r"] by simp
    from dist_full [OF b this] room show False
      by (simp add: ring_count_def ring_capacity_def)
  qed
  then have ne_w: "(rg_head ?w + 1) AND kMask ?w \<noteq> rg_tail ?w"
    by simp
  have push: "ring_push r x = (True, ?w\<lparr>rg_head := (rg_head ?w + 1) AND kMask ?w\<rparr>)"
    using ne by (simp add: ring_push_def Let_def)
  from ring_publish [OF ring_ok_write [OF ok] ne_w] show ?thesis
    using that [OF push] b ring_write_items [OF ok, of x] by (simp add: ring_capacity_def)
qed

lemma ring_pop_Nil: "ring_ok r \<Longrightarrow> ring_items r = [] \<Longrightarrow> ring_pop r = None"
  by (simp add: ring_items_Nil_iff ring_pop_def)

lemma ring_pop_Cons:
  assumes ok: "ring_ok r" and items: "ring_items r = x # xs"
  obtains r' where "ring_pop r = Some (x, r')" "ring_ok r'" "ring_items r' = xs"
    "ring_capacity r' = ring_capacity r"
proof -
  let ?n = "length (rg_buf r)" and ?h = "unat (rg_head r)" and ?t = "unat (rg_tail r)"
  let ?r = "r\<lparr>rg_tail := (rg_tail r + 1) AND kMask r\<rparr>"
  have b: "?h < ?n" "?t < ?n"
    using ok by (auto simp: ring_ok_def)
  have ne: "?h \<noteq> ?t"
    using ring_items_Nil_iff [OF ok] items by (auto simp: word_unat_eq_iff)
  have nx: "unat ((rg_tail r + 1) AND kMask r) = (?t + 1) mod ?n"
    by (rule unat_next_index [OF ok])
  have cnt: "Suc (ring_count ?r) = ring_count r"
    using dist_succ_tail [OF b ne] nx by (simp add: ring_count_def)
  have "ring_items r = rg_buf r ! ?t # ring_items ?r"
  proof (rule nth_equalityI)
    fix i assume i: "i < length (ring_items r)"
    show "ring_items r ! i = (rg_buf r ! ?t # ring_items ?r) ! i"
    proof (cases i)
      case 0
      with i b show ?thesis
        by (simp add: ring_items_def)
    next
      case (Suc j)
      with i cnt have j: "j < ring_count ?r"
        by simp
      have "((?t + 1) mod ?n + j) mod ?n = (?t + Suc j) mod ?n"
        by (simp add: mod_add_left_eq)
      with Suc i j nx show ?thesis
        by (simp add: ring_items_def)
    qed
  qed (simp add: cnt)
  moreover have "ring_pop r = Some (rg_buf r ! ?t, ?r)"
    using ne by (auto simp: ring_pop_def Let_def)
  moreover have "ring_ok ?r"
    using ok nx b by (auto simp: ring_ok_def)
  ultimately show ?thesis
    using that items by (simp add: ring_capacity_def)
qed

lemma ring_init_ok:
  "1 \<le> k \<Longrightarrow> k < 64 \<Longrightarrow> ring_ok (ring_init (2 ^ k) d) \<and> ring_items (ring_init (2 ^ k) d) = []"
  by (auto simp: ring_ok_def ring_init_def ring_items_def ring_count_def)


section \<open>The contract of a bounded queue\<close>

text \<open>
  What the threads on both sides of a ring rely on: a push is refused exactly when the queue is
  full and changes nothing then, otherwise it appends; a pop takes the oldest item.  Locale lemmas
  are about any such queue; the interpretation below gives them for the ring.
\<close>

datatype 'a queue_op = Enq 'a | Deq

text \<open>
  A history of calls: the items the queue accepted, the items it handed out, the final queue.
\<close>

fun queue_run ::
  "('q \<Rightarrow> 'a \<Rightarrow> bool \<times> 'q) \<Rightarrow> ('q \<Rightarrow> ('a \<times> 'q) option) \<Rightarrow> 'a queue_op list \<Rightarrow> 'q
     \<Rightarrow> 'a list \<times> 'a list \<times> 'q" where
  "queue_run enq deq [] q = ([], [], q)"
| "queue_run enq deq (Enq x # ops) q =
     (case enq q x of (b, q1) \<Rightarrow>
      case queue_run enq deq ops q1 of (acc, out, q2) \<Rightarrow>
        (if b then x # acc else acc, out, q2))"
| "queue_run enq deq (Deq # ops) q =
     (case deq q of
        None \<Rightarrow> queue_run enq deq ops q
      | Some (y, q1) \<Rightarrow>
          (case queue_run enq deq ops q1 of (acc, out, q2) \<Rightarrow> (acc, y # out, q2)))"

text \<open>
  \<open>while (ring.pop(ev)) use(ev);\<close>: the items in the order the loop sees them.  \<open>None\<close> would be a
  loop that does not end.
\<close>

partial_function (option) drain ::
  "('q \<Rightarrow> ('a \<times> 'q) option) \<Rightarrow> 'q \<Rightarrow> ('a list \<times> 'q) option" where
  "drain deq q =
     (case deq q of
        None \<Rightarrow> Some ([], q)
      | Some (x, q1) \<Rightarrow> Option.bind (drain deq q1) (\<lambda>(xs, q2). Some (x # xs, q2)))"

locale bounded_queue =
  fixes enq :: "'q \<Rightarrow> 'a \<Rightarrow> bool \<times> 'q"
    and deq :: "'q \<Rightarrow> ('a \<times> 'q) option"
    and items :: "'q \<Rightarrow> 'a list"
    and cap :: "'q \<Rightarrow> nat"
    and ok :: "'q \<Rightarrow> bool"
  assumes len_items: "ok q \<Longrightarrow> length (items q) \<le> cap q"
    and enq_full: "ok q \<Longrightarrow> length (items q) = cap q \<Longrightarrow> enq q x = (False, q)"
    and enq_room: "ok q \<Longrightarrow> length (items q) < cap q \<Longrightarrow>
      \<exists>q'. enq q x = (True, q') \<and> ok q' \<and> items q' = items q @ [x] \<and> cap q' = cap q"
    and deq_Nil: "ok q \<Longrightarrow> items q = [] \<Longrightarrow> deq q = None"
    and deq_Cons: "ok q \<Longrightarrow> items q = x # xs \<Longrightarrow>
      \<exists>q'. deq q = Some (x, q') \<and> ok q' \<and> items q' = xs \<and> cap q' = cap q"
begin

lemma enq_cases:
  assumes "ok q"
  shows "enq q x = (False, q) \<and> length (items q) = cap q \<or>
    (\<exists>q'. enq q x = (True, q') \<and> ok q' \<and> items q' = items q @ [x] \<and> cap q' = cap q \<and>
       length (items q) < cap q)"
  using enq_full [OF assms] enq_room [OF assms] len_items [OF assms]
  by (cases "length (items q) = cap q") (auto simp: le_less)

lemma enq_ok: "ok q \<Longrightarrow> ok (snd (enq q x)) \<and> cap (snd (enq q x)) = cap q"
  using enq_cases [of q x] by auto

lemma run_fifo:
  assumes "ok q" and "queue_run enq deq ops q = (acc, out, q')"
  shows "items q @ acc = out @ items q' \<and> ok q' \<and> cap q' = cap q"
  using assms
proof (induction ops arbitrary: q acc out q')
  case Nil
  then show ?case by simp
next
  case (Cons op ops)
  show ?case
  proof (cases op)
    case (Enq x)
    obtain b q1 where e: "enq q x = (b, q1)" by fastforce
    obtain acc1 out1 q2 where r: "queue_run enq deq ops q1 = (acc1, out1, q2)"
      using prod_cases3 by blast
    from enq_cases [OF Cons.prems(1), of x] e Cons.prems(1) have "ok q1" by auto
    from Cons.IH [OF this r] enq_cases [OF Cons.prems(1), of x] Cons.prems(2) Enq e r
    show ?thesis by auto
  next
    case Deq
    show ?thesis
    proof (cases "items q")
      case Nil
      then have "deq q = None"
        by (rule deq_Nil [OF Cons.prems(1)])
      with Cons.IH [OF Cons.prems(1)] Cons.prems(2) Deq show ?thesis by simp
    next
      case (Cons y ys)
      then obtain q1 where d: "deq q = Some (y, q1)" "ok q1" "items q1 = ys" "cap q1 = cap q"
        using deq_Cons [OF Cons.prems(1)] by blast
      obtain acc1 out1 q2 where r: "queue_run enq deq ops q1 = (acc1, out1, q2)"
        using prod_cases3 by blast
      from Cons.IH [OF d(2) r] Cons.prems(2) Deq d r \<open>items q = y # ys\<close>
      show ?thesis by auto
    qed
  qed
qed

lemma drain_all:
  "ok q \<Longrightarrow> \<exists>q'. drain deq q = Some (items q, q') \<and> ok q' \<and> items q' = [] \<and> cap q' = cap q"
proof (induction "items q" arbitrary: q)
  case Nil
  then show ?case by (simp add: drain.simps deq_Nil)
next
  case (Cons x xs)
  obtain q1 where q1: "deq q = Some (x, q1)" "ok q1" "items q1 = xs" "cap q1 = cap q"
    using deq_Cons [OF Cons.prems, of x xs] Cons.hyps(2) by auto
  obtain q2 where "drain deq q1 = Some (items q1, q2)" "ok q2" "items q2 = []" "cap q2 = cap q1"
    using Cons.hyps(1) [of q1] q1 by auto
  then show ?case
    using q1 Cons.hyps(2) by (subst drain.simps) auto
qed

end

interpretation rq: bounded_queue ring_push ring_pop ring_items ring_capacity ring_ok
proof
  fix q :: "'a ring" and x xs
  assume ok: "ring_ok q"
  show "length (ring_items q) \<le> ring_capacity q"
    using ok by (simp add: ring_count_le)
  show "ring_push q x = (False, q)" if "length (ring_items q) = ring_capacity q"
    using ok that by (simp add: ring_push_full)
  show "\<exists>q'. ring_push q x = (True, q') \<and> ring_ok q' \<and> ring_items q' = ring_items q @ [x] \<and>
      ring_capacity q' = ring_capacity q" if "length (ring_items q) < ring_capacity q"
    using ring_push_room [OF ok, of x] that by (metis length_ring_items)
  show "ring_pop q = None" if "ring_items q = []"
    using ok that by (rule ring_pop_Nil)
  show "\<exists>q'. ring_pop q = Some (x, q') \<and> ring_ok q' \<and> ring_items q' = xs \<and>
      ring_capacity q' = ring_capacity q" if "ring_items q = x # xs"
    using ring_pop_Cons [OF ok that] by metis
qed



text \<open>
  A push through a pointer that may be null, where a full ring is only logged.
\<close>

definition push_or_warn :: "'a \<Rightarrow> 'a ring option \<Rightarrow> 'a ring option" where
  "push_or_warn m ring = map_option (\<lambda>r. snd (ring_push r m)) ring"

lemma push_or_warn_simps [simp]:
  "push_or_warn m None = None" "push_or_warn m (Some r) = Some (snd (ring_push r m))"
  by (simp_all add: push_or_warn_def)

lemma push_or_warn_None_iff [simp]: "push_or_warn m ring = None \<longleftrightarrow> ring = None"
  by (simp add: push_or_warn_def)

lemma ring_push_items:
  assumes "ring_ok r" and "ring_count r < ring_capacity r"
  shows "ring_items (snd (ring_push r x)) = ring_items r @ [x]" and "ring_ok (snd (ring_push r x))"
  using rq.enq_room [OF assms(1), of x] assms(2) by auto

section \<open>Properties\<close>

text \<open>Over any sequence of \<open>push\<close> and \<open>pop\<close> calls on a fresh buffer of \<open>2^k\<close> slots, the items
  accepted are those returned followed by those still queued, and the buffer never holds more than
  \<open>capacity()\<close> items.\<close>

theorem ring_history_fifo:
  assumes "1 \<le> k" and "k < 64"
    and "queue_run ring_push ring_pop ops (ring_init (2 ^ k) d) = (acc, out, r)"
  shows "acc = out @ ring_items r \<and> length (ring_items r) \<le> 2 ^ k - 1"
proof -
  have init: "ring_ok (ring_init (2 ^ k) d)" "ring_items (ring_init (2 ^ k) d) = []"
    "ring_capacity (ring_init (2 ^ k) d) = 2 ^ k - 1"
    using ring_init_ok [OF assms(1,2), of d] by (auto simp: ring_capacity_def ring_init_def)
  from rq.run_fifo [OF init(1) assms(3)] show ?thesis
    using init rq.len_items [of r] by auto
qed

theorem ring_history_fifo_witness:
  "queue_run ring_push ring_pop [Enq 1, Enq 2, Deq, Enq 3, Enq 4, Enq 5] (ring_init (2 ^ 2) (0::nat))
     = ([1, 2, 3, 4], [1], \<lparr>rg_head = 0, rg_tail = 1, rg_buf = [1, 2, 3, 4]\<rparr>)
   \<and> [1, 2, 3, 4] = [1] @ ring_items \<lparr>rg_head = 0, rg_tail = 1, rg_buf = [1, 2, 3, 4::nat]\<rparr>"
proof -
  have run: "queue_run ring_push ring_pop [Enq 1, Enq 2, Deq, Enq 3, Enq 4, Enq 5]
      (ring_init (2 ^ 2) (0::nat)) = ([1, 2, 3, 4], [1], \<lparr>rg_head = 0, rg_tail = 1, rg_buf = [1, 2, 3, 4]\<rparr>)"
    by code_simp
  from ring_history_fifo [OF _ _ run] run show ?thesis
    by simp
qed

text \<open>The consumer loop \<open>while (ring.pop(ev)) ...\<close> ends, and it sees every queued item in the
  order it was pushed.\<close>

theorem ring_drain:
  assumes "ring_ok r"
  shows "\<exists>r'. drain ring_pop r = Some (ring_items r, r') \<and> ring_empty r' \<and> ring_ok r'"
  using rq.drain_all [OF assms] by (auto simp: ring_empty_def ring_items_Nil_iff)

theorem ring_drain_witness:
  "\<exists>r'. drain ring_pop \<lparr>rg_head = 1, rg_tail = 3, rg_buf = [5, 0, 0, 4::nat]\<rparr> = Some ([4, 5], r')
     \<and> ring_empty r'"
proof -
  have "ring_ok \<lparr>rg_head = 1, rg_tail = 3, rg_buf = [5, 0, 0, 4::nat]\<rparr>"
    by (auto simp: ring_ok_def intro!: exI [of _ 2])
  from ring_drain [OF this] show ?thesis
    by (auto simp: ring_items_def ring_count_def upt_rec)
qed

end
