(* ===== verification/RingConc.thy ===== *)
theory RingConc
  imports Ring
begin

text \<open>
  The same ring with \<open>push\<close> and \<open>pop\<close> split into their loads and stores, one producer thread and one
  consumer thread interleaving freely.  The acquire load of the other side's index pairs with that
  side's release store and each side is the only writer of its own index, so interleaving the
  accesses is how the two threads can observe each other.  \<open>accepted\<close>, \<open>refused\<close> and \<open>taken\<close> are
  history variables: the items whose \<open>push\<close> returned true, those whose \<open>push\<close> returned false, and
  the items \<open>pop\<close> handed out.
\<close>

section \<open>Threads and steps\<close>

datatype 'a producer =
    PIdle
  | PStart 'a            \<comment> \<open>\<open>push(item)\<close> entered\<close>
  | PLoaded 'a u64 u64   \<comment> \<open>\<open>head\<close> and \<open>next\<close> computed, about to load \<open>tail_\<close>\<close>
  | PWrite 'a u64 u64    \<comment> \<open>room seen, about to write \<open>buffer_[head]\<close>\<close>
  | PPublish 'a u64      \<comment> \<open>slot written, about to store \<open>next\<close> to \<open>head_\<close>\<close>

datatype 'a consumer =
    CIdle
  | CLoaded u64          \<comment> \<open>\<open>tail\<close> loaded, about to load \<open>head_\<close>\<close>
  | CRead u64            \<comment> \<open>item seen, about to read \<open>buffer_[tail]\<close>\<close>
  | CRelease 'a u64      \<comment> \<open>item read, about to store to \<open>tail_\<close>\<close>

record 'a spsc =
  mem :: "'a ring"
  prod :: "'a producer"
  cons :: "'a consumer"
  accepted :: "'a list"
  refused :: "'a list"
  taken :: "'a list"

inductive spsc_step :: "'a spsc \<Rightarrow> 'a spsc \<Rightarrow> bool" where
  push_call: "prod s = PIdle \<Longrightarrow> spsc_step s (s\<lparr>prod := PStart x\<rparr>)"
| push_head: "prod s = PStart x \<Longrightarrow>
    spsc_step s (s\<lparr>prod := PLoaded x (rg_head (mem s)) ((rg_head (mem s) + 1) AND kMask (mem s))\<rparr>)"
| push_full: "prod s = PLoaded x h n \<Longrightarrow> n = rg_tail (mem s) \<Longrightarrow>
    spsc_step s (s\<lparr>prod := PIdle, refused := refused s @ [x]\<rparr>)"
| push_room: "prod s = PLoaded x h n \<Longrightarrow> n \<noteq> rg_tail (mem s) \<Longrightarrow>
    spsc_step s (s\<lparr>prod := PWrite x h n\<rparr>)"
| push_write: "prod s = PWrite x h n \<Longrightarrow>
    spsc_step s (s\<lparr>mem := (mem s)\<lparr>rg_buf := (rg_buf (mem s))[unat h := x]\<rparr>,
                   prod := PPublish x n\<rparr>)"
| push_publish: "prod s = PPublish x n \<Longrightarrow>
    spsc_step s (s\<lparr>mem := (mem s)\<lparr>rg_head := n\<rparr>, prod := PIdle, accepted := accepted s @ [x]\<rparr>)"
| pop_tail: "cons s = CIdle \<Longrightarrow> spsc_step s (s\<lparr>cons := CLoaded (rg_tail (mem s))\<rparr>)"
| pop_empty: "cons s = CLoaded t \<Longrightarrow> t = rg_head (mem s) \<Longrightarrow> spsc_step s (s\<lparr>cons := CIdle\<rparr>)"
| pop_item: "cons s = CLoaded t \<Longrightarrow> t \<noteq> rg_head (mem s) \<Longrightarrow> spsc_step s (s\<lparr>cons := CRead t\<rparr>)"
| pop_read: "cons s = CRead t \<Longrightarrow>
    spsc_step s (s\<lparr>cons := CRelease (rg_buf (mem s) ! unat t) t\<rparr>)"
| pop_release: "cons s = CRelease y t \<Longrightarrow>
    spsc_step s (s\<lparr>mem := (mem s)\<lparr>rg_tail := (t + 1) AND kMask (mem s)\<rparr>,
                   cons := CIdle, taken := taken s @ [y]\<rparr>)"

definition spsc_init :: "nat \<Rightarrow> 'a \<Rightarrow> 'a spsc" where
  "spsc_init n d = \<lparr>mem = ring_init n d, prod = PIdle, cons = CIdle,
     accepted = [], refused = [], taken = []\<rparr>"

inductive spsc_reach :: "nat \<Rightarrow> 'a \<Rightarrow> 'a spsc \<Rightarrow> bool" for n :: nat and d :: 'a where
  start: "spsc_reach n d (spsc_init n d)"
| step: "spsc_reach n d s \<Longrightarrow> spsc_step s t \<Longrightarrow> spsc_reach n d t"


section \<open>The invariant\<close>

text \<open>
  What each thread knows at each of its program points.  The producer's room can only grow and the
  consumer's items can only grow while the other thread moves, so both facts are stable.
\<close>

fun prod_inv :: "'a ring \<Rightarrow> 'a producer \<Rightarrow> bool" where
  "prod_inv r (PLoaded x h n) \<longleftrightarrow> h = rg_head r \<and> n = (h + 1) AND kMask r"
| "prod_inv r (PWrite x h n) \<longleftrightarrow> h = rg_head r \<and> n = (h + 1) AND kMask r \<and> n \<noteq> rg_tail r"
| "prod_inv r (PPublish x n) \<longleftrightarrow>
     n = (rg_head r + 1) AND kMask r \<and> n \<noteq> rg_tail r \<and> rg_buf r ! unat (rg_head r) = x"
| "prod_inv r _ \<longleftrightarrow> True"

fun cons_inv :: "'a ring \<Rightarrow> 'a consumer \<Rightarrow> bool" where
  "cons_inv r CIdle \<longleftrightarrow> True"
| "cons_inv r (CLoaded t) \<longleftrightarrow> t = rg_tail r"
| "cons_inv r (CRead t) \<longleftrightarrow> t = rg_tail r \<and> t \<noteq> rg_head r"
| "cons_inv r (CRelease y t) \<longleftrightarrow> t = rg_tail r \<and> t \<noteq> rg_head r \<and> y = rg_buf r ! unat t"

definition spsc_inv :: "'a spsc \<Rightarrow> bool" where
  "spsc_inv s \<longleftrightarrow>
     ring_ok (mem s) \<and> accepted s = taken s @ ring_items (mem s) \<and>
     prod_inv (mem s) (prod s) \<and> cons_inv (mem s) (cons s)"

lemma next_index_inj:
  assumes "ring_ok r" "(rg_head r + 1) AND kMask r = (rg_tail r + 1) AND kMask r"
  shows "rg_head r = rg_tail r"
proof -
  have "(unat (rg_head r) + 1) mod length (rg_buf r) = (unat (rg_tail r) + 1) mod length (rg_buf r)"
    using assms by (metis unat_next_index)
  then show ?thesis
    using assms(1) by (auto simp: ring_ok_def succ_mod word_unat_eq_iff split: if_splits)
qed

lemma ring_pop_release:
  assumes "ring_ok r" "rg_tail r \<noteq> rg_head r"
  defines "r' \<equiv> r\<lparr>rg_tail := (rg_tail r + 1) AND kMask r\<rparr>"
  shows "ring_items r = rg_buf r ! unat (rg_tail r) # ring_items r'" and "ring_ok r'"
proof -
  have "ring_items r \<noteq> []"
    using assms by (auto simp: ring_items_Nil_iff)
  then obtain x xs where items: "ring_items r = x # xs"
    by (cases "ring_items r") auto
  obtain q where q: "ring_pop r = Some (x, q)" "ring_ok q" "ring_items q = xs"
    using ring_pop_Cons [OF assms(1) items] by metis
  have "x = rg_buf r ! unat (rg_tail r)" and "q = r'"
    using q(1) assms(2) by (auto simp: ring_pop_def Let_def r'_def)
  with q items show "ring_items r = rg_buf r ! unat (rg_tail r) # ring_items r'" "ring_ok r'"
    by auto
qed

lemma prod_inv_release:
  assumes "prod_inv r p" "ring_ok r" "rg_tail r \<noteq> rg_head r"
  shows "prod_inv (r\<lparr>rg_tail := (rg_tail r + 1) AND kMask r\<rparr>) p"
  using assms by (cases p) (auto dest: next_index_inj)

lemma cons_inv_publish:
  assumes "cons_inv r c" "(rg_head r + 1) AND kMask r \<noteq> rg_tail r"
  shows "cons_inv (r\<lparr>rg_head := (rg_head r + 1) AND kMask r\<rparr>) c"
  using assms by (cases c) auto

lemma cons_inv_write:
  assumes "cons_inv r c"
  shows "cons_inv (r\<lparr>rg_buf := (rg_buf r)[unat (rg_head r) := x]\<rparr>) c"
  using assms by (cases c) (auto simp: word_unat_eq_iff)

lemma spsc_step_inv: "spsc_step s t \<Longrightarrow> spsc_inv s \<Longrightarrow> spsc_inv t"
proof (induction rule: spsc_step.induct)
  case (push_write s x h n)
  then show ?case
    by (auto simp: spsc_inv_def ring_write_items ring_ok_write cons_inv_write) (simp add: ring_ok_def)
next
  case (push_publish s x n)
  then show ?case
    using ring_publish [of "mem s"] by (auto simp: spsc_inv_def cons_inv_publish)
next
  case (pop_release s y t)
  then show ?case
    using ring_pop_release [of "mem s"] by (auto simp: spsc_inv_def prod_inv_release)
qed (auto simp: spsc_inv_def)

lemma spsc_reach_inv:
  assumes "spsc_reach (2 ^ k) d s" "1 \<le> k" "k < 64"
  shows "spsc_inv s"
  using assms(1)
proof (induction rule: spsc_reach.induct)
  case start
  show ?case
    using ring_init_ok [OF assms(2,3), of d] by (simp add: spsc_inv_def spsc_init_def)
next
  case (step s t)
  then show ?case
    by (blast intro: spsc_step_inv)
qed

lemma spsc_step_capacity: "spsc_step s t \<Longrightarrow> ring_capacity (mem t) = ring_capacity (mem s)"
  by (induction rule: spsc_step.induct) (simp_all add: ring_capacity_def)

lemma spsc_reach_capacity: "spsc_reach n d s \<Longrightarrow> ring_capacity (mem s) = n - 1"
proof (induction rule: spsc_reach.induct)
  case start
  show ?case
    by (simp add: spsc_init_def ring_init_def ring_capacity_def)
next
  case (step s t)
  then show ?case
    by (simp add: spsc_step_capacity)
qed


section \<open>The split operations are the operations\<close>

text \<open>
  A thread that runs one call while the other thread stands still does what the sequential
  definition of theory \<open>Ring\<close> says.
\<close>

lemma spsc_push_alone:
  assumes "prod s = PStart x"
  shows "spsc_step\<^sup>*\<^sup>* s
    (if fst (ring_push (mem s) x)
     then s\<lparr>mem := snd (ring_push (mem s) x), prod := PIdle, accepted := accepted s @ [x]\<rparr>
     else s\<lparr>prod := PIdle, refused := refused s @ [x]\<rparr>)"
proof -
  let ?h = "rg_head (mem s)" and ?n = "(rg_head (mem s) + 1) AND kMask (mem s)"
  let ?s1 = "s\<lparr>prod := PLoaded x ?h ?n\<rparr>"
  have 1: "spsc_step s ?s1"
    using assms by (rule spsc_step.push_head)
  show ?thesis
  proof (cases "?n = rg_tail (mem s)")
    case True
    have "spsc_step ?s1 (?s1\<lparr>prod := PIdle, refused := refused ?s1 @ [x]\<rparr>)"
      using True by (intro spsc_step.push_full [of _ x ?h ?n]) simp_all
    with 1 True show ?thesis
      by (auto simp: ring_push_def Let_def intro: rtranclp.rtrancl_into_rtrancl)
  next
    case False
    let ?s2 = "s\<lparr>prod := PWrite x ?h ?n\<rparr>"
    let ?s3 = "s\<lparr>mem := (mem s)\<lparr>rg_buf := (rg_buf (mem s))[unat ?h := x]\<rparr>, prod := PPublish x ?n\<rparr>"
    have 2: "spsc_step ?s1 ?s2"
      using spsc_step.push_room [of ?s1 x ?h ?n] False by simp
    have 3: "spsc_step ?s2 ?s3"
      using spsc_step.push_write [of ?s2 x ?h ?n] by simp
    have 4: "spsc_step ?s3
        (s\<lparr>mem := snd (ring_push (mem s) x), prod := PIdle, accepted := accepted s @ [x]\<rparr>)"
      using spsc_step.push_publish [of ?s3 x ?n] False by (simp add: ring_push_def Let_def)
    from 1 2 3 4 have "spsc_step\<^sup>*\<^sup>* s
        (s\<lparr>mem := snd (ring_push (mem s) x), prod := PIdle, accepted := accepted s @ [x]\<rparr>)"
      by (meson rtranclp.rtrancl_refl rtranclp.rtrancl_into_rtrancl)
    moreover have "fst (ring_push (mem s) x)"
      using False by (simp add: ring_push_def Let_def)
    ultimately show ?thesis
      by simp
  qed
qed

lemma spsc_pop_alone:
  assumes "cons s = CIdle"
  shows "spsc_step\<^sup>*\<^sup>* s
    (case ring_pop (mem s) of
       None \<Rightarrow> s
     | Some (y, r) \<Rightarrow> s\<lparr>mem := r, cons := CIdle, taken := taken s @ [y]\<rparr>)"
proof (cases "rg_tail (mem s) = rg_head (mem s)")
  case True
  then show ?thesis
    by (simp add: ring_pop_def Let_def)
next
  case False
  let ?t = "rg_tail (mem s)"
  let ?y = "rg_buf (mem s) ! unat ?t"
  have 1: "spsc_step s (s\<lparr>cons := CLoaded ?t\<rparr>)"
    using assms by (rule spsc_step.pop_tail)
  have 2: "spsc_step (s\<lparr>cons := CLoaded ?t\<rparr>) (s\<lparr>cons := CRead ?t\<rparr>)"
    using spsc_step.pop_item [of "s\<lparr>cons := CLoaded ?t\<rparr>" ?t] False by simp
  have 3: "spsc_step (s\<lparr>cons := CRead ?t\<rparr>) (s\<lparr>cons := CRelease ?y ?t\<rparr>)"
    using spsc_step.pop_read [of "s\<lparr>cons := CRead ?t\<rparr>" ?t] by simp
  have 4: "spsc_step (s\<lparr>cons := CRelease ?y ?t\<rparr>)
      (s\<lparr>mem := (mem s)\<lparr>rg_tail := (?t + 1) AND kMask (mem s)\<rparr>, cons := CIdle,
         taken := taken s @ [?y]\<rparr>)"
    using spsc_step.pop_release [of "s\<lparr>cons := CRelease ?y ?t\<rparr>" ?y ?t] by simp
  from 1 2 3 4 show ?thesis
    using False by (simp add: ring_pop_def Let_def)
qed


section \<open>Properties\<close>

lemma spsc_reach_steps: "spsc_step\<^sup>*\<^sup>* s t \<Longrightarrow> spsc_reach n d s \<Longrightarrow> spsc_reach n d t"
  by (induction rule: rtranclp_induct) (auto intro: spsc_reach.step)

text \<open>C7: whatever the interleaving of one pushing and one popping thread, the items \<open>push\<close> accepted
  are exactly those \<open>pop\<close> has returned, in that order, followed by those still queued; nothing is
  lost, duplicated or reordered, and at most \<open>N - 1\<close> items are ever queued.\<close>

theorem spsc_fifo:
  assumes "spsc_reach (2 ^ k) d s" and "1 \<le> k" and "k < 64"
  shows "accepted s = taken s @ ring_items (mem s) \<and> length (ring_items (mem s)) \<le> 2 ^ k - 1"
proof -
  have "spsc_inv s"
    using assms by (rule spsc_reach_inv)
  then show ?thesis
    using ring_count_le [of "mem s"] spsc_reach_capacity [OF assms(1)] by (simp add: spsc_inv_def)
qed

text \<open>One push and one pop from the initial state, by evaluation of the sequential operations.\<close>

lemma spsc_demo_reach:
  "spsc_reach 2 (0::nat)
     \<lparr>mem = \<lparr>rg_head = 1, rg_tail = 0, rg_buf = [7, 0]\<rparr>, prod = PIdle, cons = CIdle,
      accepted = [7], refused = [], taken = []\<rparr>"
proof -
  let ?s = "spsc_init 2 (0::nat)"
  have "spsc_step ?s (?s\<lparr>prod := PStart 7\<rparr>)"
    by (rule spsc_step.push_call) (simp add: spsc_init_def)
  then have "spsc_reach 2 0 (?s\<lparr>prod := PStart 7\<rparr>)"
    by (rule spsc_reach.step [OF spsc_reach.start])
  with spsc_push_alone [of "?s\<lparr>prod := PStart 7\<rparr>" 7] show ?thesis
    by (auto simp: spsc_init_def ring_init_def ring_push_def kMask_def numeral_2_eq_2
        dest: spsc_reach_steps)
qed

theorem spsc_fifo_witness:
  "[7] = [] @ ring_items \<lparr>rg_head = 1, rg_tail = 0, rg_buf = [7, 0::nat]\<rparr>"
  using spsc_fifo [of 1 "0::nat"] spsc_demo_reach by fastforce

text \<open>C33: the producer is never writing the slot the consumer is reading: in every reachable state
  where \<open>push\<close> is about to store into \<open>buffer_[head]\<close> and \<open>pop\<close> is about to load \<open>buffer_[tail]\<close> the
  two indices differ, and both are inside the array.\<close>

theorem spsc_no_slot_race:
  assumes "spsc_reach (2 ^ k) d s" and "1 \<le> k" and "k < 64"
    and "prod s = PWrite x h n" and "cons s = CRead t"
  shows "h \<noteq> t \<and> unat h < length (rg_buf (mem s)) \<and> unat t < length (rg_buf (mem s))"
proof -
  have "spsc_inv s"
    using assms(1-3) by (rule spsc_reach_inv)
  then show ?thesis
    using assms(4,5) by (auto simp: spsc_inv_def ring_ok_def)
qed

text \<open>
  A run in which the two accesses meet: with one item queued in four slots, the producer stands
  before its write while the consumer stands before its read.
\<close>

lemma spsc_demo_race_reach:
  "spsc_reach 4 (0::nat)
     \<lparr>mem = \<lparr>rg_head = 1, rg_tail = 0, rg_buf = [7, 0, 0, 0]\<rparr>, prod = PWrite 8 1 2, cons = CRead 0,
      accepted = [7], refused = [], taken = []\<rparr>"
proof -
  let ?m = "\<lparr>rg_head = 1, rg_tail = 0, rg_buf = [7, 0, 0, 0::nat]\<rparr>"
  let ?S = "\<lambda>p c. \<lparr>mem = ?m, prod = p, cons = c, accepted = [7], refused = [], taken = []\<rparr>"
  let ?i = "(spsc_init 4 (0::nat))\<lparr>prod := PStart 7\<rparr>"
  have "spsc_step (spsc_init 4 (0::nat)) ?i"
    by (rule spsc_step.push_call) (simp add: spsc_init_def)
  then have "spsc_reach 4 0 ?i"
    by (rule spsc_reach.step [OF spsc_reach.start])
  moreover have "spsc_step\<^sup>*\<^sup>* ?i (?S PIdle CIdle)"
    using spsc_push_alone [of ?i 7]
    by (simp add: spsc_init_def ring_init_def ring_push_def kMask_def numeral_eq_Suc)
  ultimately have a: "spsc_reach 4 0 (?S PIdle CIdle)"
    by (rule spsc_reach_steps [rotated])
  have "spsc_step (?S PIdle CIdle) (?S (PStart 8) CIdle)"
    using spsc_step.push_call [of "?S PIdle CIdle" 8] by simp
  note b = spsc_reach.step [OF a this]
  have "spsc_step (?S (PStart 8) CIdle) (?S (PLoaded 8 1 2) CIdle)"
    using spsc_step.push_head [of "?S (PStart 8) CIdle" 8] by (simp add: kMask_def)
  note c = spsc_reach.step [OF b this]
  have "spsc_step (?S (PLoaded 8 1 2) CIdle) (?S (PWrite 8 1 2) CIdle)"
    using spsc_step.push_room [of "?S (PLoaded 8 1 2) CIdle" 8 1 2] by simp
  note d = spsc_reach.step [OF c this]
  have "spsc_step (?S (PWrite 8 1 2) CIdle) (?S (PWrite 8 1 2) (CLoaded 0))"
    using spsc_step.pop_tail [of "?S (PWrite 8 1 2) CIdle"] by simp
  note e = spsc_reach.step [OF d this]
  have "spsc_step (?S (PWrite 8 1 2) (CLoaded 0)) (?S (PWrite 8 1 2) (CRead 0))"
    using spsc_step.pop_item [of "?S (PWrite 8 1 2) (CLoaded 0)" 0] by simp
  from spsc_reach.step [OF e this] show ?thesis .
qed

theorem spsc_no_slot_race_witness:
  "(1::u64) \<noteq> 0 \<and> unat (1::u64) < 4"
  using spsc_no_slot_race [of 2 "0::nat" _ 8 1 2 0] spsc_demo_race_reach by fastforce

end
