(* ===== verification/Config.thy ===== *)
theory Config
  imports Prelude
begin

text \<open>
  \<open>infra::Config\<close> and \<open>infra::load_config\<close> (\<open>src/src/infra/config.hpp\<close>, \<open>config.cpp\<close>): one record per
  anonymous struct, and the loading of a parsed TOML table with its defaults and the mirroring of
  the \<open>[exchange]\<close> section into the fields the rest of the engine reads.  The TOML parser is not
  part of the repository: a parsed table is its typed lookups, \<open>None\<close> for a key that is absent or
  whose value cannot be read at the type asked for.
\<close>

section \<open>The configuration\<close>

record exchange_cfg =
  ex_name :: string
  ex_symbol :: string
  ex_ws_base_url :: string
  ex_rest_base_url :: string
  ex_private_ws_base_url :: string
  ex_contract_size :: double
  ex_tick_size :: double
  ex_qty_step :: double

record market_data_cfg =
  md_symbol :: string
  md_ws_base_url :: string
  md_rest_depth_url :: string
  md_depth_levels :: int
  md_volatility_window :: int
  md_private_ws_enabled :: bool

record transport_cfg =
  tp_ring_buffer_capacity :: u64
  tp_snapshot_ring_capacity :: u64
  tp_quote_ring_capacity :: u64
  tp_risk_event_ring_capacity :: u64
  tp_fill_ring_capacity :: u64
  tp_db_ring_capacity :: u64

record reporter_cfg =
  rp_core :: int
  rp_batch_size :: int
  rp_flush_interval_ms :: int
  rp_pg_pool_min :: int

record runtime_cfg =
  rt_ws_cpu_core :: int
  rt_processor_cpu_core :: int
  rt_strategy_cpu_core :: int
  rt_risk_cpu_core :: int
  rt_execution_cpu_core :: int
  rt_private_ws_cpu_core :: int

record execution_cfg =
  ec_rest_base_url :: string
  ec_recv_window_ms :: int
  ec_ack_timeout_ms :: int
  ec_reconcile_interval_seconds :: int
  ec_position_divergence_tolerance :: double
  ec_flatten_threshold :: double
  ec_http_timeout_ms :: int

record logging_cfg =
  lg_level :: string
  lg_file :: string

record reconnect_cfg =
  rc_initial_backoff_ms :: int
  rc_max_backoff_ms :: int
  rc_max_attempts :: int

record strategy_cfg =
  st_gamma :: double
  st_k :: double
  st_horizon :: double
  st_min_tick :: double
  st_qty_step :: double
  st_volatility_floor :: double
  st_baseline_volatility :: double
  st_vol_widen_multiplier :: double
  st_depth_threshold :: double
  st_inventory_skew_threshold_pct :: double
  st_max_inventory :: double
  st_max_skew_bps :: double
  st_emergency_unwind_pct :: double
  st_funding_rate :: double
  st_min_requote_ms :: int
  st_price_move_ticks_threshold :: int
  st_quote_lifetime_ms :: int
  st_quote_qty :: double

record backtest_cfg =
  bt_enabled :: bool
  bt_data_dir :: string
  bt_replay_speed :: int
  bt_start_date :: string
  bt_end_date :: string
  bt_initial_capital :: double
  bt_risk_free_rate :: double
  bt_enable_calibration :: bool

record testnet_cfg =
  tn_enabled :: bool
  tn_ws_base_url :: string
  tn_rest_base_url :: string
  tn_private_ws_base_url :: string

record risk_cfg =
  rk_max_position :: double
  rk_max_order_size :: double
  rk_price_sanity_pct :: double
  rk_rate_limit_threshold :: int
  rk_max_daily_loss :: double
  rk_max_open_orders :: int
  rk_max_drawdown_pct :: double
  rk_drawdown_min_equity :: double
  rk_max_unhedged_seconds :: int
  rk_max_consecutive_rejections :: int
  rk_circuit_breaker_poll_ms :: int

record config =
  c_exchange :: exchange_cfg
  c_market_data :: market_data_cfg
  c_transport :: transport_cfg
  c_reporter :: reporter_cfg
  c_runtime :: runtime_cfg
  c_execution :: execution_cfg
  c_logging :: logging_cfg
  c_reconnect :: reconnect_cfg
  c_strategy :: strategy_cfg
  c_backtest :: backtest_cfg
  c_testnet :: testnet_cfg
  c_risk :: risk_cfg


section \<open>Loading\<close>

text \<open>\<open>tbl[section][key].value<T>()\<close> for the types \<open>load_config\<close> asks for.\<close>

record toml =
  tm_str :: "string \<Rightarrow> string \<Rightarrow> string option"
  tm_f64 :: "string \<Rightarrow> string \<Rightarrow> double option"
  tm_int :: "string \<Rightarrow> string \<Rightarrow> int option"
  tm_i64 :: "string \<Rightarrow> string \<Rightarrow> int option"
  tm_bool :: "string \<Rightarrow> string \<Rightarrow> bool option"

fun value_or :: "'a option \<Rightarrow> 'a \<Rightarrow> 'a" where
  "value_or None d = d"
| "value_or (Some v) d = v"

definition load_exchange :: "toml \<Rightarrow> exchange_cfg" where
  "load_exchange tbl =
     \<lparr>ex_name = value_or (tm_str tbl ''exchange'' ''name'') '''',
      ex_symbol = value_or (tm_str tbl ''exchange'' ''symbol'') '''',
      ex_ws_base_url = value_or (tm_str tbl ''exchange'' ''ws_base_url'') '''',
      ex_rest_base_url = value_or (tm_str tbl ''exchange'' ''rest_base_url'') '''',
      ex_private_ws_base_url = value_or (tm_str tbl ''exchange'' ''private_ws_base_url'') ''wss://ws.okx.com:8443/ws/v5/private'',
      ex_contract_size = value_or (tm_f64 tbl ''exchange'' ''contract_size'') 0,
      ex_tick_size = value_or (tm_f64 tbl ''exchange'' ''tick_size'') 0,
      ex_qty_step = value_or (tm_f64 tbl ''exchange'' ''qty_step'') 0\<rparr>"

definition load_market_data :: "toml \<Rightarrow> market_data_cfg" where
  "load_market_data tbl =
     \<lparr>md_symbol = value_or (tm_str tbl ''market_data'' ''symbol'') '''',
      md_ws_base_url = value_or (tm_str tbl ''market_data'' ''ws_base_url'') '''',
      md_rest_depth_url = value_or (tm_str tbl ''market_data'' ''rest_depth_url'') '''',
      md_depth_levels = value_or (tm_int tbl ''market_data'' ''depth_levels'') 20,
      md_volatility_window = value_or (tm_int tbl ''market_data'' ''volatility_window'') 100,
      md_private_ws_enabled = value_or (tm_bool tbl ''market_data'' ''private_ws_enabled'') True\<rparr>"

definition load_transport :: "toml \<Rightarrow> transport_cfg" where
  "load_transport tbl =
     \<lparr>tp_ring_buffer_capacity = word_of_int (value_or (tm_i64 tbl ''transport'' ''ring_buffer_capacity'') 65536),
      tp_snapshot_ring_capacity = word_of_int (value_or (tm_i64 tbl ''transport'' ''snapshot_ring_capacity'') 16384),
      tp_quote_ring_capacity = word_of_int (value_or (tm_i64 tbl ''transport'' ''quote_ring_capacity'') 16384),
      tp_risk_event_ring_capacity = word_of_int (value_or (tm_i64 tbl ''transport'' ''risk_event_ring_capacity'') 1024),
      tp_fill_ring_capacity = word_of_int (value_or (tm_i64 tbl ''transport'' ''fill_ring_capacity'') 1024),
      tp_db_ring_capacity = word_of_int (value_or (tm_i64 tbl ''transport'' ''db_ring_capacity'') 4096)\<rparr>"

definition load_reporter :: "toml \<Rightarrow> reporter_cfg" where
  "load_reporter tbl =
     \<lparr>rp_core = value_or (tm_int tbl ''reporter'' ''core'') (- 1),
      rp_batch_size = value_or (tm_int tbl ''reporter'' ''batch_size'') 100,
      rp_flush_interval_ms = value_or (tm_int tbl ''reporter'' ''flush_interval_ms'') 1000,
      rp_pg_pool_min = value_or (tm_int tbl ''reporter'' ''pg_pool_min'') 2\<rparr>"

definition load_runtime :: "toml \<Rightarrow> runtime_cfg" where
  "load_runtime tbl =
     \<lparr>rt_ws_cpu_core = value_or (tm_int tbl ''runtime'' ''ws_cpu_core'') (- 1),
      rt_processor_cpu_core = value_or (tm_int tbl ''runtime'' ''processor_cpu_core'') (- 1),
      rt_strategy_cpu_core = value_or (tm_int tbl ''runtime'' ''strategy_cpu_core'') (- 1),
      rt_risk_cpu_core = value_or (tm_int tbl ''runtime'' ''risk_cpu_core'') (- 1),
      rt_execution_cpu_core = value_or (tm_int tbl ''runtime'' ''execution_cpu_core'') (- 1),
      rt_private_ws_cpu_core = value_or (tm_int tbl ''runtime'' ''private_ws_cpu_core'') (- 1)\<rparr>"

definition load_execution :: "toml \<Rightarrow> execution_cfg" where
  "load_execution tbl =
     \<lparr>ec_rest_base_url = value_or (tm_str tbl ''execution'' ''rest_base_url'') '''',
      ec_recv_window_ms = value_or (tm_int tbl ''execution'' ''recv_window_ms'') 5000,
      ec_ack_timeout_ms = value_or (tm_int tbl ''execution'' ''ack_timeout_ms'') 2000,
      ec_reconcile_interval_seconds = value_or (tm_int tbl ''execution'' ''reconcile_interval_seconds'') 300,
      ec_position_divergence_tolerance = value_or (tm_f64 tbl ''execution'' ''position_divergence_tolerance'') 0.001,
      ec_flatten_threshold = value_or (tm_f64 tbl ''execution'' ''flatten_threshold'') 0.001,
      ec_http_timeout_ms = value_or (tm_int tbl ''execution'' ''http_timeout_ms'') 3000\<rparr>"

definition load_logging :: "toml \<Rightarrow> logging_cfg" where
  "load_logging tbl =
     \<lparr>lg_level = value_or (tm_str tbl ''logging'' ''level'') ''info'',
      lg_file = value_or (tm_str tbl ''logging'' ''file'') ''spreadara.log''\<rparr>"

definition load_reconnect :: "toml \<Rightarrow> reconnect_cfg" where
  "load_reconnect tbl =
     \<lparr>rc_initial_backoff_ms = value_or (tm_int tbl ''reconnect'' ''initial_backoff_ms'') 500,
      rc_max_backoff_ms = value_or (tm_int tbl ''reconnect'' ''max_backoff_ms'') 30000,
      rc_max_attempts = value_or (tm_int tbl ''reconnect'' ''max_attempts'') 5\<rparr>"

definition load_strategy :: "toml \<Rightarrow> strategy_cfg" where
  "load_strategy tbl =
     \<lparr>st_gamma = value_or (tm_f64 tbl ''strategy'' ''gamma'') 0.1,
      st_k = value_or (tm_f64 tbl ''strategy'' ''k'') 1.5,
      st_horizon = value_or (tm_f64 tbl ''strategy'' ''horizon'') 1,
      st_min_tick = value_or (tm_f64 tbl ''strategy'' ''min_tick'') 0.1,
      st_qty_step = value_or (tm_f64 tbl ''strategy'' ''qty_step'') 0.001,
      st_volatility_floor = value_or (tm_f64 tbl ''strategy'' ''volatility_floor'') 0.0001,
      st_baseline_volatility = value_or (tm_f64 tbl ''strategy'' ''baseline_volatility'') 0.0002,
      st_vol_widen_multiplier = value_or (tm_f64 tbl ''strategy'' ''vol_widen_multiplier'') 1.5,
      st_depth_threshold = value_or (tm_f64 tbl ''strategy'' ''depth_threshold'') 10,
      st_inventory_skew_threshold_pct = value_or (tm_f64 tbl ''strategy'' ''inventory_skew_threshold_pct'') 30,
      st_max_inventory = value_or (tm_f64 tbl ''strategy'' ''max_inventory'') 5,
      st_max_skew_bps = value_or (tm_f64 tbl ''strategy'' ''max_skew_bps'') 25,
      st_emergency_unwind_pct = value_or (tm_f64 tbl ''strategy'' ''emergency_unwind_pct'') 90,
      st_funding_rate = value_or (tm_f64 tbl ''strategy'' ''funding_rate'') 0,
      st_min_requote_ms = value_or (tm_int tbl ''strategy'' ''min_requote_ms'') 50,
      st_price_move_ticks_threshold = value_or (tm_int tbl ''strategy'' ''price_move_ticks_threshold'') 2,
      st_quote_lifetime_ms = value_or (tm_int tbl ''strategy'' ''quote_lifetime_ms'') 5000,
      st_quote_qty = value_or (tm_f64 tbl ''strategy'' ''quote_qty'') 0.01\<rparr>"

definition load_backtest :: "toml \<Rightarrow> backtest_cfg" where
  "load_backtest tbl =
     \<lparr>bt_enabled = value_or (tm_bool tbl ''backtest'' ''enabled'') False,
      bt_data_dir = value_or (tm_str tbl ''backtest'' ''data_dir'') ''data/historical'',
      bt_replay_speed = value_or (tm_int tbl ''backtest'' ''replay_speed'') 100,
      bt_start_date = value_or (tm_str tbl ''backtest'' ''start_date'') '''',
      bt_end_date = value_or (tm_str tbl ''backtest'' ''end_date'') '''',
      bt_initial_capital = value_or (tm_f64 tbl ''backtest'' ''initial_capital'') 10000,
      bt_risk_free_rate = value_or (tm_f64 tbl ''backtest'' ''risk_free_rate'') 0.05,
      bt_enable_calibration = value_or (tm_bool tbl ''backtest'' ''enable_calibration'') False\<rparr>"

definition load_testnet :: "toml \<Rightarrow> testnet_cfg" where
  "load_testnet tbl =
     \<lparr>tn_enabled = value_or (tm_bool tbl ''testnet'' ''enabled'') False,
      tn_ws_base_url = value_or (tm_str tbl ''testnet'' ''ws_base_url'') '''',
      tn_rest_base_url = value_or (tm_str tbl ''testnet'' ''rest_base_url'') '''',
      tn_private_ws_base_url = value_or (tm_str tbl ''testnet'' ''private_ws_base_url'') ''wss://wspap.okx.com:8443/ws/v5/private?brokerId=9999''\<rparr>"

definition load_risk :: "toml \<Rightarrow> risk_cfg" where
  "load_risk tbl =
     \<lparr>rk_max_position = value_or (tm_f64 tbl ''risk'' ''max_position'') 0.1,
      rk_max_order_size = value_or (tm_f64 tbl ''risk'' ''max_order_size'') 0.05,
      rk_price_sanity_pct = value_or (tm_f64 tbl ''risk'' ''price_sanity_pct'') 0.5,
      rk_rate_limit_threshold = value_or (tm_int tbl ''risk'' ''rate_limit_threshold'') 1000,
      rk_max_daily_loss = value_or (tm_f64 tbl ''risk'' ''max_daily_loss'') 500,
      rk_max_open_orders = value_or (tm_int tbl ''risk'' ''max_open_orders'') 10,
      rk_max_drawdown_pct = value_or (tm_f64 tbl ''risk'' ''max_drawdown_pct'') 5,
      rk_drawdown_min_equity = value_or (tm_f64 tbl ''risk'' ''drawdown_min_equity'') 100,
      rk_max_unhedged_seconds = value_or (tm_int tbl ''risk'' ''max_unhedged_seconds'') 30,
      rk_max_consecutive_rejections = value_or (tm_int tbl ''risk'' ''max_consecutive_rejections'') 5,
      rk_circuit_breaker_poll_ms = value_or (tm_int tbl ''risk'' ''circuit_breaker_poll_ms'') 100\<rparr>"

text \<open>The block at the end of \<open>load_config\<close>: a named exchange overrides the older fields.\<close>

definition mirror_exchange :: "config \<Rightarrow> config" where
  "mirror_exchange c =
     (let ex = c_exchange c in
      if ex_name ex = [] then c
      else
        let c = (if ex_symbol ex \<noteq> [] then c\<lparr>c_market_data := (c_market_data c)\<lparr>md_symbol := ex_symbol ex\<rparr>\<rparr> else c);
            c = (if ex_ws_base_url ex \<noteq> [] then c\<lparr>c_market_data := (c_market_data c)\<lparr>md_ws_base_url := ex_ws_base_url ex\<rparr>\<rparr> else c);
            c = (if ex_rest_base_url ex \<noteq> [] then c\<lparr>c_execution := (c_execution c)\<lparr>ec_rest_base_url := ex_rest_base_url ex\<rparr>\<rparr> else c);
            c = (if 0 < ex_tick_size ex then c\<lparr>c_strategy := (c_strategy c)\<lparr>st_min_tick := ex_tick_size ex\<rparr>\<rparr> else c);
            c = (if 0 < ex_qty_step ex then c\<lparr>c_strategy := (c_strategy c)\<lparr>st_qty_step := ex_qty_step ex\<rparr>\<rparr> else c)
        in c)"

definition load_config :: "toml \<Rightarrow> config" where
  "load_config tbl =
     mirror_exchange
       \<lparr>c_exchange = load_exchange tbl, c_market_data = load_market_data tbl,
        c_transport = load_transport tbl, c_reporter = load_reporter tbl,
        c_runtime = load_runtime tbl, c_execution = load_execution tbl,
        c_logging = load_logging tbl, c_reconnect = load_reconnect tbl,
        c_strategy = load_strategy tbl, c_backtest = load_backtest tbl,
        c_testnet = load_testnet tbl, c_risk = load_risk tbl\<rparr>"

text \<open>A table with no keys at all, which loads every default.\<close>

definition toml_empty :: toml where
  "toml_empty = \<lparr>tm_str = (\<lambda>_ _. None), tm_f64 = (\<lambda>_ _. None), tm_int = (\<lambda>_ _. None),
     tm_i64 = (\<lambda>_ _. None), tm_bool = (\<lambda>_ _. None)\<rparr>"

lemma mirror_exchange_strategy_frame [simp, frame]:
  "c_risk (mirror_exchange c) = c_risk c"
  "c_backtest (mirror_exchange c) = c_backtest c"
  "c_transport (mirror_exchange c) = c_transport c"
  "c_reporter (mirror_exchange c) = c_reporter c"
  "c_testnet (mirror_exchange c) = c_testnet c"
  "c_exchange (mirror_exchange c) = c_exchange c"
  by (simp_all add: mirror_exchange_def Let_def)


section \<open>Properties\<close>

text \<open>With an \<open>[exchange]\<close> section that has a name, the symbol, the WebSocket and REST base URLs,
  the tick size and the quantity step the engine uses are the section's wherever it gives them (a
  non-empty string, a positive number), and every other market-data, execution and strategy
  setting is the one its own section loads; with no name, nothing is mirrored.\<close>

theorem load_config_mirror:
  "c_market_data (load_config tbl) =
     (load_market_data tbl)
       \<lparr>md_symbol := (if ex_name (load_exchange tbl) \<noteq> [] \<and> ex_symbol (load_exchange tbl) \<noteq> []
                     then ex_symbol (load_exchange tbl) else md_symbol (load_market_data tbl)),
        md_ws_base_url := (if ex_name (load_exchange tbl) \<noteq> [] \<and> ex_ws_base_url (load_exchange tbl) \<noteq> []
                     then ex_ws_base_url (load_exchange tbl) else md_ws_base_url (load_market_data tbl))\<rparr>
   \<and> c_execution (load_config tbl) =
     (load_execution tbl)
       \<lparr>ec_rest_base_url := (if ex_name (load_exchange tbl) \<noteq> [] \<and> ex_rest_base_url (load_exchange tbl) \<noteq> []
                     then ex_rest_base_url (load_exchange tbl) else ec_rest_base_url (load_execution tbl))\<rparr>
   \<and> c_strategy (load_config tbl) =
     (load_strategy tbl)
       \<lparr>st_min_tick := (if ex_name (load_exchange tbl) \<noteq> [] \<and> 0 < ex_tick_size (load_exchange tbl)
                     then ex_tick_size (load_exchange tbl) else st_min_tick (load_strategy tbl)),
        st_qty_step := (if ex_name (load_exchange tbl) \<noteq> [] \<and> 0 < ex_qty_step (load_exchange tbl)
                     then ex_qty_step (load_exchange tbl) else st_qty_step (load_strategy tbl))\<rparr>"
  by (simp add: load_config_def mirror_exchange_def Let_def)

end
