(* ===== verification/MarketData.thy ===== *)
theory MarketData
  imports Ring Config
begin

text \<open>
  The plain data that crosses the engine's rings: the events of the public feed
  (\<open>src/src/market_data/market_event.hpp\<close>), the REST depth snapshot (\<open>ws_types.hpp\<close>), the tables of
  \<open>src/src/schemas/*.fbs\<close> and the 512-byte messages that carry them
  (\<open>strategy/signal_aggregator.hpp\<close>).  FlatBuffers is not part of the repository: a codec is a pair of
  functions, and what the engine needs of it is the predicate \<open>codec_at\<close>.
\<close>

section \<open>Feed events\<close>

datatype event_type = EvNone | EvBookTicker | EvDepth | EvTrade

record price_level =
  pl_price :: double
  pl_qty :: double

definition level0 :: price_level where
  "level0 = \<lparr>pl_price = 0, pl_qty = 0\<rparr>"

record book_ticker_event =
  bte_exchange_ts_ms :: u64
  bte_best_bid_price :: double
  bte_best_bid_qty :: double
  bte_best_ask_price :: double
  bte_best_ask_qty :: double

record depth_event =
  dpe_exchange_ts_ms :: u64
  dpe_first_update_id :: u64
  dpe_final_update_id :: u64
  dpe_prev_final_update_id :: u64
  dpe_is_snapshot :: bool
  dpe_bid_count :: u8
  dpe_ask_count :: u8
  dpe_bids :: "price_level list"
  dpe_asks :: "price_level list"

record trade_event =
  tre_exchange_ts_ms :: u64
  tre_price :: double
  tre_qty :: double

record market_event =
  me_type :: event_type
  me_ingress_ts_ns :: u64
  me_book_ticker :: book_ticker_event
  me_depth :: depth_event
  me_trade :: trade_event

text \<open>The value-initialised event.\<close>

definition market_event0 :: market_event where
  "market_event0 =
     \<lparr>me_type = EvNone, me_ingress_ts_ns = 0,
      me_book_ticker = \<lparr>bte_exchange_ts_ms = 0, bte_best_bid_price = 0, bte_best_bid_qty = 0,
        bte_best_ask_price = 0, bte_best_ask_qty = 0\<rparr>,
      me_depth = \<lparr>dpe_exchange_ts_ms = 0, dpe_first_update_id = 0, dpe_final_update_id = 0,
        dpe_prev_final_update_id = 0, dpe_is_snapshot = False, dpe_bid_count = 0, dpe_ask_count = 0,
        dpe_bids = replicate 20 level0, dpe_asks = replicate 20 level0\<rparr>,
      me_trade = \<lparr>tre_exchange_ts_ms = 0, tre_price = 0, tre_qty = 0\<rparr>\<rparr>"

record depth_snapshot =
  ds_last_update_id :: u64
  ds_bids :: "price_level list"
  ds_asks :: "price_level list"
  ds_bid_count :: nat
  ds_ask_count :: nat


section \<open>Schema tables\<close>

record market_snapshot =
  ms_timestamp_ns :: u64
  ms_exchange_ts_ms :: u64
  ms_best_bid :: double
  ms_best_ask :: double
  ms_mid_price :: double
  ms_spread_bps :: double
  ms_bid_depth_5 :: double
  ms_ask_depth_5 :: double
  ms_last_trade_price :: double
  ms_last_trade_qty :: double
  ms_volatility :: double

record quote_update =
  qu_bid_price :: double
  qu_ask_price :: double
  qu_qty :: double
  qu_timestamp_ns :: u64
  qu_inventory :: double
  qu_skew_bps :: double

record fill_event =
  fe_order_id :: string
  fe_symbol :: string
  fe_side :: int
  fe_price :: double
  fe_qty :: double
  fe_fee :: double
  fe_fee_asset :: string
  fe_timestamp_ns :: u64

record risk_event =
  re_event_type :: string
  re_trigger :: string
  re_detail :: string
  re_timestamp_ns :: u64


section \<open>Messages\<close>

text \<open>\<open>SnapshotMsg\<close>, \<open>QuoteMsg\<close>, \<open>RiskEventMsg\<close> and \<open>FillMsg\<close> have the same shape.\<close>

record byte_msg =
  mg_size :: u16
  mg_bytes :: "u8 list"

definition byte_msg0 :: byte_msg where
  "byte_msg0 = \<lparr>mg_size = 0, mg_bytes = replicate 512 0\<rparr>"

text \<open>
  The encoder side: \<open>if (sz <= msg.bytes.size()) { msg.size = sz; memcpy(...); }\<close>.
\<close>

definition fill_msg :: "u8 list \<Rightarrow> byte_msg option" where
  "fill_msg bs =
     (if length bs \<le> 512
      then Some \<lparr>mg_size = of_nat (length bs), mg_bytes = bs @ replicate (512 - length bs) 0\<rparr>
      else None)"

text \<open>
  The decoder side: \<open>msg.size == 0 || msg.size > msg.bytes.size()\<close> rejects, otherwise the verifier
  sees the first \<open>size\<close> bytes.  A decoder returns \<open>None\<close> where the FlatBuffers verifier fails.
\<close>

definition read_msg :: "(u8 list \<Rightarrow> 'm option) \<Rightarrow> byte_msg \<Rightarrow> 'm option" where
  "read_msg dec m =
     (if mg_size m = 0 \<or> 512 < unat (mg_size m) then None
      else dec (take (unat (mg_size m)) (mg_bytes m)))"

text \<open>
  The round trip the engine relies on, message by message (no byte codec can be injective on all of
  the model's real numbers).
\<close>

definition codec_at :: "('m \<Rightarrow> u8 list) \<Rightarrow> (u8 list \<Rightarrow> 'm option) \<Rightarrow> 'm \<Rightarrow> bool" where
  "codec_at enc dec m \<longleftrightarrow> dec (enc m) = Some m \<and> enc m \<noteq> []"

lemma fill_msg_Some:
  assumes "fill_msg bs = Some m"
  shows "mg_size m = of_nat (length bs)" "unat (mg_size m) = length bs" "length (mg_bytes m) = 512"
    "take (length bs) (mg_bytes m) = bs"
proof -
  have len: "length bs \<le> 512"
    using assms by (simp add: fill_msg_def split: if_splits)
  have m: "m = \<lparr>mg_size = of_nat (length bs), mg_bytes = bs @ replicate (512 - length bs) 0\<rparr>"
    using assms len by (simp add: fill_msg_def)
  show "mg_size m = of_nat (length bs)" "length (mg_bytes m) = 512"
    "take (length bs) (mg_bytes m) = bs"
    using len by (simp_all add: m)
  show "unat (mg_size m) = length bs"
    using len by (simp add: m unat_of_nat)
qed

lemma read_fill_msg:
  assumes "codec_at enc dec x" and "fill_msg (enc x) = Some m"
  shows "read_msg dec m = Some x"
proof -
  have "length (enc x) \<le> 512" "enc x \<noteq> []" "dec (enc x) = Some x"
    using assms by (auto simp: fill_msg_def codec_at_def split: if_splits)
  moreover have "mg_size m \<noteq> 0"
    using fill_msg_Some(2) [OF assms(2)] \<open>enc x \<noteq> []\<close> by auto
  ultimately show ?thesis
    using fill_msg_Some [OF assms(2)] by (simp add: read_msg_def)
qed

end
