(* ===== verification/OrderBook.thy ===== *)
theory OrderBook
  imports MarketData
begin

text \<open>
  \<open>OrderBook\<close> of \<open>src/src/market_data/orderbook.hpp\<close> and \<open>orderbook.cpp\<close>: the two 20-level arrays,
  full snapshots, partial updates with gap detection, and the accessors.
\<close>

section \<open>State and operations\<close>

record order_book =
  ob_bids :: "price_level list"
  ob_asks :: "price_level list"
  ob_bid_count :: nat
  ob_ask_count :: nat
  ob_last_update_id :: u64
  ob_initialized :: bool
  ob_needs_resync :: bool

definition kMaxLevels :: nat where
  "kMaxLevels = 20"

definition book_init :: order_book where
  "book_init = \<lparr>ob_bids = replicate kMaxLevels level0, ob_asks = replicate kMaxLevels level0,
     ob_bid_count = 0, ob_ask_count = 0, ob_last_update_id = 0, ob_initialized = False,
     ob_needs_resync = True\<rparr>"

definition sort_bids :: "nat \<Rightarrow> price_level list \<Rightarrow> price_level list" where
  "sort_bids n ls = sort_prefix n (\<lambda>l. - pl_price l) ls"

definition sort_asks :: "nat \<Rightarrow> price_level list \<Rightarrow> price_level list" where
  "sort_asks n ls = sort_prefix n pl_price ls"

definition apply_snapshot ::
  "price_level list \<Rightarrow> nat \<Rightarrow> price_level list \<Rightarrow> nat \<Rightarrow> u64 \<Rightarrow> order_book \<Rightarrow> order_book" where
  "apply_snapshot bids bid_count asks ask_count last_update_id b =
     (let nb = min bid_count kMaxLevels;
          na = min ask_count kMaxLevels
      in b\<lparr>ob_bids := sort_bids nb bids,
           ob_asks := sort_asks na asks,
           ob_bid_count := nb,
           ob_ask_count := na,
           ob_last_update_id := last_update_id,
           ob_initialized := True,
           ob_needs_resync := False\<rparr>)"

text \<open>\<open>for (i = 0; i < n; ++i) dst[i] = src[i];\<close>\<close>

definition copy_levels :: "nat \<Rightarrow> price_level list \<Rightarrow> price_level list \<Rightarrow> price_level list" where
  "copy_levels n src dst = foldl (\<lambda>a i. a[i := src ! i]) dst [0..<n]"

definition apply_partial_update :: "depth_event \<Rightarrow> order_book \<Rightarrow> bool \<times> order_book" where
  "apply_partial_update ev bk =
     (if ob_initialized bk \<and> dpe_prev_final_update_id ev \<noteq> ob_last_update_id bk
      then (False, bk\<lparr>ob_needs_resync := True\<rparr>)
      else
        let b = min (unat (dpe_bid_count ev)) kMaxLevels;
            a = min (unat (dpe_ask_count ev)) kMaxLevels;
            bids = copy_levels b (dpe_bids ev) (ob_bids bk);
            asks = copy_levels a (dpe_asks ev) (ob_asks bk)
        in (True,
            bk\<lparr>ob_bids := sort_bids b bids,
               ob_asks := sort_asks a asks,
               ob_bid_count := b,
               ob_ask_count := a,
               ob_last_update_id := dpe_final_update_id ev,
               ob_initialized := True\<rparr>))"

definition has_data :: "order_book \<Rightarrow> bool" where
  "has_data b \<longleftrightarrow> 0 < ob_bid_count b \<and> 0 < ob_ask_count b"

definition best_bid :: "order_book \<Rightarrow> double" where
  "best_bid b = (if 0 < ob_bid_count b then pl_price (ob_bids b ! 0) else 0)"

definition best_ask :: "order_book \<Rightarrow> double" where
  "best_ask b = (if 0 < ob_ask_count b then pl_price (ob_asks b ! 0) else 0)"

definition book_mid :: "order_book \<Rightarrow> double" where
  "book_mid b =
     (if ob_bid_count b = 0 \<or> ob_ask_count b = 0 then 0
      else (pl_price (ob_bids b ! 0) + pl_price (ob_asks b ! 0)) * (1 / 2))"

definition spread_bps :: "order_book \<Rightarrow> double" where
  "spread_bps b =
     (let m = book_mid b in
      if m \<le> 0 then 0
      else (pl_price (ob_asks b ! 0) - pl_price (ob_bids b ! 0)) / m * 10000)"

definition depth_sum :: "bool \<Rightarrow> nat \<Rightarrow> order_book \<Rightarrow> double" where
  "depth_sum bid_side levels b =
     (let arr = (if bid_side then ob_bids b else ob_asks b);
          n = min levels (if bid_side then ob_bid_count b else ob_ask_count b)
      in foldl (\<lambda>sum i. sum + pl_qty (arr ! i)) 0 [0..<n])"

definition mark_resync :: "order_book \<Rightarrow> order_book" where
  "mark_resync b = b\<lparr>ob_needs_resync := True\<rparr>"

definition clear_resync :: "order_book \<Rightarrow> order_book" where
  "clear_resync b = b\<lparr>ob_needs_resync := False\<rparr>"


section \<open>The live levels\<close>

definition live_bids :: "order_book \<Rightarrow> price_level list" where
  "live_bids b = take (ob_bid_count b) (ob_bids b)"

definition live_asks :: "order_book \<Rightarrow> price_level list" where
  "live_asks b = take (ob_ask_count b) (ob_asks b)"

definition book_ok :: "order_book \<Rightarrow> bool" where
  "book_ok b \<longleftrightarrow>
     length (ob_bids b) = kMaxLevels \<and> length (ob_asks b) = kMaxLevels \<and>
     ob_bid_count b \<le> kMaxLevels \<and> ob_ask_count b \<le> kMaxLevels \<and>
     sorted (map (\<lambda>l. - pl_price l) (live_bids b)) \<and> sorted (map pl_price (live_asks b))"

text \<open>The arrays of a depth event, and of a REST snapshot, are 20 levels long.\<close>

definition depth_shape :: "depth_event \<Rightarrow> bool" where
  "depth_shape ev \<longleftrightarrow> length (dpe_bids ev) = kMaxLevels \<and> length (dpe_asks ev) = kMaxLevels"

definition snapshot_shape :: "depth_snapshot \<Rightarrow> bool" where
  "snapshot_shape s \<longleftrightarrow> length (ds_bids s) = kMaxLevels \<and> length (ds_asks s) = kMaxLevels"

lemma length_copy_levels [simp]: "length (copy_levels n src dst) = length dst"
  unfolding copy_levels_def by (induction n) simp_all

lemma copy_levels_take:
  assumes "n \<le> length dst" and "n \<le> length src"
  shows "copy_levels n src dst = take n src @ drop n dst"
  using assms
proof (induction n)
  case 0
  then show ?case
    by (simp add: copy_levels_def)
next
  case (Suc n)
  have "copy_levels (Suc n) src dst = (copy_levels n src dst)[n := src ! n]"
    by (simp add: copy_levels_def)
  also have "\<dots> = (take n src @ drop n dst)[n := src ! n]"
    using Suc by simp
  also have "\<dots> = take n src @ (drop n dst)[0 := src ! n]"
    using Suc.prems by (simp add: list_update_append)
  also have "drop n dst = dst ! n # drop (Suc n) dst"
    using Suc.prems by (simp add: Cons_nth_drop_Suc)
  finally show ?case
    using Suc.prems by (simp add: take_Suc_conv_app_nth)
qed

lemma book_ok_init [simp]: "book_ok book_init"
  by (simp add: book_ok_def book_init_def live_bids_def live_asks_def kMaxLevels_def)

lemma book_ok_resync [simp]:
  "book_ok (b\<lparr>ob_needs_resync := v\<rparr>) = book_ok b"
  by (simp add: book_ok_def live_bids_def live_asks_def)

lemma take_sort_side:
  assumes "length ls = kMaxLevels"
  shows "take (min n kMaxLevels) (sort_bids (min n kMaxLevels) ls) = sort_key (\<lambda>l. - pl_price l) (take n ls)"
    and "take (min n kMaxLevels) (sort_asks (min n kMaxLevels) ls) = sort_key pl_price (take n ls)"
proof -
  have "min n kMaxLevels \<le> length ls" "take (min n kMaxLevels) ls = take n ls"
    using assms by (auto simp: min_def)
  then show "take (min n kMaxLevels) (sort_bids (min n kMaxLevels) ls) = sort_key (\<lambda>l. - pl_price l) (take n ls)"
    "take (min n kMaxLevels) (sort_asks (min n kMaxLevels) ls) = sort_key pl_price (take n ls)"
    unfolding sort_bids_def sort_asks_def by (simp_all only: take_sort_prefix)
qed

lemma length_sort_side [simp]:
  "length (sort_bids n ls) = length ls" "length (sort_asks n ls) = length ls"
  by (simp_all add: sort_bids_def sort_asks_def)

lemma live_snapshot:
  assumes "length bids = kMaxLevels" and "length asks = kMaxLevels"
  shows "live_bids (apply_snapshot bids n asks m i b) = sort_key (\<lambda>l. - pl_price l) (take n bids)"
    and "live_asks (apply_snapshot bids n asks m i b) = sort_key pl_price (take m asks)"
  using assms
  by (simp_all add: apply_snapshot_def Let_def live_bids_def live_asks_def take_sort_side)

lemma book_ok_apply_snapshot:
  assumes "length bids = kMaxLevels" and "length asks = kMaxLevels"
  shows "book_ok (apply_snapshot bids n asks m i b)"
  using assms unfolding book_ok_def live_snapshot [OF assms]
  by (simp add: apply_snapshot_def Let_def)

lemma live_partial_update:
  assumes "book_ok b" and "depth_shape ev" and "apply_partial_update ev b = (True, b')"
  shows "live_bids b' = sort_key (\<lambda>l. - pl_price l) (take (unat (dpe_bid_count ev)) (dpe_bids ev))"
    and "live_asks b' = sort_key pl_price (take (unat (dpe_ask_count ev)) (dpe_asks ev))"
proof -
  let ?nb = "min (unat (dpe_bid_count ev)) kMaxLevels" and ?na = "min (unat (dpe_ask_count ev)) kMaxLevels"
  let ?bids = "copy_levels ?nb (dpe_bids ev) (ob_bids b)" and ?asks = "copy_levels ?na (dpe_asks ev) (ob_asks b)"
  have len: "length ?bids = kMaxLevels" "length ?asks = kMaxLevels"
    using assms(1) by (simp_all add: book_ok_def)
  have fields: "ob_bids b' = sort_bids ?nb ?bids" "ob_asks b' = sort_asks ?na ?asks"
    "ob_bid_count b' = ?nb" "ob_ask_count b' = ?na"
    using assms(3) by (auto simp: apply_partial_update_def Let_def split: if_splits)
  have "take (unat (dpe_bid_count ev)) ?bids = take (unat (dpe_bid_count ev)) (dpe_bids ev)"
    "take (unat (dpe_ask_count ev)) ?asks = take (unat (dpe_ask_count ev)) (dpe_asks ev)"
    using assms(1,2) by (auto simp: copy_levels_take book_ok_def depth_shape_def min_def)
  then show "live_bids b' = sort_key (\<lambda>l. - pl_price l) (take (unat (dpe_bid_count ev)) (dpe_bids ev))"
    "live_asks b' = sort_key pl_price (take (unat (dpe_ask_count ev)) (dpe_asks ev))"
    unfolding live_bids_def live_asks_def fields take_sort_side [OF len(1)] take_sort_side [OF len(2)]
    by simp_all
qed

lemma book_ok_apply_partial_update:
  assumes "book_ok b" and "depth_shape ev"
  shows "book_ok (snd (apply_partial_update ev b))"
proof (cases "fst (apply_partial_update ev b)")
  case True
  then obtain b' where b': "apply_partial_update ev b = (True, b')"
    by (cases "apply_partial_update ev b") auto
  have "length (ob_bids b') = kMaxLevels" "length (ob_asks b') = kMaxLevels"
    "ob_bid_count b' \<le> kMaxLevels" "ob_ask_count b' \<le> kMaxLevels"
    using assms b'
    by (auto simp: apply_partial_update_def Let_def book_ok_def split: if_splits)
  with live_partial_update [OF assms b'] show ?thesis
    by (simp add: book_ok_def b')
next
  case False
  then have "snd (apply_partial_update ev b) = b\<lparr>ob_needs_resync := True\<rparr>"
    by (auto simp: apply_partial_update_def Let_def split: if_splits)
  with assms show ?thesis
    by simp
qed

text \<open>The first entry of each side is the best price.\<close>

lemma best_bid_max:
  assumes "book_ok b" and "l \<in> set (live_bids b)"
  shows "pl_price l \<le> best_bid b"
proof -
  have live: "live_bids b \<noteq> []"
    using assms by auto
  then have "0 < ob_bid_count b" "ob_bids b \<noteq> []"
    by (auto simp: live_bids_def)
  then have "best_bid b = pl_price (hd (live_bids b))"
    by (simp add: best_bid_def live_bids_def hd_conv_nth)
  moreover have "sorted (map (\<lambda>l. - pl_price l) (live_bids b))"
    using assms by (simp add: book_ok_def)
  with assms(2) live have "- pl_price (hd (live_bids b)) \<le> - pl_price l"
    by (cases "live_bids b") auto
  ultimately show ?thesis
    by simp
qed

lemma best_ask_min:
  assumes "book_ok b" and "l \<in> set (live_asks b)"
  shows "best_ask b \<le> pl_price l"
proof -
  have live: "live_asks b \<noteq> []"
    using assms by auto
  then have "0 < ob_ask_count b" "ob_asks b \<noteq> []"
    by (auto simp: live_asks_def)
  then have "best_ask b = pl_price (hd (live_asks b))"
    by (simp add: best_ask_def live_asks_def hd_conv_nth)
  moreover have "sorted (map pl_price (live_asks b))"
    using assms by (simp add: book_ok_def)
  with assms(2) live have "pl_price (hd (live_asks b)) \<le> pl_price l"
    by (cases "live_asks b") auto
  ultimately show ?thesis
    by simp
qed

lemma best_bid_live: "book_ok b \<Longrightarrow> has_data b \<Longrightarrow> best_bid b \<in> pl_price ` set (live_bids b)"
  by (auto simp: has_data_def best_bid_def live_bids_def book_ok_def kMaxLevels_def in_set_conv_nth
      intro!: image_eqI [of _ _ "ob_bids b ! 0"] exI [of _ 0])

lemma best_ask_live: "book_ok b \<Longrightarrow> has_data b \<Longrightarrow> best_ask b \<in> pl_price ` set (live_asks b)"
  by (auto simp: has_data_def best_ask_def live_asks_def book_ok_def kMaxLevels_def in_set_conv_nth
      intro!: image_eqI [of _ _ "ob_asks b ! 0"] exI [of _ 0])

lemma depth_sum_live:
  assumes "book_ok b"
  shows "depth_sum True n b = (\<Sum>l\<leftarrow>take n (live_bids b). pl_qty l)"
    and "depth_sum False n b = (\<Sum>l\<leftarrow>take n (live_asks b). pl_qty l)"
proof -
  have sum: "foldl (\<lambda>sum i. sum + pl_qty (xs ! i)) 0 [0..<k] = (\<Sum>l\<leftarrow>take k xs. pl_qty l)"
    if "k \<le> length xs" for k and xs :: "price_level list"
    using that by (induction k) (simp_all add: take_Suc_conv_app_nth)
  show "depth_sum True n b = (\<Sum>l\<leftarrow>take n (live_bids b). pl_qty l)"
    "depth_sum False n b = (\<Sum>l\<leftarrow>take n (live_asks b). pl_qty l)"
    using sum [of "min n (ob_bid_count b)" "ob_bids b"] sum [of "min n (ob_ask_count b)" "ob_asks b"] assms
    by (simp_all add: depth_sum_def book_ok_def live_bids_def live_asks_def min.coboundedI2)
qed


section \<open>Histories of updates\<close>

text \<open>Everything the tick processor does to its book.\<close>

datatype book_op =
    BSnapshot "price_level list" nat "price_level list" nat u64
  | BPartial depth_event
  | BMark
  | BClear

fun book_apply :: "book_op \<Rightarrow> order_book \<Rightarrow> order_book" where
  "book_apply (BSnapshot bids n asks m i) b = apply_snapshot bids n asks m i b"
| "book_apply (BPartial ev) b = snd (apply_partial_update ev b)"
| "book_apply BMark b = mark_resync b"
| "book_apply BClear b = clear_resync b"

fun book_op_shape :: "book_op \<Rightarrow> bool" where
  "book_op_shape (BSnapshot bids n asks m i) \<longleftrightarrow> length bids = kMaxLevels \<and> length asks = kMaxLevels"
| "book_op_shape (BPartial ev) \<longleftrightarrow> depth_shape ev"
| "book_op_shape _ \<longleftrightarrow> True"

lemma book_apply_ok: "book_ok b \<Longrightarrow> book_op_shape op \<Longrightarrow> book_ok (book_apply op b)"
  by (cases op)
    (simp_all add: book_ok_apply_snapshot book_ok_apply_partial_update mark_resync_def clear_resync_def)

lemma book_run_ok: "book_ok b \<Longrightarrow> list_all book_op_shape ops \<Longrightarrow> book_ok (fold book_apply ops b)"
  by (induction ops arbitrary: b) (simp_all add: book_apply_ok)


section \<open>Properties\<close>

text \<open>C17: after any sequence of snapshots, partial updates and resync marks on a fresh book, both
  sides hold at most 20 levels inside the arrays, bids in descending and asks in ascending price
  order; and when both sides have data \<open>best_bid()\<close> is the highest live bid price and \<open>best_ask()\<close>
  the lowest live ask price.\<close>

theorem book_history_best:
  assumes "list_all book_op_shape ops"
  defines "b \<equiv> fold book_apply ops book_init"
  shows "book_ok b \<and>
    (if has_data b
     then best_bid b = Max (pl_price ` set (live_bids b)) \<and> best_ask b = Min (pl_price ` set (live_asks b))
     else book_mid b = 0 \<and> spread_bps b = 0)"
proof -
  have ok: "book_ok b"
    unfolding b_def using book_ok_init assms(1) by (rule book_run_ok)
  show ?thesis
  proof (cases "has_data b")
    case True
    have "Max (pl_price ` set (live_bids b)) = best_bid b"
      using best_bid_live [OF ok True] by (intro Max_eqI) (auto intro: best_bid_max [OF ok])
    moreover have "Min (pl_price ` set (live_asks b)) = best_ask b"
      using best_ask_live [OF ok True] by (intro Min_eqI) (auto intro: best_ask_min [OF ok])
    ultimately show ?thesis
      using ok True by simp
  next
    case False
    then show ?thesis
      using ok by (auto simp: has_data_def book_mid_def spread_bps_def)
  qed
qed

definition demo_levels :: "(double \<times> double) list \<Rightarrow> price_level list" where
  "demo_levels ps = map (\<lambda>(p, q). \<lparr>pl_price = p, pl_qty = q\<rparr>) ps @ replicate (20 - length ps) level0"

definition demo_depth :: "u64 \<Rightarrow> u64 \<Rightarrow> depth_event" where
  "demo_depth pu u = \<lparr>dpe_exchange_ts_ms = 5, dpe_first_update_id = u, dpe_final_update_id = u,
     dpe_prev_final_update_id = pu, dpe_is_snapshot = False, dpe_bid_count = 2, dpe_ask_count = 1,
     dpe_bids = demo_levels [(99, 1), (101, 2)], dpe_asks = demo_levels [(102, 4)]\<rparr>"

lemma length_demo_levels [simp]: "length ps \<le> 20 \<Longrightarrow> length (demo_levels ps) = kMaxLevels"
  by (simp add: demo_levels_def kMaxLevels_def)

lemma depth_shape_demo [simp]: "depth_shape (demo_depth pu u)"
  by (simp add: depth_shape_def demo_depth_def)

text \<open>The book those levels make, computed through the lemmas on the live levels.\<close>

lemma book_init_not_initialized [simp]: "\<not> ob_initialized book_init"
  by (simp add: book_init_def)

lemma demo_partial:
  assumes "book_ok b" and "ob_initialized b \<longrightarrow> pu = ob_last_update_id b"
  shows "\<exists>b'. apply_partial_update (demo_depth pu u) b = (True, b') \<and>
    live_bids b' = [\<lparr>pl_price = 101, pl_qty = 2\<rparr>, \<lparr>pl_price = 99, pl_qty = 1\<rparr>] \<and>
    live_asks b' = [\<lparr>pl_price = 102, pl_qty = 4\<rparr>] \<and> has_data b'"
proof -
  obtain b' where b': "apply_partial_update (demo_depth pu u) b = (True, b')"
    using assms(2) by (auto simp: apply_partial_update_def Let_def demo_depth_def)
  have u: "unat (dpe_bid_count (demo_depth pu u)) = 2" "unat (dpe_ask_count (demo_depth pu u)) = 1"
    "take 2 (dpe_bids (demo_depth pu u)) = [\<lparr>pl_price = 99, pl_qty = 1\<rparr>, \<lparr>pl_price = 101, pl_qty = 2\<rparr>]"
    "take 1 (dpe_asks (demo_depth pu u)) = [\<lparr>pl_price = 102, pl_qty = 4\<rparr>]"
    by (simp_all add: demo_depth_def demo_levels_def)
  have live: "live_bids b' = [\<lparr>pl_price = 101, pl_qty = 2\<rparr>, \<lparr>pl_price = 99, pl_qty = 1\<rparr>]"
    "live_asks b' = [\<lparr>pl_price = 102, pl_qty = 4\<rparr>]"
    using live_partial_update [OF assms(1) depth_shape_demo b'] unfolding u by simp_all
  then have "has_data b'"
    by (auto simp: has_data_def live_bids_def live_asks_def intro: gr0I)
  with b' live show ?thesis
    by blast
qed

theorem book_history_best_witness:
  "best_bid (fold book_apply [BPartial (demo_depth 0 7), BMark] book_init) = 101"
proof -
  obtain b' where b': "apply_partial_update (demo_depth 0 7) book_init = (True, b')"
    "live_bids b' = [\<lparr>pl_price = 101, pl_qty = 2\<rparr>, \<lparr>pl_price = 99, pl_qty = 1\<rparr>]" "has_data b'"
    using demo_partial [of book_init 0 7] by auto
  have shape: "list_all book_op_shape [BPartial (demo_depth 0 7), BMark]"
    by simp
  have "has_data (mark_resync b')" "live_bids (mark_resync b') = live_bids b'"
    using b'(3) by (simp_all add: has_data_def mark_resync_def live_bids_def)
  then show ?thesis
    using book_history_best [OF shape] b' by simp
qed

text \<open>A partial update is rejected exactly when the book is initialised and the event's previous
  final id is not the last one applied; the rejection changes nothing but \<open>needs_resync\<close>, which it
  sets.  An accepted update replaces the whole book by the event's levels (best price first), takes
  over its final id and leaves \<open>needs_resync\<close> alone.\<close>

theorem partial_update_gap:
  assumes "book_ok b" and "depth_shape ev"
  shows "case apply_partial_update ev b of
      (False, b') \<Rightarrow> ob_initialized b \<and> dpe_prev_final_update_id ev \<noteq> ob_last_update_id b \<and>
        b' = b\<lparr>ob_needs_resync := True\<rparr>
    | (True, b') \<Rightarrow> (\<not> ob_initialized b \<or> dpe_prev_final_update_id ev = ob_last_update_id b) \<and>
        live_bids b' = sort_key (\<lambda>l. - pl_price l) (take (unat (dpe_bid_count ev)) (dpe_bids ev)) \<and>
        live_asks b' = sort_key pl_price (take (unat (dpe_ask_count ev)) (dpe_asks ev)) \<and>
        ob_last_update_id b' = dpe_final_update_id ev \<and> ob_initialized b' \<and>
        ob_needs_resync b' = ob_needs_resync b"
proof (cases "apply_partial_update ev b")
  case (Pair r b')
  show ?thesis
  proof (cases r)
    case True
    with live_partial_update [OF assms] Pair show ?thesis
      by (auto simp: apply_partial_update_def Let_def split: if_splits)
  next
    case False
    with Pair show ?thesis
      by (auto simp: apply_partial_update_def Let_def split: if_splits)
  qed
qed

theorem partial_update_gap_witness:
  "ob_last_update_id (snd (apply_partial_update (demo_depth 0 7) book_init)) = 7
   \<and> snd (apply_partial_update (demo_depth 5 9) (snd (apply_partial_update (demo_depth 0 7) book_init)))
     = mark_resync (snd (apply_partial_update (demo_depth 0 7) book_init))"
proof -
  obtain b' where b': "apply_partial_update (demo_depth 0 7) book_init = (True, b')"
    using demo_partial [of book_init 0 7] by auto
  have ok: "book_ok b'"
    using book_ok_apply_partial_update [of book_init "demo_depth 0 7"] b' by simp
  have "dpe_final_update_id (demo_depth 0 7) = 7"
    by (simp add: demo_depth_def)
  then have i: "ob_last_update_id b' = 7" "ob_initialized b'"
    using partial_update_gap [OF book_ok_init depth_shape_demo [of 0 7]] b' by simp_all
  then have "fst (apply_partial_update (demo_depth 5 9) b') = False"
    by (simp add: apply_partial_update_def demo_depth_def)
  then show ?thesis
    using partial_update_gap [OF ok depth_shape_demo [of 5 9]] i b'
    by (auto simp: mark_resync_def split: prod.splits bool.splits)
qed

end
