(* ===== verification/Volatility.thy ===== *)
theory Volatility
  imports Prelude
begin

text \<open>
  \<open>TickVolatility\<close> of \<open>src/src/market_data/volatility.hpp\<close>: a rolling window of mid prices kept in a
  circular vector, and the standard deviation of its log returns recomputed after each push.
  A window of zero makes \<open>push_mid\<close> write past the end of an empty vector and divide by zero; that
  undefined behaviour is \<open>None\<close>.
\<close>

section \<open>State and operations\<close>

record tick_vol =
  tv_window :: nat
  tv_prices :: "double list"
  tv_idx :: nat
  tv_count :: nat
  tv_stdev :: double

definition vol_init :: "nat \<Rightarrow> tick_vol" where
  "vol_init window = \<lparr>tv_window = window, tv_prices = [], tv_idx = 0, tv_count = 0, tv_stdev = 0\<rparr>"

text \<open>The loop over the window: \<open>prev\<close> and the vector of returns.\<close>

definition window_returns :: "nat \<Rightarrow> double list \<Rightarrow> double list" where
  "window_returns start prices =
     snd (foldl (\<lambda>(prev, returns) k.
                   let p = prices ! ((start + k) mod length prices)
                   in (p, if 0 < prev \<and> 0 < p then returns @ [ln (p / prev)] else returns))
                (prices ! start, []) [1..<length prices])"

definition compute_stdev :: "tick_vol \<Rightarrow> double" where
  "compute_stdev v =
     (let n = length (tv_prices v) in
      if n < 2 then 0
      else
        let start = (if n < tv_window v then 0 else tv_idx v);
            returns = window_returns start (tv_prices v)
        in if returns = [] then 0
           else
             let mean = foldl (+) 0 returns / real (length returns);
                 sq = foldl (\<lambda>s r. s + (r - mean) * (r - mean)) 0 returns
             in sqrt (sq / real (length returns)))"

definition push_mid :: "double \<Rightarrow> tick_vol \<Rightarrow> tick_vol option" where
  "push_mid mid v =
     (if mid \<le> 0 then Some v
      else if length (tv_prices v) < tv_window v then
        let v = v\<lparr>tv_prices := tv_prices v @ [mid]\<rparr>;
            v = (if 2 \<le> length (tv_prices v) then v\<lparr>tv_count := tv_count v + 1\<rparr> else v)
        in Some (v\<lparr>tv_stdev := compute_stdev v\<rparr>)
      else if tv_idx v < length (tv_prices v) \<and> tv_window v \<noteq> 0 then
        let v = v\<lparr>tv_prices := (tv_prices v)[tv_idx v := mid]\<rparr>;
            v = v\<lparr>tv_idx := (tv_idx v + 1) mod tv_window v\<rparr>
        in Some (v\<lparr>tv_stdev := compute_stdev v\<rparr>)
      else None)"

definition stdev_log_returns :: "tick_vol \<Rightarrow> double" where
  "stdev_log_returns v = tv_stdev v"

fun vol_run :: "double list \<Rightarrow> tick_vol \<Rightarrow> tick_vol option" where
  "vol_run [] v = Some v"
| "vol_run (m # ms) v = Option.bind (push_mid m v) (vol_run ms)"


section \<open>Reference: the population standard deviation of the last returns\<close>

definition log_returns :: "double list \<Rightarrow> double list" where
  "log_returns ps = map2 (\<lambda>a b. ln (b / a)) ps (tl ps)"

definition pop_stdev :: "double list \<Rightarrow> double" where
  "pop_stdev rs =
     (let n = real (length rs); mean = sum_list rs / n
      in if rs = [] then 0 else sqrt ((\<Sum>r\<leftarrow>rs. (r - mean)\<^sup>2) / n))"

definition last_n :: "nat \<Rightarrow> 'a list \<Rightarrow> 'a list" where
  "last_n n xs = drop (length xs - n) xs"

text \<open>The window in the order its prices arrived.\<close>

definition chron :: "tick_vol \<Rightarrow> double list" where
  "chron v = rotate (tv_idx v) (tv_prices v)"

definition vol_ok :: "tick_vol \<Rightarrow> bool" where
  "vol_ok v \<longleftrightarrow> 0 < tv_window v \<and> length (tv_prices v) \<le> tv_window v \<and>
     (if length (tv_prices v) < tv_window v then tv_idx v = 0 else tv_idx v < tv_window v) \<and>
     (\<forall>p \<in> set (tv_prices v). 0 < p) \<and> tv_stdev v = pop_stdev (log_returns (chron v))"

lemma foldl_plus_sum_list: "foldl (+) a xs = a + sum_list (xs :: double list)"
  by (induction xs arbitrary: a) auto

lemma foldl_sq_sum_list:
  "foldl (\<lambda>s r. s + (r - m) * (r - m)) a xs = a + (\<Sum>r\<leftarrow>xs. (r - m)\<^sup>2)" for m :: real
  by (induction xs arbitrary: a) (auto simp: power2_eq_square)

lemma length_chron [simp]: "length (chron v) = length (tv_prices v)"
  by (simp add: chron_def)

text \<open>The loop visits the rotated list.\<close>

lemma log_returns_Cons: "log_returns (a # b # ps) = ln (b / a) # log_returns (b # ps)"
  by (simp add: log_returns_def)

lemma log_returns_snoc:
  "ps \<noteq> [] \<Longrightarrow> log_returns (ps @ [p]) = log_returns ps @ [ln (p / last ps)]"
proof (induction ps)
  case (Cons a ps)
  then show ?case
    by (cases ps) (simp_all add: log_returns_Cons log_returns_def)
qed simp

lemma window_loop:
  assumes "\<forall>p \<in> set ps. 0 < p" and "1 \<le> n" and "n \<le> length ps"
    and "\<And>k. k < length ps \<Longrightarrow> f k = ps ! k"
  shows "foldl (\<lambda>(prev, returns) k.
            let p = f k in (p, if 0 < prev \<and> 0 < p then returns @ [ln (p / prev)] else returns))
          (ps ! 0, []) [1..<n] = (ps ! (n - 1), log_returns (take n ps))"
  using assms(2,3)
proof (induction n rule: dec_induct)
  case base
  then show ?case
    by (cases ps) (simp_all add: log_returns_def)
next
  case (step n)
  have pos: "0 < ps ! (n - 1)" "0 < ps ! n"
    using assms(1) step by auto
  have ne: "take n ps \<noteq> []"
    using step by auto
  then have "take (Suc n) ps = take n ps @ [ps ! n]" "last (take n ps) = ps ! (n - 1)"
    using step by (auto simp: take_Suc_conv_app_nth last_conv_nth min_def)
  with ne have "take (Suc n) ps = take n ps @ [ps ! n]" "take n ps \<noteq> []"
    "last (take n ps) = ps ! (n - 1)"
    by blast+
  then have "log_returns (take (Suc n) ps) = log_returns (take n ps) @ [ln (ps ! n / ps ! (n - 1))]"
    by (simp add: log_returns_snoc)
  moreover have "[1..<Suc n] = [1..<n] @ [n]" "f n = ps ! n"
    using step assms(4) by auto
  ultimately show ?case
    using step pos by (simp add: Let_def)
qed

lemma window_returns_rotate:
  assumes "\<forall>p \<in> set prices. 0 < p" and "start < length prices"
  shows "window_returns start prices = log_returns (rotate start prices)"
proof -
  let ?ps = "rotate start prices"
  have "foldl (\<lambda>(prev, returns) k.
            let p = prices ! ((start + k) mod length prices)
            in (p, if 0 < prev \<and> 0 < p then returns @ [ln (p / prev)] else returns))
          (?ps ! 0, []) [1..<length ?ps] = (?ps ! (length ?ps - 1), log_returns (take (length ?ps) ?ps))"
    using assms by (intro window_loop) (auto simp: nth_rotate)
  moreover have "?ps ! 0 = prices ! start"
    using assms nth_rotate [of 0 prices start] by (cases prices) auto
  ultimately show ?thesis
    by (simp add: window_returns_def)
qed

lemma compute_stdev_chron:
  assumes "\<forall>p \<in> set (tv_prices v). 0 < p" and "length (tv_prices v) \<le> tv_window v"
    and "if length (tv_prices v) < tv_window v then tv_idx v = 0 else tv_idx v < tv_window v"
  shows "compute_stdev v = pop_stdev (log_returns (chron v))"
proof (cases "length (tv_prices v) < 2")
  case True
  then have "log_returns (chron v) = []"
    by (cases "chron v") (auto simp: log_returns_def simp flip: length_chron)
  with True show ?thesis
    by (simp add: compute_stdev_def pop_stdev_def)
next
  case False
  define start where "start = (if length (tv_prices v) < tv_window v then 0 else tv_idx v)"
  have "start < length (tv_prices v)" "start = tv_idx v"
    using False assms(2,3) by (auto simp: start_def split: if_splits)
  with assms(1) have "window_returns start (tv_prices v) = log_returns (chron v)"
    by (simp add: window_returns_rotate chron_def)
  with False show ?thesis
    by (simp add: compute_stdev_def start_def pop_stdev_def Let_def foldl_plus_sum_list
        foldl_sq_sum_list)
qed

text \<open>Overwriting the oldest price and advancing the index drops it and appends the new one.\<close>

lemma rotate_overwrite:
  assumes "i < length xs"
  shows "rotate (Suc i mod length xs) (xs[i := x]) = tl (rotate i xs) @ [x]"
proof -
  have "rotate i xs = drop i xs @ take i xs"
    using assms by (simp add: rotate_drop_take)
  moreover have "drop i xs = xs ! i # drop (Suc i) xs"
    using assms by (simp add: Cons_nth_drop_Suc)
  ultimately have tl: "tl (rotate i xs) = drop (Suc i) xs @ take i xs"
    by simp
  have "xs[i := x] = take i xs @ x # drop (Suc i) xs"
    using assms by (rule upd_conv_take_nth_drop)
  then have "rotate (Suc i) (xs[i := x]) = drop (Suc i) xs @ take i xs @ [x]"
    using assms by (cases "Suc i = length xs") (simp_all add: rotate_drop_take)
  then show ?thesis
    using tl by (metis append_assoc length_list_update rotate_conv_mod)
qed

lemma last_n_snoc:
  "last_n w (xs @ [x]) = (if length xs < w then xs @ [x] else if w = 0 then [] else tl (last_n w xs) @ [x])"
  by (auto simp: last_n_def Suc_diff_le drop_Suc tl_drop)

lemma push_mid_pos:
  assumes "vol_ok v" and "0 < m"
  obtains v' where "push_mid m v = Some v'" "vol_ok v'" "tv_window v' = tv_window v"
    "chron v' = (if length (chron v) < tv_window v then chron v else tl (chron v)) @ [m]"
proof (cases "length (tv_prices v) < tv_window v")
  case True
  define u where "u = v\<lparr>tv_prices := tv_prices v @ [m],
    tv_count := (if 1 \<le> length (tv_prices v) then tv_count v + 1 else tv_count v)\<rparr>"
  define v' where "v' = u\<lparr>tv_stdev := compute_stdev u\<rparr>"
  have push: "push_mid m v = Some v'"
    using True assms(2) by (simp add: push_mid_def Let_def u_def v'_def)
  have u: "\<forall>p \<in> set (tv_prices u). 0 < p" "length (tv_prices u) \<le> tv_window u"
    "if length (tv_prices u) < tv_window u then tv_idx u = 0 else tv_idx u < tv_window u"
    using assms True by (auto simp: u_def vol_ok_def)
  have c: "chron v' = chron u" "chron u = chron v @ [m]"
    using assms(1) True by (simp_all add: v'_def u_def chron_def vol_ok_def)
  have "vol_ok v'"
    using u assms(1) compute_stdev_chron [OF u] c(1) by (auto simp: vol_ok_def v'_def u_def)
  with push c True that show ?thesis
    by (simp add: v'_def u_def)
next
  case False
  then have len: "length (tv_prices v) = tv_window v" "tv_idx v < length (tv_prices v)" "0 < tv_window v"
    using assms(1) by (auto simp: vol_ok_def split: if_splits)
  define u where "u = v\<lparr>tv_prices := (tv_prices v)[tv_idx v := m],
    tv_idx := (tv_idx v + 1) mod tv_window v\<rparr>"
  define v' where "v' = u\<lparr>tv_stdev := compute_stdev u\<rparr>"
  have push: "push_mid m v = Some v'"
    using len assms(2) by (simp add: push_mid_def Let_def u_def v'_def)
  have u: "\<forall>p \<in> set (tv_prices u). 0 < p" "length (tv_prices u) \<le> tv_window u"
    "if length (tv_prices u) < tv_window u then tv_idx u = 0 else tv_idx u < tv_window u"
    using assms len by (auto simp: u_def vol_ok_def dest!: set_update_subset_insert [THEN subsetD])
  have c: "chron v' = chron u" "chron u = tl (chron v) @ [m]"
    using rotate_overwrite [OF len(2), of m] len(1) by (simp_all add: v'_def u_def chron_def)
  have "vol_ok v'"
    using u assms(1) compute_stdev_chron [OF u] c(1) by (auto simp: vol_ok_def v'_def u_def)
  with push c len that show ?thesis
    by (simp add: v'_def u_def)
qed

lemma vol_run_ok:
  assumes "vol_ok v" and "chron v = last_n (tv_window v) seen"
  shows "\<exists>v'. vol_run ms v = Some v' \<and> vol_ok v' \<and>
    chron v' = last_n (tv_window v) (seen @ filter (\<lambda>m. 0 < m) ms)"
  using assms
proof (induction ms arbitrary: v seen)
  case Nil
  then show ?case by simp
next
  case (Cons m ms)
  show ?case
  proof (cases "0 < m")
    case True
    obtain v1 where v1: "push_mid m v = Some v1" "vol_ok v1" "tv_window v1 = tv_window v"
      "chron v1 = (if length (chron v) < tv_window v then chron v else tl (chron v)) @ [m]"
      using push_mid_pos [OF Cons.prems(1) True] by blast
    have "0 < tv_window v"
      using Cons.prems(1) by (simp add: vol_ok_def)
    then have "chron v1 = last_n (tv_window v1) (seen @ [m])"
      using v1 Cons.prems(2) by (auto simp: last_n_snoc) (simp_all add: last_n_def)
    from Cons.IH [OF v1(2) this] v1 True show ?thesis
      by simp
  next
    case False
    then show ?thesis
      using Cons.IH [OF Cons.prems] by (simp add: push_mid_def)
  qed
qed

lemma vol_ok_init: "0 < w \<Longrightarrow> vol_ok (vol_init w)"
  by (simp add: vol_ok_def vol_init_def chron_def log_returns_def pop_stdev_def)

lemma vol_run_zero:
  "vol_run ms (vol_init 0) = (if list_ex (\<lambda>m. 0 < m) ms then None else Some (vol_init 0))"
  by (induction ms) (auto simp: push_mid_def vol_init_def not_less)


section \<open>Properties\<close>

text \<open>C18: after any sequence of mids the published volatility is the population standard deviation
  of the log returns of the last \<open>window\<close> positive mids, in arrival order, zero when there are fewer
  than two; and the only run that fails is a window of zero that is given a positive mid.\<close>

theorem volatility_window:
  "map_option stdev_log_returns (vol_run ms (vol_init w)) =
     (if w = 0 \<and> list_ex (\<lambda>m. 0 < m) ms then None
      else Some (pop_stdev (log_returns (last_n w (filter (\<lambda>m. 0 < m) ms)))))"
proof (cases "w = 0")
  case True
  have "\<not> list_ex (\<lambda>m. 0 < m) ms \<Longrightarrow> filter (\<lambda>m. 0 < m) ms = []"
    by (auto simp: list_ex_iff filter_empty_conv)
  then show ?thesis
    using True vol_run_zero [of ms]
    by (auto simp: stdev_log_returns_def last_n_def log_returns_def pop_stdev_def)
      (simp add: vol_init_def)
next
  case False
  then have ok: "vol_ok (vol_init w)" and "chron (vol_init w) = last_n (tv_window (vol_init w)) []"
    by (simp_all add: vol_ok_init) (simp add: chron_def vol_init_def last_n_def)
  from vol_run_ok [OF this, of ms] False show ?thesis
    by (auto simp: vol_ok_def stdev_log_returns_def vol_init_def)
qed

end
