(* ===== verification/TickProcessor.thy ===== *)
theory TickProcessor
  imports OrderBook Volatility
begin

text \<open>
  \<open>TickProcessor\<close> of \<open>src/src/market_data/tick_processor.hpp\<close> and \<open>.cpp\<close>: one market event updates
  the book, the volatility window or the last trade, and a snapshot of the result goes to the
  strategy ring and, while recording, to the recorder ring.  \<open>fetch_depth_snapshot\<close> is a network
  call: the answer an event gets if it asks is an argument.  The FlatBuffers encoder is \<open>enc\<close>.
\<close>

section \<open>State\<close>

record tick_proc =
  tk_book :: order_book
  tk_vol :: tick_vol
  tk_last_trade_price :: double
  tk_last_trade_qty :: double
  tk_snap_ring :: "byte_msg ring option"
  tk_record_ring :: "byte_msg ring option"
  tk_clock :: clock

definition tick_init ::
  "config \<Rightarrow> byte_msg ring option \<Rightarrow> byte_msg ring option \<Rightarrow> clock \<Rightarrow> tick_proc" where
  "tick_init cfg snap_ring record_ring ck =
     \<lparr>tk_book = book_init, tk_vol = vol_init (nat (md_volatility_window (c_market_data cfg))),
      tk_last_trade_price = 0, tk_last_trade_qty = 0,
      tk_snap_ring = snap_ring, tk_record_ring = record_ring, tk_clock = ck\<rparr>"


section \<open>Operations\<close>

definition mono_ns :: "clock \<Rightarrow> u64" where
  "mono_ns c = word_of_int (steady_now c)"

definition make_snapshot :: "u64 \<Rightarrow> tick_proc \<Rightarrow> market_snapshot" where
  "make_snapshot exchange_ts_ms t =
     \<lparr>ms_timestamp_ns = mono_ns (tk_clock t),
      ms_exchange_ts_ms = exchange_ts_ms,
      ms_best_bid = best_bid (tk_book t),
      ms_best_ask = best_ask (tk_book t),
      ms_mid_price = book_mid (tk_book t),
      ms_spread_bps = spread_bps (tk_book t),
      ms_bid_depth_5 = depth_sum True 5 (tk_book t),
      ms_ask_depth_5 = depth_sum False 5 (tk_book t),
      ms_last_trade_price = tk_last_trade_price t,
      ms_last_trade_qty = tk_last_trade_qty t,
      ms_volatility = stdev_log_returns (tk_vol t)\<rparr>"

definition emit_snapshot ::
  "(market_snapshot \<Rightarrow> u8 list) \<Rightarrow> u64 \<Rightarrow> tick_proc \<Rightarrow> tick_proc" where
  "emit_snapshot enc exchange_ts_ms t =
     (if \<not> has_data (tk_book t) then t
      else
        let bs = enc (make_snapshot exchange_ts_ms t);
            t = t\<lparr>tk_clock := clock_tick (tk_clock t)\<rparr>
        in if tk_snap_ring t = None then t
           else case fill_msg bs of
               None \<Rightarrow> t
             | Some msg \<Rightarrow>
                 t\<lparr>tk_snap_ring := push_or_warn msg (tk_snap_ring t),
                   tk_record_ring := push_or_warn msg (tk_record_ring t)\<rparr>)"

definition apply_book_ticker :: "book_ticker_event \<Rightarrow> order_book \<Rightarrow> order_book" where
  "apply_book_ticker ev b =
     (let bids = (replicate kMaxLevels level0)
            [0 := \<lparr>pl_price = bte_best_bid_price ev, pl_qty = bte_best_bid_qty ev\<rparr>];
          asks = (replicate kMaxLevels level0)
            [0 := \<lparr>pl_price = bte_best_ask_price ev, pl_qty = bte_best_ask_qty ev\<rparr>]
      in if has_data b then b else mark_resync (apply_snapshot bids 1 asks 1 0 b))"

definition apply_depth :: "depth_snapshot option \<Rightarrow> depth_event \<Rightarrow> order_book \<Rightarrow> order_book" where
  "apply_depth fetch ev b =
     (let from_event = apply_snapshot (dpe_bids ev) (unat (dpe_bid_count ev))
            (dpe_asks ev) (unat (dpe_ask_count ev)) (dpe_final_update_id ev)
      in if dpe_is_snapshot ev then from_event b
         else if \<not> has_data b \<or> ob_needs_resync b then
           (case fetch of
              Some snap \<Rightarrow> apply_snapshot (ds_bids snap) (ds_bid_count snap)
                (ds_asks snap) (ds_ask_count snap) (ds_last_update_id snap) b
            | None \<Rightarrow> from_event b)
         else snd (apply_partial_update ev b))"

definition process_event ::
  "(market_snapshot \<Rightarrow> u8 list) \<Rightarrow> depth_snapshot option \<Rightarrow> market_event \<Rightarrow> tick_proc
     \<Rightarrow> tick_proc option" where
  "process_event enc fetch ev t =
     (case me_type ev of
        EvBookTicker \<Rightarrow>
          let t = t\<lparr>tk_book := apply_book_ticker (me_book_ticker ev) (tk_book t)\<rparr>
          in Some (emit_snapshot enc (bte_exchange_ts_ms (me_book_ticker ev)) t)
      | EvDepth \<Rightarrow>
          let t = t\<lparr>tk_book := apply_depth fetch (me_depth ev) (tk_book t)\<rparr>;
              mid = book_mid (tk_book t)
          in case (if 0 < mid then push_mid mid (tk_vol t) else Some (tk_vol t)) of
               None \<Rightarrow> None
             | Some v \<Rightarrow>
                 Some (emit_snapshot enc (dpe_exchange_ts_ms (me_depth ev)) (t\<lparr>tk_vol := v\<rparr>))
      | EvTrade \<Rightarrow>
          let t = t\<lparr>tk_last_trade_price := tre_price (me_trade ev),
                    tk_last_trade_qty := tre_qty (me_trade ev)\<rparr>
          in Some (emit_snapshot enc (tre_exchange_ts_ms (me_trade ev)) t)
      | EvNone \<Rightarrow> Some t)"

text \<open>The events one after the other, the \<open>i\<close>-th with the \<open>i\<close>-th answer of the REST endpoint.\<close>

fun process_events ::
  "(market_snapshot \<Rightarrow> u8 list) \<Rightarrow> (nat \<Rightarrow> depth_snapshot option) \<Rightarrow> market_event list \<Rightarrow> tick_proc
     \<Rightarrow> tick_proc option" where
  "process_events enc fetch [] t = Some t"
| "process_events enc fetch (ev # evs) t =
     Option.bind (process_event enc (fetch 0) ev t) (process_events enc (fetch \<circ> Suc) evs)"

text \<open>The end of \<open>run_loop\<close>, once \<open>running_\<close> is false: \<open>while (ring_.pop(ev)) process_event(ev);\<close>\<close>

definition run_loop_drain ::
  "(market_snapshot \<Rightarrow> u8 list) \<Rightarrow> (nat \<Rightarrow> depth_snapshot option) \<Rightarrow> market_event ring \<Rightarrow> tick_proc
     \<Rightarrow> (tick_proc \<times> market_event ring) option" where
  "run_loop_drain enc fetch ring t =
     Option.bind (drain ring_pop ring) (\<lambda>(evs, ring').
       map_option (\<lambda>t'. (t', ring')) (process_events enc fetch evs t))"


section \<open>What an event leaves alone\<close>

lemma emit_snapshot_frame [simp, frame]:
  "tk_book (emit_snapshot enc ts t) = tk_book t"
  "tk_vol (emit_snapshot enc ts t) = tk_vol t"
  "tk_last_trade_price (emit_snapshot enc ts t) = tk_last_trade_price t"
  "tk_last_trade_qty (emit_snapshot enc ts t) = tk_last_trade_qty t"
  by (simp_all add: emit_snapshot_def Let_def split: option.split)

definition event_shape :: "market_event \<Rightarrow> bool" where
  "event_shape ev \<longleftrightarrow> depth_shape (me_depth ev)"

definition fetch_shape :: "depth_snapshot option \<Rightarrow> bool" where
  "fetch_shape f \<longleftrightarrow> pred_option snapshot_shape f"

text \<open>
  The processor's invariant: an ordered book, and a volatility window that is the last positive mids.
\<close>

definition tick_ok :: "tick_proc \<Rightarrow> bool" where
  "tick_ok t \<longleftrightarrow> book_ok (tk_book t) \<and> vol_ok (tk_vol t)"

lemma apply_book_ticker_ok: "book_ok b \<Longrightarrow> book_ok (apply_book_ticker ev b)"
  by (simp add: apply_book_ticker_def Let_def mark_resync_def book_ok_apply_snapshot)

lemma apply_depth_ok:
  assumes "book_ok b" and "depth_shape ev" and "fetch_shape fetch"
  shows "book_ok (apply_depth fetch ev b)"
  using assms
  by (auto simp: apply_depth_def Let_def depth_shape_def fetch_shape_def snapshot_shape_def
      book_ok_apply_snapshot intro: book_ok_apply_partial_update [unfolded depth_shape_def]
      split: option.split)

lemma process_event_ok:
  assumes "tick_ok t" and "event_shape ev" and "fetch_shape fetch"
  shows "\<exists>t'. process_event enc fetch ev t = Some t' \<and> tick_ok t'"
proof (cases "me_type ev")
  case EvDepth
  let ?b = "apply_depth fetch (me_depth ev) (tk_book t)"
  have b: "book_ok ?b"
    using assms by (simp add: apply_depth_ok tick_ok_def event_shape_def)
  show ?thesis
  proof (cases "0 < book_mid ?b")
    case True
    obtain v where "push_mid (book_mid ?b) (tk_vol t) = Some v" "vol_ok v"
      using push_mid_pos [OF _ True, of "tk_vol t"] assms(1) by (auto simp: tick_ok_def)
    with EvDepth b True show ?thesis
      by (simp add: process_event_def tick_ok_def)
  next
    case False
    with EvDepth b assms(1) show ?thesis
      by (simp add: process_event_def tick_ok_def)
  qed
qed (use assms in \<open>simp_all add: process_event_def tick_ok_def apply_book_ticker_ok\<close>)

lemma process_events_ok:
  assumes "tick_ok t" and "list_all event_shape evs" and "\<And>i. fetch_shape (fetch i)"
  shows "\<exists>t'. process_events enc fetch evs t = Some t' \<and> tick_ok t'"
  using assms
proof (induction evs arbitrary: t fetch)
  case Nil
  then show ?case by simp
next
  case (Cons ev evs)
  obtain t1 where t1: "process_event enc (fetch 0) ev t = Some t1" "tick_ok t1"
    using process_event_ok [of t ev "fetch 0" enc] Cons.prems by auto
  from Cons.IH [OF t1(2), of "fetch \<circ> Suc"] Cons.prems t1(1) show ?case
    by (simp add: comp_def)
qed

lemma tick_ok_init:
  "0 < md_volatility_window (c_market_data cfg) \<Longrightarrow> tick_ok (tick_init cfg sr rr ck)"
  by (simp add: tick_ok_def tick_init_def vol_ok_init)


section \<open>What a snapshot carries\<close>

lemma emit_snapshot_pushes:
  assumes "has_data (tk_book t)" and "tk_snap_ring t = Some r"
    and "fill_msg (enc (make_snapshot ts t)) = Some m"
  shows "tk_snap_ring (emit_snapshot enc ts t) = Some (snd (ring_push r m))"
    and "tk_record_ring (emit_snapshot enc ts t) = push_or_warn m (tk_record_ring t)"
  using assms by (simp_all add: emit_snapshot_def Let_def push_or_warn_def)


section \<open>Properties\<close>

text \<open>With a positive volatility window the processor never fails: draining a full event ring
  after shutdown ends, processes every queued event in order, and leaves both sides of the book
  sorted with the best prices first and the volatility equal to the population standard deviation
  of its window.\<close>

theorem tick_drain_total:
  assumes "0 < md_volatility_window (c_market_data cfg)" and "ring_ok ring"
    and "list_all event_shape (ring_items ring)" and "\<And>i. fetch_shape (fetch i)"
  shows "\<exists>t' ring'. run_loop_drain enc fetch ring (tick_init cfg sr rr ck) = Some (t', ring')
    \<and> process_events enc fetch (ring_items ring) (tick_init cfg sr rr ck) = Some t'
    \<and> ring_empty ring' \<and> book_ok (tk_book t')
    \<and> stdev_log_returns (tk_vol t') = pop_stdev (log_returns (chron (tk_vol t')))"
proof -
  obtain t' where t': "process_events enc fetch (ring_items ring) (tick_init cfg sr rr ck) = Some t'"
    "tick_ok t'"
    using process_events_ok [where enc = enc and fetch = fetch, OF tick_ok_init [OF assms(1)] assms(3,4)]
    by blast
  obtain ring' where "drain ring_pop ring = Some (ring_items ring, ring')" "ring_ok ring'"
    "ring_items ring' = []"
    using rq.drain_all [OF assms(2)] by auto
  with t' show ?thesis
    by (auto simp: run_loop_drain_def tick_ok_def vol_ok_def stdev_log_returns_def ring_empty_def
        ring_items_Nil_iff)
qed

definition demo_event :: market_event where
  "demo_event = market_event0\<lparr>me_type := EvDepth, me_depth := demo_depth 0 7\<rparr>"

lemma event_shape_demo [simp]: "event_shape demo_event"
  by (simp add: event_shape_def demo_event_def)

definition demo_tick :: tick_proc where
  "demo_tick = (tick_init (load_config toml_empty) (Some (ring_init 4 byte_msg0))
     (Some (ring_init 4 byte_msg0)) demo_clock)
     \<lparr>tk_book := snd (apply_partial_update (demo_depth 0 7) book_init)\<lparr>ob_needs_resync := False\<rparr>\<rparr>"

lemma demo_tick_book:
  "has_data (tk_book demo_tick)" "\<not> ob_needs_resync (tk_book demo_tick)"
  "ob_initialized (tk_book demo_tick)" "ob_last_update_id (tk_book demo_tick) = 7"
proof -
  obtain b' where b': "apply_partial_update (demo_depth 0 7) book_init = (True, b')" "has_data b'"
    using demo_partial [of book_init 0 7] by auto
  moreover have "ob_initialized b'" "ob_last_update_id b' = 7"
    using b'(1) by (auto simp: apply_partial_update_def Let_def demo_depth_def)
  ultimately show "has_data (tk_book demo_tick)" "\<not> ob_needs_resync (tk_book demo_tick)"
    "ob_initialized (tk_book demo_tick)" "ob_last_update_id (tk_book demo_tick) = 7"
    by (simp_all add: demo_tick_def has_data_def)
qed

theorem tick_drain_total_witness:
  "\<exists>t' ring'. run_loop_drain (\<lambda>_. [1]) (\<lambda>_. None)
     \<lparr>rg_head = 1, rg_tail = 0, rg_buf = [demo_event, market_event0]\<rparr>
     (tick_init (load_config toml_empty) None None demo_clock) = Some (t', ring') \<and> ring_empty ring'"
proof -
  let ?ring = "\<lparr>rg_head = 1, rg_tail = 0, rg_buf = [demo_event, market_event0]\<rparr> :: market_event ring"
  have "ring_ok ?ring"
    by (auto simp: ring_ok_def intro!: exI [of _ 1])
  moreover have "ring_items ?ring = [demo_event]"
    by (simp add: ring_items_def ring_count_def mod_Suc)
  ultimately show ?thesis
    using tick_drain_total [of "load_config toml_empty" ?ring "\<lambda>_. None" "\<lambda>_. [1]" None None demo_clock]
    by (auto simp: load_config_def mirror_exchange_def load_exchange_def load_market_data_def
        toml_empty_def fetch_shape_def)
qed

text \<open>A depth update that does not continue the last applied id changes no level of the book but
  marks it for resync, and the next depth event always restores a synchronised book: from the
  event itself if it is a full snapshot or the REST request fails, from the REST snapshot
  otherwise.\<close>

theorem tick_gap_recovery:
  assumes "me_type ev1 = EvDepth" and "\<not> dpe_is_snapshot (me_depth ev1)"
    and "has_data (tk_book t)" and "\<not> ob_needs_resync (tk_book t)" and "ob_initialized (tk_book t)"
    and "dpe_prev_final_update_id (me_depth ev1) \<noteq> ob_last_update_id (tk_book t)"
    and "process_event enc f1 ev1 t = Some t1"
    and "me_type ev2 = EvDepth" and "process_event enc f2 ev2 t1 = Some t2"
  shows "tk_book t1 = mark_resync (tk_book t) \<and> \<not> ob_needs_resync (tk_book t2) \<and>
    ob_last_update_id (tk_book t2) =
      (if dpe_is_snapshot (me_depth ev2) then dpe_final_update_id (me_depth ev2)
       else case f2 of None \<Rightarrow> dpe_final_update_id (me_depth ev2) | Some s \<Rightarrow> ds_last_update_id s)"
proof -
  have book: "tk_book t' = apply_depth f (me_depth ev) (tk_book u)"
    if "me_type ev = EvDepth" "process_event enc f ev u = Some t'" for f ev u t'
    using that by (auto simp: process_event_def Let_def split: option.splits)
  have t1: "tk_book t1 = mark_resync (tk_book t)"
    using book [OF assms(1,7)] assms(2-6)
    by (simp add: apply_depth_def apply_partial_update_def mark_resync_def)
  have "ob_needs_resync (tk_book t1)"
    by (simp add: t1 mark_resync_def)
  then show ?thesis
    using book [OF assms(8,9)] t1
    by (auto simp: apply_depth_def apply_snapshot_def Let_def split: option.splits)
qed

theorem tick_gap_recovery_witness:
  "\<exists>t1 t2. process_event (\<lambda>_. [1]) None (demo_event\<lparr>me_depth := demo_depth 8 9\<rparr>) demo_tick = Some t1
     \<and> process_event (\<lambda>_. [1]) None (demo_event\<lparr>me_depth := demo_depth 3 4\<rparr>) t1 = Some t2
     \<and> tk_book t1 = mark_resync (tk_book demo_tick) \<and> ob_last_update_id (tk_book t2) = 4"
proof -
  let ?e1 = "demo_event\<lparr>me_depth := demo_depth 8 9\<rparr>" and ?e2 = "demo_event\<lparr>me_depth := demo_depth 3 4\<rparr>"
  have sh: "event_shape ?e1" "event_shape ?e2" "fetch_shape None"
    by (simp_all add: event_shape_def fetch_shape_def)
  have ty: "me_type ?e1 = EvDepth" "me_type ?e2 = EvDepth" "\<not> dpe_is_snapshot (me_depth ?e1)"
    "\<not> dpe_is_snapshot (me_depth ?e2)" "dpe_prev_final_update_id (me_depth ?e1) = 8"
    "dpe_final_update_id (me_depth ?e2) = 4"
    by (simp_all add: demo_event_def demo_depth_def)
  have "0 < md_volatility_window (c_market_data (load_config toml_empty))"
    by (simp add: load_config_def mirror_exchange_def load_exchange_def load_market_data_def
        toml_empty_def)
  moreover have "book_ok (snd (apply_partial_update (demo_depth 0 7) book_init))"
    by (simp add: book_ok_apply_partial_update)
  ultimately have "tick_ok demo_tick"
    by (simp add: demo_tick_def tick_ok_def tick_init_def vol_ok_init)
  then obtain t1 where t1: "process_event (\<lambda>_. [1]) None ?e1 demo_tick = Some t1" "tick_ok t1"
    using process_event_ok sh by blast
  then obtain t2 where t2: "process_event (\<lambda>_. [1]) None ?e2 t1 = Some t2"
    using process_event_ok sh by blast
  from tick_gap_recovery [OF ty(1,3) demo_tick_book(1-3) _ t1(1) ty(2) t2] t1(1) t2 ty
  show ?thesis
    by (auto simp: demo_tick_book(4))
qed

text \<open>Whenever both sides have data, an event makes the processor send the strategy exactly one
  message, which decodes to the best prices, mid, spread, five-level depths, last trade and
  volatility the processor holds after the event; the recorder ring, if present and not full,
  gets the same bytes.\<close>

theorem emit_snapshot_message:
  assumes "has_data (tk_book t)" and "codec_at enc dec (make_snapshot ts t)"
    and "length (enc (make_snapshot ts t)) \<le> 512"
    and "tk_snap_ring t = Some r" and "ring_ok r" and "ring_count r < ring_capacity r"
    and "tk_record_ring t = Some rr" and "ring_ok rr" and "ring_count rr < ring_capacity rr"
  shows "\<exists>m r' rr'. tk_snap_ring (emit_snapshot enc ts t) = Some r' \<and> ring_items r' = ring_items r @ [m]
    \<and> tk_record_ring (emit_snapshot enc ts t) = Some rr' \<and> ring_items rr' = ring_items rr @ [m]
    \<and> read_msg dec m = Some (make_snapshot ts t)"
proof -
  obtain m where m: "fill_msg (enc (make_snapshot ts t)) = Some m"
    using assms(3) by (simp add: fill_msg_def)
  with assms(2) have "read_msg dec m = Some (make_snapshot ts t)"
    by (rule read_fill_msg)
  moreover note emit_snapshot_pushes [where enc = enc and ts = ts, OF assms(1,4) m]
  ultimately show ?thesis
    using ring_push_items [OF assms(5,6), of m] ring_push_items [OF assms(8,9), of m] assms(7)
    by (auto simp: push_or_warn_def)
qed

theorem emit_snapshot_message_witness:
  "\<exists>m r'. tk_snap_ring (emit_snapshot (\<lambda>_. [1]) 5 demo_tick) = Some r' \<and> ring_items r' = [m]
    \<and> read_msg (\<lambda>_. Some (make_snapshot 5 demo_tick)) m = Some (make_snapshot 5 demo_tick)"
proof -
  have ok: "ring_ok (ring_init 4 byte_msg0)" "ring_items (ring_init 4 byte_msg0) = []"
    using ring_init_ok [of 2 byte_msg0] by simp_all
  have room: "ring_count (ring_init 4 byte_msg0) < ring_capacity (ring_init 4 byte_msg0)"
    by (simp add: ring_count_def ring_init_def ring_capacity_def)
  have rings: "tk_snap_ring demo_tick = Some (ring_init 4 byte_msg0)"
    "tk_record_ring demo_tick = Some (ring_init 4 byte_msg0)"
    by (simp_all add: demo_tick_def tick_init_def)
  have "codec_at (\<lambda>_. [1]) (\<lambda>_. Some (make_snapshot 5 demo_tick)) (make_snapshot 5 demo_tick)"
    by (simp add: codec_at_def)
  from emit_snapshot_message [OF demo_tick_book(1) this _ rings(1) ok(1) room rings(2) ok(1) room] ok(2)
  show ?thesis
    by auto
qed

end
