(* ===== verification/PositionTracker.thy ===== *)
theory PositionTracker
  imports Prelude
begin

text \<open>
  \<open>PositionTracker\<close> of \<open>src/src/risk/position_tracker.hpp\<close> and \<open>.cpp\<close>: inventory, weighted average
  entry price, realised profit and fees under fills, and the equity the risk components read.
  \<open>apply_fill\<close> is given twice: as one step, and as the sequence of atomic stores it makes, which is
  what a concurrent reader can observe.
\<close>

section \<open>State and operations\<close>

record position_tracker =
  pt_inventory :: double
  pt_avg_entry :: double
  pt_realized :: double
  pt_fees :: double
  pt_mid :: double

record fill_input =
  fi_order_id :: string
  fi_symbol :: string
  fi_side :: int
  fi_price :: double
  fi_qty :: double
  fi_fee :: double
  fi_fee_asset :: string
  fi_timestamp_ns :: u64

definition tracker_init :: position_tracker where
  "tracker_init = \<lparr>pt_inventory = 0, pt_avg_entry = 0, pt_realized = 0, pt_fees = 0, pt_mid = 0\<rparr>"

definition kInvEpsilon :: double where
  "kInvEpsilon = 1 / 10 ^ 12"

definition fill_valid :: "fill_input \<Rightarrow> bool" where
  "fill_valid f \<longleftrightarrow> \<not> (fi_qty f \<le> 0 \<or> (fi_side f \<noteq> 1 \<and> fi_side f \<noteq> -1) \<or> fi_price f \<le> 0)"

definition fill_signed_qty :: "fill_input \<Rightarrow> double" where
  "fill_signed_qty f = of_int (fi_side f) * fi_qty f"

text \<open>The new average entry price and the realised profit of a fill.\<close>

definition fill_effect :: "double \<Rightarrow> double \<Rightarrow> double \<Rightarrow> double \<Rightarrow> double \<times> double" where
  "fill_effect pos ae signed_qty price =
     (let new_inv = pos + signed_qty in
      if \<bar>pos\<bar> < kInvEpsilon then (price, 0)
      else if (0 < pos \<and> 0 < signed_qty) \<or> (pos < 0 \<and> signed_qty < 0) then
        let total_qty = \<bar>pos\<bar> + \<bar>signed_qty\<bar>
        in ((\<bar>pos\<bar> * ae + \<bar>signed_qty\<bar> * price) / total_qty, 0)
      else
        let close_qty = min \<bar>pos\<bar> \<bar>signed_qty\<bar>;
            dir = (if 0 < pos then 1 else - 1);
            realized_delta = dir * close_qty * (price - ae)
        in (if \<bar>pos\<bar> < \<bar>signed_qty\<bar> then price else if new_inv = 0 then 0 else ae,
            realized_delta))"

text \<open>The four stores of \<open>apply_fill\<close>, in the order the code makes them.\<close>

definition fill_stores :: "fill_input \<Rightarrow> position_tracker \<Rightarrow> (position_tracker \<Rightarrow> position_tracker) list" where
  "fill_stores f pt =
     (let signed_qty = fill_signed_qty f;
          pos = pt_inventory pt;
          (new_ae, realized_delta) = fill_effect pos (pt_avg_entry pt) signed_qty (fi_price f)
      in (if realized_delta \<noteq> 0
          then [\<lambda>p. p\<lparr>pt_realized := pt_realized p + realized_delta\<rparr>] else []) @
         [\<lambda>p. p\<lparr>pt_fees := pt_fees p + fi_fee f\<rparr>,
          \<lambda>p. p\<lparr>pt_inventory := pos + signed_qty\<rparr>,
          \<lambda>p. p\<lparr>pt_avg_entry := new_ae\<rparr>])"

definition apply_fill :: "fill_input \<Rightarrow> position_tracker \<Rightarrow> bool \<times> position_tracker" where
  "apply_fill f pt = (if fill_valid f then (True, fold (\<lambda>st p. st p) (fill_stores f pt) pt) else (False, pt))"

text \<open>The states a reader can see while \<open>apply_fill\<close> runs, the first and the last included.\<close>

definition fill_observable :: "fill_input \<Rightarrow> position_tracker \<Rightarrow> position_tracker list" where
  "fill_observable f pt =
     (if fill_valid f
      then map (\<lambda>n. fold (\<lambda>st p. st p) (take n (fill_stores f pt)) pt) [0..<Suc (length (fill_stores f pt))]
      else [pt])"

definition update_mid :: "double \<Rightarrow> position_tracker \<Rightarrow> position_tracker" where
  "update_mid mid pt = (if 0 < mid then pt\<lparr>pt_mid := mid\<rparr> else pt)"

definition unrealized_pnl :: "position_tracker \<Rightarrow> double" where
  "unrealized_pnl pt =
     (let pos = pt_inventory pt; mid = pt_mid pt; ae = pt_avg_entry pt
      in if pos = 0 \<or> mid \<le> 0 then 0 else pos * (mid - ae))"

definition equity :: "position_tracker \<Rightarrow> double" where
  "equity pt = pt_realized pt + unrealized_pnl pt"

fun apply_fills :: "fill_input list \<Rightarrow> position_tracker \<Rightarrow> position_tracker" where
  "apply_fills [] pt = pt"
| "apply_fills (f # fs) pt = apply_fills fs (snd (apply_fill f pt))"


section \<open>Reference: the cash ledger of the valid fills\<close>

definition ledger_inv :: "fill_input list \<Rightarrow> double" where
  "ledger_inv fs = (\<Sum>f\<leftarrow>filter fill_valid fs. fill_signed_qty f)"

definition ledger_cash :: "fill_input list \<Rightarrow> double" where
  "ledger_cash fs = (\<Sum>f\<leftarrow>filter fill_valid fs. - fill_signed_qty f * fi_price f)"

definition ledger_fees :: "fill_input list \<Rightarrow> double" where
  "ledger_fees fs = (\<Sum>f\<leftarrow>filter fill_valid fs. fi_fee f)"

text \<open>
  The quantities of an exchange come in lots.  On a lot of at least \<open>kInvEpsilon\<close> the tolerance test
  of \<open>apply_fill\<close> is an exact test for a flat position.
\<close>

definition on_grid :: "double \<Rightarrow> double \<Rightarrow> bool" where
  "on_grid lot q \<longleftrightarrow> (\<exists>k :: int. q = of_int k * lot)"

lemma on_grid_add: "on_grid lot a \<Longrightarrow> on_grid lot b \<Longrightarrow> on_grid lot (a + b)"
  unfolding on_grid_def by (metis distrib_right of_int_add)

lemma on_grid_0 [simp]: "on_grid lot 0"
  unfolding on_grid_def by (intro exI [of _ 0]) simp

lemma on_grid_signed:
  assumes "on_grid lot (fi_qty f)"
  shows "on_grid lot (fill_signed_qty f)"
proof -
  obtain k where "fi_qty f = of_int k * lot"
    using assms by (auto simp: on_grid_def)
  then have "fill_signed_qty f = of_int (fi_side f * k) * lot"
    by (simp add: fill_signed_qty_def)
  then show ?thesis
    unfolding on_grid_def by blast
qed

lemma on_grid_tiny:
  assumes "on_grid lot q" and "kInvEpsilon \<le> lot" and "\<bar>q\<bar> < kInvEpsilon"
  shows "q = 0"
proof (rule ccontr)
  obtain k :: int where k: "q = of_int k * lot"
    using assms(1) by (auto simp: on_grid_def)
  assume "q \<noteq> 0"
  with k have "1 \<le> \<bar>k\<bar>"
    by (cases "k = 0") auto
  moreover have "0 < lot"
    using assms(2) by (simp add: kInvEpsilon_def order.strict_trans2 [of 0 "1 / 10 ^ 12"])
  ultimately have "lot \<le> of_int \<bar>k\<bar> * lot"
    by simp
  then have "lot \<le> \<bar>q\<bar>"
    using k \<open>0 < lot\<close> by (simp add: abs_mult)
  with assms(2,3) show False
    by simp
qed

text \<open>The arithmetic at the centre: cash spent equals realised profit less the cost of the position.\<close>

lemma fill_effect_cost:
  assumes "pos = 0 \<or> kInvEpsilon \<le> \<bar>pos\<bar>" and "s \<noteq> 0"
  shows "case fill_effect pos ae s p of (ae', dr) \<Rightarrow> dr - (pos + s) * ae' = - pos * ae - s * p"
proof -
  consider "pos = 0" | "0 < pos" "0 < s" | "pos < 0" "s < 0" | "0 < pos" "s < 0" | "pos < 0" "0 < s"
    using assms(2) by linarith
  then show ?thesis
  proof cases
    case 1
    then show ?thesis
      by (simp add: fill_effect_def kInvEpsilon_def)
  next
    case 2
    have "(pos + s) * ((pos * ae + s * p) / (pos + s)) = pos * ae + s * p"
      using 2 by simp
    with 2 show ?thesis
      using assms(1) by (simp add: fill_effect_def Let_def)
  next
    case 3
    have "(pos + s) * ((- pos * ae + - s * p) / (- pos + - s)) = pos * ae + s * p"
      using 3 by (simp add: field_simps)
    with 3 show ?thesis
      using assms(1) by (simp add: fill_effect_def Let_def)
  next
    case 4
    then show ?thesis
      using assms(1) by (auto simp: fill_effect_def Let_def min_def algebra_simps)
  next
    case 5
    then show ?thesis
      using assms(1) by (auto simp: fill_effect_def Let_def min_def algebra_simps)
  qed
qed

text \<open>The four stores together.\<close>

lemma apply_fill_fields:
  assumes "fill_valid f"
    and "fill_effect (pt_inventory pt) (pt_avg_entry pt) (fill_signed_qty f) (fi_price f) = (ae, dr)"
  shows "apply_fill f pt =
    (True, pt\<lparr>pt_inventory := pt_inventory pt + fill_signed_qty f, pt_avg_entry := ae,
       pt_realized := pt_realized pt + dr, pt_fees := pt_fees pt + fi_fee f\<rparr>)"
  using assms by (simp add: apply_fill_def fill_stores_def Let_def)

lemma apply_fill_frame [simp, frame]: "pt_mid (snd (apply_fill f pt)) = pt_mid pt"
  by (auto simp: apply_fill_def fill_stores_def Let_def split: prod.split)

lemma apply_fills_mid [simp, frame]: "pt_mid (apply_fills fs pt) = pt_mid pt"
  by (induction fs arbitrary: pt) simp_all

lemma apply_fill_inventory:
  "pt_inventory (snd (apply_fill f pt)) =
     (if fill_valid f then pt_inventory pt + fill_signed_qty f else pt_inventory pt)"
  by (auto simp: apply_fill_def fill_stores_def Let_def split: prod.split)

lemma fill_signed_qty_nonzero: "fill_valid f \<Longrightarrow> fill_signed_qty f \<noteq> 0"
  by (auto simp: fill_valid_def fill_signed_qty_def)

definition tracks :: "double \<Rightarrow> double \<Rightarrow> double \<Rightarrow> double \<Rightarrow> position_tracker \<Rightarrow> bool" where
  "tracks lot cash pos fees pt \<longleftrightarrow>
     on_grid lot (pt_inventory pt) \<and> pt_inventory pt = pos \<and> pt_fees pt = fees \<and>
     pt_realized pt - pt_inventory pt * pt_avg_entry pt = cash"

lemma apply_fill_tracks:
  assumes "tracks lot cash pos fees pt" and "kInvEpsilon \<le> lot" and "on_grid lot (fi_qty f)"
    and "fill_valid f"
  shows "tracks lot (cash - fill_signed_qty f * fi_price f) (pos + fill_signed_qty f) (fees + fi_fee f)
    (snd (apply_fill f pt))"
proof -
  obtain ae dr where e: "fill_effect (pt_inventory pt) (pt_avg_entry pt) (fill_signed_qty f)
      (fi_price f) = (ae, dr)"
    by fastforce
  have "pt_inventory pt = 0 \<or> kInvEpsilon \<le> \<bar>pt_inventory pt\<bar>"
    using on_grid_tiny assms(1,2) by (force simp: tracks_def)
  from fill_effect_cost [OF this fill_signed_qty_nonzero [OF assms(4)], of "pt_avg_entry pt" "fi_price f"] e
  have "dr - (pt_inventory pt + fill_signed_qty f) * ae =
      - pt_inventory pt * pt_avg_entry pt - fill_signed_qty f * fi_price f"
    by simp
  then show ?thesis
    using assms on_grid_add [OF _ on_grid_signed [OF assms(3)], of "pt_inventory pt"]
    by (auto simp: apply_fill_fields [OF assms(4) e] tracks_def)
qed

lemma apply_fills_tracks:
  assumes "tracks lot cash pos fees pt" and "kInvEpsilon \<le> lot"
    and "\<forall>f \<in> set fs. on_grid lot (fi_qty f)"
  shows "tracks lot (cash + ledger_cash fs) (pos + ledger_inv fs) (fees + ledger_fees fs)
    (apply_fills fs pt)"
  using assms
proof (induction fs arbitrary: pt cash pos fees)
  case Nil
  then show ?case
    by (simp add: ledger_cash_def ledger_inv_def ledger_fees_def)
next
  case (Cons f fs)
  show ?case
  proof (cases "fill_valid f")
    case True
    with Cons.IH [OF apply_fill_tracks [OF Cons.prems(1,2) _ True]] Cons.prems show ?thesis
      by (simp add: ledger_cash_def ledger_inv_def ledger_fees_def algebra_simps)
  next
    case False
    with Cons.IH [OF Cons.prems(1,2)] Cons.prems(3) show ?thesis
      by (simp add: ledger_cash_def ledger_inv_def ledger_fees_def apply_fill_def)
  qed
qed

lemma tracks_init: "tracks lot 0 0 0 tracker_init"
  by (simp add: tracks_def tracker_init_def)

lemma tracks_equity:
  "tracks lot cash pos fees pt \<Longrightarrow> 0 < pt_mid pt \<Longrightarrow> equity pt = cash + pos * pt_mid pt"
  by (auto simp: tracks_def equity_def unrealized_pnl_def Let_def algebra_simps)


section \<open>Properties\<close>

text \<open>C6: for every sequence of fills whose quantities lie on a lot grid (a lot of at least 1e-12), valid
  or not, the tracker's inventory, fees and cost basis are those of the cash ledger of the valid
  fills, so that with a positive mid the equity is exactly the mark-to-market value: cash received
  plus inventory at the mid.\<close>

theorem tracker_mark_to_market:
  assumes "kInvEpsilon \<le> lot" and "\<forall>f \<in> set fs. on_grid lot (fi_qty f)" and "0 < mid"
  defines "pt \<equiv> apply_fills fs (update_mid mid tracker_init)"
  shows "pt_inventory pt = ledger_inv fs \<and> pt_fees pt = ledger_fees fs \<and>
    equity pt = ledger_cash fs + ledger_inv fs * mid"
proof -
  have "tracks lot 0 0 0 (update_mid mid tracker_init)"
    using tracks_init [of lot] by (simp add: tracks_def update_mid_def)
  from apply_fills_tracks [OF this assms(1,2)]
  have t: "tracks lot (ledger_cash fs) (ledger_inv fs) (ledger_fees fs) pt"
    by (simp add: pt_def)
  moreover have "pt_mid pt = mid"
    using assms(3) by (simp add: pt_def update_mid_def)
  ultimately show ?thesis
    using tracks_equity [OF t] assms(3) by (simp add: tracks_def)
qed

definition demo_fill :: "int \<Rightarrow> double \<Rightarrow> double \<Rightarrow> fill_input" where
  "demo_fill side price qty = \<lparr>fi_order_id = ''1'', fi_symbol = ''S'', fi_side = side, fi_price = price,
     fi_qty = qty, fi_fee = 1 / 10, fi_fee_asset = ''U'', fi_timestamp_ns = 0\<rparr>"

theorem tracker_mark_to_market_witness:
  "equity (apply_fills [demo_fill 1 100 2, demo_fill (- 1) 110 3, demo_fill 0 1 1, demo_fill 1 105 1]
     (update_mid 120 tracker_init)) = 25"
proof -
  let ?fs = "[demo_fill 1 100 2, demo_fill (- 1) 110 3, demo_fill 0 1 1, demo_fill 1 105 1]"
  have "\<forall>f \<in> set ?fs. on_grid 1 (fi_qty f)"
    by (auto simp: demo_fill_def on_grid_def intro: exI [of _ 1] exI [of _ 2] exI [of _ 3])
  from tracker_mark_to_market [OF _ this, of 120] show ?thesis
    by (simp add: kInvEpsilon_def demo_fill_def ledger_cash_def ledger_inv_def fill_valid_def
        fill_signed_qty_def)
qed

text \<open>The store order of \<open>apply_fill\<close> does not bias a concurrent reader's equity upward: a sell
  that opens a position from flat passes through an observable state whose equity is lower than
  before by the whole notional at the mid, and lower than after by the quantity times the fill price.\<close>

theorem transient_equity_dips:
  assumes "fill_valid f" and "fi_side f = - 1" and "pt_inventory pt = 0" and "pt_avg_entry pt = 0"
    and "0 < pt_mid pt"
  shows "\<exists>p \<in> set (fill_observable f pt).
    equity p = equity pt - fi_qty f * pt_mid pt \<and>
    equity p = equity (snd (apply_fill f pt)) - fi_qty f * fi_price f \<and> equity p < equity pt"
proof -
  have eff: "fill_effect (pt_inventory pt) (pt_avg_entry pt) (fill_signed_qty f) (fi_price f) =
      (fi_price f, 0)"
    using assms by (simp add: fill_effect_def kInvEpsilon_def)
  let ?p = "pt\<lparr>pt_fees := pt_fees pt + fi_fee f, pt_inventory := fill_signed_qty f\<rparr>"
  have stores: "fill_stores f pt =
      [\<lambda>p. p\<lparr>pt_fees := pt_fees p + fi_fee f\<rparr>, \<lambda>p. p\<lparr>pt_inventory := fill_signed_qty f\<rparr>,
       \<lambda>p. p\<lparr>pt_avg_entry := fi_price f\<rparr>]"
    using eff assms(3) by (simp add: fill_stores_def)
  have "?p \<in> (\<lambda>n. fold (\<lambda>st p. st p) (take n (fill_stores f pt)) pt) `
      set [0..<Suc (length (fill_stores f pt))]"
    by (rule image_eqI [of _ _ 2]) (auto simp: stores)
  then have "?p \<in> set (fill_observable f pt)"
    using assms(1) by (simp only: fill_observable_def if_True set_map)
  moreover have "fill_signed_qty f = - fi_qty f" "0 < fi_qty f"
    using assms(1,2) by (auto simp: fill_signed_qty_def fill_valid_def)
  ultimately show ?thesis
    using assms apply_fill_fields [OF assms(1) eff]
    by (intro bexI [of _ ?p]) (auto simp: equity_def unrealized_pnl_def Let_def algebra_simps)
qed

theorem transient_equity_dips_witness:
  "\<exists>p \<in> set (fill_observable (demo_fill (- 1) 100 2) (update_mid 100 tracker_init)).
     equity p = - 200 \<and> equity (update_mid 100 tracker_init) = 0"
  using transient_equity_dips [of "demo_fill (- 1) 100 2" "update_mid 100 tracker_init"]
  by (auto simp: demo_fill_def fill_valid_def update_mid_def tracker_init_def equity_def
      unrealized_pnl_def)

end
