(* ===== verification/DbEvents.thy ===== *)
theory DbEvents
  imports Ring
begin

text \<open>
  The events the engine queues for the database (\<open>src/src/db/pg_reporter.hpp\<close>).  The tagged union is
  a datatype; a \<open>char[n]\<close> field filled by \<open>snprintf\<close> is a string of fewer than \<open>n\<close> characters.
\<close>

record db_trade =
  dt_order_id :: string
  dt_side :: int
  dt_price :: double
  dt_qty :: double
  dt_fee :: double
  dt_fee_asset :: string
  dt_ts_ns :: u64
  dt_is_maker :: bool

record db_position_snapshot =
  dp_ts_ns :: u64
  dp_inventory :: double
  dp_avg_entry :: double
  dp_realized :: double
  dp_unrealized :: double
  dp_fees :: double
  dp_mid :: double
  dp_best_bid :: double
  dp_best_ask :: double
  dp_spread_bps :: double
  dp_bid_qty :: double
  dp_ask_qty :: double
  dp_volatility :: double
  dp_gamma :: double
  dp_k :: double
  dp_T :: double
  dp_lat_p50_us :: double
  dp_lat_p95_us :: double
  dp_lat_p99_us :: double
  dp_open_orders :: int

record db_system_event =
  de_ts_ns :: u64
  de_severity :: string
  de_source :: string
  de_code :: string
  de_msg :: string

record db_daily_pnl =
  dd_date :: int
  dd_realized :: double
  dd_unrealized :: double
  dd_fees :: double
  dd_total :: double

datatype db_event =
    DbTrade db_trade
  | DbPosition db_position_snapshot
  | DbSystem db_system_event
  | DbDaily db_daily_pnl

type_synonym db_ring = "db_event ring option"

text \<open>A system event as the components fill it in: four \<open>snprintf\<close> calls into fixed buffers.\<close>

definition system_event :: "u64 \<Rightarrow> string \<Rightarrow> string \<Rightarrow> string \<Rightarrow> string \<Rightarrow> db_event" where
  "system_event ts severity source code msg =
     DbSystem \<lparr>de_ts_ns = ts, de_severity = c_buf 16 severity, de_source = c_buf 32 source,
       de_code = c_buf 32 code, de_msg = c_buf 256 msg\<rparr>"

text \<open>
  \<open>PgReporter::push\<close> takes a mutex, so the ring sees one producer; \<open>None\<close> is a null reporter.
\<close>

definition db_push :: "db_event \<Rightarrow> db_ring \<Rightarrow> db_ring" where
  "db_push ev db = push_or_warn ev db"

lemma db_push_None [simp]: "db_push ev None = None"
  by (simp add: db_push_def)

text \<open>Several pushes in a row, none of them of a trade.\<close>

fun is_trade :: "db_event \<Rightarrow> bool" where
  "is_trade (DbTrade t) \<longleftrightarrow> True"
| "is_trade _ \<longleftrightarrow> False"

fun is_system :: "db_event \<Rightarrow> bool" where
  "is_system (DbSystem e) \<longleftrightarrow> True"
| "is_system _ \<longleftrightarrow> False"

lemma is_system_event [simp]: "is_system (system_event ts severity source code msg)"
  by (simp add: system_event_def)

lemma fold_db_push_None [simp]: "fold db_push evs None = None"
  by (induction evs) simp_all

definition db_notes :: "db_ring \<Rightarrow> db_ring \<Rightarrow> bool" where
  "db_notes db db' \<longleftrightarrow> (\<exists>evs. list_all is_system evs \<and> db' = fold db_push evs db)"

lemma db_notes_refl [simp]: "db_notes db db"
  unfolding db_notes_def by (rule exI [of _ "[]"]) simp

lemma db_notes_push [simp]: "is_system ev \<Longrightarrow> db_notes db (db_push ev db)"
  unfolding db_notes_def by (rule exI [of _ "[ev]"]) simp

lemma db_notes_trans: "db_notes a b \<Longrightarrow> db_notes b c \<Longrightarrow> db_notes a c"
proof -
  assume "db_notes a b" "db_notes b c"
  then obtain xs ys where "list_all is_system xs" "b = fold db_push xs a" "list_all is_system ys" "c = fold db_push ys b"
    by (auto simp: db_notes_def)
  then show "db_notes a c"
    unfolding db_notes_def by (intro exI [of _ "xs @ ys"]) simp
qed

definition wall_ns :: "clock \<Rightarrow> u64" where
  "wall_ns ck = word_of_int (wall_now ck)"

end
