(* ===== verification/RiskManager.thy ===== *)
theory RiskManager
  imports Config PositionTracker DbEvents
begin

text \<open>
  \<open>RiskManager\<close> of \<open>src/src/risk/risk_manager.hpp\<close> and \<open>.cpp\<close>: the pre-trade checks in their order
  of priority, the sliding windows of submissions, cancels and rejections, and the rejection event
  it queues for the database.
\<close>

section \<open>State and operations\<close>

datatype risk_result =
    APPROVED
  | REJECTED_POSITION
  | REJECTED_SIZE
  | REJECTED_PRICE
  | REJECTED_RATE
  | REJECTED_LOSS
  | REJECTED_OPEN_ORDERS

text \<open>The order of the C++ enumerators, which is the order of the checks.\<close>

fun risk_rank :: "risk_result \<Rightarrow> nat" where
  "risk_rank APPROVED = 0"
| "risk_rank REJECTED_POSITION = 1"
| "risk_rank REJECTED_SIZE = 2"
| "risk_rank REJECTED_PRICE = 3"
| "risk_rank REJECTED_RATE = 4"
| "risk_rank REJECTED_LOSS = 5"
| "risk_rank REJECTED_OPEN_ORDERS = 6"

lemma risk_rank_inject: "risk_rank r = risk_rank s \<longleftrightarrow> r = s"
  by (cases r; cases s; simp)

instantiation risk_result :: linorder
begin

definition less_eq_risk_result :: "risk_result \<Rightarrow> risk_result \<Rightarrow> bool" where
  "less_eq_risk_result r s \<longleftrightarrow> risk_rank r \<le> risk_rank s"

definition less_risk_result :: "risk_result \<Rightarrow> risk_result \<Rightarrow> bool" where
  "less_risk_result r s \<longleftrightarrow> risk_rank r < risk_rank s"

instance
  by standard (auto simp: less_eq_risk_result_def less_risk_result_def risk_rank_inject)

end

fun risk_str :: "risk_result \<Rightarrow> string" where
  "risk_str REJECTED_POSITION = ''position''"
| "risk_str REJECTED_SIZE = ''size''"
| "risk_str REJECTED_PRICE = ''price''"
| "risk_str REJECTED_RATE = ''rate''"
| "risk_str REJECTED_LOSS = ''loss''"
| "risk_str REJECTED_OPEN_ORDERS = ''open_orders''"
| "risk_str APPROVED = ''approved''"

record risk_manager =
  rm_order_times :: "nanos list"
  rm_cancel_times :: "nanos list"
  rm_rejection_times :: "nanos list"
  rm_open_order_count :: int

definition risk_init :: risk_manager where
  "risk_init = \<lparr>rm_order_times = [], rm_cancel_times = [], rm_rejection_times = [], rm_open_order_count = 0\<rparr>"

definition kRateWindow :: nanos where
  "kRateWindow = sec_ns 60"

definition kRejectionWindow :: nanos where
  "kRejectionWindow = sec_ns 30"

definition record_in :: "nanos \<Rightarrow> nanos list \<Rightarrow> nanos list" where
  "record_in tp bucket = purge (tp - kRateWindow) bucket @ [tp]"

definition record_submission :: "risk_manager \<times> clock \<Rightarrow> risk_manager \<times> clock" where
  "record_submission s =
     (case s of (rm, ck) \<Rightarrow>
       (rm\<lparr>rm_order_times := record_in (steady_now ck) (rm_order_times rm)\<rparr>, clock_tick ck))"

definition record_cancel :: "risk_manager \<times> clock \<Rightarrow> risk_manager \<times> clock" where
  "record_cancel s =
     (case s of (rm, ck) \<Rightarrow>
       (rm\<lparr>rm_cancel_times := record_in (steady_now ck) (rm_cancel_times rm)\<rparr>, clock_tick ck))"

definition record_rejection :: "nanos \<Rightarrow> risk_manager \<Rightarrow> risk_manager" where
  "record_rejection tp rm =
     rm\<lparr>rm_rejection_times := purge (tp - kRejectionWindow) (rm_rejection_times rm) @ [tp]\<rparr>"

definition set_open_order_count :: "int \<Rightarrow> risk_manager \<Rightarrow> risk_manager" where
  "set_open_order_count n rm = rm\<lparr>rm_open_order_count := n\<rparr>"

definition consecutive_rejections_in_window :: "nanos \<Rightarrow> risk_manager \<Rightarrow> int \<times> risk_manager" where
  "consecutive_rejections_in_window now rm =
     (let q = purge (now - kRejectionWindow) (rm_rejection_times rm)
      in (int (length q), rm\<lparr>rm_rejection_times := q\<rparr>))"

text \<open>
  The chain of guards, the purge of the order window in its place: the verdict and the risk manager
  after it, before any rejection is recorded.
\<close>

definition risk_verdict ::
  "risk_cfg \<Rightarrow> position_tracker \<Rightarrow> nanos \<Rightarrow> double \<Rightarrow> double \<Rightarrow> double \<Rightarrow> risk_manager
     \<Rightarrow> risk_result \<times> risk_manager" where
  "risk_verdict rc pt now side_signed_qty price current_mid rm =
     (let abs_qty = \<bar>side_signed_qty\<bar>;
          eq = equity pt;
          open_orders = rm_open_order_count rm;
          projected_inv = pt_inventory pt + side_signed_qty
      in if rk_max_position rc < \<bar>projected_inv\<bar> then (REJECTED_POSITION, rm)
         else if rk_max_order_size rc < abs_qty then (REJECTED_SIZE, rm)
         else if 0 < current_mid \<and>
                 rk_price_sanity_pct rc < \<bar>price - current_mid\<bar> / current_mid * 100
           then (REJECTED_PRICE, rm)
         else
           let q = purge (now - kRateWindow) (rm_order_times rm);
               rm = rm\<lparr>rm_order_times := q\<rparr>
           in if rk_rate_limit_threshold rc < int (length q) then (REJECTED_RATE, rm)
              else if eq < - rk_max_daily_loss rc then (REJECTED_LOSS, rm)
              else if rk_max_open_orders rc \<le> open_orders then (REJECTED_OPEN_ORDERS, rm)
              else (APPROVED, rm))"

definition rejection_event ::
  "position_tracker \<Rightarrow> int \<Rightarrow> u64 \<Rightarrow> risk_result \<Rightarrow> double \<Rightarrow> double \<Rightarrow> double \<Rightarrow> db_event" where
  "rejection_event pt open_orders ts result qty price mid =
     system_event ts ''warn'' ''risk'' (risk_str result)
       (''qty='' @ fmt_fixed 6 qty @ '' price='' @ fmt_fixed 4 price @ '' mid='' @ fmt_fixed 4 mid @
        '' inv='' @ fmt_fixed 6 (pt_inventory pt) @ '' equity='' @ fmt_fixed 4 (equity pt) @
        '' open_orders='' @ dec_int open_orders)"

definition pre_trade_check ::
  "risk_cfg \<Rightarrow> position_tracker \<Rightarrow> double \<Rightarrow> double \<Rightarrow> double \<Rightarrow> risk_manager \<times> clock \<times> db_ring
     \<Rightarrow> risk_result \<times> risk_manager \<times> clock \<times> db_ring" where
  "pre_trade_check rc pt side_signed_qty price current_mid s =
     (case s of (rm, ck, db) \<Rightarrow>
       let now = steady_now ck;
           ck = clock_tick ck;
           open_orders = rm_open_order_count rm;
           (result, rm) = risk_verdict rc pt now side_signed_qty price current_mid rm
       in if result = APPROVED then (result, rm, ck, db)
          else
            let rm = record_rejection now rm
            in if db = None then (result, rm, ck, db)
               else (result, rm, clock_tick ck,
                     db_push (rejection_event pt open_orders (wall_ns ck) result side_signed_qty
                                price current_mid) db))"


section \<open>The guards\<close>

definition within_limits ::
  "risk_cfg \<Rightarrow> position_tracker \<Rightarrow> nanos \<Rightarrow> double \<Rightarrow> double \<Rightarrow> double \<Rightarrow> risk_manager \<Rightarrow> bool" where
  "within_limits rc pt now qty price mid rm \<longleftrightarrow>
     \<bar>pt_inventory pt + qty\<bar> \<le> rk_max_position rc \<and>
     \<bar>qty\<bar> \<le> rk_max_order_size rc \<and>
     (0 < mid \<longrightarrow> \<bar>price - mid\<bar> / mid * 100 \<le> rk_price_sanity_pct rc) \<and>
     int (length (purge (now - kRateWindow) (rm_order_times rm))) \<le> rk_rate_limit_threshold rc \<and>
     - rk_max_daily_loss rc \<le> equity pt \<and>
     rm_open_order_count rm < rk_max_open_orders rc"

text \<open>What each rejection stands for.\<close>

fun breach ::
  "risk_cfg \<Rightarrow> position_tracker \<Rightarrow> nanos \<Rightarrow> double \<Rightarrow> double \<Rightarrow> double \<Rightarrow> risk_manager \<Rightarrow> risk_result \<Rightarrow> bool" where
  "breach rc pt now qty price mid rm APPROVED \<longleftrightarrow> False"
| "breach rc pt now qty price mid rm REJECTED_POSITION \<longleftrightarrow> rk_max_position rc < \<bar>pt_inventory pt + qty\<bar>"
| "breach rc pt now qty price mid rm REJECTED_SIZE \<longleftrightarrow> rk_max_order_size rc < \<bar>qty\<bar>"
| "breach rc pt now qty price mid rm REJECTED_PRICE \<longleftrightarrow> 0 < mid \<and> rk_price_sanity_pct rc < \<bar>price - mid\<bar> / mid * 100"
| "breach rc pt now qty price mid rm REJECTED_RATE \<longleftrightarrow>
     rk_rate_limit_threshold rc < int (length (purge (now - kRateWindow) (rm_order_times rm)))"
| "breach rc pt now qty price mid rm REJECTED_LOSS \<longleftrightarrow> equity pt < - rk_max_daily_loss rc"
| "breach rc pt now qty price mid rm REJECTED_OPEN_ORDERS \<longleftrightarrow> rk_max_open_orders rc \<le> rm_open_order_count rm"

lemma finite_risk_results: "finite (A :: risk_result set)"
proof (rule finite_subset)
  show "A \<subseteq> {APPROVED, REJECTED_POSITION, REJECTED_SIZE, REJECTED_PRICE, REJECTED_RATE, REJECTED_LOSS, REJECTED_OPEN_ORDERS}"
    using risk_result.exhaust by blast
qed simp

text \<open>The verdict is the breach that is checked first.\<close>

definition first_breach ::
  "risk_cfg \<Rightarrow> position_tracker \<Rightarrow> nanos \<Rightarrow> double \<Rightarrow> double \<Rightarrow> double \<Rightarrow> risk_manager \<Rightarrow> risk_result" where
  "first_breach rc pt now qty price mid rm =
     (let bs = Collect (breach rc pt now qty price mid rm) in if bs = {} then APPROVED else Min bs)"

lemma risk_verdict_first: "fst (risk_verdict rc pt now qty price mid rm) = first_breach rc pt now qty price mid rm"
proof -
  let ?B = "breach rc pt now qty price mid rm" and ?v = "fst (risk_verdict rc pt now qty price mid rm)"
  have first: "?v \<le> r" if "?B r" for r
    using that by (cases r) (auto simp: risk_verdict_def Let_def less_eq_risk_result_def)
  have hit: "?B ?v" if "?v \<noteq> APPROVED"
    using that by (auto simp: risk_verdict_def Let_def split: if_splits)
  show ?thesis
  proof (cases "?v = APPROVED")
    case True
    have "\<not> ?B r" for r
      using True by (cases r) (auto simp: risk_verdict_def Let_def split: if_splits)
    with True show ?thesis
      by (simp add: first_breach_def)
  next
    case False
    then have "Min (Collect ?B) = ?v"
      using first hit by (intro Min_eqI finite_risk_results) auto
    with hit False show ?thesis
      by (auto simp: first_breach_def)
  qed
qed

lemma risk_verdict_APPROVED:
  "fst (risk_verdict rc pt now qty price mid rm) = APPROVED \<longleftrightarrow> within_limits rc pt now qty price mid rm"
  by (auto simp: risk_verdict_def within_limits_def Let_def not_less)

lemma risk_verdict_frame [simp, frame]:
  "rm_cancel_times (snd (risk_verdict rc pt now qty price mid rm)) = rm_cancel_times rm"
  "rm_rejection_times (snd (risk_verdict rc pt now qty price mid rm)) = rm_rejection_times rm"
  "rm_open_order_count (snd (risk_verdict rc pt now qty price mid rm)) = rm_open_order_count rm"
  by (simp_all add: risk_verdict_def Let_def)

lemma risk_verdict_orders:
  "rm_order_times (snd (risk_verdict rc pt now qty price mid rm)) =
     (if fst (risk_verdict rc pt now qty price mid rm) \<in> {REJECTED_POSITION, REJECTED_SIZE, REJECTED_PRICE}
      then rm_order_times rm else purge (now - kRateWindow) (rm_order_times rm))"
  by (simp add: risk_verdict_def Let_def)

lemma pre_trade_check_result:
  "fst (pre_trade_check rc pt qty price mid (rm, ck, db)) =
     fst (risk_verdict rc pt (steady_now ck) qty price mid rm)"
  by (simp add: pre_trade_check_def Let_def split: prod.split)

lemma pre_trade_check_rm:
  "fst (snd (pre_trade_check rc pt qty price mid (rm, ck, db))) =
     (let (result, rm') = risk_verdict rc pt (steady_now ck) qty price mid rm
      in if result = APPROVED then rm' else record_rejection (steady_now ck) rm')"
  by (simp add: pre_trade_check_def Let_def split: prod.split)

lemma pre_trade_check_open_orders [simp, frame]:
  "rm_open_order_count (fst (snd (pre_trade_check rc pt qty price mid (rm, ck, db)))) = rm_open_order_count rm"
  by (simp add: pre_trade_check_rm record_rejection_def case_prod_beta)

lemma pre_trade_check_db:
  "snd (snd (snd (pre_trade_check rc pt qty price mid (rm, ck, db)))) =
     (let result = fst (pre_trade_check rc pt qty price mid (rm, ck, db))
      in if result = APPROVED then db
         else db_push (rejection_event pt (rm_open_order_count rm) (wall_ns (clock_tick ck)) result qty price mid) db)"
  by (simp add: pre_trade_check_def Let_def split: prod.split)


section \<open>The windows over a history of calls\<close>

text \<open>
  What the engine does to its risk manager, in any order.  The two lists are history variables: the
  times of all submissions and of all rejections.
\<close>

datatype risk_op =
    RSubmit
  | RCancel
  | RCheck position_tracker double double double
  | RCountRejections
  | ROpenOrders int

record risk_run =
  rr_rm :: risk_manager
  rr_clock :: clock
  rr_db :: db_ring
  rr_submitted :: "nanos list"
  rr_cancelled :: "nanos list"
  rr_rejected :: "nanos list"

definition risk_start :: "clock \<Rightarrow> db_ring \<Rightarrow> risk_run" where
  "risk_start ck db = \<lparr>rr_rm = risk_init, rr_clock = ck, rr_db = db,
     rr_submitted = [], rr_cancelled = [], rr_rejected = []\<rparr>"

fun risk_step :: "risk_cfg \<Rightarrow> risk_op \<Rightarrow> risk_run \<Rightarrow> risk_run" where
  "risk_step rc RSubmit s =
     (let (rm, ck) = record_submission (rr_rm s, rr_clock s)
      in s\<lparr>rr_rm := rm, rr_clock := ck, rr_submitted := rr_submitted s @ [steady_now (rr_clock s)]\<rparr>)"
| "risk_step rc RCancel s =
     (let (rm, ck) = record_cancel (rr_rm s, rr_clock s)
      in s\<lparr>rr_rm := rm, rr_clock := ck, rr_cancelled := rr_cancelled s @ [steady_now (rr_clock s)]\<rparr>)"
| "risk_step rc (RCheck pt qty price mid) s =
     (let (result, rm, ck, db) = pre_trade_check rc pt qty price mid (rr_rm s, rr_clock s, rr_db s)
      in s\<lparr>rr_rm := rm, rr_clock := ck, rr_db := db,
           rr_rejected := rr_rejected s @ (if result = APPROVED then [] else [steady_now (rr_clock s)])\<rparr>)"
| "risk_step rc RCountRejections s =
     (let (n, rm) = consecutive_rejections_in_window (steady_now (rr_clock s)) (rr_rm s)
      in s\<lparr>rr_rm := rm, rr_clock := clock_tick (rr_clock s)\<rparr>)"
| "risk_step rc (ROpenOrders n) s = s\<lparr>rr_rm := set_open_order_count n (rr_rm s)\<rparr>"

text \<open>\<open>steady_clock\<close> never goes back.\<close>

definition steady_mono :: "clock \<Rightarrow> bool" where
  "steady_mono ck \<longleftrightarrow> (\<forall>i j. i \<le> j \<longrightarrow> ck_steady ck i \<le> ck_steady ck j)"

definition risk_run_ok :: "risk_run \<Rightarrow> bool" where
  "risk_run_ok s \<longleftrightarrow>
     steady_mono (rr_clock s) \<and>
     window_tracks kRateWindow (rr_submitted s) (rm_order_times (rr_rm s)) (steady_now (rr_clock s)) \<and>
     window_tracks kRateWindow (rr_cancelled s) (rm_cancel_times (rr_rm s)) (steady_now (rr_clock s)) \<and>
     window_tracks kRejectionWindow (rr_rejected s) (rm_rejection_times (rr_rm s)) (steady_now (rr_clock s))"

lemma steady_mono_tick [simp]: "steady_mono (clock_tick ck) = steady_mono ck"
  by (simp add: steady_mono_def clock_tick_def)

lemma steady_now_tick: "steady_mono ck \<Longrightarrow> steady_now ck \<le> steady_now (clock_tick ck)"
  by (simp add: steady_mono_def clock_tick_def steady_now_def)

lemma window_tracks_record:
  assumes "window_tracks w hist q now"
  shows "window_tracks w (hist @ [now]) (purge (now - w) q @ [now]) now"
  using window_tracks_add [OF window_tracks_purge [OF assms order_refl]] .

lemma pre_trade_check_clock:
  "fst (snd (snd (pre_trade_check rc pt qty price mid (rm, ck, db)))) \<in> {clock_tick ck, clock_tick (clock_tick ck)}"
  by (simp add: pre_trade_check_def Let_def split: prod.split)

lemma pre_trade_check_windows:
  assumes "risk_run_ok s"
  shows "risk_run_ok (risk_step rc (RCheck pt qty price mid) s)"
proof -
  let ?now = "steady_now (rr_clock s)"
  obtain result rm1 where v: "risk_verdict rc pt ?now qty price mid (rr_rm s) = (result, rm1)"
    by fastforce
  define rm2 where "rm2 = (if result = APPROVED then rm1 else record_rejection ?now rm1)"
  obtain ck db where pc: "pre_trade_check rc pt qty price mid (rr_rm s, rr_clock s, rr_db s) =
      (result, rm2, ck, db)" "ck \<in> {clock_tick (rr_clock s), clock_tick (clock_tick (rr_clock s))}"
    using pre_trade_check_result [of rc pt qty price mid "rr_rm s" "rr_clock s" "rr_db s"]
      pre_trade_check_rm [of rc pt qty price mid "rr_rm s" "rr_clock s" "rr_db s"]
      pre_trade_check_clock [of rc pt qty price mid "rr_rm s" "rr_clock s" "rr_db s"]
    by (cases "pre_trade_check rc pt qty price mid (rr_rm s, rr_clock s, rr_db s)") (auto simp: v rm2_def)
  have mono: "steady_mono (rr_clock s)"
    using assms by (simp add: risk_run_ok_def)
  then have later: "steady_mono ck" "?now \<le> steady_now ck"
    using pc(2) steady_now_tick [of "rr_clock s"] steady_now_tick [of "clock_tick (rr_clock s)"] by auto
  note w = assms [unfolded risk_run_ok_def]
  have "window_tracks kRateWindow (rr_submitted s) (rm_order_times rm2) ?now"
    using risk_verdict_orders [of rc pt ?now qty price mid "rr_rm s"] w
    by (auto simp: v rm2_def record_rejection_def intro: window_tracks_purge split: if_splits)
  moreover have "window_tracks kRateWindow (rr_cancelled s) (rm_cancel_times rm2) ?now"
    using risk_verdict_frame(1) [of rc pt ?now qty price mid "rr_rm s"] w
    by (simp add: v rm2_def record_rejection_def)
  moreover have "window_tracks kRejectionWindow
      (rr_rejected s @ (if result = APPROVED then [] else [?now])) (rm_rejection_times rm2) ?now"
    using risk_verdict_frame(2) [of rc pt ?now qty price mid "rr_rm s"] w
    by (simp add: v rm2_def record_rejection_def window_tracks_record)
  ultimately show ?thesis
    using later by (auto simp: pc(1) risk_run_ok_def intro: window_tracks_later)
qed

lemma risk_step_ok: "risk_run_ok s \<Longrightarrow> risk_run_ok (risk_step rc op s)"
proof (cases op)
  case (RCheck pt qty price mid)
  then show "risk_run_ok s \<Longrightarrow> ?thesis"
    by (simp only: pre_trade_check_windows)
qed (auto simp: risk_run_ok_def record_submission_def record_cancel_def record_in_def Let_def
    set_open_order_count_def consecutive_rejections_in_window_def
    intro: window_tracks_later [OF _ steady_now_tick] window_tracks_record window_tracks_purge)

lemma risk_history_ok: "risk_run_ok s \<Longrightarrow> risk_run_ok (fold (risk_step rc) ops s)"
  by (induction ops arbitrary: s) (simp_all add: risk_step_ok)

lemma risk_start_ok: "steady_mono ck \<Longrightarrow> risk_run_ok (risk_start ck db)"
  by (simp add: risk_run_ok_def risk_start_def risk_init_def)


section \<open>Properties\<close>


text \<open>C19: the rate limit is exact over every history: after any sequence of submissions, cancels,
  checks, rejection counts and open-order updates under a steady clock that never goes back, an
  order that passes the position, size and price guards is rejected for its rate exactly when more
  submissions than the threshold were made in the last 60 seconds, whatever the purges in between
  removed; cancels never count.\<close>

theorem rate_limit_exact:
  fixes rc :: risk_cfg and ops :: "risk_op list" and db :: db_ring
  assumes "steady_mono ck"
  defines "s \<equiv> fold (risk_step rc) ops (risk_start ck db)"
  defines "now \<equiv> steady_now (rr_clock s)"
  shows "fst (pre_trade_check rc pt qty price mid (rr_rm s, rr_clock s, rr_db s)) = REJECTED_RATE \<longleftrightarrow>
    \<bar>pt_inventory pt + qty\<bar> \<le> rk_max_position rc \<and> \<bar>qty\<bar> \<le> rk_max_order_size rc \<and>
    \<not> (0 < mid \<and> rk_price_sanity_pct rc < \<bar>price - mid\<bar> / mid * 100) \<and>
    rk_rate_limit_threshold rc < int (length (filter (\<lambda>t. now - kRateWindow \<le> t) (rr_submitted s)))"
proof -
  have "risk_run_ok s"
    unfolding s_def using risk_start_ok [OF assms(1)] by (rule risk_history_ok)
  then have "length (purge (now - kRateWindow) (rm_order_times (rr_rm s))) =
      length (filter (\<lambda>t. now - kRateWindow \<le> t) (rr_submitted s))"
    unfolding now_def by (intro window_tracks_count) (simp add: risk_run_ok_def)
  then show ?thesis
    unfolding pre_trade_check_result risk_verdict_def Let_def now_def by auto
qed

lemma steady_mono_demo [simp]: "steady_mono demo_clock"
  by (simp add: steady_mono_def demo_clock_def)

definition demo_risk :: risk_cfg where
  "demo_risk = (load_risk toml_empty)\<lparr>rk_rate_limit_threshold := 1, rk_max_order_size := 1, rk_max_position := 2\<rparr>"

theorem rate_limit_exact_witness:
  "fst (pre_trade_check demo_risk tracker_init 1 100 100
     (case fold (risk_step demo_risk) [RSubmit, RSubmit] (risk_start demo_clock None) of
        s \<Rightarrow> (rr_rm s, rr_clock s, rr_db s))) = REJECTED_RATE"
  using rate_limit_exact [OF steady_mono_demo, of demo_risk tracker_init 1 100 100 "[RSubmit, RSubmit]" None]
  by (simp add: demo_risk_def load_risk_def toml_empty_def risk_start_def record_submission_def
      demo_clock_def steady_now_def clock_tick_def tracker_init_def kRateWindow_def sec_ns_def)

text \<open>The count the circuit breaker compares with \<open>max_consecutive_rejections\<close> is the number of all
  rejections of the last 30 seconds over every history under a steady clock that never goes back;
  approvals in between do not reset it.\<close>

theorem rejection_count_exact:
  fixes rc :: risk_cfg and ops :: "risk_op list" and db :: db_ring
  assumes "steady_mono ck"
  defines "s \<equiv> fold (risk_step rc) ops (risk_start ck db)"
  defines "now \<equiv> steady_now (rr_clock s)"
  shows "fst (consecutive_rejections_in_window now (rr_rm s)) =
    int (length (filter (\<lambda>t. now - kRejectionWindow \<le> t) (rr_rejected s)))"
proof -
  have "risk_run_ok s"
    unfolding s_def using risk_start_ok [OF assms(1)] by (rule risk_history_ok)
  then have "length (purge (now - kRejectionWindow) (rm_rejection_times (rr_rm s))) =
      length (filter (\<lambda>t. now - kRejectionWindow \<le> t) (rr_rejected s))"
    unfolding now_def by (intro window_tracks_count) (simp add: risk_run_ok_def)
  then show ?thesis
    by (simp add: consecutive_rejections_in_window_def Let_def)
qed

text \<open>Two rejections with an approval between them count as two.\<close>

theorem rejection_count_exact_witness:
  "case fold (risk_step demo_risk) [RCheck tracker_init 5 100 100, RCheck tracker_init 1 100 100,
       RCheck tracker_init 5 100 100] (risk_start demo_clock None) of
     s \<Rightarrow> rr_rejected s = [0, 2000000] \<and>
       fst (consecutive_rejections_in_window (steady_now (rr_clock s)) (rr_rm s)) = 2"
  using rejection_count_exact [OF steady_mono_demo, of demo_risk "[RCheck tracker_init 5 100 100,
      RCheck tracker_init 1 100 100, RCheck tracker_init 5 100 100]" None]
  by (simp add: demo_risk_def load_risk_def toml_empty_def risk_start_def pre_trade_check_def
      risk_verdict_def record_rejection_def risk_init_def equity_def unrealized_pnl_def purge_def
      demo_clock_def steady_now_def clock_tick_def tracker_init_def kRejectionWindow_def sec_ns_def Let_def)

end
