(* ===== verification/CircuitBreaker.thy ===== *)
theory CircuitBreaker
  imports RiskManager MarketData
begin

text \<open>
  \<open>CircuitBreaker\<close> of \<open>src/src/risk/circuit_breaker.hpp\<close> and \<open>.cpp\<close>: one monitor tick (drawdown,
  unhedged time, daily loss, rejections), the triggers other threads raise, the halt itself and the
  publication of queued triggers on the risk-event ring.
\<close>

section \<open>State and operations\<close>

record pending_trigger =
  pg_trig :: string
  pg_detail :: string
  pg_ts_ns :: u64

record circuit_breaker =
  cb_halted :: bool
  cb_halted_at_ns :: u64
  cb_peak_equity :: double
  cb_inv_started :: bool
  cb_inv_started_at :: nanos
  cb_dd_active :: bool
  cb_unhedged_active :: bool
  cb_rej_active :: bool
  cb_daily_loss_active :: bool
  cb_pending :: "pending_trigger list"
  cb_out_ring :: "byte_msg ring option"

definition breaker_init :: "byte_msg ring option \<Rightarrow> circuit_breaker" where
  "breaker_init out_ring = \<lparr>cb_halted = False, cb_halted_at_ns = 0, cb_peak_equity = 0,
     cb_inv_started = False, cb_inv_started_at = 0, cb_dd_active = False, cb_unhedged_active = False,
     cb_rej_active = False, cb_daily_loss_active = False, cb_pending = [], cb_out_ring = out_ring\<rparr>"

definition kPendingCap :: nat where
  "kPendingCap = 64"

definition kInventoryEpsilon :: double where
  "kInventoryEpsilon = 1 / 10 ^ 6"

text \<open>The breaker with the clock and the database ring its operations use.\<close>

type_synonym breaker_state = "circuit_breaker \<times> clock \<times> db_ring"

definition set_halt_synchronously :: "string \<Rightarrow> string \<Rightarrow> u64 \<Rightarrow> breaker_state \<Rightarrow> breaker_state" where
  "set_halt_synchronously trig detail ts_ns s =
     (case s of (cb, ck, db) \<Rightarrow>
       let cb = (if cb_halted cb then cb else cb\<lparr>cb_halted := True, cb_halted_at_ns := ts_ns\<rparr>)
       in (cb, ck, db_push (system_event ts_ns ''critical'' ''circuit_breaker'' trig detail) db))"

definition enqueue :: "string \<Rightarrow> string \<Rightarrow> u64 \<Rightarrow> breaker_state \<Rightarrow> breaker_state" where
  "enqueue trig detail ts_ns s =
     (case s of (cb, ck, db) \<Rightarrow>
       if length (cb_pending cb) < kPendingCap
       then (cb\<lparr>cb_pending := cb_pending cb @ [\<lparr>pg_trig = trig, pg_detail = detail, pg_ts_ns = ts_ns\<rparr>]\<rparr>, ck, db)
       else s)"

text \<open>
  \<open>set_halt_synchronously(trig, detail, now_ns_wall()); enqueue(trig, detail, now_ns_wall());\<close>
\<close>

definition trip :: "string \<Rightarrow> string \<Rightarrow> breaker_state \<Rightarrow> breaker_state" where
  "trip trig detail s =
     (let (cb, ck, db) = s;
          (cb, ck, db) = set_halt_synchronously trig detail (wall_ns ck) (cb, clock_tick ck, db)
      in enqueue trig detail (wall_ns ck) (cb, clock_tick ck, db))"

definition check_drawdown :: "risk_cfg \<Rightarrow> position_tracker \<Rightarrow> breaker_state \<Rightarrow> breaker_state" where
  "check_drawdown rc pt s =
     (case s of (cb, ck, db) \<Rightarrow>
       let eq = equity pt;
           cb = (if cb_peak_equity cb < eq then cb\<lparr>cb_peak_equity := eq\<rparr> else cb);
           peak = cb_peak_equity cb
       in if rk_drawdown_min_equity rc < peak then
            if rk_max_drawdown_pct rc < (peak - eq) / peak * 100 then
              if \<not> cb_dd_active cb then
                trip ''drawdown'' (''peak='' @ to_string_f peak @ '' current='' @ to_string_f eq)
                  (cb\<lparr>cb_dd_active := True\<rparr>, ck, db)
              else (cb, ck, db)
            else (cb\<lparr>cb_dd_active := False\<rparr>, ck, db)
          else (cb, ck, db))"

definition check_unhedged :: "risk_cfg \<Rightarrow> position_tracker \<Rightarrow> nanos \<Rightarrow> breaker_state \<Rightarrow> breaker_state" where
  "check_unhedged rc pt now s =
     (case s of (cb, ck, db) \<Rightarrow>
       let pos = pt_inventory pt in
       if kInventoryEpsilon < \<bar>pos\<bar> then
         if \<not> cb_inv_started cb then (cb\<lparr>cb_inv_started := True, cb_inv_started_at := now\<rparr>, ck, db)
         else
           let elapsed_ms = ns_to_ms (now - cb_inv_started_at cb);
               limit_ms = rk_max_unhedged_seconds rc * 1000
           in if limit_ms < elapsed_ms \<and> \<not> cb_unhedged_active cb then
                trip ''unhedged'' (''inv='' @ to_string_f pos @ '' ms='' @ dec_int elapsed_ms)
                  (cb\<lparr>cb_unhedged_active := True\<rparr>, ck, db)
              else (cb, ck, db)
       else (cb\<lparr>cb_inv_started := False, cb_unhedged_active := False\<rparr>, ck, db))"

definition check_daily_loss :: "risk_cfg \<Rightarrow> position_tracker \<Rightarrow> breaker_state \<Rightarrow> breaker_state" where
  "check_daily_loss rc pt s =
     (case s of (cb, ck, db) \<Rightarrow>
       let pnl = equity pt in
       if pnl \<le> - rk_max_daily_loss rc then
         if \<not> cb_daily_loss_active cb then
           trip ''daily_loss'' (''pnl='' @ to_string_f pnl @ '' limit='' @ to_string_f (rk_max_daily_loss rc))
             (cb\<lparr>cb_daily_loss_active := True\<rparr>, ck, db)
         else (cb, ck, db)
       else (cb\<lparr>cb_daily_loss_active := False\<rparr>, ck, db))"

definition check_rejections :: "risk_cfg \<Rightarrow> int \<Rightarrow> breaker_state \<Rightarrow> breaker_state" where
  "check_rejections rc rej s =
     (case s of (cb, ck, db) \<Rightarrow>
       if rk_max_consecutive_rejections rc < rej then
         if \<not> cb_rej_active cb then
           trip ''consecutive_rejections'' (''count='' @ dec_int rej)
             (cb\<lparr>cb_rej_active := True\<rparr>, ck, db)
         else (cb, ck, db)
       else (cb\<lparr>cb_rej_active := False\<rparr>, ck, db))"

text \<open>The FlatBuffers encoder of \<open>RiskEvent\<close> is \<open>enc\<close>.\<close>

definition halt_event :: "pending_trigger \<Rightarrow> risk_event" where
  "halt_event p = \<lparr>re_event_type = ''halt'', re_trigger = pg_trig p, re_detail = pg_detail p,
     re_timestamp_ns = pg_ts_ns p\<rparr>"

definition publish_pending :: "(risk_event \<Rightarrow> u8 list) \<Rightarrow> circuit_breaker \<Rightarrow> circuit_breaker" where
  "publish_pending enc cb =
     (let local = cb_pending cb;
          cb = cb\<lparr>cb_pending := []\<rparr>
      in if cb_out_ring cb = None \<or> local = [] then cb
         else
           cb\<lparr>cb_out_ring := fold (\<lambda>p ring.
                 case fill_msg (enc (halt_event p)) of
                   None \<Rightarrow> ring
                 | Some msg \<Rightarrow> push_or_warn msg ring) local (cb_out_ring cb)\<rparr>)"

definition do_tick ::
  "(risk_event \<Rightarrow> u8 list) \<Rightarrow> risk_cfg \<Rightarrow> position_tracker \<Rightarrow> nanos
     \<Rightarrow> risk_manager \<times> breaker_state \<Rightarrow> risk_manager \<times> breaker_state" where
  "do_tick enc rc pt now s =
     (let (rm, st) = s;
          st = check_drawdown rc pt st;
          st = check_unhedged rc pt now st;
          st = check_daily_loss rc pt st;
          (rej, rm) = consecutive_rejections_in_window now rm;
          (cb, ck, db) = check_rejections rc rej st
      in (rm, publish_pending enc cb, ck, db))"

text \<open>One round of \<open>monitor_loop\<close>, and \<open>tick_for_test\<close>: the tick at the steady clock's reading.\<close>

definition tick_now ::
  "(risk_event \<Rightarrow> u8 list) \<Rightarrow> risk_cfg \<Rightarrow> position_tracker
     \<Rightarrow> risk_manager \<times> breaker_state \<Rightarrow> risk_manager \<times> breaker_state" where
  "tick_now enc rc pt s =
     (let (rm, cb, ck, db) = s in do_tick enc rc pt (steady_now ck) (rm, cb, clock_tick ck, db))"

definition notify :: "string \<Rightarrow> string \<Rightarrow> breaker_state \<Rightarrow> breaker_state" where
  "notify trig detail s =
     (let (cb, ck, db) = s; ts = wall_ns ck
      in enqueue trig detail ts (set_halt_synchronously trig detail ts (cb, clock_tick ck, db)))"

definition notify_ws_disconnect_exhausted :: "breaker_state \<Rightarrow> breaker_state" where
  "notify_ws_disconnect_exhausted s = notify ''ws_disconnect'' ''reconnect_exhausted'' s"

definition notify_exception :: "string \<Rightarrow> breaker_state \<Rightarrow> breaker_state" where
  "notify_exception detail s = notify ''exception'' detail s"


section \<open>What each part of a tick does\<close>

lemma trip_fields [simp]:
  "cb_halted (fst (trip trig detail (cb, ck, db)))"
  "cb_halted_at_ns (fst (trip trig detail (cb, ck, db))) =
     (if cb_halted cb then cb_halted_at_ns cb else wall_ns ck)"
  "cb_peak_equity (fst (trip trig detail (cb, ck, db))) = cb_peak_equity cb"
  "cb_inv_started (fst (trip trig detail (cb, ck, db))) = cb_inv_started cb"
  "cb_inv_started_at (fst (trip trig detail (cb, ck, db))) = cb_inv_started_at cb"
  "cb_dd_active (fst (trip trig detail (cb, ck, db))) = cb_dd_active cb"
  "cb_unhedged_active (fst (trip trig detail (cb, ck, db))) = cb_unhedged_active cb"
  "cb_rej_active (fst (trip trig detail (cb, ck, db))) = cb_rej_active cb"
  "cb_daily_loss_active (fst (trip trig detail (cb, ck, db))) = cb_daily_loss_active cb"
  "cb_out_ring (fst (trip trig detail (cb, ck, db))) = cb_out_ring cb"
  by (simp_all add: trip_def set_halt_synchronously_def enqueue_def)

lemma notify_fields [simp]:
  "cb_halted (fst (notify trig detail (cb, ck, db)))"
  "cb_halted_at_ns (fst (notify trig detail (cb, ck, db))) =
     (if cb_halted cb then cb_halted_at_ns cb else wall_ns ck)"
  "cb_peak_equity (fst (notify trig detail (cb, ck, db))) = cb_peak_equity cb"
  "cb_dd_active (fst (notify trig detail (cb, ck, db))) = cb_dd_active cb"
  "cb_unhedged_active (fst (notify trig detail (cb, ck, db))) = cb_unhedged_active cb"
  "cb_rej_active (fst (notify trig detail (cb, ck, db))) = cb_rej_active cb"
  "cb_daily_loss_active (fst (notify trig detail (cb, ck, db))) = cb_daily_loss_active cb"
  by (simp_all add: notify_def set_halt_synchronously_def enqueue_def Let_def)

lemma publish_pending_frame [simp, frame]:
  "cb_halted (publish_pending enc cb) = cb_halted cb"
  "cb_halted_at_ns (publish_pending enc cb) = cb_halted_at_ns cb"
  "cb_peak_equity (publish_pending enc cb) = cb_peak_equity cb"
  "cb_dd_active (publish_pending enc cb) = cb_dd_active cb"
  "cb_unhedged_active (publish_pending enc cb) = cb_unhedged_active cb"
  "cb_rej_active (publish_pending enc cb) = cb_rej_active cb"
  "cb_daily_loss_active (publish_pending enc cb) = cb_daily_loss_active cb"
  "cb_inv_started (publish_pending enc cb) = cb_inv_started cb"
  "cb_inv_started_at (publish_pending enc cb) = cb_inv_started_at cb"
  "cb_pending (publish_pending enc cb) = []"
  by (simp_all add: publish_pending_def Let_def)

text \<open>A latch can only be set by a trigger, and a trigger halts.\<close>

definition latches_ok :: "circuit_breaker \<Rightarrow> bool" where
  "latches_ok cb \<longleftrightarrow>
     (cb_dd_active cb \<or> cb_unhedged_active cb \<or> cb_rej_active cb \<or> cb_daily_loss_active cb \<longrightarrow> cb_halted cb)"

definition drawdown_breach :: "risk_cfg \<Rightarrow> position_tracker \<Rightarrow> double \<Rightarrow> bool" where
  "drawdown_breach rc pt peak0 \<longleftrightarrow>
     (let peak = max peak0 (equity pt) in
      rk_drawdown_min_equity rc < peak \<and> rk_max_drawdown_pct rc < (peak - equity pt) / peak * 100)"

definition unhedged_breach :: "risk_cfg \<Rightarrow> position_tracker \<Rightarrow> nanos \<Rightarrow> circuit_breaker \<Rightarrow> bool" where
  "unhedged_breach rc pt now cb \<longleftrightarrow>
     kInventoryEpsilon < \<bar>pt_inventory pt\<bar> \<and> cb_inv_started cb \<and>
     rk_max_unhedged_seconds rc * 1000 < ns_to_ms (now - cb_inv_started_at cb)"

definition loss_breach :: "risk_cfg \<Rightarrow> position_tracker \<Rightarrow> bool" where
  "loss_breach rc pt \<longleftrightarrow> equity pt \<le> - rk_max_daily_loss rc"

lemma check_drawdown_spec:
  assumes "latches_ok cb" and "check_drawdown rc pt (cb, ck, db) = (cb', st)"
  shows "latches_ok cb'" "cb_halted cb' \<longleftrightarrow> cb_halted cb \<or> drawdown_breach rc pt (cb_peak_equity cb)"
    "cb_peak_equity cb' = max (cb_peak_equity cb) (equity pt)"
    "cb_inv_started cb' = cb_inv_started cb" "cb_inv_started_at cb' = cb_inv_started_at cb"
    "cb_halted cb \<Longrightarrow> cb_halted_at_ns cb' = cb_halted_at_ns cb"
proof -
  have "cb' = fst (check_drawdown rc pt (cb, ck, db))"
    using assms(2) by simp
  note cb'_def = this
  show "latches_ok cb'" "cb_halted cb' \<longleftrightarrow> cb_halted cb \<or> drawdown_breach rc pt (cb_peak_equity cb)"
    "cb_peak_equity cb' = max (cb_peak_equity cb) (equity pt)"
    "cb_inv_started cb' = cb_inv_started cb" "cb_inv_started_at cb' = cb_inv_started_at cb"
    "cb_halted cb \<Longrightarrow> cb_halted_at_ns cb' = cb_halted_at_ns cb"
    using assms(1) by (auto simp: cb'_def check_drawdown_def drawdown_breach_def latches_ok_def Let_def max_def)
qed

lemma check_unhedged_spec:
  assumes "latches_ok cb" and "check_unhedged rc pt now (cb, ck, db) = (cb', st)"
  shows "latches_ok cb'" "cb_halted cb' \<longleftrightarrow> cb_halted cb \<or> unhedged_breach rc pt now cb"
    "cb_peak_equity cb' = cb_peak_equity cb"
    "cb_halted cb \<Longrightarrow> cb_halted_at_ns cb' = cb_halted_at_ns cb"
proof -
  have "cb' = fst (check_unhedged rc pt now (cb, ck, db))"
    using assms(2) by simp
  note cb'_def = this
  show "latches_ok cb'" "cb_halted cb' \<longleftrightarrow> cb_halted cb \<or> unhedged_breach rc pt now cb"
    "cb_peak_equity cb' = cb_peak_equity cb"
    "cb_halted cb \<Longrightarrow> cb_halted_at_ns cb' = cb_halted_at_ns cb"
    using assms(1) by (auto simp: cb'_def check_unhedged_def unhedged_breach_def latches_ok_def Let_def)
qed

lemma check_daily_loss_spec:
  assumes "latches_ok cb" and "check_daily_loss rc pt (cb, ck, db) = (cb', st)"
  shows "latches_ok cb'" "cb_halted cb' \<longleftrightarrow> cb_halted cb \<or> loss_breach rc pt"
    "cb_peak_equity cb' = cb_peak_equity cb"
    "cb_halted cb \<Longrightarrow> cb_halted_at_ns cb' = cb_halted_at_ns cb"
proof -
  have "cb' = fst (check_daily_loss rc pt (cb, ck, db))"
    using assms(2) by simp
  note cb'_def = this
  show "latches_ok cb'" "cb_halted cb' \<longleftrightarrow> cb_halted cb \<or> loss_breach rc pt"
    "cb_peak_equity cb' = cb_peak_equity cb"
    "cb_halted cb \<Longrightarrow> cb_halted_at_ns cb' = cb_halted_at_ns cb"
    using assms(1) by (auto simp: cb'_def check_daily_loss_def loss_breach_def latches_ok_def Let_def)
qed

lemma check_rejections_spec:
  assumes "latches_ok cb" and "check_rejections rc rej (cb, ck, db) = (cb', st)"
  shows "latches_ok cb'" "cb_halted cb' \<longleftrightarrow> cb_halted cb \<or> rk_max_consecutive_rejections rc < rej"
    "cb_peak_equity cb' = cb_peak_equity cb"
    "cb_halted cb \<Longrightarrow> cb_halted_at_ns cb' = cb_halted_at_ns cb"
proof -
  have "cb' = fst (check_rejections rc rej (cb, ck, db))"
    using assms(2) by simp
  note cb'_def = this
  show "latches_ok cb'" "cb_halted cb' \<longleftrightarrow> cb_halted cb \<or> rk_max_consecutive_rejections rc < rej"
    "cb_peak_equity cb' = cb_peak_equity cb"
    "cb_halted cb \<Longrightarrow> cb_halted_at_ns cb' = cb_halted_at_ns cb"
    using assms(1) by (auto simp: cb'_def check_rejections_def latches_ok_def Let_def)
qed

definition tick_breach :: "risk_cfg \<Rightarrow> position_tracker \<Rightarrow> nanos \<Rightarrow> risk_manager \<Rightarrow> circuit_breaker \<Rightarrow> bool" where
  "tick_breach rc pt now rm cb \<longleftrightarrow>
     drawdown_breach rc pt (cb_peak_equity cb) \<or> unhedged_breach rc pt now cb \<or> loss_breach rc pt \<or>
     rk_max_consecutive_rejections rc < fst (consecutive_rejections_in_window now rm)"

lemma do_tick_spec:
  assumes "latches_ok cb" and "do_tick enc rc pt now (rm, cb, ck, db) = (rm', cb', st)"
  shows "latches_ok cb'" "cb_halted cb' \<longleftrightarrow> cb_halted cb \<or> tick_breach rc pt now rm cb"
    "cb_peak_equity cb' = max (cb_peak_equity cb) (equity pt)"
    "cb_halted cb \<Longrightarrow> cb_halted_at_ns cb' = cb_halted_at_ns cb"
    "cb_pending cb' = []"
proof -
  obtain cb1 ck1 db1 where 1: "check_drawdown rc pt (cb, ck, db) = (cb1, ck1, db1)"
    using prod_cases3 by blast
  note s1 = check_drawdown_spec [OF assms(1) 1]
  obtain cb2 ck2 db2 where 2: "check_unhedged rc pt now (cb1, ck1, db1) = (cb2, ck2, db2)"
    using prod_cases3 by blast
  note s2 = check_unhedged_spec [OF s1(1) 2]
  obtain cb3 ck3 db3 where 3: "check_daily_loss rc pt (cb2, ck2, db2) = (cb3, ck3, db3)"
    using prod_cases3 by blast
  note s3 = check_daily_loss_spec [OF s2(1) 3]
  obtain rej rm1 where r: "consecutive_rejections_in_window now rm = (rej, rm1)"
    by fastforce
  obtain cb4 ck4 db4 where 4: "check_rejections rc rej (cb3, ck3, db3) = (cb4, ck4, db4)"
    using prod_cases3 by blast
  note s4 = check_rejections_spec [OF s3(1) 4]
  have cb': "cb' = publish_pending enc cb4"
    using assms(2) by (simp add: do_tick_def 1 2 3 4 r)
  have "unhedged_breach rc pt now cb1 = unhedged_breach rc pt now cb"
    by (simp add: unhedged_breach_def s1)
  then show "latches_ok cb'" "cb_halted cb' \<longleftrightarrow> cb_halted cb \<or> tick_breach rc pt now rm cb"
    "cb_peak_equity cb' = max (cb_peak_equity cb) (equity pt)"
    "cb_halted cb \<Longrightarrow> cb_halted_at_ns cb' = cb_halted_at_ns cb"
    "cb_pending cb' = []"
    using s1 s2 s3 s4 by (auto simp: cb' r tick_breach_def latches_ok_def)
qed


section \<open>Histories\<close>

text \<open>Monitor ticks, with the position and risk manager they read, and triggers from other threads.\<close>

datatype breaker_op =
    CTick position_tracker risk_manager
  | CWsExhausted
  | CException string

fun breaker_step ::
  "(risk_event \<Rightarrow> u8 list) \<Rightarrow> risk_cfg \<Rightarrow> breaker_op \<Rightarrow> breaker_state \<Rightarrow> breaker_state" where
  "breaker_step enc rc (CTick pt rm) s = snd (tick_now enc rc pt (rm, s))"
| "breaker_step enc rc CWsExhausted s = notify_ws_disconnect_exhausted s"
| "breaker_step enc rc (CException detail) s = notify_exception detail s"

fun op_peak :: "breaker_op \<Rightarrow> double \<Rightarrow> double" where
  "op_peak (CTick pt rm) m = max m (equity pt)"
| "op_peak _ m = m"

lemma breaker_step_spec:
  assumes "latches_ok cb" and "breaker_step enc rc op (cb, ck, db) = (cb', st)"
  shows "latches_ok cb'" "cb_peak_equity cb' = op_peak op (cb_peak_equity cb)"
    "cb_halted cb \<Longrightarrow> cb_halted cb' \<and> cb_halted_at_ns cb' = cb_halted_at_ns cb"
proof -
  have "latches_ok cb' \<and> cb_peak_equity cb' = op_peak op (cb_peak_equity cb) \<and>
    (cb_halted cb \<longrightarrow> cb_halted cb' \<and> cb_halted_at_ns cb' = cb_halted_at_ns cb)"
  proof (cases op)
    case (CTick pt rm)
    then obtain rm' where "do_tick enc rc pt (steady_now ck) (rm, cb, clock_tick ck, db) = (rm', cb', st)"
      using assms(2) by (simp add: tick_now_def) (metis prod.collapse)
    from do_tick_spec [OF assms(1) this] CTick show ?thesis
      by auto
  next
    case CWsExhausted
    then have "cb' = fst (notify ''ws_disconnect'' ''reconnect_exhausted'' (cb, ck, db))"
      using assms(2) by (simp add: notify_ws_disconnect_exhausted_def)
    with CWsExhausted show ?thesis
      by (simp add: latches_ok_def)
  next
    case (CException detail)
    then have "cb' = fst (notify ''exception'' detail (cb, ck, db))"
      using assms(2) by (simp add: notify_exception_def)
    with CException show ?thesis
      by (simp add: latches_ok_def)
  qed
  then show "latches_ok cb'" "cb_peak_equity cb' = op_peak op (cb_peak_equity cb)"
    "cb_halted cb \<Longrightarrow> cb_halted cb' \<and> cb_halted_at_ns cb' = cb_halted_at_ns cb"
    by blast+
qed

lemma breaker_run_spec:
  assumes "latches_ok cb" and "fold (breaker_step enc rc) ops (cb, ck, db) = (cb', st)"
  shows "latches_ok cb'" "cb_peak_equity cb' = fold op_peak ops (cb_peak_equity cb)"
    "cb_halted cb \<Longrightarrow> cb_halted cb' \<and> cb_halted_at_ns cb' = cb_halted_at_ns cb"
proof -
  have "latches_ok cb' \<and> cb_peak_equity cb' = fold op_peak ops (cb_peak_equity cb) \<and>
    (cb_halted cb \<longrightarrow> cb_halted cb' \<and> cb_halted_at_ns cb' = cb_halted_at_ns cb)"
    using assms
  proof (induction ops arbitrary: cb ck db)
    case (Cons op ops)
    obtain cb1 ck1 db1 where 1: "breaker_step enc rc op (cb, ck, db) = (cb1, ck1, db1)"
      using prod_cases3 by blast
    note s1 = breaker_step_spec [OF Cons.prems(1) 1]
    have "fold (breaker_step enc rc) ops (cb1, ck1, db1) = (cb', st)"
      using Cons.prems(2) 1 by simp
    from Cons.IH [OF s1(1) this] s1 show ?case
      by auto
  qed simp
  then show "latches_ok cb'" "cb_peak_equity cb' = fold op_peak ops (cb_peak_equity cb)"
    "cb_halted cb \<Longrightarrow> cb_halted cb' \<and> cb_halted_at_ns cb' = cb_halted_at_ns cb"
    by blast+
qed

lemma latches_ok_init [simp]: "latches_ok (breaker_init ring)" "cb_peak_equity (breaker_init ring) = 0"
  by (simp_all add: latches_ok_def breaker_init_def)


section \<open>Publication\<close>

lemma fold_push_items:
  assumes "ring_ok r" and "ring_count r + length ps \<le> ring_capacity r"
    and "\<forall>p \<in> set ps. codec_at enc dec (halt_event p) \<and> length (enc (halt_event p)) \<le> 512"
  shows "\<exists>r' ms. fold (\<lambda>p ring. case fill_msg (enc (halt_event p)) of
      None \<Rightarrow> ring | Some msg \<Rightarrow> push_or_warn msg ring) ps (Some r) = Some r' \<and> ring_ok r' \<and>
      ring_items r' = ring_items r @ ms \<and> map (read_msg dec) ms = map (Some \<circ> halt_event) ps"
  using assms
proof (induction ps arbitrary: r)
  case Nil
  then show ?case by simp
next
  case (Cons p ps)
  obtain m where m: "fill_msg (enc (halt_event p)) = Some m"
    using Cons.prems(3) by (simp add: fill_msg_def)
  then have dec: "read_msg dec m = Some (halt_event p)"
    using read_fill_msg Cons.prems(3) by (metis list.set_intros(1))
  obtain r1 where r1: "ring_push r m = (True, r1)" "ring_ok r1" "ring_items r1 = ring_items r @ [m]"
    "ring_capacity r1 = ring_capacity r"
    using rq.enq_room [OF Cons.prems(1), of m] Cons.prems(2) by auto
  moreover have "ring_count r1 = Suc (ring_count r)"
    using r1(3) length_ring_items [of r1] length_ring_items [of r] by simp
  ultimately obtain r' ms where "fold (\<lambda>p ring. case fill_msg (enc (halt_event p)) of
      None \<Rightarrow> ring | Some msg \<Rightarrow> push_or_warn msg ring) ps (Some r1) = Some r'" "ring_ok r'"
      "ring_items r' = ring_items r1 @ ms" "map (read_msg dec) ms = map (Some \<circ> halt_event) ps"
    using Cons.IH [of r1] Cons.prems by auto
  with r1 m dec show ?case
    by (intro exI [of _ r'] exI [of _ "m # ms"]) simp
qed


section \<open>Properties\<close>


text \<open>A halt is final: once the breaker is halted, no later tick or notification clears it or
  changes the recorded halt time.\<close>

theorem breaker_halt_final:
  assumes "fold (breaker_step enc rc) ops1 (breaker_init ring, ck0, db0) = (cb1, ck1, db1)"
    and "cb_halted cb1"
    and "fold (breaker_step enc rc) ops2 (cb1, ck1, db1) = (cb2, ck2, db2)"
  shows "cb_halted cb2 \<and> cb_halted_at_ns cb2 = cb_halted_at_ns cb1"
  using breaker_run_spec(3) [OF breaker_run_spec(1) [OF latches_ok_init(1) assms(1)] assms(3,2)] .

theorem breaker_halt_final_witness:
  "case fold (breaker_step (\<lambda>_. [1]) demo_risk) [CException ''a'', CTick tracker_init risk_init, CWsExhausted]
     (breaker_init None, demo_clock, None) of (cb, ck, db) \<Rightarrow> cb_halted cb \<and> cb_halted_at_ns cb = 0"
proof -
  obtain cb1 ck1 db1 where 1: "fold (breaker_step (\<lambda>_. [1]) demo_risk) [CException ''a'']
      (breaker_init None, demo_clock, None) = (cb1, ck1, db1)"
    using prod_cases3 by blast
  obtain cb2 ck2 db2 where 2: "fold (breaker_step (\<lambda>_. [1]) demo_risk) [CTick tracker_init risk_init, CWsExhausted]
      (cb1, ck1, db1) = (cb2, ck2, db2)"
    using prod_cases3 by blast
  have "cb1 = fst (notify ''exception'' ''a'' (breaker_init None, demo_clock, None))"
    using 1 by (simp add: notify_exception_def)
  then have "cb_halted cb1 \<and> cb_halted_at_ns cb1 = 0"
    by simp (simp add: breaker_init_def demo_clock_def wall_ns_def wall_now_def)
  with breaker_halt_final [OF 1 _ 2] 1 2 show ?thesis
    by simp
qed

text \<open>Publishing empties the queue of pending triggers and, when the risk-event ring has room for
  them, appends one halt message per trigger in the order they were raised, each decoding to the
  trigger's name, detail and time.\<close>

theorem publish_pending_delivers:
  assumes "cb_out_ring cb = Some r" and "ring_ok r"
    and "ring_count r + length (cb_pending cb) \<le> ring_capacity r"
    and "\<forall>p \<in> set (cb_pending cb). codec_at enc dec (halt_event p) \<and> length (enc (halt_event p)) \<le> 512"
  shows "\<exists>r' ms. cb_out_ring (publish_pending enc cb) = Some r' \<and> ring_items r' = ring_items r @ ms \<and>
    map (read_msg dec) ms = map (Some \<circ> halt_event) (cb_pending cb) \<and>
    cb_pending (publish_pending enc cb) = []"
  using fold_push_items [OF assms(2-4)] assms(1)
  by (cases "cb_pending cb = []") (auto simp: publish_pending_def Let_def)

theorem publish_pending_delivers_witness:
  "\<exists>r' ms. cb_out_ring (publish_pending (\<lambda>_. [1])
       ((breaker_init (Some (ring_init 4 byte_msg0)))\<lparr>cb_pending := [\<lparr>pg_trig = ''x'', pg_detail = ''y'', pg_ts_ns = 3\<rparr>]\<rparr>))
       = Some r' \<and> ring_items r' = ms \<and>
     map (read_msg (\<lambda>_. Some (halt_event \<lparr>pg_trig = ''x'', pg_detail = ''y'', pg_ts_ns = 3\<rparr>))) ms =
       [Some (halt_event \<lparr>pg_trig = ''x'', pg_detail = ''y'', pg_ts_ns = 3\<rparr>)]"
proof -
  let ?p = "\<lparr>pg_trig = ''x'', pg_detail = ''y'', pg_ts_ns = 3\<rparr>"
  let ?cb = "(breaker_init (Some (ring_init 4 byte_msg0)))\<lparr>cb_pending := [?p]\<rparr>"
  have ok: "ring_ok (ring_init 4 byte_msg0)" "ring_items (ring_init 4 byte_msg0) = []"
    using ring_init_ok [of 2 byte_msg0] by simp_all
  have "cb_out_ring ?cb = Some (ring_init 4 byte_msg0)" "cb_pending ?cb = [?p]"
    by (simp_all add: breaker_init_def)
  moreover have "ring_count (ring_init 4 byte_msg0) + 1 \<le> ring_capacity (ring_init 4 byte_msg0)"
    by (simp add: ring_count_def ring_init_def ring_capacity_def)
  ultimately show ?thesis
    using publish_pending_delivers [of ?cb _ "\<lambda>_. [1]" "\<lambda>_. Some (halt_event ?p)"] ok
    by (simp add: codec_at_def)
qed

end
