(* ===== verification/Strategy.thy ===== *)
theory Strategy
  imports RiskManager MarketData
begin

text \<open>
  The quoting strategy (\<open>src/src/strategy/\<close>): \<open>SignalAggregator\<close> decodes market snapshots,
  \<open>SpreadModel\<close> widens and floors the spread, \<open>InventoryManager\<close> leans the quotes, \<open>MarketMaker\<close>
  computes the Avellaneda-Stoikov quote, asks the risk manager about both sides and decides whether
  to send it.
\<close>

section \<open>Signals\<close>

record signals =
  sg_mid :: double
  sg_sigma_sq :: double
  sg_depth_imbalance :: double
  sg_total_depth :: double
  sg_last_trade_price :: double
  sg_last_trade_qty :: double
  sg_realized_vol :: double
  sg_bid_depth_5 :: double
  sg_ask_depth_5 :: double
  sg_valid :: bool

definition signals0 :: signals where
  "signals0 = \<lparr>sg_mid = 0, sg_sigma_sq = 0, sg_depth_imbalance = 0, sg_total_depth = 0,
     sg_last_trade_price = 0, sg_last_trade_qty = 0, sg_realized_vol = 0, sg_bid_depth_5 = 0,
     sg_ask_depth_5 = 0, sg_valid = False\<rparr>"

definition signals_of :: "market_snapshot \<Rightarrow> signals" where
  "signals_of snap =
     (let bid_d = ms_bid_depth_5 snap;
          ask_d = ms_ask_depth_5 snap;
          sum = bid_d + ask_d
      in \<lparr>sg_mid = ms_mid_price snap,
          sg_sigma_sq = ms_volatility snap * ms_volatility snap,
          sg_depth_imbalance = (if 0 < sum then (bid_d - ask_d) / sum else 0),
          sg_total_depth = sum,
          sg_last_trade_price = ms_last_trade_price snap,
          sg_last_trade_qty = ms_last_trade_qty snap,
          sg_realized_vol = ms_volatility snap,
          sg_bid_depth_5 = bid_d,
          sg_ask_depth_5 = ask_d,
          sg_valid = True\<rparr>)"

text \<open>\<open>dec\<close> is the verifier and accessor of the generated FlatBuffers code.\<close>

definition ingest ::
  "(u8 list \<Rightarrow> market_snapshot option) \<Rightarrow> byte_msg \<Rightarrow> signals \<Rightarrow> bool \<times> signals" where
  "ingest dec msg sig =
     (case read_msg dec msg of
        None \<Rightarrow> (False, sig)
      | Some snap \<Rightarrow> (True, signals_of snap))"


section \<open>Spread model\<close>

definition kVolBump :: double where "kVolBump = 125 / 100"
definition kDepthBump :: double where "kDepthBump = 125 / 100"
definition kInvBump :: double where "kInvBump = 125 / 100"

definition minimum_spread :: "strategy_cfg \<Rightarrow> double" where
  "minimum_spread st = max (st_min_tick st * 2) (st_volatility_floor st)"

definition vol_stress :: "strategy_cfg \<Rightarrow> signals \<Rightarrow> bool" where
  "vol_stress st sig \<longleftrightarrow> st_baseline_volatility st * st_vol_widen_multiplier st < sg_realized_vol sig"

definition depth_stress :: "strategy_cfg \<Rightarrow> signals \<Rightarrow> bool" where
  "depth_stress st sig \<longleftrightarrow> 0 < sg_total_depth sig \<and> sg_total_depth sig < st_depth_threshold st"

definition inv_stress :: "strategy_cfg \<Rightarrow> double \<Rightarrow> bool" where
  "inv_stress st current_inventory \<longleftrightarrow>
     0 < st_max_inventory st \<and>
     st_inventory_skew_threshold_pct st / 100 < \<bar>current_inventory\<bar> / st_max_inventory st"

definition widen_factor :: "strategy_cfg \<Rightarrow> signals \<Rightarrow> double \<Rightarrow> double" where
  "widen_factor st sig current_inventory =
     (let f = 1;
          f = (if vol_stress st sig then f * kVolBump else f);
          f = (if depth_stress st sig then f * kDepthBump else f);
          f = (if inv_stress st current_inventory then f * kInvBump else f)
      in f)"

definition final_spread :: "strategy_cfg \<Rightarrow> double \<Rightarrow> signals \<Rightarrow> double \<Rightarrow> double" where
  "final_spread st base_delta sig current_inventory =
     (let widened = base_delta * widen_factor st sig current_inventory
      in max widened (minimum_spread st))"


section \<open>Inventory\<close>

record inventory_manager =
  im_inventory :: double

definition im_apply_fill :: "double \<Rightarrow> inventory_manager \<Rightarrow> inventory_manager" where
  "im_apply_fill signed_qty im = im\<lparr>im_inventory := im_inventory im + signed_qty\<rparr>"

definition im_skew_bps :: "strategy_cfg \<Rightarrow> inventory_manager \<Rightarrow> double" where
  "im_skew_bps st im =
     (if st_max_inventory st \<le> 0 then 0
      else im_inventory im / st_max_inventory st * st_max_skew_bps st)"

definition emergency_unwind :: "strategy_cfg \<Rightarrow> inventory_manager \<Rightarrow> bool" where
  "emergency_unwind st im \<longleftrightarrow>
     (if st_max_inventory st \<le> 0 then False
      else st_emergency_unwind_pct st / 100 \<le> \<bar>im_inventory im\<bar> / st_max_inventory st)"


section \<open>Market maker\<close>

datatype inv_tier = T0 | T1 | T2 | T3
datatype vol_regime = VolLow | VolMid | VolHigh

record quote_state =
  qs_bid_price :: double
  qs_ask_price :: double
  qs_qty :: double
  qs_inventory :: double
  qs_skew_bps :: double
  qs_timestamp_ns :: u64
  qs_valid :: bool

record market_maker =
  mm_last_quote :: quote_state
  mm_last_emit :: nanos
  mm_last_tier :: inv_tier
  mm_last_regime :: vol_regime
  mm_clock_override :: "nanos option"
  mm_out_ring :: "byte_msg ring option"

definition maker_init :: "byte_msg ring option \<Rightarrow> market_maker" where
  "maker_init out_ring =
     \<lparr>mm_last_quote = \<lparr>qs_bid_price = 0, qs_ask_price = 0, qs_qty = 0, qs_inventory = 0,
        qs_skew_bps = 0, qs_timestamp_ns = 0, qs_valid = False\<rparr>,
      mm_last_emit = 0, mm_last_tier = T0, mm_last_regime = VolLow,
      mm_clock_override = None, mm_out_ring = out_ring\<rparr>"

definition classify_inventory :: "strategy_cfg \<Rightarrow> double \<Rightarrow> inv_tier" where
  "classify_inventory st q =
     (if st_max_inventory st \<le> 0 then T0
      else
        let r = \<bar>q\<bar> / st_max_inventory st
        in if r < 1 / 4 then T0 else if r < 1 / 2 then T1 else if r < 3 / 4 then T2 else T3)"

definition classify_vol :: "strategy_cfg \<Rightarrow> double \<Rightarrow> vol_regime" where
  "classify_vol st rv =
     (let base = st_baseline_volatility st;
          mult = st_vol_widen_multiplier st
      in if rv < base then VolLow else if rv < base * mult then VolMid else VolHigh)"

definition should_requote ::
  "strategy_cfg \<Rightarrow> double \<Rightarrow> double \<Rightarrow> inv_tier \<Rightarrow> vol_regime \<Rightarrow> nanos \<Rightarrow> market_maker \<Rightarrow> bool" where
  "should_requote st new_bid new_ask tier regime tp mm =
     (let last = mm_last_quote mm in
      if \<not> qs_valid last then True
      else
        let tick = st_min_tick st;
            thresh = of_int (st_price_move_ticks_threshold st) * tick;
            bid_move = \<bar>new_bid - qs_bid_price last\<bar>;
            ask_move = \<bar>new_ask - qs_ask_price last\<bar>;
            max_move = max bid_move ask_move;
            age_ms = ns_to_ms (tp - mm_last_emit mm);
            force = thresh * 2 < max_move
        in if \<not> force \<and> age_ms < st_min_requote_ms st then False
           else if thresh \<le> max_move then True
           else if tier \<noteq> mm_last_tier mm then True
           else if regime \<noteq> mm_last_regime mm then True
           else if st_quote_lifetime_ms st < age_ms then True
           else False)"

definition make_quote :: "strategy_cfg \<Rightarrow> double \<Rightarrow> double \<Rightarrow> double \<Rightarrow> double \<Rightarrow> nanos \<Rightarrow> quote_update" where
  "make_quote st bid ask q skew tp =
     \<lparr>qu_bid_price = bid, qu_ask_price = ask, qu_qty = st_quote_qty st,
      qu_timestamp_ns = word_of_int tp, qu_inventory = q, qu_skew_bps = skew\<rparr>"

definition emit_quote ::
  "(quote_update \<Rightarrow> u8 list) \<Rightarrow> strategy_cfg \<Rightarrow> double \<Rightarrow> double \<Rightarrow> double \<Rightarrow> double \<Rightarrow> nanos
     \<Rightarrow> market_maker \<Rightarrow> market_maker" where
  "emit_quote enc st bid ask q skew tp mm =
     (let ring = (case fill_msg (enc (make_quote st bid ask q skew tp)) of
            None \<Rightarrow> mm_out_ring mm
          | Some msg \<Rightarrow> push_or_warn msg (mm_out_ring mm))
      in mm\<lparr>mm_out_ring := ring,
            mm_last_quote := \<lparr>qs_bid_price = bid, qs_ask_price = ask, qs_qty = st_quote_qty st,
              qs_inventory = q, qs_skew_bps = skew, qs_timestamp_ns = word_of_int tp, qs_valid = True\<rparr>,
            mm_last_emit := tp\<rparr>)"

text \<open>The bid and the ask: reservation price, spread, skew.\<close>

definition quote_prices :: "strategy_cfg \<Rightarrow> inventory_manager \<Rightarrow> signals \<Rightarrow> double \<times> double" where
  "quote_prices st im sig =
     (let s = sg_mid sig;
          q = im_inventory im;
          gamma = st_gamma st;
          k = st_k st;
          T = st_horizon st;
          sigma_sq = sg_sigma_sq sig;
          r = s - q * gamma * sigma_sq * T;
          base_delta = gamma * sigma_sq * T + (2 / gamma) * ln (1 + gamma / k);
          delta = final_spread st base_delta sig q;
          bid = r - delta / 2;
          ask = r + delta / 2;
          shift = s * (im_skew_bps st im / 10000)
      in (bid - shift, ask - shift))"

text \<open>\<open>now()\<close>: the override of the tests, or a read of the steady clock.\<close>

definition maker_now :: "market_maker \<Rightarrow> clock \<Rightarrow> nanos \<times> clock" where
  "maker_now mm ck =
     (case mm_clock_override mm of
        Some tp \<Rightarrow> (tp, ck)
      | None \<Rightarrow> (steady_now ck, clock_tick ck))"

text \<open>
  \<open>on_signals\<close>.  \<open>halted\<close> is \<open>cb_ && cb_->halted()\<close>; the risk manager is \<open>None\<close> where \<open>risk_\<close> is null,
  and otherwise reads the position tracker \<open>pt\<close>.  Both sides are checked before either verdict is
  looked at.
\<close>

type_synonym maker_state = "market_maker \<times> risk_manager option \<times> clock \<times> db_ring"

definition risk_both ::
  "config \<Rightarrow> position_tracker \<Rightarrow> double \<Rightarrow> double \<Rightarrow> double \<Rightarrow> risk_manager option \<times> clock \<times> db_ring
     \<Rightarrow> bool \<times> risk_manager option \<times> clock \<times> db_ring" where
  "risk_both cfg pt bid ask mid s =
     (case s of
        (None, ck, db) \<Rightarrow> (True, None, ck, db)
      | (Some rm, ck, db) \<Rightarrow>
          let qty = st_quote_qty (c_strategy cfg);
              (br, rm, ck, db) = pre_trade_check (c_risk cfg) pt qty bid mid (rm, ck, db);
              (ar, rm, ck, db) = pre_trade_check (c_risk cfg) pt (- qty) ask mid (rm, ck, db)
          in (br = APPROVED \<and> ar = APPROVED, Some rm, ck, db))"

definition on_signals ::
  "(quote_update \<Rightarrow> u8 list) \<Rightarrow> config \<Rightarrow> inventory_manager \<Rightarrow> position_tracker \<Rightarrow> bool \<Rightarrow> signals
     \<Rightarrow> maker_state \<Rightarrow> bool \<times> maker_state" where
  "on_signals enc cfg im pt halted sig s =
     (let (mm, rm, ck, db) = s; st = c_strategy cfg in
      if \<not> sg_valid sig \<or> sg_mid sig \<le> 0 then (False, s)
      else
        let q = im_inventory im;
            (bid, ask) = quote_prices st im sig;
            skew = im_skew_bps st im;
            (tp, ck) = maker_now mm ck;
            tier = classify_inventory st q;
            regime = classify_vol st (sg_realized_vol sig)
        in if halted then (False, mm, rm, ck, db)
           else
             let (approved, rm, ck, db) = risk_both cfg pt bid ask (sg_mid sig) (rm, ck, db)
             in if \<not> approved then (False, mm, rm, ck, db)
                else if \<not> should_requote st bid ask tier regime tp mm then (False, mm, rm, ck, db)
                else
                  let mm = emit_quote enc st bid ask q skew tp mm
                  in (True, mm\<lparr>mm_last_tier := tier, mm_last_regime := regime\<rparr>, rm, ck, db))"


section \<open>Lemmas\<close>

definition stress_count :: "strategy_cfg \<Rightarrow> signals \<Rightarrow> double \<Rightarrow> nat" where
  "stress_count st sig q =
     of_bool (vol_stress st sig) + of_bool (depth_stress st sig) + of_bool (inv_stress st q)"

lemma widen_factor_power: "widen_factor st sig q = (5 / 4) ^ stress_count st sig q"
  by (simp add: widen_factor_def stress_count_def kVolBump_def kDepthBump_def kInvBump_def Let_def
      power_Suc numeral_2_eq_2 numeral_3_eq_3)

lemma final_spread_ge: "minimum_spread st \<le> final_spread st base sig q"
  by (simp add: final_spread_def Let_def)

lemma quote_prices_spread:
  assumes "quote_prices st im sig = (bid, ask)"
  shows "ask - bid = final_spread st (st_gamma st * sg_sigma_sq sig * st_horizon st +
      (2 / st_gamma st) * ln (1 + st_gamma st / st_k st)) sig (im_inventory im)"
    and "(bid + ask) / 2 = sg_mid sig - im_inventory im * st_gamma st * sg_sigma_sq sig * st_horizon st -
      sg_mid sig * (im_skew_bps st im / 10000)"
  using assms by (auto simp: quote_prices_def Let_def field_simps)

text \<open>The two verdicts, with the state the second check starts from.\<close>

lemma risk_both_None [simp]: "risk_both cfg pt bid ask mid (None, ck, db) = (True, None, ck, db)"
  by (simp add: risk_both_def)

lemma emit_quote_last [simp]:
  "mm_last_quote (emit_quote enc st bid ask q skew tp mm) =
     \<lparr>qs_bid_price = bid, qs_ask_price = ask, qs_qty = st_quote_qty st, qs_inventory = q,
      qs_skew_bps = skew, qs_timestamp_ns = word_of_int tp, qs_valid = True\<rparr>"
  "mm_last_emit (emit_quote enc st bid ask q skew tp mm) = tp"
  by (simp_all add: emit_quote_def Let_def)

lemma emit_quote_ring:
  assumes "fill_msg (enc (make_quote st bid ask q skew tp)) = Some m"
  shows "mm_out_ring (emit_quote enc st bid ask q skew tp mm) = push_or_warn m (mm_out_ring mm)"
  using assms by (simp add: emit_quote_def Let_def)

text \<open>All that can happen when a quote does or does not go out.\<close>

lemma on_signals_cases:
  assumes "on_signals enc cfg im pt halted sig (mm, rm, ck, db) = (sent, mm', rm', ck', db')"
    and "quote_prices (c_strategy cfg) im sig = (bid, ask)"
    and "maker_now mm ck = (tp, ck1)"
  shows "sent \<longleftrightarrow> sg_valid sig \<and> 0 < sg_mid sig \<and> \<not> halted \<and>
      fst (risk_both cfg pt bid ask (sg_mid sig) (rm, ck1, db)) \<and>
      should_requote (c_strategy cfg) bid ask (classify_inventory (c_strategy cfg) (im_inventory im))
        (classify_vol (c_strategy cfg) (sg_realized_vol sig)) tp mm"
    and "\<not> sent \<Longrightarrow> mm' = mm"
    and "sent \<Longrightarrow> mm' = (emit_quote enc (c_strategy cfg) bid ask (im_inventory im)
        (im_skew_bps (c_strategy cfg) im) tp mm)
      \<lparr>mm_last_tier := classify_inventory (c_strategy cfg) (im_inventory im),
       mm_last_regime := classify_vol (c_strategy cfg) (sg_realized_vol sig)\<rparr>"
  using assms
  by (auto simp: on_signals_def Let_def not_le split: if_splits prod.splits)

lemma risk_both_approved:
  assumes "fst (risk_both cfg pt bid ask mid (Some rm, ck, db))"
  defines "qty \<equiv> st_quote_qty (c_strategy cfg)"
    and "rm1 \<equiv> rm\<lparr>rm_order_times := purge (steady_now ck - kRateWindow) (rm_order_times rm)\<rparr>"
  shows "within_limits (c_risk cfg) pt (steady_now ck) qty bid mid rm"
    and "within_limits (c_risk cfg) pt (steady_now (clock_tick ck)) (- qty) ask mid rm1"
proof -
  obtain br rm' ck' db' where b: "pre_trade_check (c_risk cfg) pt qty bid mid (rm, ck, db) = (br, rm', ck', db')"
    using prod_cases4 by blast
  obtain ar rm'' ck'' db'' where a: "pre_trade_check (c_risk cfg) pt (- qty) ask mid (rm', ck', db') =
      (ar, rm'', ck'', db'')"
    using prod_cases4 by blast
  have ok: "br = APPROVED" "ar = APPROVED"
    using assms(1) a b by (auto simp: risk_both_def qty_def Let_def)
  show "within_limits (c_risk cfg) pt (steady_now ck) qty bid mid rm"
    using pre_trade_check_result [of "c_risk cfg" pt qty bid mid rm ck db] b ok
    by (simp add: risk_verdict_APPROVED [symmetric])
  have "risk_verdict (c_risk cfg) pt (steady_now ck) qty bid mid rm = (APPROVED, rm')" "ck' = clock_tick ck"
    using b ok(1) by (auto simp: pre_trade_check_def Let_def split: prod.splits if_splits)
  then have "rm' = rm1"
    by (auto simp: risk_verdict_def rm1_def Let_def split: if_splits)
  then show "within_limits (c_risk cfg) pt (steady_now (clock_tick ck)) (- qty) ask mid rm1"
    using pre_trade_check_result [of "c_risk cfg" pt "- qty" ask mid rm' ck' db'] a ok \<open>ck' = clock_tick ck\<close>
    by (simp add: risk_verdict_APPROVED [symmetric])
qed


section \<open>Properties\<close>

text \<open>Each active stress condition (volatility, thin depth, inventory) multiplies the spread by 1.25,
  so the widening lies between 1 and 1.25 cubed, never decreases as more conditions become active,
  and the final spread is never below twice the tick or the volatility floor.\<close>

theorem spread_monotone:
  assumes "0 \<le> base" and "stress_count st sig q \<le> stress_count st sig' q'"
  shows "widen_factor st sig q = (5 / 4) ^ stress_count st sig q \<and> 1 \<le> widen_factor st sig q \<and>
    widen_factor st sig q \<le> 125 / 64 \<and> final_spread st base sig q \<le> final_spread st base sig' q' \<and>
    2 * st_min_tick st \<le> final_spread st base sig q \<and> st_volatility_floor st \<le> final_spread st base sig q"
proof -
  have three: "stress_count st sig q \<le> 3"
    by (simp add: stress_count_def)
  then have "(5 / 4 :: real) ^ stress_count st sig q \<le> (5 / 4) ^ 3"
    by (rule power_increasing) simp
  moreover have "(5 / 4 :: real) ^ stress_count st sig q \<le> (5 / 4) ^ stress_count st sig' q'"
    using assms(2) by (rule power_increasing) simp
  then have "base * (5 / 4) ^ stress_count st sig q \<le> base * (5 / 4) ^ stress_count st sig' q'"
    using assms(1) by (rule mult_left_mono)
  then have "final_spread st base sig q \<le> final_spread st base sig' q'"
    by (simp add: final_spread_def widen_factor_power max.coboundedI1)
  moreover have "2 * st_min_tick st \<le> minimum_spread st" "st_volatility_floor st \<le> minimum_spread st"
    by (simp_all add: minimum_spread_def)
  ultimately show ?thesis
    using final_spread_ge [of st base sig q] by (simp add: widen_factor_power eval_nat_numeral)
qed

definition demo_cfg :: config where
  "demo_cfg = (load_config toml_empty)
     \<lparr>c_risk := demo_risk\<lparr>rk_price_sanity_pct := 2\<rparr>,
      c_strategy := (load_strategy toml_empty)\<lparr>st_gamma := 1, st_k := 1, st_min_tick := 1\<rparr>\<rparr>"

definition demo_signals :: "double \<Rightarrow> signals" where
  "demo_signals depth = signals0\<lparr>sg_mid := 100, sg_total_depth := depth, sg_valid := True\<rparr>"

theorem spread_monotone_witness:
  "final_spread (load_strategy toml_empty) 1 (demo_signals 20) 0 \<le>
     final_spread (load_strategy toml_empty) 1 (demo_signals 5) 4
   \<and> widen_factor (load_strategy toml_empty) (demo_signals 5) 4 = 25 / 16"
  using spread_monotone [of 1 "load_strategy toml_empty" "demo_signals 20" 0 "demo_signals 5" 4]
    spread_monotone [of 1 "load_strategy toml_empty" "demo_signals 5" 4 "demo_signals 5" 4]
  by (simp add: load_strategy_def toml_empty_def demo_signals_def signals0_def stress_count_def
      vol_stress_def depth_stress_def inv_stress_def power2_eq_square eval_nat_numeral)

text \<open>C21: a quote that goes out decodes, on the quote ring, to a bid and an ask whose distance is the
  final spread (hence at least twice the tick and the volatility floor) and whose midpoint is the
  mid less the reservation shift and the inventory skew; it is remembered as the last quote.\<close>

theorem quote_prices_on_ring:
  assumes "on_signals enc cfg im pt halted sig (mm, rm, ck, db) = (True, mm', rm', ck', db')"
    and "quote_prices (c_strategy cfg) im sig = (bid, ask)" and "maker_now mm ck = (tp, ck1)"
    and "codec_at enc dec (make_quote (c_strategy cfg) bid ask (im_inventory im) (im_skew_bps (c_strategy cfg) im) tp)"
    and "length (enc (make_quote (c_strategy cfg) bid ask (im_inventory im) (im_skew_bps (c_strategy cfg) im) tp)) \<le> 512"
    and "mm_out_ring mm = Some r" and "ring_ok r" and "ring_count r < ring_capacity r"
  shows "\<exists>r' m qu. mm_out_ring mm' = Some r' \<and> ring_items r' = ring_items r @ [m] \<and> read_msg dec m = Some qu \<and>
    qu_bid_price qu = bid \<and> qu_ask_price qu = ask \<and> qu_qty qu = st_quote_qty (c_strategy cfg) \<and>
    minimum_spread (c_strategy cfg) \<le> ask - bid \<and>
    (bid + ask) / 2 = sg_mid sig -
      im_inventory im * st_gamma (c_strategy cfg) * sg_sigma_sq sig * st_horizon (c_strategy cfg) -
      sg_mid sig * (im_skew_bps (c_strategy cfg) im / 10000) \<and>
    qs_valid (mm_last_quote mm') \<and> qs_bid_price (mm_last_quote mm') = bid \<and> qs_ask_price (mm_last_quote mm') = ask"
proof -
  let ?q = "make_quote (c_strategy cfg) bid ask (im_inventory im) (im_skew_bps (c_strategy cfg) im) tp"
  obtain m where m: "fill_msg (enc ?q) = Some m"
    using assms(5) by (simp add: fill_msg_def)
  have dec: "read_msg dec m = Some ?q"
    using read_fill_msg [OF assms(4) m] .
  note mm' = on_signals_cases(3) [OF assms(1-3) TrueI]
  have "mm_out_ring mm' = Some (snd (ring_push r m))"
    using emit_quote_ring [where enc = enc, OF m, of mm] assms(6) by (simp add: mm')
  moreover have "minimum_spread (c_strategy cfg) \<le> ask - bid"
    unfolding quote_prices_spread(1) [OF assms(2)] by (rule final_spread_ge)
  ultimately show ?thesis
    using ring_push_items(1) [OF assms(7,8), of m] quote_prices_spread(2) [OF assms(2)] dec mm'
    by (intro exI [of _ "snd (ring_push r m)"] exI [of _ m] exI [of _ ?q]) (simp add: make_quote_def)
qed

text \<open>With unit gamma, k and tick the floor of the spread applies: quotes one either side of the mid.\<close>

lemma demo_quote_prices:
  "quote_prices (c_strategy demo_cfg) \<lparr>im_inventory = 0\<rparr> (demo_signals 20) = (99, 101)"
  "quote_prices (c_strategy demo_cfg) \<lparr>im_inventory = 0\<rparr> (demo_signals 20\<lparr>sg_mid := 110\<rparr>) = (109, 111)"
  using ln_2_less_1
  by (simp_all add: quote_prices_def demo_cfg_def load_strategy_def toml_empty_def demo_signals_def
      signals0_def final_spread_def minimum_spread_def im_skew_bps_def widen_factor_def vol_stress_def
      depth_stress_def inv_stress_def max_def)

lemma maker_now_init [simp]: "maker_now (maker_init ring) ck = (steady_now ck, clock_tick ck)"
  by (simp add: maker_now_def maker_init_def)

lemma demo_send:
  assumes "maker_now mm ck = (tp, ck1)" and "\<not> qs_valid (mm_last_quote mm)"
  shows "\<exists>mm' s'. on_signals enc demo_cfg \<lparr>im_inventory = 0\<rparr> pt False (demo_signals 20) (mm, None, ck, db) =
    (True, mm', s')"
  using assms demo_quote_prices(1)
  by (simp add: on_signals_def demo_signals_def signals0_def should_requote_def Let_def)

theorem quote_prices_on_ring_witness:
  "\<exists>mm' s' r' m. on_signals (\<lambda>_. [1]) demo_cfg \<lparr>im_inventory = 0\<rparr> tracker_init False (demo_signals 20)
     (maker_init (Some (ring_init 4 byte_msg0)), None, demo_clock, None) = (True, mm', s') \<and>
     mm_out_ring mm' = Some r' \<and> ring_items r' = [m] \<and> qs_bid_price (mm_last_quote mm') = 99"
proof -
  let ?mm = "maker_init (Some (ring_init 4 byte_msg0))"
  have now: "maker_now ?mm demo_clock = (0, clock_tick demo_clock)"
    by (simp add: steady_now_def demo_clock_def)
  have "\<not> qs_valid (mm_last_quote ?mm)" "mm_out_ring ?mm = Some (ring_init 4 byte_msg0)"
    by (simp_all add: maker_init_def)
  note mm = this
  obtain mm' s' where send: "on_signals (\<lambda>_. [1]) demo_cfg \<lparr>im_inventory = 0\<rparr> tracker_init False
      (demo_signals 20) (?mm, None, demo_clock, None) = (True, mm', s')"
    using demo_send [OF now mm(1)] by blast
  obtain rm' ck' db' where s': "s' = (rm', ck', db')"
    using prod_cases3 by blast
  have ok: "ring_ok (ring_init 4 byte_msg0)" "ring_items (ring_init 4 byte_msg0) = []"
    "ring_count (ring_init 4 byte_msg0) < ring_capacity (ring_init 4 byte_msg0)"
    using ring_init_ok [of 2 byte_msg0]
    by simp_all (simp add: ring_count_def ring_init_def ring_capacity_def)
  let ?q = "make_quote (c_strategy demo_cfg) 99 101 0 (im_skew_bps (c_strategy demo_cfg) \<lparr>im_inventory = 0\<rparr>) 0"
  have "codec_at (\<lambda>_. [1]) (\<lambda>_. Some ?q) ?q"
    by (simp add: codec_at_def)
  from quote_prices_on_ring [OF send [unfolded s'] demo_quote_prices(1) now, of "\<lambda>_. Some ?q",
      OF _ _ mm(2) ok(1,3)] this ok(2) send s'
  show ?thesis
    by auto
qed

text \<open>No quote goes out while the breaker is halted or unless the risk manager, where there is one,
  finds both sides within every limit, the ask with the order window the bid's check has purged; a
  call that sends nothing leaves the last quote, its time and the quote ring untouched.\<close>

theorem quote_gate:
  assumes "on_signals enc cfg im pt halted sig (mm, Some rm, ck, db) = (sent, mm', rm', ck', db')"
    and "quote_prices (c_strategy cfg) im sig = (bid, ask)" and "maker_now mm ck = (tp, ck1)"
  shows "if sent then sg_valid sig \<and> 0 < sg_mid sig \<and> \<not> halted \<and>
      within_limits (c_risk cfg) pt (steady_now ck1) (st_quote_qty (c_strategy cfg)) bid (sg_mid sig) rm \<and>
      within_limits (c_risk cfg) pt (steady_now (clock_tick ck1)) (- st_quote_qty (c_strategy cfg)) ask (sg_mid sig)
        (rm\<lparr>rm_order_times := purge (steady_now ck1 - kRateWindow) (rm_order_times rm)\<rparr>)
    else mm' = mm"
  using on_signals_cases(1,2) [OF assms]
  by (cases sent) (auto dest: risk_both_approved)

theorem quote_gate_witness:
  "\<exists>mm' s'. on_signals (\<lambda>_. [1]) demo_cfg \<lparr>im_inventory = 0\<rparr> tracker_init False (demo_signals 20)
     (maker_init None, Some risk_init, demo_clock, None) = (True, mm', s')
   \<and> within_limits (c_risk demo_cfg) tracker_init 0 (st_quote_qty (c_strategy demo_cfg)) 99 100 risk_init"
proof -
  have risk: "fst (risk_both demo_cfg tracker_init 99 101 100 (Some risk_init, clock_tick demo_clock, None))"
    by (simp add: risk_both_def pre_trade_check_def risk_verdict_def risk_init_def tracker_init_def
        equity_def unrealized_pnl_def demo_cfg_def demo_risk_def load_risk_def load_strategy_def
        toml_empty_def purge_def Let_def)
  obtain sent mm' rm' ck' db' where send: "on_signals (\<lambda>_. [1]) demo_cfg \<lparr>im_inventory = 0\<rparr> tracker_init
      False (demo_signals 20) (maker_init None, Some risk_init, demo_clock, None) = (sent, mm', rm', ck', db')"
    using prod_cases5 by blast
  have now: "maker_now (maker_init None) demo_clock = (0, clock_tick demo_clock)"
    by (simp add: steady_now_def demo_clock_def)
  have sent: sent
    unfolding on_signals_cases(1) [OF send demo_quote_prices(1) now]
    using risk by (simp add: demo_signals_def signals0_def should_requote_def maker_init_def)
  have "within_limits (c_risk demo_cfg) tracker_init (steady_now (clock_tick demo_clock))
      (st_quote_qty (c_strategy demo_cfg)) 99 (sg_mid (demo_signals 20)) risk_init"
    using quote_gate [OF send demo_quote_prices(1) now] sent by simp
  moreover have "sg_mid (demo_signals 20) = 100"
    by (simp add: demo_signals_def)
  ultimately have "within_limits (c_risk demo_cfg) tracker_init 0 (st_quote_qty (c_strategy demo_cfg)) 99 100 risk_init"
    unfolding within_limits_def by (simp add: risk_init_def purge_def)
  with send sent show ?thesis
    by auto
qed

text \<open>C20: two quotes in a row are at least \<open>min_requote_ms\<close> apart, unless a side has moved by more than
  twice the price threshold.\<close>

theorem requote_throttled:
  assumes "on_signals enc cfg im1 pt1 h1 sig1 (mm, rm, ck, db) = (True, mm1, s1)"
    and "on_signals enc cfg im2 pt2 h2 sig2 (mm1, s2) = (True, mm2, s3)"
    and "quote_prices (c_strategy cfg) im1 sig1 = (bid1, ask1)" and "maker_now mm ck = (tp1, ck1)"
    and "quote_prices (c_strategy cfg) im2 sig2 = (bid2, ask2)" and "maker_now mm1 (fst (snd s2)) = (tp2, ck2)"
  shows "st_min_requote_ms (c_strategy cfg) \<le> ns_to_ms (tp2 - tp1) \<or>
    of_int (st_price_move_ticks_threshold (c_strategy cfg)) * st_min_tick (c_strategy cfg) * 2 <
      max \<bar>bid2 - bid1\<bar> \<bar>ask2 - ask1\<bar>"
proof -
  obtain rm1 cka dba where s1: "s1 = (rm1, cka, dba)"
    using prod_cases3 by blast
  obtain rmb ckb dbb where s2: "s2 = (rmb, ckb, dbb)"
    using prod_cases3 by blast
  obtain rmc ckc dbc where s3: "s3 = (rmc, ckc, dbc)"
    using prod_cases3 by blast
  note mm1 = on_signals_cases(3) [OF assms(1) [unfolded s1] assms(3,4) TrueI]
  have "should_requote (c_strategy cfg) bid2 ask2 (classify_inventory (c_strategy cfg) (im_inventory im2))
      (classify_vol (c_strategy cfg) (sg_realized_vol sig2)) tp2 mm1"
    using on_signals_cases(1) [OF assms(2) [unfolded s2 s3] assms(5)] assms(6) s2 by simp
  then show ?thesis
    by (auto simp: should_requote_def mm1 Let_def split: if_splits)
qed

theorem requote_throttled_witness:
  "\<exists>mm1 mm2 s1 s3. on_signals (\<lambda>_. [1]) demo_cfg \<lparr>im_inventory = 0\<rparr> tracker_init False (demo_signals 20)
       (maker_init None, None, demo_clock, None) = (True, mm1, s1)
     \<and> on_signals (\<lambda>_. [1]) demo_cfg \<lparr>im_inventory = 0\<rparr> tracker_init False (demo_signals 20\<lparr>sg_mid := 110\<rparr>)
       (mm1, None, clock_tick demo_clock, None) = (True, mm2, s3)
     \<and> (st_min_requote_ms (c_strategy demo_cfg) \<le> ns_to_ms 1000000 \<or> (4::real) < max \<bar>109 - 99\<bar> \<bar>111 - 101\<bar>)"
proof -
  have now: "maker_now (maker_init None) demo_clock = (0, clock_tick demo_clock)"
    by (simp add: steady_now_def demo_clock_def)
  have "\<not> qs_valid (mm_last_quote (maker_init None))"
    by (simp add: maker_init_def)
  then obtain mm1 s1 where 1: "on_signals (\<lambda>_. [1]) demo_cfg \<lparr>im_inventory = 0\<rparr> tracker_init False
      (demo_signals 20) (maker_init None, None, demo_clock, None) = (True, mm1, s1)"
    using demo_send [OF now] by blast
  obtain rm' ck' db' where s1: "s1 = (rm', ck', db')"
    using prod_cases3 by blast
  note mm1 = on_signals_cases(3) [OF 1 [unfolded s1] demo_quote_prices(1) now TrueI]
  have now1: "maker_now mm1 (clock_tick demo_clock) = (1000000, clock_tick (clock_tick demo_clock))"
    by (simp add: mm1 maker_now_def emit_quote_def maker_init_def Let_def steady_now_def clock_tick_def
        demo_clock_def)
  have st: "st_min_tick (c_strategy demo_cfg) = 1" "st_price_move_ticks_threshold (c_strategy demo_cfg) = 2"
    by (simp_all add: demo_cfg_def load_strategy_def toml_empty_def)
  obtain mm2 s3 where 2: "on_signals (\<lambda>_. [1]) demo_cfg \<lparr>im_inventory = 0\<rparr> tracker_init False
      (demo_signals 20\<lparr>sg_mid := 110\<rparr>) (mm1, None, clock_tick demo_clock, None) = (True, mm2, s3)"
    using now1 demo_quote_prices(2)
    by (simp add: on_signals_def demo_signals_def signals0_def should_requote_def mm1 st Let_def)
  from requote_throttled [OF 1 2 demo_quote_prices(1) now demo_quote_prices(2)] now1 1 2 st show ?thesis
    by (cases s1; cases s3) auto
qed

end
