(* ===== verification/RestApi.thy ===== *)
theory RestApi
  imports CircuitBreaker
begin

text \<open>
  The REST interface of \<open>src/src/execution/i_rest_client.hpp\<close>: the acknowledgement records, the
  environment the engine's components share, a REST client as its six operations on that
  environment, and the contract \<open>rest_contract\<close> under which the order manager is verified.
\<close>

section \<open>Acknowledgements\<close>

record order_ack =
  oa_ok :: bool
  oa_exchange_order_id :: int
  oa_client_order_id :: string
  oa_status :: string
  oa_price :: double
  oa_qty :: double
  oa_http_code :: int
  oa_exchange_code :: int

definition order_ack0 :: order_ack where
  "order_ack0 = \<lparr>oa_ok = False, oa_exchange_order_id = 0, oa_client_order_id = [], oa_status = [],
     oa_price = 0, oa_qty = 0, oa_http_code = 0, oa_exchange_code = 0\<rparr>"

record cancel_ack =
  ca_ok :: bool
  ca_exchange_order_id :: int
  ca_client_order_id :: string
  ca_status :: string
  ca_http_code :: int
  ca_exchange_code :: int

definition cancel_ack0 :: cancel_ack where
  "cancel_ack0 = \<lparr>ca_ok = False, ca_exchange_order_id = 0, ca_client_order_id = [], ca_status = [],
     ca_http_code = 0, ca_exchange_code = 0\<rparr>"

record amend_ack =
  aa_ok :: bool
  aa_cancelled_only :: bool
  aa_exchange_order_id :: int
  aa_client_order_id :: string
  aa_price :: double
  aa_qty :: double
  aa_http_code :: int
  aa_exchange_code :: int

definition amend_ack0 :: amend_ack where
  "amend_ack0 = \<lparr>aa_ok = False, aa_cancelled_only = False, aa_exchange_order_id = 0,
     aa_client_order_id = [], aa_price = 0, aa_qty = 0, aa_http_code = 0, aa_exchange_code = 0\<rparr>"

record position_entry =
  pe_symbol :: string
  pe_position_amt :: double
  pe_entry_price :: double
  pe_unrealized_profit :: double

record positions_snapshot =
  ps_ok :: bool
  ps_positions :: "position_entry list"
  ps_http_code :: int

record open_order_entry =
  oe_exchange_order_id :: int
  oe_client_order_id :: string
  oe_symbol :: string
  oe_side :: string
  oe_price :: double
  oe_orig_qty :: double
  oe_executed_qty :: double
  oe_status :: string

record open_orders_snapshot =
  os_ok :: bool
  os_orders :: "open_order_entry list"
  os_http_code :: int


section \<open>The environment and the client\<close>

text \<open>
  What the order manager, the breaker, the risk manager and a REST client share by reference; the
  last field is the client's own state.
\<close>

record 'r env =
  en_pt :: position_tracker
  en_rm :: risk_manager
  en_cb :: circuit_breaker
  en_db :: db_ring
  en_clock :: clock
  en_rest :: 'r

record 'r rest_client =
  rest_place :: "string \<Rightarrow> double \<Rightarrow> double \<Rightarrow> bool \<Rightarrow> string \<Rightarrow> 'r env \<Rightarrow> order_ack \<times> 'r env"
  rest_market :: "string \<Rightarrow> double \<Rightarrow> string \<Rightarrow> 'r env \<Rightarrow> order_ack \<times> 'r env"
  rest_cancel :: "string \<Rightarrow> int \<Rightarrow> 'r env \<Rightarrow> cancel_ack \<times> 'r env"
  rest_amend :: "int \<Rightarrow> double \<Rightarrow> double \<Rightarrow> string \<Rightarrow> bool \<Rightarrow> string \<Rightarrow> 'r env \<Rightarrow> amend_ack \<times> 'r env"
  rest_positions :: "'r env \<Rightarrow> positions_snapshot \<times> 'r env"
  rest_open_orders :: "'r env \<Rightarrow> open_orders_snapshot \<times> 'r env"

text \<open>The shared components' operations, on the environment.\<close>

definition env_record_submission :: "'r env \<Rightarrow> 'r env" where
  "env_record_submission e =
     (let (rm, ck) = record_submission (en_rm e, en_clock e) in e\<lparr>en_rm := rm, en_clock := ck\<rparr>)"

definition env_record_cancel :: "'r env \<Rightarrow> 'r env" where
  "env_record_cancel e =
     (let (rm, ck) = record_cancel (en_rm e, en_clock e) in e\<lparr>en_rm := rm, en_clock := ck\<rparr>)"

definition env_notify_exception :: "string \<Rightarrow> 'r env \<Rightarrow> 'r env" where
  "env_notify_exception detail e =
     (let (cb, ck, db) = notify_exception detail (en_cb e, en_clock e, en_db e)
      in e\<lparr>en_cb := cb, en_clock := ck, en_db := db\<rparr>)"

definition env_pre_trade_check :: "risk_cfg \<Rightarrow> double \<Rightarrow> double \<Rightarrow> 'r env \<Rightarrow> risk_result \<times> 'r env" where
  "env_pre_trade_check rc qty price e =
     (let (res, rm, ck, db) = pre_trade_check rc (en_pt e) qty price (pt_mid (en_pt e)) (en_rm e, en_clock e, en_db e)
      in (res, e\<lparr>en_rm := rm, en_clock := ck, en_db := db\<rparr>))"

definition env_halted :: "'r env \<Rightarrow> bool" where
  "env_halted e = cb_halted (en_cb e)"

definition env_tick :: "'r env \<Rightarrow> 'r env" where
  "env_tick e = e\<lparr>en_clock := clock_tick (en_clock e)\<rparr>"

lemma env_record_frame [simp, frame]:
  "en_pt (env_record_submission e) = en_pt e" "en_cb (env_record_submission e) = en_cb e"
  "en_rest (env_record_submission e) = en_rest e" "en_db (env_record_submission e) = en_db e"
  "rm_open_order_count (en_rm (env_record_submission e)) = rm_open_order_count (en_rm e)"
  "en_pt (env_record_cancel e) = en_pt e" "en_cb (env_record_cancel e) = en_cb e"
  "en_rest (env_record_cancel e) = en_rest e" "en_db (env_record_cancel e) = en_db e"
  "rm_open_order_count (en_rm (env_record_cancel e)) = rm_open_order_count (en_rm e)"
  by (simp_all add: env_record_submission_def env_record_cancel_def record_submission_def
      record_cancel_def)

lemma env_notify_frame [simp, frame]:
  "en_pt (env_notify_exception d e) = en_pt e" "en_rm (env_notify_exception d e) = en_rm e"
  "en_rest (env_notify_exception d e) = en_rest e" "env_halted (env_notify_exception d e)"
proof -
  have "cb_halted (fst (notify ''exception'' d (en_cb e, en_clock e, en_db e)))"
    by simp
  then show "en_pt (env_notify_exception d e) = en_pt e" "en_rm (env_notify_exception d e) = en_rm e"
    "en_rest (env_notify_exception d e) = en_rest e" "env_halted (env_notify_exception d e)"
    by (simp_all add: env_notify_exception_def notify_exception_def env_halted_def case_prod_beta)
qed

lemma env_pre_trade_check_frame [simp, frame]:
  "en_pt (snd (env_pre_trade_check rc qty price e)) = en_pt e"
  "en_cb (snd (env_pre_trade_check rc qty price e)) = en_cb e"
  "en_rest (snd (env_pre_trade_check rc qty price e)) = en_rest e"
  "rm_open_order_count (en_rm (snd (env_pre_trade_check rc qty price e))) = rm_open_order_count (en_rm e)"
  by (simp_all add: env_pre_trade_check_def case_prod_beta)

lemma env_tick_frame [simp, frame]:
  "en_pt (env_tick e) = en_pt e" "en_rm (env_tick e) = en_rm e" "en_cb (env_tick e) = en_cb e"
  "en_db (env_tick e) = en_db e" "en_rest (env_tick e) = en_rest e" "env_halted (env_tick e) = env_halted e"
  by (simp_all add: env_tick_def env_halted_def)


section \<open>The contract of a client\<close>

text \<open>
  What the order manager relies on: a REST call leaves the risk manager alone, never takes a halt
  back and queues nothing but system events for the database.  (It may read the clock and change its
  own state; the simulator delivers fills to the position tracker, and the exchange client raises the
  breaker when the exchange reports a geo-block.)
\<close>

definition rest_frame :: "'r env \<Rightarrow> 'r env \<Rightarrow> bool" where
  "rest_frame e e' \<longleftrightarrow> en_rm e' = en_rm e \<and> (env_halted e \<longrightarrow> env_halted e') \<and>
     same_clock (en_clock e) (en_clock e') \<and> db_notes (en_db e) (en_db e')"

lemma rest_frame_refl [simp]: "rest_frame e e"
  by (simp add: rest_frame_def)

lemma rest_frame_trans: "rest_frame a b \<Longrightarrow> rest_frame b c \<Longrightarrow> rest_frame a c"
  unfolding rest_frame_def using same_clock_trans db_notes_trans by metis

lemma env_notify_log:
  "same_clock (en_clock e) (en_clock (env_notify_exception d e))" "db_notes (en_db e) (en_db (env_notify_exception d e))"
  by (simp_all add: env_notify_exception_def notify_exception_def notify_def set_halt_synchronously_def enqueue_def
      case_prod_beta Let_def)

lemma rest_frame_ops [simp]:
  "rest_frame e (env_tick e)" "rest_frame e (env_notify_exception d e)" "rest_frame e (e\<lparr>en_rest := s\<rparr>)"
  by (simp_all add: rest_frame_def env_notify_log) (simp_all add: env_halted_def env_tick_def)

locale rest_contract =
  fixes rest :: "'r rest_client"
  assumes place_frame: "rest_frame e (snd (rest_place rest side qty price po cid e))"
    and market_frame: "rest_frame e (snd (rest_market rest side qty cid e))"
    and cancel_frame: "rest_frame e (snd (rest_cancel rest cid oid e))"
    and amend_frame: "rest_frame e (snd (rest_amend rest oid price qty side po cid e))"
    and positions_frame: "rest_frame e (snd (rest_positions rest e))"
    and open_orders_frame: "rest_frame e (snd (rest_open_orders rest e))"
begin

lemmas frames = place_frame market_frame cancel_frame amend_frame positions_frame open_orders_frame

end


section \<open>A client that records its calls\<close>

text \<open>
  A wrapper used to state what reaches the exchange: every call is appended to a list together with
  whether the breaker was halted when it was made.  It is a client like any other and keeps the
  contract of the one it wraps.
\<close>

datatype rest_call =
    CallPlace string double double bool string bool
  | CallMarket string double string bool
  | CallCancel string int bool
  | CallOther

definition unlog :: "('r \<times> rest_call list) env \<Rightarrow> 'r env" where
  "unlog e = \<lparr>en_pt = en_pt e, en_rm = en_rm e, en_cb = en_cb e, en_db = en_db e,
     en_clock = en_clock e, en_rest = fst (en_rest e)\<rparr>"

definition relog :: "rest_call list \<Rightarrow> 'r env \<Rightarrow> ('r \<times> rest_call list) env" where
  "relog calls e = \<lparr>en_pt = en_pt e, en_rm = en_rm e, en_cb = en_cb e, en_db = en_db e,
     en_clock = en_clock e, en_rest = (en_rest e, calls)\<rparr>"

definition call_logged ::
  "rest_call \<Rightarrow> ('r env \<Rightarrow> 'a \<times> 'r env) \<Rightarrow> ('r \<times> rest_call list) env \<Rightarrow> 'a \<times> ('r \<times> rest_call list) env" where
  "call_logged c f e = (let (a, e') = f (unlog e) in (a, relog (snd (en_rest e) @ [c]) e'))"

definition logged :: "'r rest_client \<Rightarrow> ('r \<times> rest_call list) rest_client" where
  "logged r = \<lparr>
     rest_place = (\<lambda>side qty price po cid e.
       call_logged (CallPlace side qty price po cid (env_halted e)) (rest_place r side qty price po cid) e),
     rest_market = (\<lambda>side qty cid e. call_logged (CallMarket side qty cid (env_halted e)) (rest_market r side qty cid) e),
     rest_cancel = (\<lambda>cid oid e. call_logged (CallCancel cid oid (env_halted e)) (rest_cancel r cid oid) e),
     rest_amend = (\<lambda>oid price qty side po cid e. call_logged CallOther (rest_amend r oid price qty side po cid) e),
     rest_positions = (\<lambda>e. call_logged CallOther (rest_positions r) e),
     rest_open_orders = (\<lambda>e. call_logged CallOther (rest_open_orders r) e)\<rparr>"

lemma unlog_simps [simp]:
  "en_rm (unlog e) = en_rm e" "en_cb (unlog e) = en_cb e" "en_pt (unlog e) = en_pt e"
  "en_db (unlog e) = en_db e" "en_clock (unlog e) = en_clock e"
  "env_halted (unlog e) = env_halted e"
  by (simp_all add: unlog_def env_halted_def)

lemma relog_simps [simp]:
  "en_rm (relog l e) = en_rm e" "en_cb (relog l e) = en_cb e" "en_pt (relog l e) = en_pt e"
  "en_db (relog l e) = en_db e" "en_clock (relog l e) = en_clock e"
  "snd (en_rest (relog l e)) = l" "env_halted (relog l e) = env_halted e"
  by (simp_all add: relog_def env_halted_def)

lemma call_logged_frame:
  "rest_frame (unlog e) (snd (f (unlog e))) \<Longrightarrow> rest_frame e (snd (call_logged c f e))"
  by (simp add: call_logged_def rest_frame_def case_prod_beta)

lemma call_logged_calls: "snd (en_rest (snd (call_logged c f e))) = snd (en_rest e) @ [c]"
  by (simp add: call_logged_def case_prod_beta)

lemma rest_contract_logged: "rest_contract r \<Longrightarrow> rest_contract (logged r)"
  unfolding rest_contract_def logged_def by (simp add: call_logged_frame)

end
