(* ===== verification/OrderManager.thy ===== *)
theory OrderManager
  imports RestApi Strategy
begin

text \<open>
  \<open>OrderManager\<close> of \<open>src/src/execution/order_manager.hpp\<close> and \<open>.cpp\<close>: the two order slots and their
  state machine, placement, cancellation with bounded retries, fills, the halt and shutdown paths,
  reconciliation and the latency window.  Its mutex makes each public operation one step; the REST
  client is a parameter (theory \<open>RestApi\<close>), the FlatBuffers codec of \<open>FillEvent\<close> is \<open>enc\<close>/\<open>dec\<close>.
\<close>

section \<open>Order states\<close>

datatype order_state = S_NEW | S_PENDING | S_SUBMITTED | S_ACKNOWLEDGED | S_PARTIALLY_FILLED
  | S_FILLED | S_CANCELED | S_REJECTED

fun state_str :: "order_state \<Rightarrow> string" where
  "state_str S_NEW = ''NEW''"
| "state_str S_PENDING = ''PENDING''"
| "state_str S_SUBMITTED = ''SUBMITTED''"
| "state_str S_ACKNOWLEDGED = ''ACKNOWLEDGED''"
| "state_str S_PARTIALLY_FILLED = ''PARTIALLY_FILLED''"
| "state_str S_FILLED = ''FILLED''"
| "state_str S_CANCELED = ''CANCELED''"
| "state_str S_REJECTED = ''REJECTED''"

fun is_valid_transition :: "order_state \<Rightarrow> order_state \<Rightarrow> bool" where
  "is_valid_transition S_NEW t \<longleftrightarrow> t = S_PENDING"
| "is_valid_transition S_PENDING t \<longleftrightarrow> t = S_SUBMITTED \<or> t = S_REJECTED"
| "is_valid_transition S_SUBMITTED t \<longleftrightarrow> t = S_ACKNOWLEDGED \<or> t = S_REJECTED \<or> t = S_CANCELED"
| "is_valid_transition S_ACKNOWLEDGED t \<longleftrightarrow>
     t = S_PARTIALLY_FILLED \<or> t = S_FILLED \<or> t = S_CANCELED \<or> t = S_REJECTED"
| "is_valid_transition S_PARTIALLY_FILLED t \<longleftrightarrow> t = S_FILLED \<or> t = S_CANCELED"
| "is_valid_transition S_FILLED t \<longleftrightarrow> False"
| "is_valid_transition S_CANCELED t \<longleftrightarrow> False"
| "is_valid_transition S_REJECTED t \<longleftrightarrow> False"

definition is_terminal :: "order_state \<Rightarrow> bool" where
  "is_terminal s \<longleftrightarrow> s = S_FILLED \<or> s = S_CANCELED \<or> s = S_REJECTED"


section \<open>State\<close>

record order_slot =
  sl_active :: bool
  sl_cid :: string
  sl_oid :: int
  sl_side :: int
  sl_price :: double
  sl_qty :: double
  sl_executed :: double
  sl_state :: order_state
  sl_submit_ts_ns :: u64
  sl_submit_cycles :: u64

definition slot_init :: order_slot where
  "slot_init = \<lparr>sl_active = False, sl_cid = [], sl_oid = 0, sl_side = 0, sl_price = 0, sl_qty = 0,
     sl_executed = 0, sl_state = S_NEW, sl_submit_ts_ns = 0, sl_submit_cycles = 0\<rparr>"

datatype slot_idx = BID | ASK

record order_manager =
  om_bid :: order_slot
  om_ask :: order_slot
  om_cid_counter :: u64
  om_start_ms :: u64
  om_fill_ring :: "byte_msg ring"
  om_halt_handled :: bool
  om_latency_cycles :: "u64 list"
  om_latency_idx :: nat
  om_latency_count :: nat

definition kLatencyWindow :: nat where
  "kLatencyWindow = 1000"

text \<open>The constructor stamps \<open>start_ms_\<close> with the wall clock.\<close>

definition om_init :: "clock \<Rightarrow> order_manager \<times> clock" where
  "om_init ck =
     (\<lparr>om_bid = slot_init, om_ask = slot_init, om_cid_counter = 0,
       om_start_ms = word_of_int (ns_to_ms (wall_now ck)),
       om_fill_ring = ring_init 1024 byte_msg0, om_halt_handled = False,
       om_latency_cycles = replicate kLatencyWindow 0, om_latency_idx = 0, om_latency_count = 0\<rparr>,
      clock_tick ck)"

fun slot :: "slot_idx \<Rightarrow> order_manager \<Rightarrow> order_slot" where
  "slot BID om = om_bid om"
| "slot ASK om = om_ask om"

fun upd_slot :: "slot_idx \<Rightarrow> (order_slot \<Rightarrow> order_slot) \<Rightarrow> order_manager \<Rightarrow> order_manager" where
  "upd_slot BID f om = om\<lparr>om_bid := f (om_bid om)\<rparr>"
| "upd_slot ASK f om = om\<lparr>om_ask := f (om_ask om)\<rparr>"

text \<open>The manager together with the environment it acts on.\<close>

type_synonym 'r om_state = "order_manager \<times> 'r env"


section \<open>Slots\<close>

definition is_live :: "order_slot \<Rightarrow> bool" where
  "is_live s \<longleftrightarrow> sl_active s \<and> sl_state s \<noteq> S_CANCELED \<and> sl_state s \<noteq> S_FILLED \<and> sl_state s \<noteq> S_REJECTED"

definition live_count :: "order_manager \<Rightarrow> int" where
  "live_count om = of_bool (is_live (om_bid om)) + of_bool (is_live (om_ask om))"

definition sync_open_orders :: "'r om_state \<Rightarrow> 'r om_state" where
  "sync_open_orders st =
     (case st of (om, e) \<Rightarrow> (om, e\<lparr>en_rm := set_open_order_count (live_count om) (en_rm e)\<rparr>))"

text \<open>A refused transition is logged and leaves the slot alone; an accepted one reads the TSC for its log line.\<close>

definition transition :: "slot_idx \<Rightarrow> order_state \<Rightarrow> 'r om_state \<Rightarrow> 'r om_state" where
  "transition i to st =
     (case st of (om, e) \<Rightarrow>
       if is_valid_transition (sl_state (slot i om)) to
       then (upd_slot i (\<lambda>s. s\<lparr>sl_state := to\<rparr>) om, env_tick e)
       else st)"

definition for_testing_state_transition :: "slot_idx \<Rightarrow> order_state \<Rightarrow> order_manager \<Rightarrow> bool \<times> order_manager" where
  "for_testing_state_transition i to om =
     (if is_valid_transition (sl_state (slot i om)) to
      then (True, upd_slot i (\<lambda>s. s\<lparr>sl_state := to\<rparr>) om)
      else (False, om))"

definition make_cid :: "order_manager \<Rightarrow> string \<times> order_manager" where
  "make_cid om =
     (let n = om_cid_counter om
      in (c_buf 64 (''spr'' @ dec_u64 (om_start_ms om) @ ''z'' @ dec_u64 n),
          om\<lparr>om_cid_counter := n + 1\<rparr>))"

definition set_slot :: "slot_idx \<Rightarrow> (order_slot \<Rightarrow> order_slot) \<Rightarrow> 'r om_state \<Rightarrow> 'r om_state" where
  "set_slot i f st = (case st of (om, e) \<Rightarrow> (upd_slot i f om, e))"


section \<open>Cancellation\<close>

definition kMaxCancelAttempts :: nat where
  "kMaxCancelAttempts = 3"

text \<open>\<open>51400\<close> (OKX) and \<open>-2011\<close> (Binance): the order does not exist on the exchange.\<close>

definition cancel_gone :: "cancel_ack \<Rightarrow> bool" where
  "cancel_gone c \<longleftrightarrow> ca_exchange_code c = 51400 \<or> ca_exchange_code c = - 2011"

definition cancel_done :: "slot_idx \<Rightarrow> 'r om_state \<Rightarrow> 'r om_state" where
  "cancel_done i st = sync_open_orders (set_slot i (\<lambda>s. s\<lparr>sl_active := False\<rparr>) (transition i S_CANCELED st))"

text \<open>The retry loop; the first argument is the number of attempts left.\<close>

fun cancel_attempts :: "'r rest_client \<Rightarrow> slot_idx \<Rightarrow> nat \<Rightarrow> 'r om_state \<Rightarrow> bool \<times> 'r om_state" where
  "cancel_attempts rest i 0 (om, e) =
     (False, sync_open_orders
        (set_slot i (\<lambda>s. s\<lparr>sl_active := False\<rparr>) (om, env_notify_exception ''cancel_failed_persistent'' e)))"
| "cancel_attempts rest i (Suc n) (om, e) =
     (let (c, e) = rest_cancel rest (sl_cid (slot i om)) (sl_oid (slot i om)) (env_record_cancel e)
      in if ca_ok c \<or> cancel_gone c then (True, cancel_done i (om, e))
         else cancel_attempts rest i n (om, e))"

definition cancel_slot :: "'r rest_client \<Rightarrow> slot_idx \<Rightarrow> 'r om_state \<Rightarrow> bool \<times> 'r om_state" where
  "cancel_slot rest i st =
     (case st of (om, e) \<Rightarrow>
       if \<not> sl_active (slot i om) then (True, st)
       else cancel_attempts rest i kMaxCancelAttempts st)"


section \<open>Placement\<close>

definition record_latency_cycles :: "u64 \<Rightarrow> order_manager \<Rightarrow> order_manager" where
  "record_latency_cycles cycles om =
     om\<lparr>om_latency_cycles := (om_latency_cycles om)[om_latency_idx om := cycles],
        om_latency_idx := (om_latency_idx om + 1) mod kLatencyWindow,
        om_latency_count := (if om_latency_count om < kLatencyWindow then om_latency_count om + 1
                             else om_latency_count om)\<rparr>"

definition side_str :: "order_slot \<Rightarrow> string" where
  "side_str s = (if 0 < sl_side s then ''BUY'' else ''SELL'')"

text \<open>The slot as \<open>place_new\<close> prepares it: fresh id, reset counters, NEW, PENDING, SUBMITTED.\<close>

definition prepare_slot :: "slot_idx \<Rightarrow> double \<Rightarrow> double \<Rightarrow> 'r om_state \<Rightarrow> 'r om_state" where
  "prepare_slot i price qty st =
     (let (om, e) = st;
          (cid, om) = make_cid om;
          om = upd_slot i (\<lambda>s. s\<lparr>sl_cid := cid, sl_price := price, sl_qty := qty, sl_executed := 0,
                 sl_active := True, sl_submit_ts_ns := word_of_int (steady_now (en_clock e))\<rparr>) om;
          e = env_tick e;
          om = upd_slot i (\<lambda>s. if sl_state s \<noteq> S_NEW then s\<lparr>sl_state := S_NEW\<rparr> else s) om;
          st = transition i S_PENDING (om, e);
          (om, e) = transition i S_SUBMITTED st
      in (upd_slot i (\<lambda>s. s\<lparr>sl_submit_cycles := tsc_now (en_clock e)\<rparr>) om, env_tick e))"

definition reject_new :: "slot_idx \<Rightarrow> 'r om_state \<Rightarrow> bool \<times> 'r om_state" where
  "reject_new i st = (False, sync_open_orders (transition i S_REJECTED st))"

text \<open>The acknowledged slot, and the round-trip latency where the counter has advanced.\<close>

definition acknowledge :: "slot_idx \<Rightarrow> order_ack \<Rightarrow> 'r om_state \<Rightarrow> 'r om_state" where
  "acknowledge i a st =
     (let st = set_slot i (\<lambda>s. s\<lparr>sl_oid := oa_exchange_order_id a\<rparr>) st;
          (om, e) = transition i S_ACKNOWLEDGED st;
          now_cycles = tsc_now (en_clock e);
          submit = sl_submit_cycles (slot i om)
      in (if submit < now_cycles then record_latency_cycles (now_cycles - submit) om else om, env_tick e))"

definition accept_new :: "slot_idx \<Rightarrow> order_ack \<Rightarrow> 'r om_state \<Rightarrow> bool \<times> 'r om_state" where
  "accept_new i a st = (True, sync_open_orders (acknowledge i a st))"

definition place_new ::
  "config \<Rightarrow> 'r rest_client \<Rightarrow> slot_idx \<Rightarrow> double \<Rightarrow> double \<Rightarrow> 'r om_state \<Rightarrow> bool \<times> 'r om_state" where
  "place_new cfg rest i price qty st =
     (let (om, e) = prepare_slot i price qty st;
          s = slot i om
      in if env_halted e then reject_new i (om, e)
         else
           let (rr, e) = env_pre_trade_check (c_risk cfg) (of_int (sl_side s) * qty) price e
           in if rr \<noteq> APPROVED then reject_new i (om, e)
              else
                let (a, e) = rest_place rest (side_str s) qty price True (sl_cid s) (env_record_submission e)
                in if oa_ok a then accept_new i a (om, e) else reject_new i (om, e))"

fun slot_side :: "slot_idx \<Rightarrow> int" where
  "slot_side BID = 1"
| "slot_side ASK = - 1"

text \<open>\<open>s.side = side; place_new(slot_idx, new_price, qty);\<close>\<close>

definition place_side ::
  "config \<Rightarrow> 'r rest_client \<Rightarrow> slot_idx \<Rightarrow> double \<Rightarrow> double \<Rightarrow> 'r om_state \<Rightarrow> 'r om_state" where
  "place_side cfg rest i new_price qty st =
     snd (place_new cfg rest i new_price qty (set_slot i (\<lambda>s. s\<lparr>sl_side := slot_side i\<rparr>) st))"

definition maybe_requote_side ::
  "config \<Rightarrow> 'r rest_client \<Rightarrow> slot_idx \<Rightarrow> double \<Rightarrow> double \<Rightarrow> 'r om_state \<Rightarrow> 'r om_state" where
  "maybe_requote_side cfg rest i new_price qty st =
     (let s = slot i (fst st)
      in if sl_active s then
           if is_terminal (sl_state s) then
             place_side cfg rest i new_price qty (set_slot i (\<lambda>s. s\<lparr>sl_active := False\<rparr>) st)
           else
             let tick = st_min_tick (c_strategy cfg);
                 thresh = tick * of_int (st_price_move_ticks_threshold (c_strategy cfg))
             in if \<bar>new_price - sl_price s\<bar> \<le> thresh then st
                else
                  let (ok, st) = cancel_slot rest i st
                  in if ok then place_side cfg rest i new_price qty st else st
         else place_side cfg rest i new_price qty st)"

definition on_quote ::
  "config \<Rightarrow> 'r rest_client \<Rightarrow> double \<Rightarrow> double \<Rightarrow> double \<Rightarrow> 'r om_state \<Rightarrow> 'r om_state" where
  "on_quote cfg rest bid ask qty st =
     (if env_halted (snd st) then st
      else maybe_requote_side cfg rest ASK ask qty (maybe_requote_side cfg rest BID bid qty st))"

definition decode_quote :: "(u8 list \<Rightarrow> quote_update option) \<Rightarrow> byte_msg \<Rightarrow> (double \<times> double \<times> double) option" where
  "decode_quote dec msg =
     (if mg_size msg = 0 then None
      else map_option (\<lambda>q. (qu_bid_price q, qu_ask_price q, qu_qty q))
             (dec (take (unat (mg_size msg)) (mg_bytes msg))))"

text \<open>
  The acknowledgement watchdog of \<open>quote_loop\<close>; \<open>now_ns - submit_ts_ns\<close> is unsigned.
\<close>

definition check_ack_slot ::
  "config \<Rightarrow> 'r rest_client \<Rightarrow> u64 \<Rightarrow> slot_idx \<Rightarrow> 'r om_state \<Rightarrow> 'r om_state" where
  "check_ack_slot cfg rest now_ns i st =
     (let s = slot i (fst st);
          ack_to_ns = word_of_int (ec_ack_timeout_ms (c_execution cfg)) * 1000000
      in if sl_active s \<and> sl_state s = S_SUBMITTED \<and> sl_submit_ts_ns s \<noteq> 0 \<and>
            ack_to_ns < now_ns - sl_submit_ts_ns s
         then snd (cancel_slot rest i st) else st)"

definition check_ack_timeouts :: "config \<Rightarrow> 'r rest_client \<Rightarrow> u64 \<Rightarrow> 'r om_state \<Rightarrow> 'r om_state" where
  "check_ack_timeouts cfg rest now_ns st =
     check_ack_slot cfg rest now_ns ASK (check_ack_slot cfg rest now_ns BID st)"


section \<open>Fills\<close>

definition fill_event_of :: "fill_input \<Rightarrow> fill_event" where
  "fill_event_of f = \<lparr>fe_order_id = fi_order_id f, fe_symbol = fi_symbol f, fe_side = fi_side f,
     fe_price = fi_price f, fe_qty = fi_qty f, fe_fee = fi_fee f, fe_fee_asset = fi_fee_asset f,
     fe_timestamp_ns = fi_timestamp_ns f\<rparr>"

definition fill_input_of :: "fill_event \<Rightarrow> fill_input" where
  "fill_input_of e = \<lparr>fi_order_id = fe_order_id e, fi_symbol = fe_symbol e, fi_side = fe_side e,
     fi_price = fe_price e, fi_qty = fe_qty e, fi_fee = fe_fee e, fi_fee_asset = fe_fee_asset e,
     fi_timestamp_ns = fe_timestamp_ns e\<rparr>"

definition trade_event_of :: "fill_input \<Rightarrow> db_event" where
  "trade_event_of f = DbTrade \<lparr>dt_order_id = c_buf 40 (fi_order_id f), dt_side = fi_side f,
     dt_price = fi_price f, dt_qty = fi_qty f, dt_fee = fi_fee f,
     dt_fee_asset = c_buf 8 (fi_fee_asset f), dt_ts_ns = fi_timestamp_ns f, dt_is_maker = True\<rparr>"

text \<open>The slot bookkeeping of one fill: the first active slot with the fill's order id.\<close>

definition slot_fill :: "slot_idx \<Rightarrow> fill_input \<Rightarrow> 'r om_state \<Rightarrow> 'r om_state" where
  "slot_fill i f st =
     (let (om, e) = set_slot i (\<lambda>s. s\<lparr>sl_executed := sl_executed s + fi_qty f\<rparr>) st;
          s = slot i om;
          full = (\<bar>sl_executed s - sl_qty s\<bar> < 1 / 10 ^ 12 \<or> sl_qty s \<le> sl_executed s)
      in if full then
           if sl_state s = S_ACKNOWLEDGED \<or> sl_state s = S_PARTIALLY_FILLED then
             sync_open_orders (set_slot i (\<lambda>s. s\<lparr>sl_active := False\<rparr>) (transition i S_FILLED (om, e)))
           else (om, e)
         else if sl_state s = S_ACKNOWLEDGED then transition i S_PARTIALLY_FILLED (om, e)
         else (om, e))"

definition slot_matches :: "fill_input \<Rightarrow> order_slot \<Rightarrow> bool" where
  "slot_matches f s \<longleftrightarrow> sl_active s \<and> sl_cid s = fi_order_id f"

definition book_fill :: "fill_input \<Rightarrow> 'r om_state \<Rightarrow> 'r om_state" where
  "book_fill f st =
     (if slot_matches f (om_bid (fst st)) then slot_fill BID f st
      else if slot_matches f (om_ask (fst st)) then slot_fill ASK f st
      else st)"

definition inject_fill ::
  "(fill_event \<Rightarrow> u8 list) \<Rightarrow> fill_input \<Rightarrow> 'r om_state \<Rightarrow> bool \<times> 'r om_state" where
  "inject_fill enc f st =
     (let (om, e) = st;
          e = e\<lparr>en_db := db_push (trade_event_of f) (en_db e)\<rparr>;
          (om, e) = book_fill f (om, e)
      in case fill_msg (enc (fill_event_of f)) of
           None \<Rightarrow> (False, om, e)
         | Some m \<Rightarrow>
             let (ok, r) = ring_push (om_fill_ring om) m in (ok, om\<lparr>om_fill_ring := r\<rparr>, e))"

text \<open>One message of \<open>fill_apply_loop\<close>: what does not verify is skipped.\<close>

definition apply_fill_msg :: "(u8 list \<Rightarrow> fill_event option) \<Rightarrow> byte_msg \<Rightarrow> position_tracker \<Rightarrow> position_tracker" where
  "apply_fill_msg dec m pt =
     (case dec (take (unat (mg_size m)) (mg_bytes m)) of
        None \<Rightarrow> pt
      | Some ev \<Rightarrow> snd (apply_fill (fill_input_of ev) pt))"

definition fill_apply_step :: "(u8 list \<Rightarrow> fill_event option) \<Rightarrow> 'r om_state \<Rightarrow> 'r om_state" where
  "fill_apply_step dec st =
     (case st of (om, e) \<Rightarrow>
       case ring_pop (om_fill_ring om) of
         None \<Rightarrow> st
       | Some (m, r) \<Rightarrow> (om\<lparr>om_fill_ring := r\<rparr>, e\<lparr>en_pt := apply_fill_msg dec m (en_pt e)\<rparr>))"


section \<open>Halt, shutdown, reconciliation\<close>

definition cancel_live :: "'r rest_client \<Rightarrow> slot_idx \<Rightarrow> 'r om_state \<Rightarrow> 'r om_state" where
  "cancel_live rest i st = (if is_live (slot i (fst st)) then snd (cancel_slot rest i st) else st)"

definition flatten_market :: "'r rest_client \<Rightarrow> double \<Rightarrow> 'r om_state \<Rightarrow> bool \<times> 'r om_state" where
  "flatten_market rest pos st =
     (let (om, e) = st;
          side = (if 0 < pos then ''SELL'' else ''BUY'');
          e = env_record_submission e;
          (cid, om) = make_cid om;
          (a, e) = rest_market rest side \<bar>pos\<bar> cid e
      in (oa_ok a, om, e))"

definition net_position :: "positions_snapshot \<Rightarrow> double" where
  "net_position ps = foldl (\<lambda>net p. net + pe_position_amt p) 0 (ps_positions ps)"

definition cancel_and_flatten_locked :: "config \<Rightarrow> 'r rest_client \<Rightarrow> 'r om_state \<Rightarrow> bool \<times> 'r om_state" where
  "cancel_and_flatten_locked cfg rest st =
     (let st = cancel_live rest ASK (cancel_live rest BID st);
          (om, e) = st;
          local_inv = pt_inventory (en_pt e);
          (ps, e) = rest_positions rest e;
          pos = (if ps_ok ps then net_position ps else local_inv)
      in if ec_flatten_threshold (c_execution cfg) < \<bar>pos\<bar>
         then flatten_market rest pos (om, e) else (False, om, e))"

definition on_halt :: "config \<Rightarrow> 'r rest_client \<Rightarrow> 'r om_state \<Rightarrow> 'r om_state" where
  "on_halt cfg rest st = snd (cancel_and_flatten_locked cfg rest st)"

text \<open>One round of \<open>halt_watcher_loop\<close>.\<close>

definition halt_watch :: "config \<Rightarrow> 'r rest_client \<Rightarrow> 'r om_state \<Rightarrow> 'r om_state" where
  "halt_watch cfg rest st =
     (case st of (om, e) \<Rightarrow>
       if env_halted e \<and> \<not> om_halt_handled om then on_halt cfg rest (om\<lparr>om_halt_handled := True\<rparr>, e) else st)"

definition shutdown_cancel :: "'r rest_client \<Rightarrow> nanos \<Rightarrow> slot_idx \<Rightarrow> 'r om_state \<Rightarrow> 'r om_state" where
  "shutdown_cancel rest deadline i st =
     (let (om, e) = st in
      if \<not> is_live (slot i om) then st
      else if deadline \<le> steady_now (en_clock e) then (om, env_tick e)
      else snd (cancel_slot rest i (om, env_tick e)))"

definition shutdown_cancel_all :: "config \<Rightarrow> 'r rest_client \<Rightarrow> 'r om_state \<Rightarrow> 'r om_state" where
  "shutdown_cancel_all cfg rest st =
     (let (om, e) = st;
          deadline = steady_now (en_clock e) + ms_ns 5000;
          st = shutdown_cancel rest deadline BID (om, env_tick e);
          (om, e) = shutdown_cancel rest deadline ASK st;
          pos = pt_inventory (en_pt e)
      in if ec_flatten_threshold (c_execution cfg) < \<bar>pos\<bar> then
           if steady_now (en_clock e) < deadline
           then snd (flatten_market rest pos (om, env_tick e)) else (om, env_tick e)
         else (om, e))"

definition position_of :: "string \<Rightarrow> positions_snapshot \<Rightarrow> double" where
  "position_of symbol ps =
     (case filter (\<lambda>p. pe_symbol p = symbol) (ps_positions ps) of
        [] \<Rightarrow> 0
      | p # _ \<Rightarrow> pe_position_amt p)"

text \<open>The position comparison; the open-order loops of \<open>reconcile_now\<close> only log.\<close>

definition reconcile_positions :: "config \<Rightarrow> positions_snapshot \<Rightarrow> 'r env \<Rightarrow> 'r env" where
  "reconcile_positions cfg ps e =
     (if ps_ok ps \<and>
         ec_position_divergence_tolerance (c_execution cfg) <
           \<bar>pt_inventory (en_pt e) - position_of (md_symbol (c_market_data cfg)) ps\<bar>
      then env_notify_exception ''position_divergence'' e else e)"

definition for_testing_reconcile ::
  "config \<Rightarrow> positions_snapshot \<Rightarrow> open_orders_snapshot \<Rightarrow> 'r om_state \<Rightarrow> 'r om_state" where
  "for_testing_reconcile cfg ps oo st = (case st of (om, e) \<Rightarrow> (om, reconcile_positions cfg ps e))"

text \<open>What \<open>reconcile_now\<close> reports: exchange orders without a slot, open slots without an order.\<close>

definition reconcile_unknown :: "order_manager \<Rightarrow> open_orders_snapshot \<Rightarrow> open_order_entry list" where
  "reconcile_unknown om oo =
     (if os_ok oo then
        filter (\<lambda>o1. \<not> (\<exists>s \<in> {om_bid om, om_ask om}. sl_active s \<and> sl_oid s = oe_exchange_order_id o1)) (os_orders oo)
      else [])"

definition reconcile_local_only :: "order_manager \<Rightarrow> open_orders_snapshot \<Rightarrow> order_slot list" where
  "reconcile_local_only om oo =
     (if os_ok oo then
        filter (\<lambda>s. sl_active s \<and> (sl_state s = S_ACKNOWLEDGED \<or> sl_state s = S_PARTIALLY_FILLED) \<and>
          \<not> (\<exists>o1 \<in> set (os_orders oo). oe_exchange_order_id o1 = sl_oid s)) [om_bid om, om_ask om]
      else [])"

definition reconcile_now :: "config \<Rightarrow> 'r rest_client \<Rightarrow> 'r om_state \<Rightarrow> 'r om_state" where
  "reconcile_now cfg rest st =
     (let (om, e) = st;
          (ps, e) = rest_positions rest e;
          (oo, e) = rest_open_orders rest e
      in (om, reconcile_positions cfg ps e))"

text \<open>
  \<open>reconcile_loop\<close>: once at the start, then whenever a round finds the next time reached.  The state is
  that time with the manager's.
\<close>

definition reconcile_and_rearm :: "config \<Rightarrow> 'r rest_client \<Rightarrow> 'r om_state \<Rightarrow> nanos \<times> 'r om_state" where
  "reconcile_and_rearm cfg rest st =
     (let (om, e) = reconcile_now cfg rest st
      in (steady_now (en_clock e) + sec_ns (ec_reconcile_interval_seconds (c_execution cfg)), om, env_tick e))"

definition reconcile_round :: "config \<Rightarrow> 'r rest_client \<Rightarrow> nanos \<times> 'r om_state \<Rightarrow> nanos \<times> 'r om_state" where
  "reconcile_round cfg rest s =
     (let (due, om, e) = s;
          now = steady_now (en_clock e);
          e = env_tick e
      in if due \<le> now then reconcile_and_rearm cfg rest (om, e) else (due, om, e))"


section \<open>Latency percentiles\<close>

text \<open>The three percentiles in microseconds; \<open>ghz\<close> is \<open>tsc_ghz()\<close>.\<close>

definition latency_pick :: "double \<Rightarrow> u64 list \<Rightarrow> double \<Rightarrow> double" where
  "latency_pick ghz snap q =
     (if snap = [] then 0
      else
        let idx = nat \<lfloor>q * real (length snap - 1)\<rfloor>;
            idx = (if length snap \<le> idx then length snap - 1 else idx);
            cycles = real (unat (snap ! idx))
        in if ghz \<le> 0 then 0 else cycles / (ghz * 1000))"

definition latency_percentiles :: "double \<Rightarrow> order_manager \<Rightarrow> double \<times> double \<times> double" where
  "latency_percentiles ghz om =
     (if om_latency_count om = 0 then (0, 0, 0)
      else
        let snap = sort (take (om_latency_count om) (om_latency_cycles om))
        in (latency_pick ghz snap (50 / 100), latency_pick ghz snap (95 / 100), latency_pick ghz snap (99 / 100)))"

definition latency_p50_us :: "double \<Rightarrow> order_manager \<Rightarrow> double" where
  "latency_p50_us ghz om = (case latency_percentiles ghz om of (a, b, c) \<Rightarrow> a)"

definition latency_p95_us :: "double \<Rightarrow> order_manager \<Rightarrow> double" where
  "latency_p95_us ghz om = (case latency_percentiles ghz om of (a, b, c) \<Rightarrow> b)"

definition latency_p99_us :: "double \<Rightarrow> order_manager \<Rightarrow> double" where
  "latency_p99_us ghz om = (case latency_percentiles ghz om of (a, b, c) \<Rightarrow> c)"

end
