(* ===== verification/OrderInvariant.thy ===== *)
theory OrderInvariant
  imports OrderManager
begin

text \<open>
  What every operation of the order manager keeps: the open-order count the risk manager sees is the
  number of live slots, no slot is left half-placed, a halt is never undone, and nothing is placed
  while halted.  The operations are verified for any REST client that keeps \<open>rest_contract\<close>.
\<close>

section \<open>Slots and the environment\<close>

lemma all_slots: "(\<forall>i. P i) \<longleftrightarrow> P BID \<and> P ASK"
  by (metis slot_idx.exhaust)

lemma slot_upd [simp]:
  "slot i (upd_slot i f om) = f (slot i om)"
  "i \<noteq> j \<Longrightarrow> slot j (upd_slot i f om) = slot j om"
  by (cases i; cases j; simp)+

lemma upd_slot_frame [simp, frame]:
  "om_cid_counter (upd_slot i f om) = om_cid_counter om"
  "om_start_ms (upd_slot i f om) = om_start_ms om"
  "om_fill_ring (upd_slot i f om) = om_fill_ring om"
  "om_halt_handled (upd_slot i f om) = om_halt_handled om"
  "om_latency_cycles (upd_slot i f om) = om_latency_cycles om"
  "om_latency_idx (upd_slot i f om) = om_latency_idx om"
  "om_latency_count (upd_slot i f om) = om_latency_count om"
  by (cases i; simp)+

lemma slot_om_upd [simp]:
  "slot i (om\<lparr>om_cid_counter := n\<rparr>) = slot i om"
  "slot i (om\<lparr>om_fill_ring := r\<rparr>) = slot i om"
  "slot i (om\<lparr>om_halt_handled := b\<rparr>) = slot i om"
  "slot i (record_latency_cycles c om) = slot i om"
  by (cases i; simp add: record_latency_cycles_def)+

lemma live_count_slots: "live_count om = of_bool (is_live (slot BID om)) + of_bool (is_live (slot ASK om))"
  by (simp add: live_count_def)

text \<open>A change of the environment that does not touch the risk manager, and at most halts the breaker.\<close>

definition env_keeps :: "'r env \<Rightarrow> 'r env \<Rightarrow> bool" where
  "env_keeps e e' \<longleftrightarrow>
     rm_open_order_count (en_rm e') = rm_open_order_count (en_rm e) \<and> (env_halted e \<longrightarrow> env_halted e')"

lemma env_keeps_refl [simp]: "env_keeps e e"
  by (simp add: env_keeps_def)

lemma env_keeps_trans: "env_keeps e1 e2 \<Longrightarrow> env_keeps e2 e3 \<Longrightarrow> env_keeps e1 e3"
  by (simp add: env_keeps_def)

lemma env_keeps_ops [simp]:
  "env_keeps e (env_tick e)" "env_keeps e (env_record_submission e)" "env_keeps e (env_record_cancel e)"
  "env_keeps e (env_notify_exception d e)" "env_keeps e (snd (env_pre_trade_check rc qty price e))"
  "env_keeps e (e\<lparr>en_db := db\<rparr>)" "env_keeps e (e\<lparr>en_pt := pt\<rparr>)"
  by (simp_all add: env_keeps_def) (simp_all add: env_halted_def)

lemma rest_frame_keeps: "rest_frame e e' \<Longrightarrow> env_keeps e e'"
  by (simp add: rest_frame_def env_keeps_def)

text \<open>An active slot between operations is acknowledged, partly filled or rejected.\<close>

definition slot_ok :: "order_slot \<Rightarrow> bool" where
  "slot_ok s \<longleftrightarrow> (sl_active s \<longrightarrow> sl_state s \<in> {S_ACKNOWLEDGED, S_PARTIALLY_FILLED, S_REJECTED})"

definition om_ok :: "'r om_state \<Rightarrow> bool" where
  "om_ok st \<longleftrightarrow>
     (\<forall>i. slot_ok (slot i (fst st))) \<and> rm_open_order_count (en_rm (snd st)) = live_count (fst st)"

text \<open>
  Relation between the state before and after an operation on slot \<open>i\<close>, or on no slot: the other slot
  is untouched, identifiers never go back, a halt stays.
\<close>

definition halt_kept :: "'r om_state \<Rightarrow> 'r om_state \<Rightarrow> bool" where
  "halt_kept st st' \<longleftrightarrow> (env_halted (snd st) \<longrightarrow> env_halted (snd st'))"

lemma halt_kept_refl [simp]: "halt_kept st st"
  by (simp add: halt_kept_def)

lemma halt_kept_trans: "halt_kept a b \<Longrightarrow> halt_kept b c \<Longrightarrow> halt_kept a c"
  by (simp add: halt_kept_def)

lemma transition_spec:
  assumes "transition i to (om, e) = (om', e')"
  shows "slot i om' = (if is_valid_transition (sl_state (slot i om)) to
      then (slot i om)\<lparr>sl_state := to\<rparr> else slot i om)"
    and "j \<noteq> i \<Longrightarrow> slot j om' = slot j om"
    and "env_keeps e e'" and "en_rest e' = en_rest e" and "en_pt e' = en_pt e" and "en_rm e' = en_rm e"
    and "en_cb e' = en_cb e" and "en_db e' = en_db e"
    and "om_cid_counter om' = om_cid_counter om" and "om_start_ms om' = om_start_ms om"
    and "om_fill_ring om' = om_fill_ring om"
  using assms by (auto simp: transition_def split: if_splits)

lemma sync_spec:
  assumes "sync_open_orders (om, e) = (om', e')"
  shows "om' = om" and "rm_open_order_count (en_rm e') = live_count om"
    and "en_rest e' = en_rest e" and "en_cb e' = en_cb e" and "en_pt e' = en_pt e" and "en_db e' = en_db e"
    and "env_halted e' = env_halted e"
  using assms by (auto simp: sync_open_orders_def set_open_order_count_def env_halted_def)

lemma sync_ok: "(\<And>i. slot_ok (slot i om)) \<Longrightarrow> om_ok (sync_open_orders (om, e))"
  using sync_spec(1,2) [of om e] by (cases "sync_open_orders (om, e)") (auto simp: om_ok_def)

lemma fst_sync [simp]: "fst (sync_open_orders st) = fst st"
  by (cases st) (simp add: sync_open_orders_def)

lemma halted_sync [simp]: "env_halted (snd (sync_open_orders st)) = env_halted (snd st)"
  by (cases st) (simp add: sync_open_orders_def env_halted_def)

lemma rest_sync [simp]: "en_rest (snd (sync_open_orders st)) = en_rest (snd st)"
  by (cases st) (simp add: sync_open_orders_def)

lemma halted_transition [simp]: "env_halted (snd (transition i to st)) = env_halted (snd st)"
  by (cases st) (simp add: transition_def)

lemma rest_transition [simp]: "en_rest (snd (transition i to st)) = en_rest (snd st)"
  by (cases st) (simp add: transition_def)

lemma set_slot_simps [simp]:
  "fst (set_slot i f st) = upd_slot i f (fst st)" "snd (set_slot i f st) = snd st"
  by (cases st; simp add: set_slot_def)+

lemma slot_transition:
  "slot i (fst (transition i to st)) =
     (if is_valid_transition (sl_state (slot i (fst st))) to
      then (slot i (fst st))\<lparr>sl_state := to\<rparr> else slot i (fst st))"
  "j \<noteq> i \<Longrightarrow> slot j (fst (transition i to st)) = slot j (fst st)"
  by (cases st; simp add: transition_def)+

text \<open>Ending an operation on slot \<open>i\<close> with a synchronisation needs only the two slots to be in order.\<close>

lemma om_ok_sync:
  assumes "slot_ok (slot i (fst st))" and "\<And>j. j \<noteq> i \<Longrightarrow> slot_ok (slot j (fst st))"
  shows "om_ok (sync_open_orders st)"
proof -
  have "slot_ok (slot j (fst st))" for j
    using assms by (cases "j = i") auto
  then show ?thesis
    by (cases st) (auto intro: sync_ok)
qed

lemma cancel_done_ok:
  assumes "\<And>j. j \<noteq> i \<Longrightarrow> slot_ok (slot j (fst st))"
  shows "om_ok (cancel_done i st)"
  unfolding cancel_done_def
  by (rule om_ok_sync [of i]) (use assms in \<open>auto simp: slot_ok_def slot_transition\<close>)

lemma cancel_done_frame [simp]:
  "env_halted (snd (cancel_done i st)) = env_halted (snd st)"
  "en_rest (snd (cancel_done i st)) = en_rest (snd st)"
  "\<not> sl_active (slot i (fst (cancel_done i st)))"
  by (simp_all add: cancel_done_def)


section \<open>Placement\<close>

lemma make_cid_frame [simp]: "slot i (snd (make_cid om)) = slot i om"
  by (simp add: make_cid_def Let_def)

lemma prepare_slot_spec:
  assumes "prepare_slot i price qty (om, e) = (om', e')"
  shows "sl_active (slot i om')" and "sl_state (slot i om') = S_SUBMITTED"
    and "sl_side (slot i om') = sl_side (slot i om)" and "sl_price (slot i om') = price"
    and "sl_qty (slot i om') = qty" and "sl_cid (slot i om') = fst (make_cid om)"
    and "\<And>j. j \<noteq> i \<Longrightarrow> slot j om' = slot j om"
    and "en_rest e' = en_rest e" and "en_rm e' = en_rm e" and "en_cb e' = en_cb e" and "en_pt e' = en_pt e"
    and "om_cid_counter om' = om_cid_counter om + 1" and "om_start_ms om' = om_start_ms om"
    and "om_fill_ring om' = om_fill_ring om"
  using assms
  by (auto simp: prepare_slot_def transition_def make_cid_def Let_def split: if_splits)

lemma reject_new_ok:
  assumes "sl_state (slot i (fst st)) = S_SUBMITTED" and "\<And>j. j \<noteq> i \<Longrightarrow> slot_ok (slot j (fst st))"
  shows "om_ok (snd (reject_new i st))"
  unfolding reject_new_def snd_conv
  by (rule om_ok_sync [of i]) (use assms in \<open>auto simp: slot_ok_def slot_transition\<close>)

lemma reject_new_frame [simp]:
  "env_halted (snd (snd (reject_new i st))) = env_halted (snd st)"
  "en_rest (snd (snd (reject_new i st))) = en_rest (snd st)"
  by (simp_all add: reject_new_def)

lemma acknowledge_spec [simp]:
  "slot i (fst (acknowledge i a st)) =
     (let s = (slot i (fst st))\<lparr>sl_oid := oa_exchange_order_id a\<rparr>
      in if is_valid_transition (sl_state s) S_ACKNOWLEDGED then s\<lparr>sl_state := S_ACKNOWLEDGED\<rparr> else s)"
  "j \<noteq> i \<Longrightarrow> slot j (fst (acknowledge i a st)) = slot j (fst st)"
  "en_rest (snd (acknowledge i a st)) = en_rest (snd st)"
  "env_halted (snd (acknowledge i a st)) = env_halted (snd st)"
  by (cases st; simp add: acknowledge_def Let_def set_slot_def transition_def)+

lemma accept_new_ok:
  assumes "sl_state (slot i (fst st)) = S_SUBMITTED" and "\<And>j. j \<noteq> i \<Longrightarrow> slot_ok (slot j (fst st))"
  shows "om_ok (snd (accept_new i a st))"
  unfolding accept_new_def snd_conv
  by (rule om_ok_sync [of i]) (use assms in \<open>auto simp: slot_ok_def Let_def\<close>)

lemma accept_new_frame [simp]:
  "env_halted (snd (snd (accept_new i a st))) = env_halted (snd st)"
  "en_rest (snd (snd (accept_new i a st))) = en_rest (snd st)"
  by (simp_all add: accept_new_def)


section \<open>Fills\<close>

lemma om_ok_set_slot:
  assumes "om_ok st" and "\<And>s. sl_active (f s) = sl_active s" and "\<And>s. sl_state (f s) = sl_state s"
  shows "om_ok (set_slot i f st)"
proof -
  have "slot_ok (slot j (upd_slot i f (fst st)))" for j
    using assms by (cases "j = i") (auto simp: om_ok_def slot_ok_def)
  moreover have "live_count (upd_slot i f (fst st)) = live_count (fst st)"
    using assms(2,3) by (cases i) (simp_all add: live_count_def is_live_def)
  ultimately show ?thesis
    using assms(1) by (simp add: om_ok_def)
qed

lemma om_ok_partial:
  assumes "om_ok st" and "sl_state (slot i (fst st)) = S_ACKNOWLEDGED"
  shows "om_ok (transition i S_PARTIALLY_FILLED st)"
proof -
  obtain om e where st: "st = (om, e)"
    by fastforce
  have t: "transition i S_PARTIALLY_FILLED (om, e) = (upd_slot i (\<lambda>s. s\<lparr>sl_state := S_PARTIALLY_FILLED\<rparr>) om, env_tick e)"
    using assms(2) by (simp add: st transition_def)
  have "slot_ok (slot j (upd_slot i (\<lambda>s. s\<lparr>sl_state := S_PARTIALLY_FILLED\<rparr>) om))" for j
    using assms(1) by (cases "j = i") (auto simp: om_ok_def slot_ok_def st)
  moreover have "live_count (upd_slot i (\<lambda>s. s\<lparr>sl_state := S_PARTIALLY_FILLED\<rparr>) om) = live_count om"
    using assms(2) by (cases i) (simp_all add: live_count_def is_live_def st)
  ultimately show ?thesis
    using assms(1) by (simp add: om_ok_def t st)
qed

lemma slot_fill_ok:
  assumes "om_ok st"
  shows "om_ok (slot_fill i f st)"
proof -
  let ?st1 = "set_slot i (\<lambda>s. s\<lparr>sl_executed := sl_executed s + fi_qty f\<rparr>) st"
  have 1: "om_ok ?st1"
    using assms by (rule om_ok_set_slot) simp_all
  obtain om e where st1: "?st1 = (om, e)"
    by fastforce
  have ok: "slot_ok (slot j om)" for j
    using 1 by (simp add: om_ok_def st1)
  have filled: "om_ok (sync_open_orders (set_slot i (\<lambda>s. s\<lparr>sl_active := False\<rparr>) (transition i S_FILLED (om, e))))"
    by (rule om_ok_sync [of i]) (use ok in \<open>auto simp: slot_ok_def slot_transition\<close>)
  have partial: "sl_state (slot i om) = S_ACKNOWLEDGED \<Longrightarrow> om_ok (transition i S_PARTIALLY_FILLED (om, e))"
    using om_ok_partial [OF 1] by (simp add: st1)
  show ?thesis
    unfolding slot_fill_def Let_def st1 using filled partial 1 [unfolded st1] by simp
qed

lemma slot_fill_frame [simp]:
  "env_halted (snd (slot_fill i f st)) = env_halted (snd st)"
  "en_rest (snd (slot_fill i f st)) = en_rest (snd st)"
  by (simp_all add: slot_fill_def Let_def case_prod_beta)

lemma book_fill_ok: "om_ok st \<Longrightarrow> om_ok (book_fill f st)"
  by (simp add: book_fill_def slot_fill_ok)

lemma book_fill_frame [simp]:
  "env_halted (snd (book_fill f st)) = env_halted (snd st)"
  "en_rest (snd (book_fill f st)) = en_rest (snd st)"
  by (simp_all add: book_fill_def)

lemma om_ok_env:
  "om_ok (om, e) \<Longrightarrow> rm_open_order_count (en_rm e') = rm_open_order_count (en_rm e) \<Longrightarrow> om_ok (om, e')"
  by (simp add: om_ok_def)

lemma om_ok_ring: "om_ok (om\<lparr>om_fill_ring := r\<rparr>, e) = om_ok (om, e)"
  by (simp add: om_ok_def live_count_def)

lemma om_ok_misc [simp]:
  "om_ok (om\<lparr>om_halt_handled := b\<rparr>, e) = om_ok (om, e)"
  "om_ok (om\<lparr>om_cid_counter := n\<rparr>, e) = om_ok (om, e)"
  by (simp_all add: om_ok_def live_count_def)

definition with_trade :: "fill_input \<Rightarrow> 'r om_state \<Rightarrow> 'r om_state" where
  "with_trade f st = (fst st, (snd st)\<lparr>en_db := db_push (trade_event_of f) (en_db (snd st))\<rparr>)"

lemma om_ok_with_trade [simp]: "om_ok (with_trade f st) = om_ok st"
  by (simp add: om_ok_def with_trade_def)

lemma inject_fill_cases:
  obtains om' e' r where "book_fill f (with_trade f st) = (om', e')"
    "snd (inject_fill enc f st) = (om'\<lparr>om_fill_ring := r\<rparr>, e')"
proof -
  obtain om e where st: "st = (om, e)"
    by fastforce
  obtain om' e' where b: "book_fill f (with_trade f st) = (om', e')"
    by fastforce
  show ?thesis
  proof (cases "fill_msg (enc (fill_event_of f))")
    case None
    then have "snd (inject_fill enc f st) = (om'\<lparr>om_fill_ring := om_fill_ring om'\<rparr>, e')"
      using b by (simp add: inject_fill_def st with_trade_def)
    with b that show ?thesis
      by blast
  next
    case (Some m)
    then have "snd (inject_fill enc f st) = (om'\<lparr>om_fill_ring := snd (ring_push (om_fill_ring om') m)\<rparr>, e')"
      using b by (simp add: inject_fill_def st with_trade_def case_prod_beta)
    with b that show ?thesis
      by blast
  qed
qed

lemma inject_fill_ok:
  assumes "om_ok st"
  shows "om_ok (snd (inject_fill enc f st))"
proof -
  obtain om' e' r where b: "book_fill f (with_trade f st) = (om', e')"
    "snd (inject_fill enc f st) = (om'\<lparr>om_fill_ring := r\<rparr>, e')"
    by (rule inject_fill_cases)
  have "om_ok (book_fill f (with_trade f st))"
    using assms by (simp add: book_fill_ok)
  then show ?thesis
    by (simp add: b om_ok_ring)
qed

lemma with_trade_frame [simp]:
  "env_halted (snd (with_trade f st)) = env_halted (snd st)"
  "en_rest (snd (with_trade f st)) = en_rest (snd st)"
  by (simp_all add: with_trade_def env_halted_def)

lemma inject_fill_frame [simp]:
  "env_halted (snd (snd (inject_fill enc f st))) = env_halted (snd st)"
  "en_rest (snd (snd (inject_fill enc f st))) = en_rest (snd st)"
proof -
  obtain om' e' r where b: "book_fill f (with_trade f st) = (om', e')"
    "snd (inject_fill enc f st) = (om'\<lparr>om_fill_ring := r\<rparr>, e')"
    by (rule inject_fill_cases)
  show "env_halted (snd (snd (inject_fill enc f st))) = env_halted (snd st)"
    using book_fill_frame(1) [of f "with_trade f st"] unfolding b by simp
  show "en_rest (snd (snd (inject_fill enc f st))) = en_rest (snd st)"
    using book_fill_frame(2) [of f "with_trade f st"] unfolding b by simp
qed

lemma fill_apply_step_ok: "om_ok st \<Longrightarrow> om_ok (fill_apply_step dec st)"
  by (cases st) (auto simp: fill_apply_step_def om_ok_ring split: option.split intro: om_ok_env)

lemma fill_apply_step_frame [simp]:
  "env_halted (snd (fill_apply_step dec st)) = env_halted (snd st)"
  "en_rest (snd (fill_apply_step dec st)) = en_rest (snd st)"
  by (cases st; auto simp: fill_apply_step_def env_halted_def split: option.split)+


section \<open>Operations that call the exchange\<close>

text \<open>
  The order manager's lemmas for any client that keeps the contract: each operation keeps \<open>om_ok\<close> and
  a halt.
\<close>

definition step_ok :: "'r om_state \<Rightarrow> 'r om_state \<Rightarrow> bool" where
  "step_ok st st' \<longleftrightarrow> om_ok st' \<and> halt_kept st st'"

lemma step_ok_trans: "step_ok a b \<Longrightarrow> step_ok b c \<Longrightarrow> step_ok a c"
  by (simp add: step_ok_def halt_kept_def)

lemma step_ok_om: "step_ok a b \<Longrightarrow> om_ok b"
  by (simp add: step_ok_def)

lemma step_ok_refl: "om_ok st \<Longrightarrow> step_ok st st"
  by (simp add: step_ok_def)

text \<open>A change of the environment only.\<close>

lemma step_ok_env:
  assumes "om_ok (om, e)" and "env_keeps e e'"
  shows "step_ok (om, e) (om, e')"
  using assms by (simp add: step_ok_def om_ok_def halt_kept_def env_keeps_def)

context rest_contract
begin

lemma cancel_attempts_ok: "om_ok st \<Longrightarrow> step_ok st (snd (cancel_attempts rest i n st))"
proof (induction n arbitrary: st)
  case 0
  obtain om e where st: "st = (om, e)"
    by fastforce
  have "om_ok (sync_open_orders (set_slot i (\<lambda>s. s\<lparr>sl_active := False\<rparr>)
      (om, env_notify_exception ''cancel_failed_persistent'' e)))"
    by (rule om_ok_sync [of i]) (use 0 in \<open>auto simp: slot_ok_def om_ok_def st\<close>)
  then show ?case
    by (simp add: step_ok_def halt_kept_def st)
next
  case (Suc n)
  obtain om e where st: "st = (om, e)"
    by fastforce
  obtain c e1 where c: "rest_cancel rest (sl_cid (slot i om)) (sl_oid (slot i om)) (env_record_cancel e) = (c, e1)"
    by fastforce
  have "env_keeps e e1"
    using rest_frame_keeps [OF cancel_frame [of "env_record_cancel e" "sl_cid (slot i om)" "sl_oid (slot i om)"]]
      env_keeps_trans [OF env_keeps_ops(3) [of e], of e1] c by simp
  then have 1: "step_ok st (om, e1)"
    using step_ok_env Suc.prems st by blast
  show ?case
  proof (cases "ca_ok c \<or> cancel_gone c")
    case True
    have "om_ok (cancel_done i (om, e1))"
      by (rule cancel_done_ok) (use Suc.prems in \<open>auto simp: om_ok_def st\<close>)
    then show ?thesis
      using 1 True by (simp add: st c step_ok_def halt_kept_def)
  next
    case False
    then show ?thesis
      using step_ok_trans [OF 1 Suc.IH [OF step_ok_om [OF 1]]] by (simp add: st c)
  qed
qed

lemma cancel_slot_ok: "om_ok st \<Longrightarrow> step_ok st (snd (cancel_slot rest i st))"
  using cancel_attempts_ok [of st i kMaxCancelAttempts]
  by (cases st) (auto simp: cancel_slot_def step_ok_refl)

lemma place_new_ok:
  assumes "\<And>j. j \<noteq> i \<Longrightarrow> slot_ok (slot j (fst st))"
  shows "step_ok st (snd (place_new cfg rest i price qty st))"
proof -
  obtain om e where st: "st = (om, e)"
    by fastforce
  obtain om1 e1 where p: "prepare_slot i price qty (om, e) = (om1, e1)"
    by fastforce
  note p1 = prepare_slot_spec [OF p]
  have others: "\<And>j. j \<noteq> i \<Longrightarrow> slot_ok (slot j om1)"
    using assms p1(7) by (simp add: st)
  have h1: "env_halted e1 = env_halted e"
    using p1(10) by (simp add: env_halted_def)
  have rej: "step_ok st (snd (reject_new i (om1, e')))" if "env_halted e \<Longrightarrow> env_halted e'" for e'
    using reject_new_ok [of i "(om1, e')"] p1(2) others that by (simp add: step_ok_def halt_kept_def st)
  have acc: "step_ok st (snd (accept_new i a (om1, e')))" if "env_halted e \<Longrightarrow> env_halted e'" for a e'
    using accept_new_ok [of i "(om1, e')" a] p1(2) others that by (simp add: step_ok_def halt_kept_def st)
  show ?thesis
  proof (cases "env_halted e1")
    case True
    then show ?thesis
      using rej [of e1] by (simp add: place_new_def st p)
  next
    case False
    obtain rr e2 where r: "env_pre_trade_check (c_risk cfg) (of_int (sl_side (slot i om1)) * qty) price e1 = (rr, e2)"
      by fastforce
    obtain a e3 where a: "rest_place rest (side_str (slot i om1)) qty price True (sl_cid (slot i om1))
        (env_record_submission e2) = (a, e3)"
      by fastforce
    have "\<not> env_halted e"
      using False h1 by simp
    then show ?thesis
      using rej [of e2] rej [of e3] acc [of e3 a] False
      by (simp add: place_new_def st p r a Let_def)
  qed
qed

lemma place_side_ok:
  assumes "\<And>j. j \<noteq> i \<Longrightarrow> slot_ok (slot j (fst st))"
  shows "step_ok st (place_side cfg rest i price qty st)"
proof -
  have "step_ok (set_slot i (\<lambda>s. s\<lparr>sl_side := slot_side i\<rparr>) st) (place_side cfg rest i price qty st)"
    unfolding place_side_def by (rule place_new_ok) (use assms in simp)
  then show ?thesis
    by (simp add: step_ok_def halt_kept_def)
qed

lemma maybe_requote_side_ok:
  assumes "om_ok st"
  shows "step_ok st (maybe_requote_side cfg rest i price qty st)"
proof -
  let ?place = "place_side cfg rest i price qty"
  have 1: "step_ok st (?place st)"
    by (rule place_side_ok) (use assms in \<open>simp add: om_ok_def\<close>)
  have "step_ok (set_slot i (\<lambda>s. s\<lparr>sl_active := False\<rparr>) st) (?place (set_slot i (\<lambda>s. s\<lparr>sl_active := False\<rparr>) st))"
    by (rule place_side_ok) (use assms in \<open>simp add: om_ok_def\<close>)
  then have 2: "step_ok st (?place (set_slot i (\<lambda>s. s\<lparr>sl_active := False\<rparr>) st))"
    by (simp add: step_ok_def halt_kept_def)
  obtain ok st2 where c: "cancel_slot rest i st = (ok, st2)"
    by (rule prod.exhaust)
  have 3: "step_ok st st2"
    using cancel_slot_ok [OF assms, of i] c by simp
  have "step_ok st2 (?place st2)"
    by (rule place_side_ok) (use step_ok_om [OF 3] in \<open>simp add: om_ok_def\<close>)
  with 3 have 4: "step_ok st (?place st2)"
    by (rule step_ok_trans)
  show ?thesis
    using 1 2 3 4 step_ok_refl [OF assms] by (simp add: maybe_requote_side_def c Let_def)
qed

lemma on_quote_ok: "om_ok st \<Longrightarrow> step_ok st (on_quote cfg rest bid ask qty st)"
  using step_ok_trans [OF maybe_requote_side_ok maybe_requote_side_ok [OF step_ok_om [OF maybe_requote_side_ok]]]
  by (simp add: on_quote_def step_ok_refl)

lemma check_ack_slot_ok: "om_ok st \<Longrightarrow> step_ok st (check_ack_slot cfg rest now i st)"
  by (simp add: check_ack_slot_def Let_def cancel_slot_ok step_ok_refl)

lemma check_ack_timeouts_ok: "om_ok st \<Longrightarrow> step_ok st (check_ack_timeouts cfg rest now st)"
  unfolding check_ack_timeouts_def
  using step_ok_trans check_ack_slot_ok step_ok_om by blast

lemma cancel_live_ok: "om_ok st \<Longrightarrow> step_ok st (cancel_live rest i st)"
  by (simp add: cancel_live_def cancel_slot_ok step_ok_refl)

lemma flatten_market_ok:
  assumes "om_ok (om, e)"
  shows "step_ok (om, e) (snd (flatten_market rest pos (om, e)))"
proof -
  obtain cid om1 where c: "make_cid om = (cid, om1)"
    by fastforce
  obtain a e1 where a: "rest_market rest (if 0 < pos then ''SELL'' else ''BUY'') \<bar>pos\<bar> cid
      (env_record_submission e) = (a, e1)"
    by fastforce
  have "env_keeps e e1"
    using rest_frame_keeps [OF market_frame [of "env_record_submission e"
          "if 0 < pos then ''SELL'' else ''BUY''" "\<bar>pos\<bar>" cid]]
      env_keeps_trans [OF env_keeps_ops(2) [of e], of e1] a by simp
  moreover have "om1 = om\<lparr>om_cid_counter := om_cid_counter om + 1\<rparr>"
    using c by (simp add: make_cid_def Let_def)
  ultimately show ?thesis
    using assms by (simp add: flatten_market_def c a step_ok_def halt_kept_def env_keeps_def om_ok_def live_count_def)
qed

lemma on_halt_ok:
  assumes "om_ok st"
  shows "step_ok st (on_halt cfg rest st)"
proof -
  obtain om e where s: "cancel_live rest ASK (cancel_live rest BID st) = (om, e)"
    by fastforce
  have 1: "step_ok st (om, e)"
    using step_ok_trans [OF cancel_live_ok [OF assms] cancel_live_ok [OF step_ok_om [OF cancel_live_ok [OF assms]]]] s
    by metis
  obtain ps e1 where ps: "rest_positions rest e = (ps, e1)"
    by fastforce
  have "env_keeps e e1"
    using rest_frame_keeps [OF positions_frame [of e]] ps by simp
  then have 2: "step_ok st (om, e1)"
    using step_ok_trans [OF 1 step_ok_env [OF step_ok_om [OF 1]]] by blast
  show ?thesis
    using 2 step_ok_trans [OF 2 flatten_market_ok [OF step_ok_om [OF 2]]]
    by (simp add: on_halt_def cancel_and_flatten_locked_def s ps Let_def)
qed

lemma halt_watch_ok: "om_ok st \<Longrightarrow> step_ok st (halt_watch cfg rest st)"
  using on_halt_ok [of "((fst st)\<lparr>om_halt_handled := True\<rparr>, snd st)" cfg]
  by (cases st) (auto simp: halt_watch_def step_ok_refl step_ok_def halt_kept_def)

lemma shutdown_cancel_ok:
  assumes "om_ok st"
  shows "step_ok st (shutdown_cancel rest deadline i st)"
proof -
  obtain om e where st: "st = (om, e)"
    by fastforce
  have 1: "step_ok (om, e) (om, env_tick e)"
    using assms by (intro step_ok_env) (simp_all add: st)
  have 2: "step_ok (om, e) (snd (cancel_slot rest i (om, env_tick e)))"
    using step_ok_trans [OF 1 cancel_slot_ok [OF step_ok_om [OF 1]]] .
  have 3: "step_ok (om, e) (om, e)"
    using assms by (simp add: st step_ok_refl)
  show ?thesis
    using 1 2 3 by (simp add: shutdown_cancel_def st)
qed

lemma shutdown_cancel_all_ok:
  assumes "om_ok st"
  shows "step_ok st (shutdown_cancel_all cfg rest st)"
proof -
  obtain om e where st: "st = (om, e)"
    by fastforce
  let ?d = "steady_now (en_clock e) + ms_ns 5000"
  have 0: "step_ok (om, e) (om, env_tick e)"
    using assms by (intro step_ok_env) (simp_all add: st)
  note 1 = step_ok_trans [OF 0 shutdown_cancel_ok [OF step_ok_om [OF 0], of ?d BID]]
  note 2 = step_ok_trans [OF 1 shutdown_cancel_ok [OF step_ok_om [OF 1], of ?d ASK]]
  obtain om2 e2 where s2: "shutdown_cancel rest ?d ASK (shutdown_cancel rest ?d BID (om, env_tick e)) = (om2, e2)"
    by fastforce
  have 3: "step_ok (om, e) (om2, e2)"
    using 2 s2 by simp
  have 4: "step_ok (om, e) (om2, env_tick e2)"
    using step_ok_trans [OF 3 step_ok_env [OF step_ok_om [OF 3]]] by simp
  show ?thesis
    using 3 4 step_ok_trans [OF 4 flatten_market_ok [OF step_ok_om [OF 4]]]
    by (simp add: shutdown_cancel_all_def st s2 Let_def)
qed

lemma reconcile_now_ok:
  assumes "om_ok st"
  shows "step_ok st (reconcile_now cfg rest st)"
proof -
  obtain om e where st: "st = (om, e)"
    by fastforce
  obtain ps e1 where ps: "rest_positions rest e = (ps, e1)"
    by fastforce
  obtain oo e2 where oo: "rest_open_orders rest e1 = (oo, e2)"
    by fastforce
  have "env_keeps e e1" "env_keeps e1 e2"
    using rest_frame_keeps [OF positions_frame [of e]] rest_frame_keeps [OF open_orders_frame [of e1]] ps oo
    by simp_all
  moreover have "env_keeps e2 (reconcile_positions cfg ps e2)"
    by (simp add: reconcile_positions_def)
  ultimately have "env_keeps e (reconcile_positions cfg ps e2)"
    by (blast intro: env_keeps_trans)
  then show ?thesis
    using step_ok_env assms by (simp add: reconcile_now_def st ps oo)
qed

lemma reconcile_round_ok:
  assumes "om_ok (om, e)"
  shows "step_ok (om, e) (snd (reconcile_round cfg rest (due, om, e)))"
proof -
  have tick: "step_ok (om', e') (om', env_tick e')" if "om_ok (om', e')" for om' e'
    by (rule step_ok_env [OF that]) simp
  obtain om1 e1 where 1: "reconcile_now cfg rest (om, env_tick e) = (om1, e1)"
    by fastforce
  have 2: "step_ok (om, e) (om1, e1)"
    using step_ok_trans [OF tick [OF assms] reconcile_now_ok [OF step_ok_om [OF tick [OF assms]], of cfg]]
    by (simp add: 1)
  show ?thesis
    using step_ok_trans [OF 2 tick [OF step_ok_om [OF 2]]] tick [OF assms]
    by (simp add: reconcile_round_def reconcile_and_rearm_def 1 Let_def)
qed

end

end
