(* ===== verification/OrderTrace.thy ===== *)
theory OrderTrace
  imports OrderInvariant
begin

text \<open>
  What reaches the exchange.  Locale \<open>rest_trace\<close> extends the REST contract by an observation: the
  list of calls made so far.  In it every operation of the order manager is shown to extend the list
  by calls that place orders only while the breaker is not halted, under client order ids that are
  never used twice.
\<close>

section \<open>Client order ids\<close>

definition cid_str :: "u64 \<Rightarrow> nat \<Rightarrow> string" where
  "cid_str start n = ''spr'' @ dec_u64 start @ ''z'' @ dec_nat n"

lemma cid_str_inject [simp]: "cid_str start m = cid_str start n \<longleftrightarrow> m = n"
  by (simp add: cid_str_def)

lemma make_cid_str: "make_cid om = (cid_str (om_start_ms om) (unat (om_cid_counter om)), om\<lparr>om_cid_counter := om_cid_counter om + 1\<rparr>)"
proof -
  have "length (''spr'' @ dec_u64 (om_start_ms om) @ ''z'' @ dec_u64 (om_cid_counter om)) < 64"
    using length_dec_u64 [of "om_start_ms om"] length_dec_u64 [of "om_cid_counter om"] by simp
  then show ?thesis
    by (simp only: make_cid_def Let_def c_buf_short cid_str_def dec_u64_def)
qed

fun call_cid :: "rest_call \<Rightarrow> string list" where
  "call_cid (CallPlace side qty price po cid h) = [cid]"
| "call_cid (CallMarket side qty cid h) = [cid]"
| "call_cid _ = []"

text \<open>\<open>good\<close> is what a placement's side, quantity and price have to satisfy beyond that.\<close>

fun call_ok :: "(string \<Rightarrow> double \<Rightarrow> double \<Rightarrow> bool) \<Rightarrow> rest_call \<Rightarrow> bool" where
  "call_ok good (CallPlace side qty price po cid h) \<longleftrightarrow> \<not> h \<and> po \<and> good side qty price"
| "call_ok good _ \<longleftrightarrow> True"

definition order_side :: "slot_idx \<Rightarrow> string" where
  "order_side i = (if i = BID then ''BUY'' else ''SELL'')"

lemma order_side_simps [simp]: "order_side BID = ''BUY''" "order_side ASK = ''SELL''"
  by (simp_all add: order_side_def)

lemma side_str_slot: "sl_side s = slot_side i \<Longrightarrow> side_str s = order_side i"
  by (cases i) (simp_all add: side_str_def)


section \<open>Traced clients\<close>

locale rest_trace = rest_contract rest
  for rest :: "'r rest_client" +
  fixes trace :: "'r \<Rightarrow> rest_call list" and good :: "string \<Rightarrow> double \<Rightarrow> double \<Rightarrow> bool"
  assumes trace_place: "trace (en_rest (snd (rest_place rest side qty price po cid e))) =
      trace (en_rest e) @ [CallPlace side qty price po cid (env_halted e)]"
    and trace_market: "trace (en_rest (snd (rest_market rest side qty cid e))) =
      trace (en_rest e) @ [CallMarket side qty cid (env_halted e)]"
    and trace_cancel: "trace (en_rest (snd (rest_cancel rest cid oid e))) =
      trace (en_rest e) @ [CallCancel cid oid (env_halted e)]"
    and trace_positions: "trace (en_rest (snd (rest_positions rest e))) = trace (en_rest e) @ [CallOther]"
    and trace_open_orders: "trace (en_rest (snd (rest_open_orders rest e))) = trace (en_rest e) @ [CallOther]"

lemma rest_trace_logged: "rest_contract r \<Longrightarrow> rest_trace (logged r) snd"
  by (intro rest_trace.intro rest_contract_logged rest_trace_axioms.intro)
    (simp_all add: logged_def call_logged_calls)

text \<open>
  An operation that uses up at most \<open>k\<close> identifiers: the calls it adds, and the numbers of the
  identifiers they carry, which lie between the counter before and after and increase.
\<close>

definition ids_ok :: "u64 \<Rightarrow> nat \<Rightarrow> nat \<Rightarrow> rest_call list \<Rightarrow> bool" where
  "ids_ok start lo hi calls \<longleftrightarrow>
     (\<exists>ns. concat (map call_cid calls) = map (cid_str start) ns \<and> sorted_wrt (<) ns \<and>
       (\<forall>n \<in> set ns. lo \<le> n \<and> n < hi))"

lemma ids_ok_Nil [simp]: "ids_ok start lo hi []"
  by (auto simp: ids_ok_def)

lemma ids_ok_append:
  assumes "ids_ok start lo mid xs" and "ids_ok start mid hi ys" and "lo \<le> mid" and "mid \<le> hi"
  shows "ids_ok start lo hi (xs @ ys)"
proof -
  obtain ms where ms: "concat (map call_cid xs) = map (cid_str start) ms" "sorted_wrt (<) ms"
    "\<forall>n \<in> set ms. lo \<le> n \<and> n < mid"
    using assms(1) by (auto simp: ids_ok_def)
  obtain ns where ns: "concat (map call_cid ys) = map (cid_str start) ns" "sorted_wrt (<) ns"
    "\<forall>n \<in> set ns. mid \<le> n \<and> n < hi"
    using assms(2) by (auto simp: ids_ok_def)
  have "sorted_wrt (<) (ms @ ns)"
    using ms ns by (fastforce simp: sorted_wrt_append)
  with ms ns assms(3,4) show ?thesis
    unfolding ids_ok_def by (intro exI [of _ "ms @ ns"]) auto
qed

lemma ids_ok_distinct: "ids_ok start lo hi calls \<Longrightarrow> distinct (concat (map call_cid calls))"
  by (auto simp: ids_ok_def distinct_map inj_on_def strict_sorted_iff)

lemma ids_ok_no_cid: "concat (map call_cid calls) = [] \<Longrightarrow> ids_ok start lo hi calls"
  unfolding ids_ok_def by (intro exI [of _ "[]"]) simp

context rest_trace
begin

definition traced :: "nat \<Rightarrow> 'r om_state \<Rightarrow> 'r om_state \<Rightarrow> bool" where
  "traced k st st' \<longleftrightarrow>
     om_start_ms (fst st') = om_start_ms (fst st) \<and>
     (unat (om_cid_counter (fst st)) + k < 2 ^ 64 \<longrightarrow>
       unat (om_cid_counter (fst st)) \<le> unat (om_cid_counter (fst st')) \<and>
       unat (om_cid_counter (fst st')) \<le> unat (om_cid_counter (fst st)) + k \<and>
       (\<exists>new. trace (en_rest (snd st')) = trace (en_rest (snd st)) @ new \<and> list_all (call_ok good) new \<and>
         ids_ok (om_start_ms (fst st)) (unat (om_cid_counter (fst st))) (unat (om_cid_counter (fst st'))) new))"

lemma traced_same:
  assumes "om_start_ms (fst st') = om_start_ms (fst st)" and "om_cid_counter (fst st') = om_cid_counter (fst st)"
    and "trace (en_rest (snd st')) = trace (en_rest (snd st)) @ new" and "list_all (call_ok good) new"
    and "concat (map call_cid new) = []"
  shows "traced k st st'"
  using assms ids_ok_no_cid by (auto simp: traced_def)

lemma traced_quiet:
  assumes "om_start_ms (fst st') = om_start_ms (fst st)" and "om_cid_counter (fst st') = om_cid_counter (fst st)"
    and "en_rest (snd st') = en_rest (snd st)"
  shows "traced k st st'"
  using assms traced_same [of st' st "[]"] by simp

lemma traced_trans:
  assumes "traced k st st1" and "traced m st1 st2"
  shows "traced (k + m) st st2"
proof (cases "unat (om_cid_counter (fst st)) + (k + m) < 2 ^ 64")
  case True
  then obtain new1 where 1: "unat (om_cid_counter (fst st)) \<le> unat (om_cid_counter (fst st1))"
    "unat (om_cid_counter (fst st1)) \<le> unat (om_cid_counter (fst st)) + k"
    "trace (en_rest (snd st1)) = trace (en_rest (snd st)) @ new1" "list_all (call_ok good) new1"
    "ids_ok (om_start_ms (fst st)) (unat (om_cid_counter (fst st))) (unat (om_cid_counter (fst st1))) new1"
    using assms(1) by (auto simp: traced_def)
  with True obtain new2 where 2: "unat (om_cid_counter (fst st1)) \<le> unat (om_cid_counter (fst st2))"
    "unat (om_cid_counter (fst st2)) \<le> unat (om_cid_counter (fst st1)) + m"
    "trace (en_rest (snd st2)) = trace (en_rest (snd st1)) @ new2" "list_all (call_ok good) new2"
    "ids_ok (om_start_ms (fst st1)) (unat (om_cid_counter (fst st1))) (unat (om_cid_counter (fst st2))) new2"
    using assms(2) by (auto simp: traced_def)
  have "om_start_ms (fst st1) = om_start_ms (fst st)"
    using assms(1) by (simp add: traced_def)
  with 2(5) have "ids_ok (om_start_ms (fst st)) (unat (om_cid_counter (fst st))) (unat (om_cid_counter (fst st2))) (new1 @ new2)"
    by (intro ids_ok_append [OF 1(5)]) (use 1 2 in simp_all)
  then show ?thesis
    using 1 2 assms by (auto simp: traced_def)
next
  case False
  then show ?thesis
    using assms by (simp add: traced_def)
qed

lemma traced_mono: "traced k st st' \<Longrightarrow> k \<le> m \<Longrightarrow> traced m st st'"
  by (auto simp: traced_def)

lemma traced_refl [simp]: "traced k st st"
  by (rule traced_quiet) simp_all

lemma traced_trans0: "traced 0 st st1 \<Longrightarrow> traced k st1 st2 \<Longrightarrow> traced k st st2"
  using traced_trans [of 0 st st1 k st2] by simp

text \<open>Pieces that make no call.\<close>

lemma counter_transition [simp]:
  "om_cid_counter (fst (transition i to st)) = om_cid_counter (fst st)"
  "om_start_ms (fst (transition i to st)) = om_start_ms (fst st)"
  by (cases st; simp add: transition_def)+

lemma traced_sync [simp]: "traced k st (sync_open_orders st)"
  by (rule traced_quiet) simp_all

lemma traced_transition [simp]: "traced k st (transition i to st)"
  by (rule traced_quiet) simp_all

lemma traced_set_slot [simp]: "traced k st (set_slot i f st)"
  by (rule traced_quiet) simp_all

lemma traced_env: "en_rest e' = en_rest e \<Longrightarrow> traced k (om, e) (om, e')"
  by (rule traced_quiet) simp_all

lemma traced_cancel_done [simp]: "traced 0 st (cancel_done i st)"
  unfolding cancel_done_def
  by (rule traced_trans0 [OF traced_transition traced_trans0 [OF traced_set_slot traced_sync]])

lemma traced_reject_new [simp]: "traced 0 st (snd (reject_new i st))"
  unfolding reject_new_def snd_conv by (rule traced_trans0 [OF traced_transition traced_sync])

lemma traced_acknowledge: "traced 0 st (acknowledge i a st)"
proof (rule traced_quiet)
  show "om_start_ms (fst (acknowledge i a st)) = om_start_ms (fst st)"
    "om_cid_counter (fst (acknowledge i a st)) = om_cid_counter (fst st)"
    by (cases st; simp add: acknowledge_def Let_def set_slot_def transition_def record_latency_cycles_def)+
qed simp

lemma traced_accept_new: "traced 0 st (snd (accept_new i a st))"
  unfolding accept_new_def snd_conv by (rule traced_trans0 [OF traced_acknowledge traced_sync])

text \<open>The calls.\<close>

lemma cancel_attempts_traced: "traced 0 st (snd (cancel_attempts rest i n st))"
proof (induction n arbitrary: st)
  case 0
  obtain om e where st: "st = (om, e)"
    by fastforce
  have "traced 0 (om, e) (sync_open_orders (set_slot i (\<lambda>s. s\<lparr>sl_active := False\<rparr>)
      (om, env_notify_exception ''cancel_failed_persistent'' e)))"
    by (intro traced_trans0 [OF traced_env traced_trans0 [OF traced_set_slot traced_sync]]) simp
  then show ?case
    by (simp add: st)
next
  case (Suc n)
  obtain om e where st: "st = (om, e)"
    by fastforce
  obtain c e1 where c: "rest_cancel rest (sl_cid (slot i om)) (sl_oid (slot i om)) (env_record_cancel e) = (c, e1)"
    by fastforce
  let ?call = "CallCancel (sl_cid (slot i om)) (sl_oid (slot i om)) (env_halted (env_record_cancel e))"
  have "trace (en_rest e1) = trace (en_rest e) @ [?call]"
    using trace_cancel [of "sl_cid (slot i om)" "sl_oid (slot i om)" "env_record_cancel e"] c by simp
  then have "traced 0 st (om, e1)"
    using traced_same [of "(om, e1)" st "[?call]"] by (simp add: st)
  then show ?case
    using Suc.IH [of "(om, e1)"] traced_cancel_done traced_trans0
    by (auto simp: st c intro: traced_trans0)
qed

lemma cancel_slot_traced: "traced 0 st (snd (cancel_slot rest i st))"
  using cancel_attempts_traced by (cases st) (simp add: cancel_slot_def)

lemma place_new_traced:
  assumes "sl_side (slot i (fst st)) = slot_side i" and "good (order_side i) qty price"
  shows "traced 1 st (snd (place_new cfg rest i price qty st))"
proof -
  obtain om e where st: "st = (om, e)"
    by fastforce
  obtain om1 e1 where p: "prepare_slot i price qty (om, e) = (om1, e1)"
    by fastforce
  note p1 = prepare_slot_spec [OF p]
  define rr e2 where "rr = fst (env_pre_trade_check (c_risk cfg) (of_int (sl_side (slot i om1)) * qty) price e1)"
    and "e2 = snd (env_pre_trade_check (c_risk cfg) (of_int (sl_side (slot i om1)) * qty) price e1)"
  define cid where "cid = sl_cid (slot i om1)"
  obtain a e3 where a: "rest_place rest (side_str (slot i om1)) qty price True cid
      (env_record_submission e2) = (a, e3)"
    by fastforce
  have side: "side_str (slot i om1) = order_side i"
    using assms(1) p1(3) by (intro side_str_slot) (simp add: st)
  have e2: "en_rest e2 = en_rest e" "env_halted e2 = env_halted e1"
    using p1(8) by (simp_all add: e2_def env_halted_def)
  have cid: "cid = cid_str (om_start_ms om) (unat (om_cid_counter om))"
    using p1(6) by (simp add: cid_def make_cid_str)
  have step: "traced 1 (om, e) (om1, e')"
    if "trace (en_rest e') = trace (en_rest e) @ new" "list_all (call_ok good) new"
      "new = [] \<or> concat (map call_cid new) = [cid]" for e' new
  proof -
    have "ids_ok (om_start_ms om) (unat (om_cid_counter om)) (Suc (unat (om_cid_counter om))) new"
      using that(3)
    proof
      assume "concat (map call_cid new) = [cid]"
      then show ?thesis
        unfolding ids_ok_def cid by (intro exI [of _ "[unat (om_cid_counter om)]"]) simp
    qed simp
    moreover have "unat (om_cid_counter om) + 1 < 2 ^ 64 \<Longrightarrow> unat (om_cid_counter om + 1) = Suc (unat (om_cid_counter om))"
      by (simp add: unat_word_ariths)
    ultimately show ?thesis
      using that(1,2) by (auto simp: traced_def p1(12,13))
  qed
  have quiet: "traced 1 (om, e) (om1, e')" if "en_rest e' = en_rest e" for e'
    using step [of e' "[]"] that by simp
  have after: "traced 1 st st2" if "traced 1 (om, e) st1" "traced 0 st1 st2" for st1 st2
    using traced_trans [OF that] by (simp add: st)
  have placed: "traced 1 (om, e) (om1, e3)" if "\<not> env_halted e1"
  proof -
    have h: "env_halted (env_record_submission e2) = env_halted e2"
      by (simp add: env_halted_def)
    show ?thesis
      by (rule step [of _ "[CallPlace (side_str (slot i om1)) qty price True cid (env_halted e2)]"])
        (use trace_place [of "side_str (slot i om1)" qty price True cid "env_record_submission e2"] a that e2 h assms(2) side
          in simp_all)
  qed
  show ?thesis
    using after [OF quiet [OF p1(8)] traced_reject_new] after [OF quiet [OF e2(1)] traced_reject_new]
      after [OF placed traced_reject_new] after [OF placed traced_accept_new]
    by (simp add: place_new_def st p Let_def case_prod_beta a [unfolded cid_def] flip: rr_def e2_def)
qed

lemma place_side_traced:
  assumes "good (order_side i) qty price"
  shows "traced 1 st (place_side cfg rest i price qty st)"
  unfolding place_side_def
  by (rule traced_trans0 [OF traced_set_slot place_new_traced]) (use assms in \<open>cases st; cases i; simp add: set_slot_def\<close>)+

lemma maybe_requote_side_traced:
  assumes "good (order_side i) qty price"
  shows "traced 1 st (maybe_requote_side cfg rest i price qty st)"
proof -
  note place_side_traced = place_side_traced [OF assms]
  obtain ok st2 where c: "cancel_slot rest i st = (ok, st2)"
    by (rule prod.exhaust)
  have 2: "traced 0 st st2"
    using cancel_slot_traced [of st i] c by simp
  have "traced 1 st (place_side cfg rest i price qty st2)"
    by (rule traced_trans0 [OF 2 place_side_traced])
  moreover have "traced 1 st (place_side cfg rest i price qty (set_slot i (\<lambda>s. s\<lparr>sl_active := False\<rparr>) st))"
    by (rule traced_trans0 [OF traced_set_slot place_side_traced])
  moreover have "traced 1 st st2"
    using 2 by (rule traced_mono) simp
  ultimately show ?thesis
    using place_side_traced [of st] by (simp add: maybe_requote_side_def c Let_def)
qed

lemma on_quote_traced:
  assumes "good ''BUY'' qty bid" and "good ''SELL'' qty ask"
  shows "traced 2 st (on_quote cfg rest bid ask qty st)"
  using traced_trans [OF maybe_requote_side_traced [of BID qty bid] maybe_requote_side_traced [of ASK qty ask]] assms
  by (simp add: on_quote_def numeral_2_eq_2)

lemma check_ack_timeouts_traced: "traced 0 st (check_ack_timeouts cfg rest now st)"
proof -
  have "traced 0 st' (check_ack_slot cfg rest now i st')" for st' i
    by (simp add: check_ack_slot_def Let_def cancel_slot_traced)
  then show ?thesis
    unfolding check_ack_timeouts_def by (blast intro: traced_trans0)
qed

lemma cancel_live_traced: "traced 0 st (cancel_live rest i st)"
  by (simp add: cancel_live_def cancel_slot_traced)

lemma flatten_market_traced: "traced 1 (om, e) (snd (flatten_market rest pos (om, e)))"
proof -
  let ?cid = "cid_str (om_start_ms om) (unat (om_cid_counter om))"
  let ?om1 = "om\<lparr>om_cid_counter := om_cid_counter om + 1\<rparr>"
  let ?side = "if 0 < pos then ''SELL'' else ''BUY''"
  obtain a e1 where a: "rest_market rest ?side \<bar>pos\<bar> ?cid (env_record_submission e) = (a, e1)"
    by fastforce
  let ?call = "CallMarket ?side \<bar>pos\<bar> ?cid (env_halted (env_record_submission e))"
  have "trace (en_rest e1) = trace (en_rest e) @ [?call]"
    using trace_market [of ?side "\<bar>pos\<bar>" ?cid "env_record_submission e"] a by simp
  moreover have "ids_ok (om_start_ms om) (unat (om_cid_counter om)) (Suc (unat (om_cid_counter om))) [?call]"
    unfolding ids_ok_def by (intro exI [of _ "[unat (om_cid_counter om)]"]) simp
  moreover have "unat (om_cid_counter om) + 1 < 2 ^ 64 \<Longrightarrow> unat (om_cid_counter om + 1) = Suc (unat (om_cid_counter om))"
    by (simp add: unat_word_ariths)
  ultimately have "traced 1 (om, e) (?om1, e1)"
    unfolding traced_def by (auto intro!: exI [of _ "[?call]"])
  then show ?thesis
    using a by (simp add: flatten_market_def make_cid_str)
qed

lemma on_halt_traced: "traced 1 st (on_halt cfg rest st)"
proof -
  obtain om e where s: "cancel_live rest ASK (cancel_live rest BID st) = (om, e)"
    by fastforce
  have 1: "traced 0 st (om, e)"
    using traced_trans0 [OF cancel_live_traced cancel_live_traced, of st ASK BID] s by simp
  obtain ps e1 where ps: "rest_positions rest e = (ps, e1)"
    by fastforce
  have "traced 0 (om, e) (om, e1)"
    using traced_same [of "(om, e1)" "(om, e)" "[CallOther]"] trace_positions [of e] ps by simp
  then have 2: "traced 0 st (om, e1)"
    using 1 traced_trans0 by blast
  show ?thesis
    using traced_mono [OF 2, of 1] traced_trans0 [OF 2 flatten_market_traced]
    by (simp add: on_halt_def cancel_and_flatten_locked_def s ps Let_def)
qed

lemma halt_watch_traced: "traced 1 st (halt_watch cfg rest st)"
proof -
  obtain om e where st: "st = (om, e)"
    by fastforce
  have "traced 0 (om, e) (om\<lparr>om_halt_handled := True\<rparr>, e)"
    by (rule traced_quiet) simp_all
  then show ?thesis
    using traced_trans0 on_halt_traced by (auto simp: halt_watch_def st)
qed

lemma shutdown_cancel_all_traced: "traced 1 st (shutdown_cancel_all cfg rest st)"
proof -
  obtain om e where st: "st = (om, e)"
    by fastforce
  let ?d = "steady_now (en_clock e) + ms_ns 5000"
  have tick: "traced k (om', e') (om', env_tick e')" for k om' e'
    by (rule traced_env) simp
  have sc: "traced 0 st' (shutdown_cancel rest ?d i st')" for st' i
    using traced_trans0 [OF tick cancel_slot_traced] tick by (cases st') (simp add: shutdown_cancel_def)
  obtain om2 e2 where s2: "shutdown_cancel rest ?d ASK (shutdown_cancel rest ?d BID (om, env_tick e)) = (om2, e2)"
    by fastforce
  have 2: "traced 0 (om, e) (om2, e2)"
    using traced_trans0 [OF tick traced_trans0 [OF sc sc], of om e ASK BID] s2 by simp
  have 3: "traced 0 (om, e) (om2, env_tick e2)"
    by (rule traced_trans0 [OF 2 tick])
  show ?thesis
    using traced_mono [OF 2, of 1] traced_mono [OF 3, of 1] traced_trans0 [OF 3 flatten_market_traced]
    by (simp add: shutdown_cancel_all_def st s2 Let_def)
qed

lemma reconcile_now_traced: "traced 0 st (reconcile_now cfg rest st)"
proof -
  obtain om e where st: "st = (om, e)"
    by fastforce
  obtain ps e1 where ps: "rest_positions rest e = (ps, e1)"
    by fastforce
  obtain oo e2 where oo: "rest_open_orders rest e1 = (oo, e2)"
    by fastforce
  have "traced 0 (om, e) (om, e2)"
    using traced_same [of "(om, e2)" "(om, e)" "[CallOther, CallOther]"] trace_positions [of e]
      trace_open_orders [of e1] ps oo by simp
  moreover have "traced 0 (om, e2) (om, reconcile_positions cfg ps e2)"
    by (rule traced_env) (simp add: reconcile_positions_def)
  ultimately show ?thesis
    using traced_trans0 by (simp add: reconcile_now_def st ps oo)
qed

lemma inject_fill_traced: "traced 0 st (snd (inject_fill enc f st))"
proof -
  have s: "om_start_ms (fst (slot_fill i f st')) = om_start_ms (fst st')"
    "om_cid_counter (fst (slot_fill i f st')) = om_cid_counter (fst st')" for i st'
    by (simp_all add: slot_fill_def Let_def case_prod_beta)
  obtain om' e' r where b: "book_fill f (with_trade f st) = (om', e')"
    "snd (inject_fill enc f st) = (om'\<lparr>om_fill_ring := r\<rparr>, e')"
    by (rule inject_fill_cases)
  have "om_start_ms (fst (book_fill f (with_trade f st))) = om_start_ms (fst st)"
    "om_cid_counter (fst (book_fill f (with_trade f st))) = om_cid_counter (fst st)"
    by (simp_all add: book_fill_def s) (simp_all add: with_trade_def)
  then show ?thesis
    using inject_fill_frame(2) [of enc f st] by (intro traced_quiet) (simp_all add: b)
qed

lemma fill_apply_step_traced: "traced 0 st (fill_apply_step dec st)"
  by (rule traced_quiet) (cases st; simp add: fill_apply_step_def split: option.split)+

end


section \<open>Histories\<close>

text \<open>
  Everything that happens to the order manager and the state it shares, in any order: quotes, the
  acknowledgement watchdog, fills from the private stream, the fill thread, the halt watcher,
  shutdown, reconciliation, breaker ticks, exceptions raised elsewhere and mid updates.
\<close>

datatype om_op =
    OQuote double double double
  | OAckTimeouts u64
  | OFill fill_input
  | OApplyFill
  | OHaltWatch
  | OShutdown
  | OReconcile
  | OTick
  | ONotify string
  | OMid double

record codecs =
  enc_fill :: "fill_event \<Rightarrow> u8 list"
  dec_fill :: "u8 list \<Rightarrow> fill_event option"
  enc_risk :: "risk_event \<Rightarrow> u8 list"

definition env_breaker_tick :: "(risk_event \<Rightarrow> u8 list) \<Rightarrow> risk_cfg \<Rightarrow> 'r env \<Rightarrow> 'r env" where
  "env_breaker_tick enc rc e =
     (let (rm, cb, ck, db) = tick_now enc rc (en_pt e) (en_rm e, en_cb e, en_clock e, en_db e)
      in e\<lparr>en_rm := rm, en_cb := cb, en_clock := ck, en_db := db\<rparr>)"

fun om_step :: "config \<Rightarrow> 'r rest_client \<Rightarrow> codecs \<Rightarrow> om_op \<Rightarrow> 'r om_state \<Rightarrow> 'r om_state" where
  "om_step cfg rest cs (OQuote bid ask qty) st = on_quote cfg rest bid ask qty st"
| "om_step cfg rest cs (OAckTimeouts now) st = check_ack_timeouts cfg rest now st"
| "om_step cfg rest cs (OFill f) st = snd (inject_fill (enc_fill cs) f st)"
| "om_step cfg rest cs OApplyFill st = fill_apply_step (dec_fill cs) st"
| "om_step cfg rest cs OHaltWatch st = halt_watch cfg rest st"
| "om_step cfg rest cs OShutdown st = shutdown_cancel_all cfg rest st"
| "om_step cfg rest cs OReconcile st = reconcile_now cfg rest st"
| "om_step cfg rest cs OTick st = (fst st, env_breaker_tick (enc_risk cs) (c_risk cfg) (snd st))"
| "om_step cfg rest cs (ONotify d) st = (fst st, env_notify_exception d (snd st))"
| "om_step cfg rest cs (OMid m) st = (fst st, (snd st)\<lparr>en_pt := update_mid m (en_pt (snd st))\<rparr>)"

text \<open>A condition on placements, on the quotes they come from.\<close>

fun op_good :: "(string \<Rightarrow> double \<Rightarrow> double \<Rightarrow> bool) \<Rightarrow> om_op \<Rightarrow> bool" where
  "op_good good (OQuote bid ask qty) \<longleftrightarrow> good ''BUY'' qty bid \<and> good ''SELL'' qty ask"
| "op_good good _ \<longleftrightarrow> True"

lemma op_good_True [simp]: "op_good (\<lambda>_ _ _. True) op"
  by (cases op) simp_all

definition om_run :: "config \<Rightarrow> 'r rest_client \<Rightarrow> codecs \<Rightarrow> om_op list \<Rightarrow> 'r om_state \<Rightarrow> 'r om_state" where
  "om_run cfg rest cs ops st = fold (om_step cfg rest cs) ops st"

lemma check_halt_mono:
  "cb_halted cb \<Longrightarrow> cb_halted (fst (check_drawdown rc pt (cb, ck, db)))"
  "cb_halted cb \<Longrightarrow> cb_halted (fst (check_unhedged rc pt now (cb, ck, db)))"
  "cb_halted cb \<Longrightarrow> cb_halted (fst (check_daily_loss rc pt (cb, ck, db)))"
  "cb_halted cb \<Longrightarrow> cb_halted (fst (check_rejections rc rej (cb, ck, db)))"
  by (simp_all add: check_drawdown_def check_unhedged_def check_daily_loss_def check_rejections_def Let_def)

lemma env_breaker_tick_frame:
  "env_keeps e (env_breaker_tick enc rc e)" "en_rest (env_breaker_tick enc rc e) = en_rest e"
proof -
  let ?s0 = "(en_cb e, clock_tick (en_clock e), en_db e)"
  obtain cb1 ck1 db1 where 1: "check_drawdown rc (en_pt e) ?s0 = (cb1, ck1, db1)"
    using prod_cases3 by blast
  obtain cb2 ck2 db2 where 2: "check_unhedged rc (en_pt e) (steady_now (en_clock e)) (cb1, ck1, db1) = (cb2, ck2, db2)"
    using prod_cases3 by blast
  obtain cb3 ck3 db3 where 3: "check_daily_loss rc (en_pt e) (cb2, ck2, db2) = (cb3, ck3, db3)"
    using prod_cases3 by blast
  obtain rej rm' where r: "consecutive_rejections_in_window (steady_now (en_clock e)) (en_rm e) = (rej, rm')"
    by fastforce
  obtain cb4 ck4 db4 where 4: "check_rejections rc rej (cb3, ck3, db3) = (cb4, ck4, db4)"
    using prod_cases3 by blast
  have "cb_halted (en_cb e) \<Longrightarrow> cb_halted cb4"
    using check_halt_mono(1) [of "en_cb e" rc "en_pt e" "clock_tick (en_clock e)" "en_db e"]
      check_halt_mono(2) [of cb1 rc "en_pt e" "steady_now (en_clock e)" ck1 db1]
      check_halt_mono(3) [of cb2 rc "en_pt e" ck2 db2] check_halt_mono(4) [of cb3 rc rej ck3 db3]
    by (simp add: 1 2 3 4)
  moreover have "rm_open_order_count rm' = rm_open_order_count (en_rm e)"
    using r by (auto simp: consecutive_rejections_in_window_def Let_def)
  moreover have "env_breaker_tick enc rc e =
      e\<lparr>en_rm := rm', en_cb := publish_pending enc cb4, en_clock := ck4, en_db := db4\<rparr>"
    by (simp add: env_breaker_tick_def tick_now_def do_tick_def 1 2 3 4 r)
  ultimately show "env_keeps e (env_breaker_tick enc rc e)" "en_rest (env_breaker_tick enc rc e) = en_rest e"
    by (simp_all add: env_keeps_def env_halted_def)
qed

context rest_contract
begin

lemma om_step_ok: "om_ok st \<Longrightarrow> step_ok st (om_step cfg rest cs op st)"
proof (cases op)
  case OTick
  then show "om_ok st \<Longrightarrow> ?thesis"
    using step_ok_env [OF _ env_breaker_tick_frame(1), of "fst st" "snd st"] by simp
next
  case (ONotify d)
  then show "om_ok st \<Longrightarrow> ?thesis"
    using step_ok_env [OF _ env_keeps_ops(4), of "fst st" "snd st"] by simp
next
  case (OMid m)
  then show "om_ok st \<Longrightarrow> ?thesis"
    using step_ok_env [OF _ env_keeps_ops(7), of "fst st" "snd st"] by simp
next
  case (OFill f)
  then show "om_ok st \<Longrightarrow> ?thesis"
    by (simp add: step_ok_def halt_kept_def inject_fill_ok)
next
  case OApplyFill
  then show "om_ok st \<Longrightarrow> ?thesis"
    by (simp add: step_ok_def halt_kept_def fill_apply_step_ok)
qed (simp_all add: on_quote_ok check_ack_timeouts_ok halt_watch_ok shutdown_cancel_all_ok reconcile_now_ok)

lemma om_run_ok: "om_ok st \<Longrightarrow> step_ok st (om_run cfg rest cs ops st)"
  unfolding om_run_def
proof (induction ops arbitrary: st)
  case (Cons op ops)
  then show ?case
    using step_ok_trans [OF om_step_ok [OF Cons.prems] Cons.IH [OF step_ok_om [OF om_step_ok [OF Cons.prems]]]]
    by simp
qed (simp add: step_ok_refl)

end

context rest_trace
begin

lemma om_step_traced:
  assumes "op_good good op"
  shows "traced 2 st (om_step cfg rest cs op st)"
proof (cases op)
  case (OQuote bid ask qty)
  then show ?thesis
    using on_quote_traced [of qty bid ask] assms by simp
next
  case OTick
  then show ?thesis
    using traced_env [OF env_breaker_tick_frame(2), where om = "fst st" and e = "snd st"] by simp
next
  case (ONotify d)
  then show ?thesis
    by (cases st) (simp add: traced_env)
next
  case (OMid m)
  then show ?thesis
    by (cases st) (simp add: traced_env)
qed (auto intro: traced_mono [OF check_ack_timeouts_traced] traced_mono [OF halt_watch_traced]
    traced_mono [OF shutdown_cancel_all_traced] traced_mono [OF reconcile_now_traced]
    traced_mono [OF inject_fill_traced] traced_mono [OF fill_apply_step_traced])

lemma om_run_traced:
  assumes "list_all (op_good good) ops"
  shows "traced (2 * length ops) st (om_run cfg rest cs ops st)"
  using assms unfolding om_run_def
proof (induction ops arbitrary: st)
  case (Cons op ops)
  show ?case
    using traced_trans [OF om_step_traced Cons.IH, of op st cfg cs] Cons.prems by simp
qed simp

lemma om_run_calls:
  assumes "2 * length ops < 2 ^ 64" and "om_cid_counter (fst st) = 0" and "trace (en_rest (snd st)) = []"
    and "list_all (op_good good) ops"
  shows "list_all (call_ok good) (trace (en_rest (snd (om_run cfg rest cs ops st))))"
    and "distinct (concat (map call_cid (trace (en_rest (snd (om_run cfg rest cs ops st))))))"
  using om_run_traced [OF assms(4), of st cfg cs] assms(1-3) ids_ok_distinct by (auto simp: traced_def)

end

end
