(* ===== verification/SimRest.thy ===== *)
theory SimRest
  imports RestApi "HOL-Library.AList"
begin

text \<open>
  \<open>SimulatedRestClient\<close> of \<open>src/src/execution/simulated_rest_client.hpp\<close> and \<open>.cpp\<close>: the exchange of the
  backtest.  Resting orders are an association list in place of the unordered map, so that the order
  in which a scan visits them is the order of the list.  \<open>on_fill\<close> is the installed callback, which
  may change anything in the environment; \<open>sr_user\<close> is the state it captures.
\<close>

section \<open>State\<close>

record pending_order =
  po_oid :: int
  po_symbol :: string
  po_side :: int
  po_qty :: double
  po_price :: double
  po_executed :: double

record 'u sim_rest =
  sr_symbol :: string
  sr_pending :: "(string \<times> pending_order) list"
  sr_oid_seq :: int
  sr_fill_count :: nat
  sr_last_bid :: double
  sr_last_ask :: double
  sr_last_bid_qty :: double
  sr_last_ask_qty :: double
  sr_last_ts_ns :: u64
  sr_inv :: double
  sr_entry :: double
  sr_user :: 'u

definition sim_init :: "string \<Rightarrow> 'u \<Rightarrow> 'u sim_rest" where
  "sim_init symbol u = \<lparr>sr_symbol = symbol, sr_pending = [], sr_oid_seq = 1000, sr_fill_count = 0,
     sr_last_bid = 0, sr_last_ask = 0, sr_last_bid_qty = 0, sr_last_ask_qty = 0, sr_last_ts_ns = 0,
     sr_inv = 0, sr_entry = 0, sr_user = u\<rparr>"

type_synonym 'u sim_env = "'u sim_rest env"
type_synonym 'u on_fill = "(fill_input \<Rightarrow> 'u sim_env \<Rightarrow> 'u sim_env) option"

definition upd_sim :: "('u sim_rest \<Rightarrow> 'u sim_rest) \<Rightarrow> 'u sim_env \<Rightarrow> 'u sim_env" where
  "upd_sim f e = e\<lparr>en_rest := f (en_rest e)\<rparr>"

definition call_on_fill :: "'u on_fill \<Rightarrow> fill_input \<Rightarrow> 'u sim_env \<Rightarrow> 'u sim_env" where
  "call_on_fill cb f e = (case cb of None \<Rightarrow> e | Some g \<Rightarrow> g f e)"


section \<open>Operations\<close>

text \<open>\<open>++oid_seq_\<close>\<close>

definition next_oid :: "'u sim_rest \<Rightarrow> int \<times> 'u sim_rest" where
  "next_oid s = (sr_oid_seq s + 1, s\<lparr>sr_oid_seq := sr_oid_seq s + 1\<rparr>)"

definition apply_inv_fill :: "double \<Rightarrow> double \<Rightarrow> 'u sim_rest \<Rightarrow> 'u sim_rest" where
  "apply_inv_fill signed_qty fill_price s =
     (let new_inv = sr_inv s + signed_qty;
          kEps = 1 / 10 ^ 12;
          entry =
            (if \<bar>sr_inv s\<bar> < kEps then fill_price
             else if (0 < sr_inv s \<and> 0 < signed_qty) \<or> (sr_inv s < 0 \<and> signed_qty < 0) then
               let abs_inv = \<bar>sr_inv s\<bar>; abs_add = \<bar>signed_qty\<bar>; total = abs_inv + abs_add
               in if 0 < total then (abs_inv * sr_entry s + abs_add * fill_price) / total else sr_entry s
             else if kEps \<le> \<bar>new_inv\<bar> \<and> ((0 < sr_inv s \<and> new_inv < 0) \<or> (sr_inv s < 0 \<and> 0 < new_inv))
               then fill_price
             else sr_entry s)
      in s\<lparr>sr_entry := entry, sr_inv := new_inv\<rparr>)"

definition sim_fill :: "string \<Rightarrow> string \<Rightarrow> int \<Rightarrow> double \<Rightarrow> double \<Rightarrow> u64 \<Rightarrow> fill_input" where
  "sim_fill cid symbol side price qty ts =
     \<lparr>fi_order_id = cid, fi_symbol = symbol, fi_side = side, fi_price = price, fi_qty = qty, fi_fee = 0,
      fi_fee_asset = ''USDT'', fi_timestamp_ns = ts\<rparr>"

text \<open>What a resting order gets from the current market: nothing unless the other side crosses it.\<close>

definition crossed_qty :: "'u sim_rest \<Rightarrow> pending_order \<Rightarrow> double" where
  "crossed_qty s p =
     (let remaining = po_qty p - po_executed p in
      if 0 < po_side p then
        if sr_last_ask s \<le> po_price p then min remaining (max (sr_last_ask_qty s) 0) else 0
      else
        if po_price p \<le> sr_last_bid s then min remaining (max (sr_last_bid_qty s) 0) else 0)"

text \<open>
  One order of the scan.  The pair is the list of finished ids and the environment; the order is
  looked up again after the callback.
\<close>

definition scan_one :: "'u on_fill \<Rightarrow> string \<Rightarrow> string list \<times> 'u sim_env \<Rightarrow> string list \<times> 'u sim_env" where
  "scan_one cb cid s =
     (let (finished, e) = s in
      case map_of (sr_pending (en_rest e)) cid of
        None \<Rightarrow> (finished, e)
      | Some p \<Rightarrow>
          if po_qty p - po_executed p \<le> 0 then (finished @ [cid], e)
          else
            let fill_qty = crossed_qty (en_rest e) p in
            if fill_qty \<le> 0 then (finished, e)
            else
              let e = upd_sim (\<lambda>s. s\<lparr>sr_pending := AList.update cid (p\<lparr>po_executed := po_executed p + fill_qty\<rparr>) (sr_pending s),
                      sr_fill_count := sr_fill_count s + 1\<rparr>) e;
                  e = upd_sim (apply_inv_fill (if 0 < po_side p then fill_qty else - fill_qty) (po_price p)) e;
                  e = call_on_fill cb (sim_fill cid (po_symbol p) (po_side p) (po_price p) fill_qty
                        (sr_last_ts_ns (en_rest e))) e
              in case map_of (sr_pending (en_rest e)) cid of
                   None \<Rightarrow> (finished, e)
                 | Some q \<Rightarrow>
                     (if po_qty q - 1 / 10 ^ 12 \<le> po_executed q then finished @ [cid] else finished, e))"

definition scan_fills :: "'u on_fill \<Rightarrow> 'u sim_env \<Rightarrow> 'u sim_env" where
  "scan_fills cb e =
     (if sr_last_bid (en_rest e) \<le> 0 \<or> sr_last_ask (en_rest e) \<le> 0 then e
      else
        let cids = map fst (sr_pending (en_rest e));
            (finished, e) = fold (scan_one cb) cids ([], e)
        in upd_sim (\<lambda>s. s\<lparr>sr_pending := fold AList.delete finished (sr_pending s)\<rparr>) e)"

definition sim_side :: "string \<Rightarrow> int" where
  "sim_side side = (if side = ''BUY'' then 1 else - 1)"

text \<open>A new resting order, shared by \<open>place_order\<close> and \<open>amend_order\<close>.\<close>

definition rest_order :: "'u on_fill \<Rightarrow> string \<Rightarrow> double \<Rightarrow> double \<Rightarrow> string \<Rightarrow> 'u sim_env \<Rightarrow> int \<times> 'u sim_env" where
  "rest_order cb side qty price cid e =
     (let (oid, s) = next_oid (en_rest e);
          p = \<lparr>po_oid = oid, po_symbol = sr_symbol s, po_side = sim_side side, po_qty = qty,
               po_price = price, po_executed = 0\<rparr>;
          e = e\<lparr>en_rest := s\<lparr>sr_pending := AList.update cid p (sr_pending s)\<rparr>\<rparr>
      in (oid, scan_fills cb e))"

definition sim_place_order ::
  "'u on_fill \<Rightarrow> string \<Rightarrow> double \<Rightarrow> double \<Rightarrow> bool \<Rightarrow> string \<Rightarrow> 'u sim_env \<Rightarrow> order_ack \<times> 'u sim_env" where
  "sim_place_order cb side qty price post_only cid e =
     (let (oid, e) = rest_order cb side qty price cid e
      in (order_ack0\<lparr>oa_ok := True, oa_exchange_order_id := oid, oa_client_order_id := cid,
            oa_status := ''NEW'', oa_price := price, oa_qty := qty, oa_http_code := 200\<rparr>, e))"

definition sim_place_market_order ::
  "'u on_fill \<Rightarrow> string \<Rightarrow> double \<Rightarrow> string \<Rightarrow> 'u sim_env \<Rightarrow> order_ack \<times> 'u sim_env" where
  "sim_place_market_order cb side qty cid e =
     (let (oid, s) = next_oid (en_rest e);
          e = e\<lparr>en_rest := s\<rparr>;
          a = order_ack0\<lparr>oa_exchange_order_id := oid, oa_client_order_id := cid\<rparr>;
          px = (if side = ''BUY'' then sr_last_ask s else sr_last_bid s)
      in if px \<le> 0 \<or> qty \<le> 0 then (a\<lparr>oa_ok := False, oa_http_code := 400\<rparr>, e)
         else
           let a = a\<lparr>oa_ok := True, oa_status := ''FILLED'', oa_price := px, oa_qty := qty, oa_http_code := 200\<rparr>;
               e = call_on_fill cb (sim_fill cid (sr_symbol s) (sim_side side) px qty (sr_last_ts_ns s)) e;
               e = upd_sim (apply_inv_fill (if side = ''BUY'' then qty else - qty) px) e;
               e = upd_sim (\<lambda>s. s\<lparr>sr_fill_count := sr_fill_count s + 1\<rparr>) e
           in (a, e))"

definition sim_cancel_order :: "string \<Rightarrow> int \<Rightarrow> 'u sim_env \<Rightarrow> cancel_ack \<times> 'u sim_env" where
  "sim_cancel_order cid oid e =
     (let c = cancel_ack0\<lparr>ca_ok := True, ca_client_order_id := cid, ca_status := ''CANCELED'', ca_http_code := 200\<rparr>
      in case map_of (sr_pending (en_rest e)) cid of
           Some p \<Rightarrow> (c\<lparr>ca_exchange_order_id := po_oid p\<rparr>,
             upd_sim (\<lambda>s. s\<lparr>sr_pending := AList.delete cid (sr_pending s)\<rparr>) e)
         | None \<Rightarrow> (c, e))"

definition sim_amend_order ::
  "'u on_fill \<Rightarrow> int \<Rightarrow> double \<Rightarrow> double \<Rightarrow> string \<Rightarrow> bool \<Rightarrow> string \<Rightarrow> 'u sim_env \<Rightarrow> amend_ack \<times> 'u sim_env" where
  "sim_amend_order cb oid new_price new_qty side post_only replacement_cid e =
     (let (new_oid, e) = rest_order cb side new_qty new_price replacement_cid e
      in (amend_ack0\<lparr>aa_ok := True, aa_exchange_order_id := new_oid, aa_client_order_id := replacement_cid,
            aa_price := new_price, aa_qty := new_qty, aa_http_code := 200\<rparr>, e))"

definition sim_query_positions :: "'u sim_env \<Rightarrow> positions_snapshot \<times> 'u sim_env" where
  "sim_query_positions e =
     (let s = en_rest e
      in (\<lparr>ps_ok = True,
           ps_positions = [\<lparr>pe_symbol = sr_symbol s, pe_position_amt = sr_inv s,
             pe_entry_price = (if sr_inv s \<noteq> 0 then sr_entry s else 0), pe_unrealized_profit = 0\<rparr>],
           ps_http_code = 200\<rparr>, e))"

definition sim_query_open_orders :: "'u sim_env \<Rightarrow> open_orders_snapshot \<times> 'u sim_env" where
  "sim_query_open_orders e =
     (\<lparr>os_ok = True,
       os_orders = map (\<lambda>(cid, p). \<lparr>oe_exchange_order_id = po_oid p, oe_client_order_id = cid,
         oe_symbol = po_symbol p, oe_side = (if 0 < po_side p then ''BUY'' else ''SELL''),
         oe_price = po_price p, oe_orig_qty = po_qty p, oe_executed_qty = po_executed p,
         oe_status = ''NEW''\<rparr>) (sr_pending (en_rest e)),
       os_http_code = 200\<rparr>, e)"

definition update_market ::
  "'u on_fill \<Rightarrow> double \<Rightarrow> double \<Rightarrow> double \<Rightarrow> double \<Rightarrow> u64 \<Rightarrow> 'u sim_env \<Rightarrow> 'u sim_env" where
  "update_market cb best_bid best_ask best_bid_qty best_ask_qty ts_ns e =
     scan_fills cb (upd_sim (\<lambda>s. s\<lparr>sr_last_bid := best_bid, sr_last_ask := best_ask,
       sr_last_bid_qty := best_bid_qty, sr_last_ask_qty := best_ask_qty, sr_last_ts_ns := ts_ns\<rparr>) e)"

text \<open>The client as the order manager sees it.\<close>

definition sim_client :: "'u on_fill \<Rightarrow> 'u sim_rest rest_client" where
  "sim_client cb = \<lparr>rest_place = sim_place_order cb, rest_market = sim_place_market_order cb,
     rest_cancel = sim_cancel_order, rest_amend = sim_amend_order cb,
     rest_positions = sim_query_positions, rest_open_orders = sim_query_open_orders\<rparr>"


section \<open>The simulator keeps the REST contract\<close>

text \<open>
  What the callbacks of the repository do: the backtest's hands the fill to the position tracker and
  its own reporter and queues a trade for the database, and leaves the simulator, the risk manager and
  the breaker alone.
\<close>

definition on_fill_quiet :: "'u on_fill \<Rightarrow> bool" where
  "on_fill_quiet cb \<longleftrightarrow>
     (\<forall>g f e. cb = Some g \<longrightarrow> rest_frame e (g f e) \<and> (\<exists>u. en_rest (g f e) = (en_rest e)\<lparr>sr_user := u\<rparr>))"

lemma call_on_fill_frame:
  assumes "on_fill_quiet cb"
  shows "rest_frame e (call_on_fill cb f e)"
    and "\<exists>u. en_rest (call_on_fill cb f e) = (en_rest e)\<lparr>sr_user := u\<rparr>"
proof -
  show "rest_frame e (call_on_fill cb f e)"
    using assms by (auto simp: call_on_fill_def on_fill_quiet_def split: option.split)
  show "\<exists>u. en_rest (call_on_fill cb f e) = (en_rest e)\<lparr>sr_user := u\<rparr>"
  proof (cases cb)
    case None
    then show ?thesis
      by (auto simp: call_on_fill_def intro!: exI [of _ "sr_user (en_rest e)"])
  next
    case (Some g)
    then show ?thesis
      using assms by (simp add: call_on_fill_def on_fill_quiet_def)
  qed
qed

lemma upd_sim_frame [simp]: "rest_frame e (upd_sim f e)" "en_rest (upd_sim f e) = f (en_rest e)"
  by (simp_all add: upd_sim_def)

lemma scan_one_frame:
  assumes "on_fill_quiet cb"
  shows "rest_frame (snd s) (snd (scan_one cb cid s))"
  using rest_frame_trans [OF rest_frame_trans [OF upd_sim_frame(1) upd_sim_frame(1)] call_on_fill_frame(1) [OF assms]]
  by (simp add: scan_one_def Let_def case_prod_beta split: option.split)

lemma fold_scan_frame:
  assumes "on_fill_quiet cb"
  shows "rest_frame (snd s) (snd (fold (scan_one cb) cids s))"
proof (induction cids arbitrary: s)
  case (Cons cid cids)
  show ?case
    using rest_frame_trans [OF scan_one_frame [OF assms] Cons.IH] by simp
qed simp

lemma scan_fills_frame:
  assumes "on_fill_quiet cb"
  shows "rest_frame e (scan_fills cb e)"
  using rest_frame_trans [OF fold_scan_frame [OF assms, of "([], e)"] upd_sim_frame(1)]
  by (simp add: scan_fills_def case_prod_beta Let_def)

lemma rest_order_frame:
  assumes "on_fill_quiet cb"
  shows "rest_frame e (snd (rest_order cb side qty price cid e))"
  using rest_frame_trans [OF rest_frame_ops(3) scan_fills_frame [OF assms]]
  by (simp add: rest_order_def case_prod_beta Let_def)

lemma market_frame:
  assumes "on_fill_quiet cb"
  shows "rest_frame e (snd (sim_place_market_order cb side qty cid e))"
  using rest_frame_trans [OF rest_frame_trans [OF rest_frame_ops(3) call_on_fill_frame(1) [OF assms]]
      rest_frame_trans [OF upd_sim_frame(1) upd_sim_frame(1)]]
  by (simp add: sim_place_market_order_def case_prod_beta Let_def)

lemma sim_contract:
  assumes "on_fill_quiet cb"
  shows "rest_contract (sim_client cb)"
  by unfold_locales
    (simp_all add: sim_client_def sim_place_order_def sim_amend_order_def sim_cancel_order_def
      sim_query_positions_def sim_query_open_orders_def case_prod_beta Let_def rest_order_frame [OF assms]
      market_frame [OF assms] split: option.split)

text \<open>The simulator without a callback, and with the backtest's position callback.\<close>

definition track_fill :: "fill_input \<Rightarrow> unit sim_env \<Rightarrow> unit sim_env" where
  "track_fill f e = e\<lparr>en_pt := snd (apply_fill f (en_pt e))\<rparr>"

lemma on_fill_quiet_track [simp]: "on_fill_quiet (Some track_fill)" "on_fill_quiet None"
proof -
  have "en_rest e = (en_rest e)\<lparr>sr_user := sr_user (en_rest e)\<rparr>" for e :: "unit sim_env"
    by simp
  then show "on_fill_quiet (Some track_fill)"
    by (auto simp: on_fill_quiet_def track_fill_def rest_frame_def env_halted_def intro!: exI)
qed (simp add: on_fill_quiet_def)

interpretation sim: rest_contract "sim_client (Some track_fill)"
  by (rule sim_contract) simp

end
