(* ===== verification/OrderProps.thy ===== *)
theory OrderProps
  imports OrderTrace SimRest
begin

text \<open>
  The properties of the order manager, stated for every REST client that keeps \<open>rest_contract\<close> and
  applied to the simulator of the backtest in the witnesses.  What reaches the exchange is read off
  the call list of \<open>logged\<close>.
\<close>

section \<open>A concrete engine\<close>

definition demo_env :: "'r \<Rightarrow> 'r env" where
  "demo_env r = \<lparr>en_pt = tracker_init, en_rm = risk_init, en_cb = breaker_init None, en_db = None,
     en_clock = demo_clock, en_rest = r\<rparr>"

definition demo_sim :: "unit sim_rest rest_client" where
  "demo_sim = sim_client (Some track_fill)"

definition demo_codecs :: codecs where
  "demo_codecs = \<lparr>enc_fill = \<lambda>_. [1], dec_fill = \<lambda>_. None, enc_risk = \<lambda>_. [1]\<rparr>"

lemma demo_sim_contract [simp]: "rest_contract demo_sim"
  unfolding demo_sim_def by (rule sim.rest_contract_axioms)

text \<open>The simulated exchange behind the call list is a traced client, whatever is asked of placements.\<close>

interpretation sim_trace: rest_trace "logged (sim_client (Some track_fill))" snd good for good
  by (rule rest_trace_logged [OF sim.rest_contract_axioms])

lemma om_init_ok: "rm_open_order_count (en_rm e) = 0 \<Longrightarrow> om_ok (fst (om_init ck), e)"
  by (simp add: om_ok_def om_init_def slot_ok_def slot_init_def live_count_def is_live_def all_slots)


section \<open>The invariant over every history\<close>

text \<open>C2: after any history of quotes, watchdog rounds, fills, halts, shutdowns, reconciliations,
  breaker ticks and exceptions, the open-order count the risk manager tests is exactly the number of
  live slots, hence at most two, every active slot is acknowledged, partly filled or rejected, and a
  halt once raised is never taken back.\<close>

theorem om_history_invariant:
  assumes "rest_contract rest" and "rm_open_order_count (en_rm e) = 0"
    and "om_run cfg rest cs ops (fst (om_init ck), e) = (om, e')"
  shows "rm_open_order_count (en_rm e') = live_count om \<and> 0 \<le> live_count om \<and> live_count om \<le> 2 \<and>
    (\<forall>i. sl_active (slot i om) \<longrightarrow> sl_state (slot i om) \<in> {S_ACKNOWLEDGED, S_PARTIALLY_FILLED, S_REJECTED}) \<and>
    (env_halted e \<longrightarrow> env_halted e')"
  using rest_contract.om_run_ok [OF assms(1) om_init_ok [where ck = ck, OF assms(2)], where cfg = cfg and cs = cs and ops = ops] assms(3)
  by (auto simp: step_ok_def om_ok_def slot_ok_def halt_kept_def live_count_def)

definition demo_history :: "om_op list" where
  "demo_history = [OMid 100, OQuote 99 101 1, OTick, OQuote 98 102 1, ONotify ''x'', OQuote 97 103 1, OHaltWatch]"

theorem om_history_invariant_witness:
  "case om_run demo_cfg demo_sim demo_codecs demo_history (fst (om_init demo_clock), demo_env (sim_init ''S'' ())) of
     (om, e') \<Rightarrow> rm_open_order_count (en_rm e') = live_count om \<and> live_count om \<le> 2"
proof -
  let ?s = "om_run demo_cfg demo_sim demo_codecs demo_history (fst (om_init demo_clock), demo_env (sim_init ''S'' ()))"
  obtain om e' where r: "?s = (om, e')"
    by fastforce
  have "rm_open_order_count (en_rm (demo_env (sim_init ''S'' ()))) = 0"
    by (simp add: demo_env_def risk_init_def)
  from om_history_invariant [OF demo_sim_contract this r] show ?thesis
    by (simp add: r)
qed


section \<open>What reaches the exchange\<close>

text \<open>C3: over every history, no resting order is sent while the breaker is halted, every resting
  order is post-only, and no client order id is sent twice, resting and market orders together.\<close>

theorem no_placement_while_halted:
  assumes "rest_contract r" and "2 * length ops < 2 ^ 64" and "snd (en_rest e) = []"
    and "om_run cfg (logged r) cs ops (fst (om_init ck), e) = (om, e')"
  shows "(\<forall>side qty price po cid h. CallPlace side qty price po cid h \<in> set (snd (en_rest e')) \<longrightarrow> \<not> h \<and> po) \<and>
    distinct (concat (map call_cid (snd (en_rest e'))))"
proof -
  have "om_cid_counter (fst (fst (om_init ck), e)) = 0"
    by (simp add: om_init_def)
  moreover have "list_all (op_good (\<lambda>_ _ _. True)) ops"
    by (simp add: list_all_iff)
  moreover have "snd (en_rest (snd (fst (om_init ck), e))) = []"
    using assms(3) by simp
  ultimately have "list_all (call_ok (\<lambda>_ _ _. True)) (snd (en_rest e'))" "distinct (concat (map call_cid (snd (en_rest e'))))"
    using rest_trace.om_run_calls [OF rest_trace_logged [OF assms(1)] assms(2), where cfg = cfg and cs = cs and
        good = "\<lambda>_ _ _. True" and st = "(fst (om_init ck), e)"] assms(4) by simp_all
  then show ?thesis
    by (auto simp: list_all_iff)
qed

theorem no_placement_while_halted_witness:
  "distinct (concat (map call_cid (snd (en_rest (snd (om_run demo_cfg (logged demo_sim) demo_codecs demo_history
     (fst (om_init demo_clock), demo_env (sim_init ''S'' (), [])))))))) \<and> length demo_history = 7"
proof -
  let ?s = "om_run demo_cfg (logged demo_sim) demo_codecs demo_history
    (fst (om_init demo_clock), demo_env (sim_init ''S'' (), []))"
  obtain om e' where r: "?s = (om, e')"
    by fastforce
  have "2 * length demo_history < 2 ^ 64" "snd (en_rest (demo_env (sim_init ''S'' (), []))) = []"
    by (simp_all add: demo_history_def demo_env_def)
  from no_placement_while_halted [OF demo_sim_contract this r] show ?thesis
    by (simp only: r snd_conv) (simp add: demo_history_def)
qed


section \<open>Cancellation\<close>

fun slot_other :: "slot_idx \<Rightarrow> slot_idx" where
  "slot_other BID = ASK"
| "slot_other ASK = BID"

lemma slot_other_neq [simp]: "slot_other i \<noteq> i" "i \<noteq> slot_other i"
  by (cases i; simp)+

lemma slot_cases: "j = i \<or> j = slot_other i"
  by (cases i; cases j) simp_all

lemma cancel_done_slot:
  "slot i (fst (cancel_done i st)) = (slot i (fst st))\<lparr>sl_active := False,
     sl_state := (if is_valid_transition (sl_state (slot i (fst st))) S_CANCELED then S_CANCELED
                  else sl_state (slot i (fst st)))\<rparr>"
  "slot (slot_other i) (fst (cancel_done i st)) = slot (slot_other i) (fst st)"
  by (simp_all add: cancel_done_def slot_transition)

fun is_cancel :: "rest_call \<Rightarrow> bool" where
  "is_cancel (CallCancel cid oid h) \<longleftrightarrow> True"
| "is_cancel _ \<longleftrightarrow> False"

lemma logged_cancel:
  "rest_cancel (logged r) cid oid e =
     call_logged (CallCancel cid oid (env_halted e)) (rest_cancel r cid oid) e"
  by (simp add: logged_def)

lemma logged_positions: "rest_positions (logged r) e = call_logged CallOther (rest_positions r) e"
  by (simp add: logged_def)

lemma logged_market:
  "rest_market (logged r) side qty cid e = call_logged (CallMarket side qty cid (env_halted e)) (rest_market r side qty cid) e"
  by (simp add: logged_def)

lemma cancel_attempts_spec:
  assumes "cancel_attempts (logged r) i n st = (ok, st')"
  shows "\<exists>new. snd (en_rest (snd st')) = snd (en_rest (snd st)) @ new \<and> length new \<le> n \<and>
      (\<forall>c \<in> set new. \<exists>h. c = CallCancel (sl_cid (slot i (fst st))) (sl_oid (slot i (fst st))) h) \<and>
      (if ok then 0 < length new else length new = n \<and> env_halted (snd st'))"
    and "slot i (fst st') = (slot i (fst st))\<lparr>sl_active := False,
      sl_state := (if ok \<and> is_valid_transition (sl_state (slot i (fst st))) S_CANCELED then S_CANCELED
                   else sl_state (slot i (fst st)))\<rparr>"
    and "slot (slot_other i) (fst st') = slot (slot_other i) (fst st)"
proof -
  have "(\<exists>new. snd (en_rest (snd st')) = snd (en_rest (snd st)) @ new \<and> length new \<le> n \<and>
      (\<forall>c \<in> set new. \<exists>h. c = CallCancel (sl_cid (slot i (fst st))) (sl_oid (slot i (fst st))) h) \<and>
      (if ok then 0 < length new else length new = n \<and> env_halted (snd st'))) \<and>
    slot i (fst st') = (slot i (fst st))\<lparr>sl_active := False,
      sl_state := (if ok \<and> is_valid_transition (sl_state (slot i (fst st))) S_CANCELED then S_CANCELED
                   else sl_state (slot i (fst st)))\<rparr> \<and>
    slot (slot_other i) (fst st') = slot (slot_other i) (fst st)"
    using assms
  proof (induction n arbitrary: st)
    case 0
    obtain om e where "st = (om, e)"
      by fastforce
    with 0 show ?case
      by auto
  next
    case (Suc n)
    obtain om e where st: "st = (om, e)"
      by fastforce
    define cid oid where "cid = sl_cid (slot i om)" and "oid = sl_oid (slot i om)"
    obtain c e1 where c: "rest_cancel (logged r) cid oid (env_record_cancel e) = (c, e1)"
      by fastforce
    let ?call = "CallCancel cid oid (env_halted (env_record_cancel e))"
    have t: "snd (en_rest e1) = snd (en_rest e) @ [?call]"
      using call_logged_calls [of ?call "rest_cancel r cid oid" "env_record_cancel e"] c
      by (simp add: logged_cancel)
    show ?case
    proof (cases "ca_ok c \<or> cancel_gone c")
      case True
      then have s': "ok" "st' = cancel_done i (om, e1)"
        using Suc.prems by (simp_all add: st c [unfolded cid_def oid_def])
      then show ?thesis
        using t by (simp add: st cid_def oid_def cancel_done_slot)
    next
      case False
      then have rec: "cancel_attempts (logged r) i n (om, e1) = (ok, st')"
        using Suc.prems by (simp add: st c [unfolded cid_def oid_def])
      obtain new where n: "snd (en_rest (snd st')) = snd (en_rest e1) @ new" "length new \<le> n"
        "\<forall>c \<in> set new. \<exists>h. c = CallCancel cid oid h"
        "if ok then 0 < length new else length new = n \<and> env_halted (snd st')"
        using Suc.IH [OF rec] by (auto simp: cid_def oid_def)
      have "\<exists>new'. snd (en_rest (snd st')) = snd (en_rest (snd st)) @ new' \<and> length new' \<le> Suc n \<and>
        (\<forall>c \<in> set new'. \<exists>h. c = CallCancel (sl_cid (slot i (fst st))) (sl_oid (slot i (fst st))) h) \<and>
        (if ok then 0 < length new' else length new' = Suc n \<and> env_halted (snd st'))"
        by (rule exI [of _ "?call # new"]) (use n t in \<open>auto simp: st cid_def oid_def split: if_splits\<close>)
      then show ?thesis
        using Suc.IH [OF rec] by (simp add: st)
    qed
  qed
  then show "\<exists>new. snd (en_rest (snd st')) = snd (en_rest (snd st)) @ new \<and> length new \<le> n \<and>
      (\<forall>c \<in> set new. \<exists>h. c = CallCancel (sl_cid (slot i (fst st))) (sl_oid (slot i (fst st))) h) \<and>
      (if ok then 0 < length new else length new = n \<and> env_halted (snd st'))"
    "slot i (fst st') = (slot i (fst st))\<lparr>sl_active := False,
      sl_state := (if ok \<and> is_valid_transition (sl_state (slot i (fst st))) S_CANCELED then S_CANCELED
                   else sl_state (slot i (fst st)))\<rparr>"
    "slot (slot_other i) (fst st') = slot (slot_other i) (fst st)"
    by blast+
qed

text \<open>C10: cancelling an active slot sends between one and three cancel requests, all for that slot's
  order; it reports failure only after exactly three refused requests and then the breaker is halted;
  either way the slot ends inactive and the other slot is untouched.\<close>

theorem cancel_slot_outcome:
  assumes "sl_active (slot i (fst st))" and "cancel_slot (logged r) i st = (ok, st')"
  shows "(\<exists>new. snd (en_rest (snd st')) = snd (en_rest (snd st)) @ new \<and> 1 \<le> length new \<and> length new \<le> 3 \<and>
      (\<forall>c \<in> set new. \<exists>h. c = CallCancel (sl_cid (slot i (fst st))) (sl_oid (slot i (fst st))) h) \<and>
      (\<not> ok \<longrightarrow> length new = 3 \<and> env_halted (snd st'))) \<and>
    \<not> sl_active (slot i (fst st')) \<and>
    (ok \<and> is_valid_transition (sl_state (slot i (fst st))) S_CANCELED \<longrightarrow> sl_state (slot i (fst st')) = S_CANCELED) \<and>
    slot (slot_other i) (fst st') = slot (slot_other i) (fst st)"
proof -
  have "cancel_attempts (logged r) i kMaxCancelAttempts st = (ok, st')"
    using assms by (cases st) (simp add: cancel_slot_def)
  note s = cancel_attempts_spec [OF this]
  obtain new where "snd (en_rest (snd st')) = snd (en_rest (snd st)) @ new" "length new \<le> kMaxCancelAttempts"
    "\<forall>c \<in> set new. \<exists>h. c = CallCancel (sl_cid (slot i (fst st))) (sl_oid (slot i (fst st))) h"
    "if ok then 0 < length new else length new = kMaxCancelAttempts \<and> env_halted (snd st')"
    using s(1) by blast
  then have "\<exists>new. snd (en_rest (snd st')) = snd (en_rest (snd st)) @ new \<and> 1 \<le> length new \<and> length new \<le> 3 \<and>
      (\<forall>c \<in> set new. \<exists>h. c = CallCancel (sl_cid (slot i (fst st))) (sl_oid (slot i (fst st))) h) \<and>
      (\<not> ok \<longrightarrow> length new = 3 \<and> env_halted (snd st'))"
    by (intro exI [of _ new]) (auto simp: kMaxCancelAttempts_def Suc_le_eq split: if_splits)
  then show ?thesis
    using s(2,3) by simp
qed

text \<open>An exchange that holds a position of five and on which every request but the queries fails, and a slot
  with a live order.\<close>

definition deaf_client :: "unit rest_client" where
  "deaf_client = \<lparr>rest_place = \<lambda>side qty price po cid e. (order_ack0, e), rest_market = \<lambda>side qty cid e. (order_ack0, e),
     rest_cancel = \<lambda>cid oid e. (cancel_ack0, e), rest_amend = \<lambda>oid price qty side po cid e. (amend_ack0, e),
     rest_positions = \<lambda>e. (\<lparr>ps_ok = True, ps_positions = [\<lparr>pe_symbol = ''S'', pe_position_amt = 5,
       pe_entry_price = 100, pe_unrealized_profit = 0\<rparr>], ps_http_code = 200\<rparr>, e),
     rest_open_orders = \<lambda>e. (\<lparr>os_ok = False, os_orders = [], os_http_code = 0\<rparr>, e)\<rparr>"

definition demo_live :: order_manager where
  "demo_live = (fst (om_init demo_clock))
     \<lparr>om_bid := slot_init\<lparr>sl_active := True, sl_cid := ''a'', sl_oid := 7, sl_side := 1, sl_state := S_ACKNOWLEDGED\<rparr>\<rparr>"

lemma deaf_cancel: "cancel_slot (logged deaf_client) BID (demo_live, demo_env ((), [])) =
   (False, snd (cancel_slot (logged deaf_client) BID (demo_live, demo_env ((), []))))"
  by (simp add: cancel_slot_def demo_live_def kMaxCancelAttempts_def numeral_3_eq_3 logged_def
      deaf_client_def call_logged_def cancel_ack0_def cancel_gone_def)

theorem cancel_slot_outcome_witness:
  "fst (cancel_slot (logged deaf_client) BID (demo_live, demo_env ((), []))) = False \<and>
   env_halted (snd (snd (cancel_slot (logged deaf_client) BID (demo_live, demo_env ((), [])))))"
proof -
  obtain ok st' where r: "cancel_slot (logged deaf_client) BID (demo_live, demo_env ((), [])) = (ok, st')"
    by (rule prod.exhaust)
  have "sl_active (slot BID (fst (demo_live, demo_env ((), []))))"
    by (simp add: demo_live_def)
  note c = cancel_slot_outcome [OF this r]
  have "\<not> ok"
    using r by (metis deaf_cancel fst_conv)
  with c r show ?thesis
    by auto
qed


section \<open>The halt path\<close>

text \<open>\<open>calls a b st st'\<close>: the calls between two states.\<close>

definition cancels_of :: "order_slot \<Rightarrow> rest_call list \<Rightarrow> bool" where
  "cancels_of s cs \<longleftrightarrow>
     (if is_live s then 1 \<le> length cs \<and> length cs \<le> 3 else cs = []) \<and>
     (\<forall>c \<in> set cs. \<exists>h. c = CallCancel (sl_cid s) (sl_oid s) h)"

lemma cancel_live_spec:
  assumes "cancel_live (logged r) i st = st'"
  shows "\<exists>new. snd (en_rest (snd st')) = snd (en_rest (snd st)) @ new \<and> cancels_of (slot i (fst st)) new"
    and "\<not> is_live (slot i (fst st'))"
    and "slot (slot_other i) (fst st') = slot (slot_other i) (fst st)"
proof -
  have "(\<exists>new. snd (en_rest (snd st')) = snd (en_rest (snd st)) @ new \<and> cancels_of (slot i (fst st)) new) \<and>
    \<not> is_live (slot i (fst st')) \<and> slot (slot_other i) (fst st') = slot (slot_other i) (fst st)"
  proof (cases "is_live (slot i (fst st))")
    case True
    obtain ok st2 where c: "cancel_slot (logged r) i st = (ok, st2)"
      by (rule prod.exhaust)
    then have "cancel_attempts (logged r) i kMaxCancelAttempts st = (ok, st2)"
      using True by (cases st) (simp add: cancel_slot_def is_live_def)
    note s = cancel_attempts_spec [OF this]
    obtain new where new: "snd (en_rest (snd st2)) = snd (en_rest (snd st)) @ new" "length new \<le> kMaxCancelAttempts"
      "\<forall>c \<in> set new. \<exists>h. c = CallCancel (sl_cid (slot i (fst st))) (sl_oid (slot i (fst st))) h"
      "if ok then 0 < length new else length new = kMaxCancelAttempts \<and> env_halted (snd st2)"
      using s(1) by blast
    have "cancels_of (slot i (fst st)) new"
      using new(2-4) True by (auto simp: cancels_of_def kMaxCancelAttempts_def Suc_le_eq split: if_splits)
    moreover have "st' = st2" "\<not> is_live (slot i (fst st2))"
      using assms c True s(2) by (simp_all add: cancel_live_def is_live_def)
    ultimately show ?thesis
      using new(1) s(3) by blast
  next
    case False
    then show ?thesis
      using assms by (simp add: cancel_live_def cancels_of_def)
  qed
  then show "\<exists>new. snd (en_rest (snd st')) = snd (en_rest (snd st)) @ new \<and> cancels_of (slot i (fst st)) new"
    "\<not> is_live (slot i (fst st'))" "slot (slot_other i) (fst st') = slot (slot_other i) (fst st)"
    by blast+
qed

lemma cancel_both_spec:
  assumes "cancel_live (logged r) ASK (cancel_live (logged r) BID st) = st'"
  shows "\<exists>bids asks. snd (en_rest (snd st')) = snd (en_rest (snd st)) @ bids @ asks \<and>
      cancels_of (slot BID (fst st)) bids \<and> cancels_of (slot ASK (fst st)) asks"
    and "\<not> is_live (slot i (fst st'))"
proof -
  let ?m = "cancel_live (logged r) BID st"
  note b = cancel_live_spec [where r = r and i = BID and st = st, OF refl] and a = cancel_live_spec [OF assms]
  have "slot ASK (fst ?m) = slot ASK (fst st)"
    using b(3) by simp
  then show "\<exists>bids asks. snd (en_rest (snd st')) = snd (en_rest (snd st)) @ bids @ asks \<and>
      cancels_of (slot BID (fst st)) bids \<and> cancels_of (slot ASK (fst st)) asks"
    using a(1) b(1) by fastforce
  show "\<not> is_live (slot i (fst st'))"
    using a(2,3) b(2) by (cases i) auto
qed

lemma slot_flatten [simp]: "slot i (fst (snd (flatten_market rest pos st))) = slot i (fst st)"
  by (cases st) (simp add: flatten_market_def case_prod_beta Let_def)

lemma handled_flatten [simp]: "om_halt_handled (fst (snd (flatten_market rest pos st))) = om_halt_handled (fst st)"
  by (cases st) (simp add: flatten_market_def case_prod_beta Let_def make_cid_def)

lemma flatten_calls:
  "\<exists>cid h. snd (en_rest (snd (snd (flatten_market (logged r) pos (om, e))))) =
     snd (en_rest e) @ [CallMarket (if 0 < pos then ''SELL'' else ''BUY'') \<bar>pos\<bar> cid h]"
  by (simp add: flatten_market_def logged_market case_prod_beta Let_def call_logged_calls)

lemma handled_cancel_attempts: "om_halt_handled (fst (snd (cancel_attempts rest i n st))) = om_halt_handled (fst st)"
proof -
  have d: "om_halt_handled (fst (cancel_done i st)) = om_halt_handled (fst st)" for st
    by (cases st) (simp add: cancel_done_def transition_def)
  show ?thesis
    by (induction n arbitrary: st) (simp_all add: d case_prod_beta split_paired_all)
qed

lemma handled_cancel_live [simp]: "om_halt_handled (fst (cancel_live rest i st)) = om_halt_handled (fst st)"
  by (cases st) (simp add: cancel_live_def cancel_slot_def handled_cancel_attempts)

lemma halt_watch_calls:
  assumes "env_halted e" and "\<not> om_halt_handled om"
    and "cancel_live (logged r) ASK (cancel_live (logged r) BID (om\<lparr>om_halt_handled := True\<rparr>, e)) = (om1, e1)"
    and "rest_positions (logged r) e1 = (ps, e2)"
    and "pos = (if ps_ok ps then net_position ps else pt_inventory (en_pt e1))"
    and "halt_watch cfg (logged r) (om, e) = (om', e')"
  shows "(\<exists>bids asks cid h. snd (en_rest e') = snd (en_rest e) @ bids @ asks @ [CallOther] @
        (if ec_flatten_threshold (c_execution cfg) < \<bar>pos\<bar>
         then [CallMarket (if 0 < pos then ''SELL'' else ''BUY'') \<bar>pos\<bar> cid h] else []) \<and>
      cancels_of (slot BID om) bids \<and> cancels_of (slot ASK om) asks) \<and>
    (\<forall>i. \<not> is_live (slot i om')) \<and> om_halt_handled om'"
proof -
  note c = cancel_both_spec [OF assms(3)]
  have h1: "om_halt_handled om1"
    using assms(3) handled_cancel_live [of "logged r" ASK "cancel_live (logged r) BID (om\<lparr>om_halt_handled := True\<rparr>, e)"]
    by simp
  obtain bids asks where cs: "snd (en_rest e1) = snd (en_rest e) @ bids @ asks"
    "cancels_of (slot BID om) bids" "cancels_of (slot ASK om) asks"
    using c(1) by auto
  have t2: "snd (en_rest e2) = snd (en_rest e1) @ [CallOther]"
    using call_logged_calls [of CallOther "rest_positions r" e1] assms(4) by (simp add: logged_positions)
  have w: "(om', e') = (if ec_flatten_threshold (c_execution cfg) < \<bar>pos\<bar>
      then snd (flatten_market (logged r) pos (om1, e2)) else (om1, e2))"
    using assms(6,1,2,4) unfolding assms(5)
    by (auto simp: halt_watch_def on_halt_def cancel_and_flatten_locked_def assms(3) Let_def split: if_splits)
  obtain cid h where f: "snd (en_rest (snd (snd (flatten_market (logged r) pos (om1, e2))))) =
      snd (en_rest e2) @ [CallMarket (if 0 < pos then ''SELL'' else ''BUY'') \<bar>pos\<bar> cid h]"
    using flatten_calls by blast
  have "om' = fst (if ec_flatten_threshold (c_execution cfg) < \<bar>pos\<bar>
      then snd (flatten_market (logged r) pos (om1, e2)) else (om1, e2))"
    "e' = snd (if ec_flatten_threshold (c_execution cfg) < \<bar>pos\<bar>
      then snd (flatten_market (logged r) pos (om1, e2)) else (om1, e2))"
    by (simp_all only: w [symmetric] fst_conv snd_conv)
  then have "snd (en_rest e') = snd (en_rest e) @ bids @ asks @ [CallOther] @
        (if ec_flatten_threshold (c_execution cfg) < \<bar>pos\<bar>
         then [CallMarket (if 0 < pos then ''SELL'' else ''BUY'') \<bar>pos\<bar> cid h] else [])"
    and live: "\<not> is_live (slot i om')" and "om_halt_handled om'" for i
    using f cs(1) t2 c(2) [of i] h1 by simp_all
  then show ?thesis
    using cs(2,3) by blast
qed

lemma cancels_of_live:
  "cancels_of (slot i om) cs \<Longrightarrow> c \<in> set cs \<Longrightarrow>
   \<exists>i h. is_live (slot i om) \<and> c = CallCancel (sl_cid (slot i om)) (sl_oid (slot i om)) h"
  unfolding cancels_of_def by (metis empty_iff list.set(1))

lemma halt_watch_sends:
  assumes "env_halted e" and "\<not> om_halt_handled om"
    and "cancel_live (logged r) ASK (cancel_live (logged r) BID (om\<lparr>om_halt_handled := True\<rparr>, e)) = (om1, e1)"
    and "rest_positions (logged r) e1 = (ps, e2)"
    and "pos = (if ps_ok ps then net_position ps else pt_inventory (en_pt e1))"
    and "halt_watch cfg (logged r) (om, e) = (om', e')"
  shows "om_halt_handled om' \<and> (\<exists>cancels cid h. snd (en_rest e') = snd (en_rest e) @ cancels @ [CallOther] @
        (if ec_flatten_threshold (c_execution cfg) < \<bar>pos\<bar>
         then [CallMarket (if 0 < pos then ''SELL'' else ''BUY'') \<bar>pos\<bar> cid h] else []) \<and>
      (\<forall>c \<in> set cancels. \<exists>i h. is_live (slot i om) \<and> c = CallCancel (sl_cid (slot i om)) (sl_oid (slot i om)) h))"
proof -
  obtain bids asks cid h where c: "snd (en_rest e') = snd (en_rest e) @ bids @ asks @ [CallOther] @
        (if ec_flatten_threshold (c_execution cfg) < \<bar>pos\<bar>
         then [CallMarket (if 0 < pos then ''SELL'' else ''BUY'') \<bar>pos\<bar> cid h] else [])"
    "cancels_of (slot BID om) bids" "cancels_of (slot ASK om) asks" and "om_halt_handled om'"
    using halt_watch_calls [OF assms] by blast
  then show ?thesis
    using cancels_of_live [OF c(2)] cancels_of_live [OF c(3)]
    by (intro conjI exI [of _ "bids @ asks"] exI [of _ cid] exI [of _ h]) auto
qed


text \<open>C9: on the first halted round the halt watcher sends one to three cancel requests for the order of the
  bid slot if that slot was live and none otherwise, then the same for the ask slot, then asks for the
  positions once and sends one market order of exactly the net exchange position (the local inventory
  where the query failed) against its sign, provided it exceeds the flatten threshold; it sends nothing
  else.  Afterwards no slot is live and further rounds do nothing.\<close>

theorem halt_flattens_once:
  assumes "env_halted e" and "\<not> om_halt_handled om"
    and "cancel_live (logged r) ASK (cancel_live (logged r) BID (om\<lparr>om_halt_handled := True\<rparr>, e)) = (om1, e1)"
    and "rest_positions (logged r) e1 = (ps, e2)"
    and "pos = (if ps_ok ps then net_position ps else pt_inventory (en_pt e1))"
    and "halt_watch cfg (logged r) (om, e) = (om', e')"
  shows "(\<exists>bids asks cid h. snd (en_rest e') = snd (en_rest e) @ bids @ asks @ [CallOther] @
        (if ec_flatten_threshold (c_execution cfg) < \<bar>pos\<bar>
         then [CallMarket (if 0 < pos then ''SELL'' else ''BUY'') \<bar>pos\<bar> cid h] else []) \<and>
      (if is_live (slot BID om) then 1 \<le> length bids \<and> length bids \<le> 3 else bids = []) \<and>
      (\<forall>c \<in> set bids. \<exists>h. c = CallCancel (sl_cid (slot BID om)) (sl_oid (slot BID om)) h) \<and>
      (if is_live (slot ASK om) then 1 \<le> length asks \<and> length asks \<le> 3 else asks = []) \<and>
      (\<forall>c \<in> set asks. \<exists>h. c = CallCancel (sl_cid (slot ASK om)) (sl_oid (slot ASK om)) h)) \<and>
    (\<forall>i. \<not> is_live (slot i om')) \<and> halt_watch cfg (logged r) (om', e') = (om', e')"
  using halt_watch_calls [OF assms] by (simp add: halt_watch_def cancels_of_def)

lemma demo_threshold [simp]: "ec_flatten_threshold (c_execution demo_cfg) = 1 / 1000"
  by (simp add: demo_cfg_def load_config_def mirror_exchange_def load_execution_def toml_empty_def Let_def)

lemma demo_tolerance: "ec_position_divergence_tolerance (c_execution demo_cfg) = 1 / 1000"
  by (simp add: demo_cfg_def load_config_def mirror_exchange_def load_execution_def toml_empty_def Let_def)

definition demo_halted_env :: "(unit \<times> rest_call list) env" where
  "demo_halted_env = (demo_env ((), []))\<lparr>en_cb := (breaker_init None)\<lparr>cb_halted := True\<rparr>\<rparr>"

text \<open>A live bid whose cancel is refused three times, and a position of five.\<close>

theorem halt_flattens_once_witness:
  "\<exists>bids cid h. snd (en_rest (snd (halt_watch demo_cfg (logged deaf_client) (demo_live, demo_halted_env)))) =
     bids @ [CallOther, CallMarket ''SELL'' 5 cid h] \<and> bids \<noteq> [] \<and> (\<forall>c \<in> set bids. \<exists>h. c = CallCancel ''a'' 7 h)"
proof -
  let ?e = demo_halted_env
  let ?ps = "\<lparr>ps_ok = True, ps_positions = [\<lparr>pe_symbol = ''S'', pe_position_amt = 5,
       pe_entry_price = 100, pe_unrealized_profit = 0\<rparr>], ps_http_code = 200\<rparr>"
  have slots: "is_live (slot BID demo_live)" "\<not> is_live (slot ASK demo_live)"
    "sl_cid (slot BID demo_live) = ''a''" "sl_oid (slot BID demo_live) = 7"
    by (simp_all add: demo_live_def om_init_def is_live_def slot_init_def)
  have 0: "env_halted ?e" "\<not> om_halt_handled demo_live" "snd (en_rest ?e) = []"
    by (simp_all add: demo_halted_env_def env_halted_def demo_live_def om_init_def demo_env_def)
  obtain om1 e1 where 1: "cancel_live (logged deaf_client) ASK (cancel_live (logged deaf_client) BID
      (demo_live\<lparr>om_halt_handled := True\<rparr>, ?e)) = (om1, e1)"
    by (rule prod.exhaust)
  obtain e2 where 2: "rest_positions (logged deaf_client) e1 = (?ps, e2)"
    by (simp add: logged_positions deaf_client_def call_logged_def)
  have 3: "5 = (if ps_ok ?ps then net_position ?ps else pt_inventory (en_pt e1))"
    by (simp add: net_position_def)
  obtain om' e' where w: "halt_watch demo_cfg (logged deaf_client) (demo_live, ?e) = (om', e')"
    by (rule prod.exhaust)
  have "ec_flatten_threshold (c_execution demo_cfg) < 5"
    by simp
  then obtain bids cid h where "snd (en_rest e') = bids @ [CallOther, CallMarket ''SELL'' 5 cid h]" "1 \<le> length bids"
    "\<forall>c \<in> set bids. \<exists>h. c = CallCancel ''a'' 7 h"
    using halt_flattens_once [OF 0(1,2) 1 2 3 w] 0(3) slots by auto
  with w show ?thesis
    by (intro exI [of _ bids] exI [of _ cid] exI [of _ h]) auto
qed

text \<open>Every cancel a halted round sends is for an order that was live before it.\<close>

lemma halt_watch_cancels:
  assumes "env_halted e" and "\<not> om_halt_handled om" and "halt_watch cfg (logged r) (om, e) = (om', e')"
  shows "om_halt_handled om' \<and> (\<exists>new. snd (en_rest e') = snd (en_rest e) @ new \<and>
    (\<forall>cid oid h. CallCancel cid oid h \<in> set new \<longrightarrow> (\<exists>j. is_live (slot j om) \<and> sl_cid (slot j om) = cid)))"
proof -
  obtain om3 e3 where 3: "cancel_live (logged r) ASK (cancel_live (logged r) BID (om\<lparr>om_halt_handled := True\<rparr>, e)) = (om3, e3)"
    by (rule prod.exhaust)
  obtain ps e4 where 4: "rest_positions (logged r) e3 = (ps, e4)"
    by (rule prod.exhaust)
  define pos where "pos = (if ps_ok ps then net_position ps else pt_inventory (en_pt e3))"
  let ?tail = "\<lambda>cid h. [CallOther] @ (if ec_flatten_threshold (c_execution cfg) < \<bar>pos\<bar>
    then [CallMarket (if 0 < pos then ''SELL'' else ''BUY'') \<bar>pos\<bar> cid h] else [])"
  obtain cancels cid hh where c: "om_halt_handled om'" "snd (en_rest e') = snd (en_rest e) @ cancels @ ?tail cid hh"
      "\<forall>c \<in> set cancels. \<exists>j h. is_live (slot j om) \<and> c = CallCancel (sl_cid (slot j om)) (sl_oid (slot j om)) h"
    using halt_watch_sends [OF assms(1,2) 3 4 pos_def assms(3)] by blast
  have "CallCancel i oid h \<notin> set (?tail cid hh)" for i oid h
    by simp
  with c(3) have "\<forall>i oid h. CallCancel i oid h \<in> set (cancels @ ?tail cid hh) \<longrightarrow>
      (\<exists>j. is_live (slot j om) \<and> sl_cid (slot j om) = i)"
    by fastforce
  with c(1,2) show ?thesis
    by blast
qed

text \<open>C38: a cancel that fails three times leaves its order to itself: the slot is switched off, so the
  halt that the failure raises cancels the other side only and never asks again for this order.\<close>

theorem abandoned_order_not_retried:
  assumes "sl_active (slot i om)" and "cancel_slot (logged r) i (om, e) = (False, om1, e1)"
    and "\<not> om_halt_handled om1" and "sl_cid (slot (slot_other i) om) \<noteq> sl_cid (slot i om)"
    and "halt_watch cfg (logged r) (om1, e1) = (om2, e2)"
  shows "env_halted e1 \<and> om_halt_handled om2 \<and>
    (\<exists>new. snd (en_rest e2) = snd (en_rest e1) @ new \<and>
      (\<forall>oid h. CallCancel (sl_cid (slot i om)) oid h \<notin> set new))"
proof -
  have "cancel_attempts (logged r) i kMaxCancelAttempts (om, e) = (False, om1, e1)"
    using assms(1,2) by (simp add: cancel_slot_def)
  note s = cancel_attempts_spec [OF this]
  then have h: "env_halted e1" and dead: "\<not> is_live (slot i om1)" "slot (slot_other i) om1 = slot (slot_other i) om"
    by (auto simp: is_live_def)
  have "\<not> (is_live (slot j om1) \<and> sl_cid (slot j om1) = sl_cid (slot i om))" for j
    using dead assms(4) slot_cases [of j i] by metis
  with halt_watch_cancels [OF h assms(3,5)] h show ?thesis
    by metis
qed

theorem abandoned_order_not_retried_witness:
  "om_halt_handled (fst (halt_watch demo_cfg (logged deaf_client)
     (snd (cancel_slot (logged deaf_client) BID (demo_live, demo_env ((), []))))))"
proof -
  obtain om1 e1 where 1: "snd (cancel_slot (logged deaf_client) BID (demo_live, demo_env ((), []))) = (om1, e1)"
    by (rule prod.exhaust)
  then have c: "cancel_slot (logged deaf_client) BID (demo_live, demo_env ((), [])) = (False, om1, e1)"
    using deaf_cancel by simp
  have a: "sl_active (slot BID demo_live)" "sl_cid (slot (slot_other BID) demo_live) \<noteq> sl_cid (slot BID demo_live)"
    by (simp_all add: demo_live_def om_init_def slot_init_def)
  have "om_halt_handled om1 = om_halt_handled demo_live"
    using handled_cancel_attempts [of "logged deaf_client" BID kMaxCancelAttempts "(demo_live, demo_env ((), []))"] a c
    by (simp add: cancel_slot_def)
  then have h: "\<not> om_halt_handled om1"
    by (simp add: demo_live_def om_init_def)
  obtain om2 e2 where 2: "halt_watch demo_cfg (logged deaf_client) (om1, e1) = (om2, e2)"
    by (rule prod.exhaust)
  from abandoned_order_not_retried [OF a(1) c h a(2) 2] show ?thesis
    by (simp add: 1 2)
qed

end
