(* ===== verification/OrderQuoting.thy ===== *)
theory OrderQuoting
  imports OrderProps
begin

text \<open>
  Requoting, the order state machine, the acknowledgement watchdog, reconciliation and the latency
  percentiles of the order manager.
\<close>

section \<open>The state machine\<close>

fun state_rank :: "order_state \<Rightarrow> nat" where
  "state_rank S_NEW = 0"
| "state_rank S_PENDING = 1"
| "state_rank S_SUBMITTED = 2"
| "state_rank S_ACKNOWLEDGED = 3"
| "state_rank S_PARTIALLY_FILLED = 4"
| "state_rank S_FILLED = 5"
| "state_rank S_CANCELED = 5"
| "state_rank S_REJECTED = 5"

fun attempt_all :: "slot_idx \<Rightarrow> order_state list \<Rightarrow> order_manager \<Rightarrow> bool list \<times> order_manager" where
  "attempt_all i [] om = ([], om)"
| "attempt_all i (t # ts) om =
     (let (ok, om) = for_testing_state_transition i t om; (oks, om) = attempt_all i ts om in (ok # oks, om))"

lemma valid_rank: "is_valid_transition s t \<Longrightarrow> state_rank s < state_rank t"
  by (cases s) auto

lemma rank_le: "state_rank s \<le> 5"
  by (cases s) simp_all

lemma terminal_iff: "is_terminal s \<longleftrightarrow> state_rank s = 5"
  by (cases s) (simp_all add: is_terminal_def)

lemma attempt_rank:
  "state_rank (sl_state (slot i om)) + length (filter id (fst (attempt_all i ts om))) \<le>
     state_rank (sl_state (slot i (snd (attempt_all i ts om))))"
proof (induction ts arbitrary: om)
  case (Cons t ts)
  obtain ok om' where s: "for_testing_state_transition i t om = (ok, om')"
    by fastforce
  have "state_rank (sl_state (slot i om)) + of_bool ok \<le> state_rank (sl_state (slot i om'))"
    using s valid_rank by (auto simp: for_testing_state_transition_def Suc_le_eq split: if_splits)
  with Cons.IH [of om'] show ?case
    by (cases ok) (simp_all add: s case_prod_beta)
qed simp

text \<open>Along any sequence of attempted transitions a slot accepts at most five, each strictly
  advancing in NEW, PENDING, SUBMITTED, ACKNOWLEDGED, PARTIALLY FILLED, terminal; once terminal it
  accepts none and its state stays.\<close>

theorem order_state_progress:
  "length (filter id (fst (attempt_all i ts om))) \<le> 5 \<and>
   (is_terminal (sl_state (slot i om)) \<longrightarrow>
      True \<notin> set (fst (attempt_all i ts om)) \<and>
      sl_state (slot i (snd (attempt_all i ts om))) = sl_state (slot i om))"
proof (intro conjI impI)
  show "length (filter id (fst (attempt_all i ts om))) \<le> 5"
    using attempt_rank [of i om ts] rank_le [of "sl_state (slot i (snd (attempt_all i ts om)))"] by linarith
next
  assume t: "is_terminal (sl_state (slot i om))"
  then have "length (filter id (fst (attempt_all i ts om))) = 0"
    using attempt_rank [of i om ts] rank_le [of "sl_state (slot i (snd (attempt_all i ts om)))"]
    using t unfolding terminal_iff by linarith
  then show "True \<notin> set (fst (attempt_all i ts om))"
    by (auto simp: filter_empty_conv)
next
  assume "is_terminal (sl_state (slot i om))"
  then have n: "\<not> is_valid_transition (sl_state (slot i om)) t" for t
    using valid_rank rank_le [of t] by (force simp: terminal_iff)
  show "sl_state (slot i (snd (attempt_all i ts om))) = sl_state (slot i om)"
    by (induction ts) (use n in \<open>auto simp: for_testing_state_transition_def case_prod_beta\<close>)
qed

theorem order_state_progress_witness:
  "True \<notin> set (fst (attempt_all BID [S_NEW, S_PENDING, S_CANCELED]
     (demo_live\<lparr>om_bid := slot_init\<lparr>sl_state := S_FILLED\<rparr>\<rparr>)))"
proof -
  have "is_terminal (sl_state (slot BID (demo_live\<lparr>om_bid := slot_init\<lparr>sl_state := S_FILLED\<rparr>\<rparr>)))"
    by (simp add: is_terminal_def)
  with order_state_progress show ?thesis
    by blast
qed


section \<open>The acknowledgement watchdog\<close>

text \<open>No history leads to a state in which the watchdog of \<open>quote_loop\<close> does anything: placement
  holds the mutex from SUBMITTED to the reply, so no slot is ever seen SUBMITTED, whatever the time and
  the configured timeout.\<close>

theorem ack_watchdog_idle:
  assumes "rest_contract rest" and "rm_open_order_count (en_rm e) = 0"
  shows "check_ack_timeouts cfg rest now (om_run cfg rest cs ops (fst (om_init ck), e)) =
    om_run cfg rest cs ops (fst (om_init ck), e)"
proof -
  let ?st = "om_run cfg rest cs ops (fst (om_init ck), e)"
  have "om_ok ?st"
    using rest_contract.om_run_ok [OF assms(1) om_init_ok [where ck = ck, OF assms(2)], where cfg = cfg and cs = cs and ops = ops]
    by (rule step_ok_om)
  then have "sl_active (slot i (fst ?st)) \<longrightarrow> sl_state (slot i (fst ?st)) \<noteq> S_SUBMITTED" for i
    by (auto simp: om_ok_def slot_ok_def)
  then have "check_ack_slot cfg rest now i ?st = ?st" for i
    by (auto simp: check_ack_slot_def Let_def)
  then show ?thesis
    by (simp add: check_ack_timeouts_def)
qed

theorem ack_watchdog_idle_witness:
  "check_ack_timeouts demo_cfg demo_sim 10000000000 (om_run demo_cfg demo_sim demo_codecs demo_history
     (fst (om_init demo_clock), demo_env (sim_init ''S'' ()))) =
   om_run demo_cfg demo_sim demo_codecs demo_history (fst (om_init demo_clock), demo_env (sim_init ''S'' ()))"
  by (rule ack_watchdog_idle [OF demo_sim_contract]) (simp add: demo_env_def risk_init_def)


section \<open>Requoting\<close>

lemma place_new_result:
  assumes "is_live (slot i (fst (snd (place_new cfg rest i price qty st))))"
  defines "s \<equiv> slot i (fst (snd (place_new cfg rest i price qty st)))"
  shows "sl_state s = S_ACKNOWLEDGED \<and> sl_price s = price \<and> sl_qty s = qty \<and> sl_executed s = 0 \<and>
    sl_side s = sl_side (slot i (fst st)) \<and> sl_cid s = fst (make_cid (fst st)) \<and> \<not> env_halted (snd st)"
proof -
  obtain om e where st: "st = (om, e)"
    by fastforce
  obtain om1 e1 where p: "prepare_slot i price qty (om, e) = (om1, e1)"
    by fastforce
  note p1 = prepare_slot_spec [OF p]
  have ex: "sl_executed (slot i om1) = 0"
    using p by (auto simp: prepare_slot_def transition_def make_cid_def Let_def split: if_splits)
  have rej: "\<not> is_live (slot i (fst (snd (reject_new i (om1, e')))))" for e'
    using p1(2) by (simp add: reject_new_def slot_transition is_live_def)
  have acc: "slot i (fst (snd (accept_new i a (om1, e')))) =
      (slot i om1)\<lparr>sl_oid := oa_exchange_order_id a, sl_state := S_ACKNOWLEDGED\<rparr>" for a e'
    using p1(2) by (simp add: accept_new_def Let_def)
  have h: "env_halted e1 = env_halted e"
    using p1(10) by (simp add: env_halted_def)
  have nr: "place_new cfg rest i price qty st \<noteq> reject_new i (om1, e')" for e'
    using assms(1) rej by metis
  obtain rr e2 where r: "env_pre_trade_check (c_risk cfg) (of_int (sl_side (slot i om1)) * qty) price e1 = (rr, e2)"
    by fastforce
  obtain a e3 where a: "rest_place rest (side_str (slot i om1)) qty price True (sl_cid (slot i om1))
      (env_record_submission e2) = (a, e3)"
    by fastforce
  have "place_new cfg rest i price qty st =
      (if env_halted e1 then reject_new i (om1, e1) else if rr \<noteq> APPROVED then reject_new i (om1, e2)
       else if oa_ok a then accept_new i a (om1, e3) else reject_new i (om1, e3))"
    by (simp add: place_new_def st p r a Let_def)
  then have "place_new cfg rest i price qty st = accept_new i a (om1, e3)" "\<not> env_halted e1"
    using nr by metis+
  then show ?thesis
    using p1 ex h by (simp add: s_def acc st)
qed

lemma place_side_result:
  assumes "is_live (slot i (fst (place_side cfg rest i price qty st)))"
  defines "s \<equiv> slot i (fst (place_side cfg rest i price qty st))"
  shows "sl_state s = S_ACKNOWLEDGED \<and> sl_price s = price \<and> sl_qty s = qty \<and> sl_executed s = 0 \<and>
    sl_side s = slot_side i \<and> \<not> env_halted (snd st)"
  using place_new_result [OF assms(1) [unfolded place_side_def]] by (simp add: s_def place_side_def)

text \<open>A quote leaves a live order alone exactly when the new price is within
  \<open>price_move_ticks_threshold\<close> ticks of it; in every other case the side ends without a live order or
  with a freshly acknowledged, unfilled order at precisely the quoted price, size and side, and the
  latter only if the breaker was not halted when the side was requoted.\<close>

theorem requote_side_result:
  fixes st :: "'r om_state" and cfg :: config
  defines "tol \<equiv> st_min_tick (c_strategy cfg) * of_int (st_price_move_ticks_threshold (c_strategy cfg))"
  assumes "rest_contract rest" and "om_ok st"
    and "st' = maybe_requote_side cfg rest i price qty st" and "s' = slot i (fst st')"
  shows "if is_live (slot i (fst st)) \<and> \<bar>price - sl_price (slot i (fst st))\<bar> \<le> tol then st' = st
    else is_live s' \<longrightarrow> sl_state s' = S_ACKNOWLEDGED \<and> sl_price s' = price \<and> sl_qty s' = qty \<and>
      sl_executed s' = 0 \<and> sl_side s' = slot_side i \<and> \<not> env_halted (snd st)"
proof -
  let ?s = "slot i (fst st)"
  have live: "sl_active ?s \<Longrightarrow> is_live ?s \<longleftrightarrow> \<not> is_terminal (sl_state ?s)"
    by (auto simp: is_live_def is_terminal_def)
  obtain ok st2 where c: "cancel_slot rest i st = (ok, st2)"
    by (rule prod.exhaust)
  have halt: "env_halted (snd st) \<Longrightarrow> env_halted (snd st2)"
    using rest_contract.cancel_slot_ok [OF assms(2,3), where i = i] c by (simp add: step_ok_def halt_kept_def)
  have gone: "\<not> sl_active (slot i (fst st2))"
  proof -
    have "\<not> sl_active (slot i (fst (snd (cancel_attempts rest i n st))))" for n
      by (induction n arbitrary: st) (simp_all add: case_prod_beta split_paired_all)
    then have "\<not> sl_active (slot i (fst (snd (cancel_slot rest i st))))"
      by (simp add: cancel_slot_def case_prod_beta)
    then show ?thesis
      by (simp add: c)
  qed
  let ?good = "\<lambda>st1. is_live (slot i (fst st1)) \<longrightarrow> sl_state (slot i (fst st1)) = S_ACKNOWLEDGED \<and>
    sl_price (slot i (fst st1)) = price \<and> sl_qty (slot i (fst st1)) = qty \<and>
    sl_executed (slot i (fst st1)) = 0 \<and> sl_side (slot i (fst st1)) = slot_side i \<and> \<not> env_halted (snd st)"
  have good: "?good (place_side cfg rest i price qty st1)" if "env_halted (snd st) \<Longrightarrow> env_halted (snd st1)" for st1
    using place_side_result [of i cfg rest price qty st1] that by blast
  show ?thesis
  proof (cases "is_live ?s")
    case True
    then have "\<not> is_terminal (sl_state ?s)" "sl_active ?s"
      using live by (auto simp: is_live_def)
    then have st': "st' = (if \<bar>price - sl_price ?s\<bar> \<le> tol then st
        else if ok then place_side cfg rest i price qty st2 else st2)"
      by (simp add: assms(4) tol_def maybe_requote_side_def c Let_def)
    show ?thesis
      using good [OF halt] gone True unfolding assms(5) st' by (simp add: is_live_def)
  next
    case False
    have "st' = place_side cfg rest i price qty (set_slot i (\<lambda>s. s\<lparr>sl_active := False\<rparr>) st) \<or>
        st' = place_side cfg rest i price qty st"
      using False live by (simp add: assms(4) maybe_requote_side_def Let_def)
    then have "?good st'"
      using good [of st] good [of "set_slot i (\<lambda>s. s\<lparr>sl_active := False\<rparr>) st"] by auto
    then show ?thesis
      using False unfolding assms(5) by simp
  qed
qed

theorem requote_side_result_witness:
  "maybe_requote_side demo_cfg demo_sim BID 1 1 (demo_live\<lparr>om_bid := (om_bid demo_live)\<lparr>sl_price := 1\<rparr>\<rparr>,
     (demo_env (sim_init ''S'' ()))\<lparr>en_rm := set_open_order_count 1 risk_init\<rparr>) =
   (demo_live\<lparr>om_bid := (om_bid demo_live)\<lparr>sl_price := 1\<rparr>\<rparr>,
     (demo_env (sim_init ''S'' ()))\<lparr>en_rm := set_open_order_count 1 risk_init\<rparr>)"
proof -
  let ?st = "(demo_live\<lparr>om_bid := (om_bid demo_live)\<lparr>sl_price := 1\<rparr>\<rparr>,
     (demo_env (sim_init ''S'' ()))\<lparr>en_rm := set_open_order_count 1 risk_init\<rparr>)"
  have "om_ok ?st"
    by (simp add: om_ok_def all_slots demo_live_def om_init_def slot_ok_def slot_init_def live_count_def is_live_def
        set_open_order_count_def)
  from requote_side_result [OF demo_sim_contract this refl refl, of BID 1 demo_cfg 1] show ?thesis
    by (simp add: demo_live_def is_live_def slot_init_def demo_cfg_def load_strategy_def toml_empty_def)
qed

end
