(* ===== verification/FillPath.thy ===== *)
theory FillPath
  imports OrderQuoting "HOL-Library.Multiset"
begin

text \<open>
  Fills from \<open>inject_fill\<close> through the ring to the position tracker, what reconciliation makes of them
  while they are queued, and the latency percentiles.
\<close>

section \<open>The fill ring\<close>

definition inject_all :: "(fill_event \<Rightarrow> u8 list) \<Rightarrow> fill_input list \<Rightarrow> 'r om_state \<Rightarrow> 'r om_state" where
  "inject_all enc fs st = fold (\<lambda>f st. snd (inject_fill enc f st)) fs st"

definition apply_rounds :: "(u8 list \<Rightarrow> fill_event option) \<Rightarrow> nat \<Rightarrow> 'r om_state \<Rightarrow> 'r om_state" where
  "apply_rounds dec n st = (fill_apply_step dec ^^ n) st"

definition fill_codec :: "(fill_event \<Rightarrow> u8 list) \<Rightarrow> (u8 list \<Rightarrow> fill_event option) \<Rightarrow> fill_input \<Rightarrow> bool" where
  "fill_codec enc dec f \<longleftrightarrow> codec_at enc dec (fill_event_of f) \<and> length (enc (fill_event_of f)) \<le> 512"

lemma fill_input_of_event [simp]: "fill_input_of (fill_event_of f) = f"
  by (simp add: fill_input_of_def fill_event_of_def)

lemma transition_frame [simp]:
  "en_pt (snd (transition i to st)) = en_pt (snd st)" "en_cb (snd (transition i to st)) = en_cb (snd st)"
  "om_fill_ring (fst (transition i to st)) = om_fill_ring (fst st)"
  by (cases st; simp add: transition_def)+

lemma sync_frame [simp]:
  "en_pt (snd (sync_open_orders st)) = en_pt (snd st)" "en_cb (snd (sync_open_orders st)) = en_cb (snd st)"
  by (cases st; simp add: sync_open_orders_def)+

lemma book_fill_keeps [simp]:
  "en_pt (snd (book_fill f st)) = en_pt (snd st)" "en_cb (snd (book_fill f st)) = en_cb (snd st)"
  "om_fill_ring (fst (book_fill f st)) = om_fill_ring (fst st)"
  by (simp_all add: book_fill_def slot_fill_def Let_def case_prod_beta)

lemma inject_fill_split:
  "inject_fill enc f st =
     (case fill_msg (enc (fill_event_of f)) of
        None \<Rightarrow> (False, book_fill f (with_trade f st))
      | Some m \<Rightarrow>
          (fst (ring_push (om_fill_ring (fst st)) m),
           (fst (book_fill f (with_trade f st)))\<lparr>om_fill_ring := snd (ring_push (om_fill_ring (fst st)) m)\<rparr>,
           snd (book_fill f (with_trade f st))))"
proof -
  obtain om e where st: "st = (om, e)"
    by fastforce
  obtain om1 e1 where b: "book_fill f (om, e\<lparr>en_db := db_push (trade_event_of f) (en_db e)\<rparr>) = (om1, e1)"
    by fastforce
  have "om_fill_ring om1 = om_fill_ring om"
    using book_fill_keeps(3) [of f "(om, e\<lparr>en_db := db_push (trade_event_of f) (en_db e)\<rparr>)"] by (simp add: b)
  then show ?thesis
    by (simp add: inject_fill_def st with_trade_def b case_prod_beta split: option.split)
qed

lemma inject_fill_pt [simp]:
  "en_pt (snd (snd (inject_fill enc f st))) = en_pt (snd st)"
  "en_cb (snd (snd (inject_fill enc f st))) = en_cb (snd st)"
  by (simp_all add: inject_fill_split with_trade_def split: option.split)

lemma inject_fill_ring:
  assumes "fill_codec enc dec f" and "ring_ok (om_fill_ring (fst st))"
    and "ring_count (om_fill_ring (fst st)) < ring_capacity (om_fill_ring (fst st))"
  shows "\<exists>m st'. inject_fill enc f st = (True, st') \<and> ring_ok (om_fill_ring (fst st')) \<and>
    ring_items (om_fill_ring (fst st')) = ring_items (om_fill_ring (fst st)) @ [m] \<and>
    ring_capacity (om_fill_ring (fst st')) = ring_capacity (om_fill_ring (fst st)) \<and>
    en_pt (snd st') = en_pt (snd st) \<and>
    (\<forall>pt. apply_fill_msg dec m pt = snd (apply_fill f pt))"
proof -
  obtain m where m: "fill_msg (enc (fill_event_of f)) = Some m"
    using assms(1) by (auto simp: fill_codec_def fill_msg_def)
  then have "dec (take (unat (mg_size m)) (mg_bytes m)) = Some (fill_event_of f)"
    using assms(1) fill_msg_Some [OF m] by (simp add: fill_codec_def codec_at_def)
  then have a: "apply_fill_msg dec m pt = snd (apply_fill f pt)" for pt
    by (simp add: apply_fill_msg_def)
  obtain r' where r: "ring_push (om_fill_ring (fst st)) m = (True, r')" "ring_ok r'"
    "ring_items r' = ring_items (om_fill_ring (fst st)) @ [m]"
    "ring_capacity r' = ring_capacity (om_fill_ring (fst st))"
    using ring_push_room [OF assms(2,3)] by blast
  then show ?thesis
    using a by (auto simp: inject_fill_split m with_trade_def)
qed

lemma inject_all_ring:
  assumes "\<forall>f \<in> set fs. fill_codec enc dec f" and "ring_ok (om_fill_ring (fst st))"
    and "ring_count (om_fill_ring (fst st)) + length fs \<le> ring_capacity (om_fill_ring (fst st))"
  shows "\<exists>ms. ring_ok (om_fill_ring (fst (inject_all enc fs st))) \<and>
    ring_items (om_fill_ring (fst (inject_all enc fs st))) = ring_items (om_fill_ring (fst st)) @ ms \<and>
    length ms = length fs \<and> en_pt (snd (inject_all enc fs st)) = en_pt (snd st) \<and>
    (\<forall>pt. fold (apply_fill_msg dec) ms pt = apply_fills fs pt)"
  using assms
proof (induction fs arbitrary: st)
  case Nil
  then show ?case
    by (simp add: inject_all_def)
next
  case (Cons f fs)
  have room: "ring_count (om_fill_ring (fst st)) < ring_capacity (om_fill_ring (fst st))"
    using Cons.prems(3) by simp
  obtain m st1 where 1: "inject_fill enc f st = (True, st1)" "ring_ok (om_fill_ring (fst st1))"
    "ring_items (om_fill_ring (fst st1)) = ring_items (om_fill_ring (fst st)) @ [m]"
    "ring_capacity (om_fill_ring (fst st1)) = ring_capacity (om_fill_ring (fst st))"
    "en_pt (snd st1) = en_pt (snd st)" "\<forall>pt. apply_fill_msg dec m pt = snd (apply_fill f pt)"
    using inject_fill_ring [OF _ Cons.prems(2) room, of enc dec f] Cons.prems(1) by auto
  have "ring_count (om_fill_ring (fst st1)) = Suc (ring_count (om_fill_ring (fst st)))"
    using arg_cong [OF 1(3), of length] by simp
  then obtain ms where ms: "ring_ok (om_fill_ring (fst (inject_all enc fs st1)))"
    "ring_items (om_fill_ring (fst (inject_all enc fs st1))) = ring_items (om_fill_ring (fst st1)) @ ms"
    "length ms = length fs" "en_pt (snd (inject_all enc fs st1)) = en_pt (snd st1)"
    "\<forall>pt. fold (apply_fill_msg dec) ms pt = apply_fills fs pt"
    using Cons.IH [of st1] Cons.prems 1 by auto
  have "inject_all enc (f # fs) st = inject_all enc fs st1"
    by (simp add: inject_all_def 1(1))
  then show ?case
    using ms 1 by (intro exI [of _ "m # ms"]) simp
qed

lemma apply_rounds_ring:
  assumes "ring_ok (om_fill_ring (fst st))" and "ring_items (om_fill_ring (fst st)) = ms"
  shows "en_pt (snd (apply_rounds dec (length ms) st)) = fold (apply_fill_msg dec) ms (en_pt (snd st)) \<and>
    ring_items (om_fill_ring (fst (apply_rounds dec (length ms) st))) = []"
  using assms
proof (induction ms arbitrary: st)
  case Nil
  then show ?case
    by (simp add: apply_rounds_def)
next
  case (Cons m ms)
  obtain om e where st: "st = (om, e)"
    by fastforce
  obtain r where r: "ring_pop (om_fill_ring om) = Some (m, r)" "ring_ok r" "ring_items r = ms"
    using ring_pop_Cons [OF Cons.prems(1,2)] by (auto simp: st)
  then have s: "fill_apply_step dec st = (om\<lparr>om_fill_ring := r\<rparr>, e\<lparr>en_pt := apply_fill_msg dec m (en_pt e)\<rparr>)"
    by (simp add: fill_apply_step_def st)
  have "apply_rounds dec (length (m # ms)) st = apply_rounds dec (length ms) (fill_apply_step dec st)"
    by (simp add: apply_rounds_def funpow_swap1)
  then show ?case
    using Cons.IH [of "fill_apply_step dec st"] r s by (simp add: st)
qed

lemma ring_init_1024: "ring_ok (ring_init 1024 d)" "ring_items (ring_init 1024 d) = []"
  "ring_capacity (ring_init 1024 d) = 1023"
  using ring_init_ok [of 10 d] by (simp_all add: ring_capacity_def ring_init_def)

lemma ring_init_count: "ring_count (ring_init 1024 d) = 0"
  using arg_cong [OF ring_init_1024(2), of length] by (simp only: length_ring_items) simp

text \<open>Fills injected into an empty ring with room for them, and as many rounds of the fill thread.\<close>

lemma inject_all_applied:
  assumes "\<forall>f \<in> set fs. fill_codec enc dec f" and "ring_ok (om_fill_ring (fst st))"
    and "ring_items (om_fill_ring (fst st)) = []" and "length fs \<le> ring_capacity (om_fill_ring (fst st))"
  shows "en_pt (snd (inject_all enc fs st)) = en_pt (snd st) \<and>
    en_pt (snd (apply_rounds dec (length fs) (inject_all enc fs st))) = apply_fills fs (en_pt (snd st)) \<and>
    ring_items (om_fill_ring (fst (apply_rounds dec (length fs) (inject_all enc fs st)))) = []"
proof -
  have "ring_count (om_fill_ring (fst st)) = 0"
    using arg_cong [OF assms(3), of length] by simp
  then obtain ms where ms: "ring_ok (om_fill_ring (fst (inject_all enc fs st)))"
    "ring_items (om_fill_ring (fst (inject_all enc fs st))) = ms" "length ms = length fs"
    "en_pt (snd (inject_all enc fs st)) = en_pt (snd st)" "\<forall>pt. fold (apply_fill_msg dec) ms pt = apply_fills fs pt"
    using inject_all_ring [OF assms(1,2)] assms(3,4) by auto
  from apply_rounds_ring [OF ms(1,2), of dec] ms(3-5) show ?thesis
    by simp
qed

lemma om_init_ring [simp]: "om_fill_ring (fst (om_init ck)) = ring_init 1024 byte_msg0"
  by (simp add: om_init_def)

text \<open>C11: up to 1023 fills injected while the fill thread is stalled all reach the position tracker once
  it runs: with one round per fill it is exactly the tracker that applied the same fills directly, in
  order, and nothing is left in the ring; injecting alone moves no position.\<close>

theorem fills_reach_tracker:
  assumes "\<forall>f \<in> set fs. fill_codec enc dec f" and "length fs \<le> 1023"
  shows "en_pt (snd (inject_all enc fs (fst (om_init ck), e))) = en_pt e \<and>
    en_pt (snd (apply_rounds dec (length fs) (inject_all enc fs (fst (om_init ck), e)))) = apply_fills fs (en_pt e) \<and>
    ring_items (om_fill_ring (fst (apply_rounds dec (length fs) (inject_all enc fs (fst (om_init ck), e))))) = []"
  using inject_all_applied [OF assms(1), of "(fst (om_init ck), e)"] assms(2) by (simp add: ring_init_1024)

definition demo_trade :: "fill_input" where
  "demo_trade = demo_fill 1 100 2"

lemma demo_fill_codec: "fill_codec (\<lambda>_. [1]) (\<lambda>_. Some (fill_event_of demo_trade)) demo_trade"
  by (simp add: fill_codec_def codec_at_def)

theorem fills_reach_tracker_witness:
  "en_pt (snd (apply_rounds (\<lambda>_. Some (fill_event_of demo_trade)) 2
     (inject_all (\<lambda>_. [1]) [demo_trade, demo_trade] (fst (om_init demo_clock), demo_env ())))) =
   apply_fills [demo_trade, demo_trade] tracker_init \<and> pt_inventory (apply_fills [demo_trade, demo_trade] tracker_init) = 4"
proof -
  have "\<forall>f \<in> set [demo_trade, demo_trade]. fill_codec (\<lambda>_. [1]) (\<lambda>_. Some (fill_event_of demo_trade)) f"
    using demo_fill_codec by simp
  from fills_reach_tracker [OF this, of demo_clock "demo_env ()"]
  have "en_pt (snd (apply_rounds (\<lambda>_. Some (fill_event_of demo_trade)) 2
     (inject_all (\<lambda>_. [1]) [demo_trade, demo_trade] (fst (om_init demo_clock), demo_env ())))) =
   apply_fills [demo_trade, demo_trade] (en_pt (demo_env ()))"
    by (simp add: numeral_2_eq_2)
  moreover have "en_pt (demo_env ()) = tracker_init"
    by (simp add: demo_env_def)
  moreover have "pt_inventory (apply_fills [demo_trade, demo_trade] tracker_init) = 4"
    by (simp add: demo_trade_def demo_fill_def apply_fill_def fill_valid_def fill_stores_def
        fill_effect_def fill_signed_qty_def tracker_init_def kInvEpsilon_def)
  ultimately show ?thesis
    by simp
qed


section \<open>Reconciliation\<close>

text \<open>Reconciliation halts the engine exactly when the position query succeeded and the exchange's
  position for the symbol differs from the local inventory by more than the tolerance; it never
  touches the orders.\<close>

theorem reconcile_exact:
  assumes "rest_positions rest e = (ps, e1)" and "rest_open_orders rest e1 = (oo, e2)"
    and "reconcile_now cfg rest (om, e) = (om', e')"
  shows "om' = om \<and> (env_halted e' \<longleftrightarrow> env_halted e2 \<or> (ps_ok ps \<and>
    ec_position_divergence_tolerance (c_execution cfg) <
      \<bar>pt_inventory (en_pt e2) - position_of (md_symbol (c_market_data cfg)) ps\<bar>))"
  using assms by (auto simp: reconcile_now_def reconcile_positions_def split: if_splits)

theorem reconcile_exact_witness:
  "fst (reconcile_now demo_cfg deaf_client (demo_live, demo_env ())) = demo_live"
proof -
  obtain ps e1 where 1: "rest_positions deaf_client (demo_env ()) = (ps, e1)"
    by (rule prod.exhaust)
  moreover obtain oo e2 where 2: "rest_open_orders deaf_client e1 = (oo, e2)"
    by (rule prod.exhaust)
  moreover obtain om' e' where "reconcile_now demo_cfg deaf_client (demo_live, demo_env ()) = (om', e')"
    by (rule prod.exhaust)
  ultimately show ?thesis
    using reconcile_exact [of deaf_client "demo_env ()" ps e1 oo e2 demo_cfg demo_live om' e'] by simp
qed

text \<open>C39: reconciliation reads the tracker, which lags the fills still in the ring.  With the books in
  agreement, one fill larger than the tolerance that has been injected but not yet applied makes it
  halt the engine over the exchange's correct position; after the fill thread's next round the same
  position passes.\<close>

theorem reconcile_halts_on_queued_fill:
  assumes "fill_codec enc dec f" and "fill_valid f"
    and "ps_ok ps" and "position_of (md_symbol (c_market_data cfg)) ps = pt_inventory (en_pt e) + fill_signed_qty f"
    and "0 \<le> ec_position_divergence_tolerance (c_execution cfg)"
    and "ec_position_divergence_tolerance (c_execution cfg) < fi_qty f" and "\<not> env_halted e"
    and "snd (inject_fill enc f (fst (om_init ck), e)) = st1"
  shows "env_halted (snd (for_testing_reconcile cfg ps oo st1)) \<and>
    \<not> env_halted (snd (for_testing_reconcile cfg ps oo (fill_apply_step dec st1)))"
proof -
  let ?st = "(fst (om_init ck), e)"
  have cnt: "ring_count (om_fill_ring (fst (om_init ck))) = 0"
    using ring_init_count by (simp only: om_init_ring)
  obtain m where m: "ring_ok (om_fill_ring (fst st1))" "ring_items (om_fill_ring (fst st1)) = [m]"
    "en_pt (snd st1) = en_pt e" "\<forall>pt. apply_fill_msg dec m pt = snd (apply_fill f pt)"
    using inject_fill_ring [OF assms(1), of ?st] cnt assms(8) by (auto simp: ring_init_1024)
  have h: "\<not> env_halted (snd st1)"
    using assms(7,8) inject_fill_frame(1) [of enc f ?st] by simp
  obtain r where r: "ring_pop (om_fill_ring (fst st1)) = Some (m, r)"
    using ring_pop_Cons [OF m(1,2)] by metis
  obtain ae rl where fe: "fill_effect (pt_inventory (en_pt e)) (pt_avg_entry (en_pt e)) (fill_signed_qty f) (fi_price f) = (ae, rl)"
    by fastforce
  have "pt_inventory (snd (apply_fill f (en_pt e))) = pt_inventory (en_pt e) + fill_signed_qty f"
    using apply_fill_fields [OF assms(2) fe] by simp
  then have inv': "pt_inventory (en_pt (snd (fill_apply_step dec st1))) = pt_inventory (en_pt e) + fill_signed_qty f"
    using m(3,4) r by (cases st1) (simp add: fill_apply_step_def)
  have abs: "\<bar>fill_signed_qty f\<bar> = fi_qty f"
    using assms(2) by (auto simp: fill_signed_qty_def fill_valid_def)
  have "env_halted (reconcile_positions cfg ps (snd st1))"
    using assms(3,4,6) m(3) abs by (simp add: reconcile_positions_def)
  moreover have "\<not> env_halted (reconcile_positions cfg ps (snd (fill_apply_step dec st1)))"
    using assms(4,5) h inv' by (simp add: reconcile_positions_def)
  ultimately show ?thesis
    by (simp add: for_testing_reconcile_def case_prod_beta)
qed


definition demo_positions :: positions_snapshot where
  "demo_positions = \<lparr>ps_ok = True, ps_positions = [\<lparr>pe_symbol = md_symbol (c_market_data demo_cfg), pe_position_amt = 2,
     pe_entry_price = 100, pe_unrealized_profit = 0\<rparr>], ps_http_code = 200\<rparr>"

theorem reconcile_halts_on_queued_fill_witness:
  "env_halted (snd (for_testing_reconcile demo_cfg demo_positions \<lparr>os_ok = False, os_orders = [], os_http_code = 0\<rparr>
     (snd (inject_fill (\<lambda>_. [1]) demo_trade (fst (om_init demo_clock), demo_env ())))))"
proof -
  have "fill_valid demo_trade" "fi_qty demo_trade = 2" "fill_signed_qty demo_trade = 2"
    by (simp_all add: demo_trade_def demo_fill_def fill_valid_def fill_signed_qty_def)
  moreover have "pt_inventory (en_pt (demo_env ())) = 0" "\<not> env_halted (demo_env ())"
    by (simp_all add: demo_env_def tracker_init_def env_halted_def breaker_init_def)
  ultimately show ?thesis
    using reconcile_halts_on_queued_fill [OF demo_fill_codec, of demo_positions demo_cfg "demo_env ()" demo_clock] demo_tolerance
    by (simp add: demo_positions_def position_of_def)
qed


section \<open>Latency\<close>

definition record_all :: "u64 list \<Rightarrow> order_manager \<Rightarrow> order_manager" where
  "record_all cs om = fold record_latency_cycles cs om"

definition last_samples :: "nat \<Rightarrow> 'a list \<Rightarrow> 'a list" where
  "last_samples w cs = drop (length cs - w) cs"

lemma record_fields [simp]:
  "om_latency_cycles (record_latency_cycles c om) = (om_latency_cycles om)[om_latency_idx om := c]"
  "om_latency_idx (record_latency_cycles c om) = (om_latency_idx om + 1) mod kLatencyWindow"
  "om_latency_count (record_latency_cycles c om) =
     (if om_latency_count om < kLatencyWindow then om_latency_count om + 1 else om_latency_count om)"
  by (simp_all add: record_latency_cycles_def)

lemma kLatencyWindow_pos [simp]: "0 < kLatencyWindow"
  by (simp add: kLatencyWindow_def)

lemma last_samples_short:
  "length cs < w \<Longrightarrow> last_samples w (cs @ [c]) = last_samples w cs @ [c]"
  by (simp add: last_samples_def)

lemma last_samples_full:
  assumes "w \<le> length cs" and "0 < w"
  shows "last_samples w (cs @ [c]) = tl (last_samples w cs) @ [c]" and "hd (last_samples w cs) = cs ! (length cs - w)"
    and "last_samples w cs \<noteq> []"
  using assms by (simp_all add: last_samples_def Suc_diff_le drop_Suc tl_drop hd_drop_conv_nth)

text \<open>The circular buffer holds the last 1000 samples, in some rotation.\<close>

lemma latency_window:
  assumes "om_latency_idx om = 0" and "om_latency_count om = 0" and "length (om_latency_cycles om) = kLatencyWindow"
  defines "r \<equiv> \<lambda>cs. record_all cs om"
  shows "length (om_latency_cycles (r cs)) = kLatencyWindow \<and> om_latency_idx (r cs) = length cs mod kLatencyWindow \<and>
    om_latency_count (r cs) = min (length cs) kLatencyWindow \<and>
    (\<forall>k < length cs. length cs \<le> k + kLatencyWindow \<longrightarrow> om_latency_cycles (r cs) ! (k mod kLatencyWindow) = cs ! k) \<and>
    mset (take (om_latency_count (r cs)) (om_latency_cycles (r cs))) = mset (last_samples kLatencyWindow cs)"
proof (induction cs rule: rev_induct)
  case Nil
  then show ?case
    using assms by (simp add: r_def record_all_def last_samples_def)
next
  case (snoc c cs)
  let ?W = kLatencyWindow and ?n = "length cs" and ?b = "om_latency_cycles (r cs)"
  have step: "r (cs @ [c]) = record_latency_cycles c (r cs)"
    by (simp add: r_def record_all_def)
  have len: "length ?b = ?W" and idx: "om_latency_idx (r cs) = ?n mod ?W"
    and cnt: "om_latency_count (r cs) = min ?n ?W"
    and pos: "\<And>k. k < ?n \<Longrightarrow> ?n \<le> k + ?W \<Longrightarrow> ?b ! (k mod ?W) = cs ! k"
    and ms: "mset (take (min ?n ?W) ?b) = mset (last_samples ?W cs)"
    using snoc.IH by auto
  have lt: "?n mod ?W < ?W"
    by simp
  have pos': "?b[?n mod ?W := c] ! (k mod ?W) = (cs @ [c]) ! k"
    if "k < length (cs @ [c])" "length (cs @ [c]) \<le> k + ?W" for k
  proof (cases "k = ?n")
    case True
    then show ?thesis
      using len lt by simp
  next
    case False
    then have k: "k < ?n" "?n < k + ?W"
      using that by simp_all
    then have "(?n - k) mod ?W \<noteq> 0"
      by simp
    then have "k mod ?W \<noteq> ?n mod ?W"
      using k(1) by (metis less_imp_le_nat mod_eq_dvd_iff_nat dvd_imp_mod_0)
    then show ?thesis
      using pos [of k] k by (simp add: nth_append)
  qed
  have ms': "mset (take (min (Suc ?n) ?W) (?b[?n mod ?W := c])) = mset (last_samples ?W (cs @ [c]))"
  proof (cases "?n < ?W")
    case True
    then have "take (Suc ?n) (?b[?n := c]) = take ?n ?b @ [c]"
      using len by (simp add: take_Suc_conv_app_nth)
    then show ?thesis
      using True ms by (simp add: last_samples_short)
  next
    case False
    then have full: "?W \<le> ?n"
      by simp
    note ls = last_samples_full [OF full kLatencyWindow_pos]
    have lt': "?n - ?W < ?n" and le': "?n \<le> ?n - ?W + ?W"
      using full kLatencyWindow_pos by linarith+
    have "?n mod ?W = (?n - ?W) mod ?W"
      using full by (simp add: le_mod_geq)
    then have old: "?b ! (?n mod ?W) = hd (last_samples ?W cs)"
      using pos [OF lt' le'] ls(2) by simp
    have "mset (?b[?n mod ?W := c]) = add_mset c (mset ?b - {#?b ! (?n mod ?W)#})"
      using len lt by (simp add: mset_update)
    also have "\<dots> = add_mset c (mset (last_samples ?W cs) - {#hd (last_samples ?W cs)#})"
      using ms full len old by simp
    also have "\<dots> = mset (last_samples ?W (cs @ [c]))"
      using ls by (cases "last_samples ?W cs") simp_all
    finally show ?thesis
      using full len by simp
  qed
  have new: "om_latency_cycles (r (cs @ [c])) = ?b[?n mod ?W := c]"
    by (simp add: step idx)
  have cnt': "om_latency_count (r (cs @ [c])) = min (Suc ?n) ?W"
    using cnt by (simp add: step min_def)
  show ?case
    unfolding new cnt' using len pos' ms' by (simp add: step idx mod_Suc_eq)
qed

lemma latency_pick_nth:
  assumes "snap \<noteq> []" and "0 < ghz" and "0 \<le> q" and "q \<le> 1"
  shows "latency_pick ghz snap q = real (unat (snap ! nat \<lfloor>q * real (length snap - 1)\<rfloor>)) / (ghz * 1000)"
    and "nat \<lfloor>q * real (length snap - 1)\<rfloor> < length snap"
proof -
  have "q * real (length snap - 1) \<le> real (length snap - 1)"
    using assms(3,4) by (simp add: mult_left_le_one_le)
  then have "nat \<lfloor>q * real (length snap - 1)\<rfloor> \<le> length snap - 1"
    by linarith
  then show lt: "nat \<lfloor>q * real (length snap - 1)\<rfloor> < length snap"
    using assms(1) by (cases snap) auto
  then show "latency_pick ghz snap q = real (unat (snap ! nat \<lfloor>q * real (length snap - 1)\<rfloor>)) / (ghz * 1000)"
    using assms(1,2) unfolding latency_pick_def Let_def by (simp only: not_le [symmetric] if_False)
qed

lemma latency_pick_mono:
  assumes "sorted snap" and "snap \<noteq> []" and "0 < ghz" and "0 \<le> p" and "p \<le> q" and "q \<le> 1"
  shows "latency_pick ghz snap p \<le> latency_pick ghz snap q"
proof -
  have "p * real (length snap - 1) \<le> q * real (length snap - 1)"
    using assms(5) by (simp add: mult_right_mono)
  then have "nat \<lfloor>p * real (length snap - 1)\<rfloor> \<le> nat \<lfloor>q * real (length snap - 1)\<rfloor>"
    by (intro nat_mono floor_mono)
  moreover have lt: "nat \<lfloor>q * real (length snap - 1)\<rfloor> < length snap"
    using assms by (intro latency_pick_nth(2)) simp_all
  ultimately have "snap ! nat \<lfloor>p * real (length snap - 1)\<rfloor> \<le> snap ! nat \<lfloor>q * real (length snap - 1)\<rfloor>"
    using assms(1) by (intro sorted_nth_mono)
  then have "real (unat (snap ! nat \<lfloor>p * real (length snap - 1)\<rfloor>)) \<le> real (unat (snap ! nat \<lfloor>q * real (length snap - 1)\<rfloor>))"
    by (simp only: word_le_nat_alt of_nat_le_iff)
  moreover have "p \<le> 1" "0 \<le> q"
    using assms by simp_all
  ultimately show ?thesis
    using assms(3) unfolding latency_pick_nth(1) [OF assms(2,3,4) \<open>p \<le> 1\<close>] latency_pick_nth(1) [OF assms(2,3) \<open>0 \<le> q\<close> assms(6)]
    by (intro divide_right_mono) simp_all
qed

text \<open>After any number of recorded round trips the reported percentiles are those of the last 1000
  of them, whatever rotation the circular buffer is in; they are ordered, and the 99th never exceeds
  the slowest of these samples.\<close>

theorem latency_percentiles_of_window:
  assumes "cs \<noteq> []" and "0 < ghz"
    and "latency_percentiles ghz (record_all cs (fst (om_init ck))) = (p50, p95, p99)"
  shows "p50 = latency_pick ghz (sort (last_samples 1000 cs)) (50 / 100) \<and>
    p99 = latency_pick ghz (sort (last_samples 1000 cs)) (99 / 100) \<and>
    0 \<le> p50 \<and> p50 \<le> p95 \<and> p95 \<le> p99 \<and>
    p99 \<le> real (Max (unat ` set (last_samples 1000 cs))) / (ghz * 1000)"
proof -
  let ?om = "record_all cs (fst (om_init ck))" and ?ls = "last_samples 1000 cs"
  have f: "om_latency_idx (fst (om_init ck)) = 0" "om_latency_count (fst (om_init ck)) = 0"
    "length (om_latency_cycles (fst (om_init ck))) = kLatencyWindow"
    by (simp_all add: om_init_def)
  have w: "om_latency_count ?om = min (length cs) 1000"
    "mset (take (om_latency_count ?om) (om_latency_cycles ?om)) = mset ?ls"
    using latency_window [OF f, of cs] unfolding kLatencyWindow_def by blast+
  have snap: "sort (take (om_latency_count ?om) (om_latency_cycles ?om)) = sort ?ls"
    using w(2) by (metis properties_for_sort sorted_sort mset_sort)
  have nz: "om_latency_count ?om \<noteq> 0"
    using w(1) assms(1) by simp
  have ne: "sort ?ls \<noteq> []"
    using assms(1) by (metis kLatencyWindow_def last_samples_def last_samples_full(3) length_0_conv length_sort drop0 diff_is_0_eq le_less_linear less_imp_le kLatencyWindow_pos)
  have p: "p50 = latency_pick ghz (sort ?ls) (50 / 100)" "p95 = latency_pick ghz (sort ?ls) (95 / 100)"
    "p99 = latency_pick ghz (sort ?ls) (99 / 100)"
    using assms(3) nz unfolding latency_percentiles_def Let_def snap by simp_all
  have q50: "0 \<le> (50 / 100 :: real)" "50 / 100 \<le> (1 :: real)"
    by simp_all
  have "0 \<le> p50"
    unfolding p(1) latency_pick_nth(1) [OF ne assms(2) q50] using assms(2)
    by (intro divide_nonneg_pos of_nat_0_le_iff) simp
  moreover have "p50 \<le> p95" "p95 \<le> p99"
    using assms(2) ne unfolding p by (auto intro!: latency_pick_mono)
  moreover have "p99 \<le> real (Max (unat ` set ?ls)) / (ghz * 1000)"
  proof -
    let ?x = "sort ?ls ! nat \<lfloor>(99 / 100) * real (length (sort ?ls) - 1)\<rfloor>"
    note n = latency_pick_nth [OF ne assms(2), of "99 / 100"]
    have q: "0 \<le> (99 / 100 :: real)" "99 / 100 \<le> (1 :: real)"
      by simp_all
    have "?x \<in> set (sort ?ls)"
      using n(2) [OF q] by (rule nth_mem)
    then have "?x \<in> set ?ls"
      by simp
    then have "real (unat ?x) \<le> real (Max (unat ` set ?ls))"
      unfolding of_nat_le_iff by (intro Max_ge) simp_all
    then have "real (unat ?x) / (ghz * 1000) \<le> real (Max (unat ` set ?ls)) / (ghz * 1000)"
      using assms(2) by (intro divide_right_mono) simp_all
    then show ?thesis
      unfolding p(3) n(1) [OF q] .
  qed
  ultimately show ?thesis
    using p by blast
qed

theorem latency_percentiles_of_window_witness:
  "case latency_percentiles 1 (record_all [3000, 1000, 2000] (fst (om_init demo_clock))) of
     (p50, p95, p99) \<Rightarrow> p50 = latency_pick 1 [1000, 2000, 3000] (50 / 100) \<and> p50 \<le> p95 \<and> p95 \<le> p99"
proof -
  obtain p50 p95 p99 where p: "latency_percentiles 1 (record_all [3000, 1000, 2000] (fst (om_init demo_clock))) = (p50, p95, p99)"
    using prod_cases3 by blast
  have "sort (last_samples 1000 [3000, 1000, 2000 :: u64]) = [1000, 2000, 3000]"
    by (simp add: last_samples_def)
  with latency_percentiles_of_window [OF _ _ p] show ?thesis
    by (simp add: p)
qed

end
