(* ===== verification/SimProps.thy ===== *)
theory SimProps
  imports FillPath
begin

text \<open>
  The simulated exchange against the position tracker: two implementations of the same cost basis,
  \<open>apply_inv_fill\<close> and \<open>PositionTracker::apply_fill\<close>, kept side by side over every sequence of orders,
  cancels, amendments and market updates.
\<close>

section \<open>Histories of the simulator\<close>

datatype sim_op =
    SPlace string double double string
  | SMarket string double string
  | SCancel string
  | SAmend string double double string
  | SUpdate double double double double u64

fun sim_step :: "'u on_fill \<Rightarrow> sim_op \<Rightarrow> 'u sim_env \<Rightarrow> 'u sim_env" where
  "sim_step cb (SPlace side qty price cid) e = snd (sim_place_order cb side qty price True cid e)"
| "sim_step cb (SMarket side qty cid) e = snd (sim_place_market_order cb side qty cid e)"
| "sim_step cb (SCancel cid) e = snd (sim_cancel_order cid 0 e)"
| "sim_step cb (SAmend side qty price cid) e = snd (sim_amend_order cb 0 price qty side True cid e)"
| "sim_step cb (SUpdate bid ask bid_qty ask_qty ts) e = update_market cb bid ask bid_qty ask_qty ts e"

definition sim_run :: "'u on_fill \<Rightarrow> sim_op list \<Rightarrow> 'u sim_env \<Rightarrow> 'u sim_env" where
  "sim_run cb ops e = fold (sim_step cb) ops e"

text \<open>Quantities in lots, prices positive.\<close>

fun sim_op_ok :: "double \<Rightarrow> sim_op \<Rightarrow> bool" where
  "sim_op_ok lot (SPlace side qty price cid) \<longleftrightarrow> on_grid lot qty \<and> 0 \<le> qty \<and> 0 < price"
| "sim_op_ok lot (SMarket side qty cid) \<longleftrightarrow> on_grid lot qty"
| "sim_op_ok lot (SCancel cid) \<longleftrightarrow> True"
| "sim_op_ok lot (SAmend side qty price cid) \<longleftrightarrow> on_grid lot qty \<and> 0 \<le> qty \<and> 0 < price"
| "sim_op_ok lot (SUpdate bid ask bid_qty ask_qty ts) \<longleftrightarrow> on_grid lot bid_qty \<and> on_grid lot ask_qty"


section \<open>The invariant\<close>

definition order_ok :: "double \<Rightarrow> pending_order \<Rightarrow> bool" where
  "order_ok lot p \<longleftrightarrow> (po_side p = 1 \<or> po_side p = - 1) \<and> 0 < po_price p \<and> on_grid lot (po_qty p) \<and>
     on_grid lot (po_executed p) \<and> 0 \<le> po_executed p \<and> po_executed p \<le> po_qty p"

definition books_agree :: "double \<Rightarrow> 'u sim_rest \<Rightarrow> position_tracker \<Rightarrow> bool" where
  "books_agree lot s pt \<longleftrightarrow> on_grid lot (sr_inv s) \<and> pt_inventory pt = sr_inv s \<and>
     pt_avg_entry pt = (if sr_inv s = 0 then 0 else sr_entry s)"

definition sim_ok :: "double \<Rightarrow> 'u sim_env \<Rightarrow> bool" where
  "sim_ok lot e \<longleftrightarrow>
     (\<forall>cid p. map_of (sr_pending (en_rest e)) cid = Some p \<longrightarrow> order_ok lot p) \<and>
     on_grid lot (sr_last_bid_qty (en_rest e)) \<and> on_grid lot (sr_last_ask_qty (en_rest e)) \<and>
     books_agree lot (en_rest e) (en_pt e)"

lemma on_grid_minus: "on_grid lot a \<Longrightarrow> on_grid lot b \<Longrightarrow> on_grid lot (a - b)"
  unfolding on_grid_def by (metis left_diff_distrib of_int_diff)

lemma on_grid_min_max:
  "on_grid lot a \<Longrightarrow> on_grid lot b \<Longrightarrow> on_grid lot (min a b)" "on_grid lot a \<Longrightarrow> on_grid lot (max a 0)"
  by (simp_all add: min_def max_def)

lemma apply_inv_fill_frame [simp]:
  "sr_inv (apply_inv_fill q px s) = sr_inv s + q" "sr_pending (apply_inv_fill q px s) = sr_pending s"
  "sr_last_bid_qty (apply_inv_fill q px s) = sr_last_bid_qty s"
  "sr_last_ask_qty (apply_inv_fill q px s) = sr_last_ask_qty s"
  "sr_last_ts_ns (apply_inv_fill q px s) = sr_last_ts_ns s" "sr_symbol (apply_inv_fill q px s) = sr_symbol s"
  by (simp_all add: apply_inv_fill_def Let_def)

text \<open>The two bookkeepers on one fill.\<close>

lemma books_agree_fill:
  assumes agree: "books_agree lot s pt" and lot: "kInvEpsilon \<le> lot" and q: "on_grid lot (fi_qty f)" and v: "fill_valid f"
  shows "books_agree lot (apply_inv_fill (fill_signed_qty f) (fi_price f) s) (snd (apply_fill f pt))"
proof -
  let ?q = "fill_signed_qty f"
  have inv_grid: "on_grid lot (sr_inv s)" and inv: "pt_inventory pt = sr_inv s"
    and ae: "pt_avg_entry pt = (if sr_inv s = 0 then 0 else sr_entry s)"
    using agree by (simp_all add: books_agree_def)
  have qg: "on_grid lot ?q"
    using q by (rule on_grid_signed)
  have q0: "?q \<noteq> 0"
    using v by (auto simp: fill_signed_qty_def fill_valid_def)
  have eps: "0 < kInvEpsilon" "kInvEpsilon = 1 / 10 ^ 12"
    by (simp_all add: kInvEpsilon_def)
  have small: "\<bar>sr_inv s\<bar> < kInvEpsilon \<longleftrightarrow> sr_inv s = 0" "kInvEpsilon \<le> \<bar>sr_inv s + ?q\<bar> \<longleftrightarrow> sr_inv s + ?q \<noteq> 0"
    using on_grid_tiny [OF inv_grid lot] on_grid_tiny [OF on_grid_add [OF inv_grid qg] lot] eps(1) by force+
  obtain e' dr where fe: "fill_effect (pt_inventory pt) (pt_avg_entry pt) ?q (fi_price f) = (e', dr)"
    by fastforce
  have e': "e' = (if sr_inv s + ?q = 0 then 0 else sr_entry (apply_inv_fill ?q (fi_price f) s))"
  proof (cases "sr_inv s = 0")
    case True
    then show ?thesis
      using fe q0 eps by (simp add: inv ae fill_effect_def apply_inv_fill_def)
  next
    case ne: False
    show ?thesis
    proof (cases "(0 < sr_inv s \<and> 0 < ?q) \<or> (sr_inv s < 0 \<and> ?q < 0)")
      case True
      then have "0 < \<bar>sr_inv s\<bar> + \<bar>?q\<bar>" "sr_inv s + ?q \<noteq> 0"
        by auto
      then show ?thesis
        using fe True ne small(1) eps(2) by (simp add: inv ae fill_effect_def apply_inv_fill_def Let_def)
    next
      case False
      have flip: "\<bar>sr_inv s\<bar> < \<bar>?q\<bar> \<longleftrightarrow> sr_inv s + ?q \<noteq> 0 \<and>
          ((0 < sr_inv s \<and> sr_inv s + ?q < 0) \<or> (sr_inv s < 0 \<and> 0 < sr_inv s + ?q))"
        using False ne q0 by auto
      have n1: "\<not> \<bar>sr_inv s\<bar> < kInvEpsilon"
        using ne small(1) by simp
      have fe': "e' = (if \<bar>sr_inv s\<bar> < \<bar>?q\<bar> then fi_price f else if sr_inv s + ?q = 0 then 0 else sr_entry s)"
        using fe unfolding inv ae fill_effect_def Let_def if_not_P [OF n1] if_not_P [OF False] if_not_P [OF ne] by simp
      have "sr_entry (apply_inv_fill ?q (fi_price f) s) = (if sr_inv s + ?q \<noteq> 0 \<and>
          ((0 < sr_inv s \<and> sr_inv s + ?q < 0) \<or> (sr_inv s < 0 \<and> 0 < sr_inv s + ?q)) then fi_price f else sr_entry s)"
        unfolding apply_inv_fill_def Let_def eps(2) [symmetric] if_not_P [OF n1] if_not_P [OF False] small(2) by simp
      then show ?thesis
        unfolding fe' flip by simp
    qed
  qed
  show ?thesis
    using apply_fill_fields [OF v fe] e' on_grid_add [OF inv_grid qg] inv by (simp add: books_agree_def)
qed

lemma sim_fill_simps [simp]:
  "fi_side (sim_fill cid sb side px q ts) = side" "fi_price (sim_fill cid sb side px q ts) = px"
  "fi_qty (sim_fill cid sb side px q ts) = q"
  by (simp_all add: sim_fill_def)

lemma track_fill_simps [simp]:
  "en_rest (track_fill f e) = en_rest e" "en_pt (track_fill f e) = snd (apply_fill f (en_pt e))"
  by (simp_all add: track_fill_def)

lemma upd_sim_simps [simp]: "en_pt (upd_sim f e) = en_pt e"
  by (simp add: upd_sim_def)

lemma crossed_qty_ok:
  assumes "order_ok lot p" and "on_grid lot (sr_last_bid_qty s)" and "on_grid lot (sr_last_ask_qty s)"
  shows "on_grid lot (crossed_qty s p)" and "crossed_qty s p \<le> po_qty p - po_executed p"
  using assms on_grid_minus [of lot "po_qty p" "po_executed p"]
  by (auto simp: crossed_qty_def Let_def order_ok_def intro!: on_grid_min_max)

lemma scan_one_ok:
  assumes "sim_ok lot e" and "kInvEpsilon \<le> lot"
  shows "sim_ok lot (snd (scan_one (Some track_fill) cid (finished, e)))"
proof (cases "map_of (sr_pending (en_rest e)) cid")
  case None
  then show ?thesis
    using assms by (simp add: scan_one_def)
next
  case (Some p)
  define q where "q = crossed_qty (en_rest e) p"
  have p: "order_ok lot p"
    using assms(1) Some by (simp add: sim_ok_def)
  have grid: "on_grid lot (sr_last_bid_qty (en_rest e))" "on_grid lot (sr_last_ask_qty (en_rest e))"
    and agree: "books_agree lot (en_rest e) (en_pt e)"
    using assms(1) by (simp_all add: sim_ok_def)
  note q1 = crossed_qty_ok [OF p grid, folded q_def]
  show ?thesis
  proof (cases "po_qty p - po_executed p \<le> 0 \<or> q \<le> 0")
    case True
    then show ?thesis
      using assms Some by (auto simp: scan_one_def Let_def simp flip: q_def)
  next
    case False
    let ?p = "p\<lparr>po_executed := po_executed p + q\<rparr>"
    let ?f = "sim_fill cid (po_symbol p) (po_side p) (po_price p) q (sr_last_ts_ns (en_rest e))"
    let ?e1 = "upd_sim (\<lambda>s. s\<lparr>sr_pending := AList.update cid ?p (sr_pending s), sr_fill_count := sr_fill_count s + 1\<rparr>) e"
    let ?e2 = "upd_sim (apply_inv_fill (if 0 < po_side p then q else - q) (po_price p)) ?e1"
    have p': "order_ok lot ?p"
      using p q1 False by (simp add: order_ok_def on_grid_add)
    have signed: "(if 0 < po_side p then q else - q) = fill_signed_qty ?f"
      using p by (auto simp: fill_signed_qty_def order_ok_def)
    have v: "fill_valid ?f"
      using p False by (auto simp: fill_valid_def order_ok_def)
    have "books_agree lot (en_rest ?e1) (en_pt ?e1)"
      using agree by (simp add: books_agree_def)
    then have "books_agree lot (en_rest ?e2) (snd (apply_fill ?f (en_pt e)))"
      using books_agree_fill [OF _ assms(2) _ v, of "en_rest ?e1" "en_pt e"] q1(1) by (simp add: signed)
    then have "sim_ok lot (track_fill ?f ?e2)"
      using assms(1) p' grid by (auto simp: sim_ok_def update_conv' split: if_splits)
    moreover have "snd (scan_one (Some track_fill) cid (finished, e)) = track_fill ?f ?e2"
      using Some False by (simp add: scan_one_def Let_def call_on_fill_def update_conv' signed flip: q_def)
    ultimately show ?thesis
      by simp
  qed
qed

lemma fold_scan_ok:
  assumes "sim_ok lot (snd s)" and "kInvEpsilon \<le> lot"
  shows "sim_ok lot (snd (fold (scan_one (Some track_fill)) cids s))"
  using assms(1)
proof (induction cids arbitrary: s)
  case (Cons cid cids)
  then show ?case
    using scan_one_ok [OF Cons.prems assms(2), of cid "fst s"] by simp
qed simp

lemma map_of_fold_delete: "map_of (fold AList.delete ks al) k = Some v \<Longrightarrow> map_of al k = Some v"
proof (induction ks arbitrary: al)
  case (Cons k' ks)
  then show ?case
    using Cons.IH [of "AList.delete k' al"] by (auto simp: delete_conv' split: if_splits)
qed simp

lemma scan_fills_ok:
  assumes "sim_ok lot e" and "kInvEpsilon \<le> lot"
  shows "sim_ok lot (scan_fills (Some track_fill) e)"
proof -
  obtain finished e1 where f: "fold (scan_one (Some track_fill)) (map fst (sr_pending (en_rest e))) ([], e) = (finished, e1)"
    by fastforce
  have "sim_ok lot e1"
    using fold_scan_ok [of lot "([], e)"] assms f by (metis snd_conv)
  then show ?thesis
    using assms(1) by (auto simp: scan_fills_def f Let_def sim_ok_def books_agree_def dest: map_of_fold_delete)
qed

lemma rest_order_ok:
  assumes "sim_ok lot e" and "kInvEpsilon \<le> lot" and "on_grid lot qty" and "0 \<le> qty" and "0 < price"
  shows "sim_ok lot (snd (rest_order (Some track_fill) side qty price cid e))"
  unfolding rest_order_def next_oid_def Let_def prod.case snd_conv
  by (rule scan_fills_ok [OF _ assms(2)])
    (use assms in \<open>auto simp: sim_ok_def books_agree_def update_conv' order_ok_def sim_side_def split: if_splits\<close>)

lemma market_ok:
  assumes "sim_ok lot e" and "kInvEpsilon \<le> lot" and "on_grid lot qty"
  shows "sim_ok lot (snd (sim_place_market_order (Some track_fill) side qty cid e))"
proof -
  let ?e1 = "e\<lparr>en_rest := (en_rest e)\<lparr>sr_oid_seq := sr_oid_seq (en_rest e) + 1\<rparr>\<rparr>"
  have e1: "sim_ok lot ?e1"
    using assms(1) by (simp add: sim_ok_def books_agree_def)
  define px where "px = (if side = ''BUY'' then sr_last_ask (en_rest e) else sr_last_bid (en_rest e))"
  show ?thesis
  proof (cases "px \<le> 0 \<or> qty \<le> 0")
    case True
    then show ?thesis
      using e1 by (auto simp: sim_place_market_order_def next_oid_def Let_def px_def)
  next
    case False
    let ?f = "sim_fill cid (sr_symbol (en_rest e)) (sim_side side) px qty (sr_last_ts_ns (en_rest e))"
    have v: "fill_valid ?f" and signed: "(if side = ''BUY'' then qty else - qty) = fill_signed_qty ?f"
      using False by (auto simp: fill_valid_def fill_signed_qty_def sim_side_def)
    have "books_agree lot (apply_inv_fill (fill_signed_qty ?f) px (en_rest ?e1)) (snd (apply_fill ?f (en_pt e)))"
      using books_agree_fill [OF _ assms(2) _ v, of "en_rest ?e1" "en_pt e"] e1 assms(3) by (simp add: sim_ok_def)
    then have "sim_ok lot (upd_sim (\<lambda>s. s\<lparr>sr_fill_count := sr_fill_count s + 1\<rparr>)
        (upd_sim (apply_inv_fill (fill_signed_qty ?f) px) (track_fill ?f ?e1)))"
      using e1 by (simp add: sim_ok_def books_agree_def)
    moreover have "snd (sim_place_market_order (Some track_fill) side qty cid e) =
        upd_sim (\<lambda>s. s\<lparr>sr_fill_count := sr_fill_count s + 1\<rparr>)
          (upd_sim (apply_inv_fill (if side = ''BUY'' then qty else - qty) px) (track_fill ?f ?e1))"
      using False by (cases "side = ''BUY''")
        (simp_all add: sim_place_market_order_def next_oid_def Let_def call_on_fill_def px_def)
    ultimately show ?thesis
      by (simp only: signed)
  qed
qed

lemma sim_step_ok:
  assumes "sim_ok lot e" and "kInvEpsilon \<le> lot" and "sim_op_ok lot op"
  shows "sim_ok lot (sim_step (Some track_fill) op e)"
proof (cases op)
  case (SPlace side qty price cid)
  then show ?thesis
    using rest_order_ok [OF assms(1,2)] assms(3) by (simp add: sim_place_order_def case_prod_beta)
next
  case (SMarket side qty cid)
  then show ?thesis
    using market_ok [OF assms(1,2)] assms(3) by simp
next
  case (SCancel cid)
  then show ?thesis
    using assms(1) by (auto simp: sim_cancel_order_def Let_def sim_ok_def books_agree_def delete_conv' split: option.split if_splits)
next
  case (SAmend side qty price cid)
  then show ?thesis
    using rest_order_ok [OF assms(1,2)] assms(3) by (simp add: sim_amend_order_def case_prod_beta)
next
  case (SUpdate bid ask bid_qty ask_qty ts)
  then have "sim_ok lot (upd_sim (\<lambda>s. s\<lparr>sr_last_bid := bid, sr_last_ask := ask, sr_last_bid_qty := bid_qty,
      sr_last_ask_qty := ask_qty, sr_last_ts_ns := ts\<rparr>) e)"
    using assms(1,3) by (simp add: sim_ok_def books_agree_def)
  then show ?thesis
    using scan_fills_ok [OF _ assms(2)] by (simp add: SUpdate update_market_def)
qed

lemma sim_run_ok:
  assumes "sim_ok lot e" and "kInvEpsilon \<le> lot" and "\<forall>op \<in> set ops. sim_op_ok lot op"
  shows "sim_ok lot (sim_run (Some track_fill) ops e)"
  using assms unfolding sim_run_def
proof (induction ops arbitrary: e)
  case (Cons op ops)
  then show ?case
    using sim_step_ok by simp
qed simp


section \<open>Properties\<close>

lemma sim_step_symbol: "sr_symbol (en_rest (sim_step (Some track_fill) op e)) = sr_symbol (en_rest e)"
proof -
  have one: "sr_symbol (en_rest (snd (scan_one (Some track_fill) cid s))) = sr_symbol (en_rest (snd s))" for cid s
    by (cases s) (simp add: scan_one_def Let_def call_on_fill_def split: option.split)
  have many: "sr_symbol (en_rest (snd (fold (scan_one (Some track_fill)) cids s))) = sr_symbol (en_rest (snd s))" for cids s
    by (induction cids arbitrary: s) (simp_all add: one)
  have scan: "sr_symbol (en_rest (scan_fills (Some track_fill) e)) = sr_symbol (en_rest e)" for e
    using many [of "map fst (sr_pending (en_rest e))" "([], e)"] by (simp add: scan_fills_def Let_def case_prod_beta)
  show ?thesis
    by (cases op) (simp_all add: sim_place_order_def sim_amend_order_def rest_order_def next_oid_def scan
        sim_place_market_order_def sim_cancel_order_def update_market_def call_on_fill_def case_prod_beta Let_def
        split: option.split)
qed

lemma sim_run_symbol: "sr_symbol (en_rest (sim_run (Some track_fill) ops e)) = sr_symbol (en_rest e)"
  unfolding sim_run_def by (induction ops arbitrary: e) (simp_all add: sim_step_symbol)

text \<open>C31: with the backtest's position callback the simulated exchange and the position tracker stay in
  step over every sequence of orders, cancels, amendments and market updates in lots: the position
  query reports exactly the tracker's inventory and average entry price, although the two classes
  compute the cost basis separately, so reconciliation never halts a backtest.\<close>

theorem sim_position_is_tracker:
  assumes "kInvEpsilon \<le> lot" and "\<forall>op \<in> set ops. sim_op_ok lot op"
    and "en_pt e = tracker_init" and "en_rest e = sim_init symbol u"
    and "sim_run (Some track_fill) ops e = e'"
    and "0 \<le> ec_position_divergence_tolerance (c_execution cfg)" and "md_symbol (c_market_data cfg) = symbol"
  shows "ps_positions (fst (sim_query_positions e')) =
      [\<lparr>pe_symbol = symbol, pe_position_amt = pt_inventory (en_pt e'), pe_entry_price = pt_avg_entry (en_pt e'),
        pe_unrealized_profit = 0\<rparr>] \<and>
    reconcile_positions cfg (fst (sim_query_positions e')) e' = e'"
proof -
  have "sim_ok lot e"
    using assms(3,4) by (simp add: sim_ok_def sim_init_def books_agree_def tracker_init_def)
  then have ok: "sim_ok lot e'"
    using sim_run_ok [OF _ assms(1,2)] assms(5) by blast
  have sym: "sr_symbol (en_rest e') = symbol"
    using sim_run_symbol [of ops e] assms(4,5) by (simp add: sim_init_def)
  have q: "ps_positions (fst (sim_query_positions e')) =
      [\<lparr>pe_symbol = symbol, pe_position_amt = pt_inventory (en_pt e'), pe_entry_price = pt_avg_entry (en_pt e'),
        pe_unrealized_profit = 0\<rparr>]"
    using ok sym by (simp add: sim_query_positions_def Let_def sim_ok_def books_agree_def)
  then have "position_of (md_symbol (c_market_data cfg)) (fst (sim_query_positions e')) = pt_inventory (en_pt e')"
    by (simp add: position_of_def assms(7))
  then have "reconcile_positions cfg (fst (sim_query_positions e')) e' = e'"
    using assms(6) by (simp add: reconcile_positions_def)
  with q show ?thesis
    by blast
qed

definition demo_sim_ops :: "sim_op list" where
  "demo_sim_ops = [SUpdate 99 101 5 5 1, SPlace ''BUY'' 2 102 ''a'', SMarket ''SELL'' 3 ''b'', SCancel ''c'']"

lemma on_grid_1: "on_grid 1 (of_int k)"
  by (auto simp: on_grid_def)

theorem sim_position_is_tracker_witness:
  "case sim_run (Some track_fill) demo_sim_ops (demo_env (sim_init (md_symbol (c_market_data demo_cfg)) ())) of
     e' \<Rightarrow> reconcile_positions demo_cfg (fst (sim_query_positions e')) e' = e'"
proof -
  let ?e = "demo_env (sim_init (md_symbol (c_market_data demo_cfg)) ())"
  have "\<forall>op \<in> set demo_sim_ops. sim_op_ok 1 op"
    using on_grid_1 [of 2] on_grid_1 [of 3] on_grid_1 [of 5] by (simp add: demo_sim_ops_def)
  moreover have "kInvEpsilon \<le> 1" "en_pt ?e = tracker_init" "en_rest ?e = sim_init (md_symbol (c_market_data demo_cfg)) ()"
    by (simp_all add: kInvEpsilon_def demo_env_def)
  ultimately show ?thesis
    using sim_position_is_tracker [OF _ _ _ _ refl _ refl] demo_tolerance by simp
qed



end
