(* ===== verification/PgReporter.thy ===== *)
theory PgReporter
  imports DbEvents Config "HOL-Library.Sublist"
begin

text \<open>
  \<open>PgReporter\<close> of \<open>src/src/db/pg_reporter.hpp\<close> and \<open>.cpp\<close>: the consumer thread that batches the queued
  events, keeps the current day's profit row, and writes batches in transactions with a reconnect, a
  second attempt and a row-by-row fallback.  The PostgreSQL server is a parameter: connecting, creating
  the schema and running one transaction are functions on its state.
\<close>

section \<open>Statements\<close>

datatype sql_param = PInt int | PReal double | PText string | PBool bool

datatype sql_stmt =
    InsertTrade "sql_param list"
  | InsertPosition "sql_param list"
  | InsertEvent "sql_param list"
  | UpsertDaily "sql_param list"
  | PoisonInsert

definition trunc_mod :: "int \<Rightarrow> int \<Rightarrow> int" where
  "trunc_mod a b = a - b * trunc_div a b"

definition date_int_to_iso :: "int \<Rightarrow> string" where
  "date_int_to_iso d = c_buf 16
     (fmt_0d 4 (trunc_div d 10000) @ ''-'' @ fmt_0d 2 (trunc_mod (trunc_div d 100) 100) @ ''-'' @
      fmt_0d 2 (trunc_mod d 100))"

text \<open>The statement an event becomes, the same in a batch and on its own; \<open>static_cast<int64_t>\<close> is \<open>sint\<close>.\<close>

fun sql_of :: "db_event \<Rightarrow> sql_stmt" where
  "sql_of (DbTrade t) = InsertTrade [PInt (sint (dt_ts_ns t)), PText (dt_order_id t), PInt (dt_side t),
     PReal (dt_price t), PReal (dt_qty t), PReal (dt_fee t), PText (dt_fee_asset t), PBool (dt_is_maker t)]"
| "sql_of (DbPosition s) = InsertPosition [PInt (sint (dp_ts_ns s)), PReal (dp_inventory s),
     PReal (dp_avg_entry s), PReal (dp_realized s), PReal (dp_unrealized s), PReal (dp_fees s), PReal (dp_mid s),
     PReal (dp_best_bid s), PReal (dp_best_ask s), PReal (dp_spread_bps s), PReal (dp_bid_qty s),
     PReal (dp_ask_qty s), PReal (dp_volatility s), PReal (dp_gamma s), PReal (dp_k s), PReal (dp_T s),
     PReal (dp_lat_p50_us s), PReal (dp_lat_p95_us s), PReal (dp_lat_p99_us s), PInt (dp_open_orders s)]"
| "sql_of (DbSystem e) = InsertEvent [PInt (sint (de_ts_ns e)), PText (de_severity e), PText (de_source e),
     PText (de_code e), PText (de_msg e)]"
| "sql_of (DbDaily d) = UpsertDaily [PText (date_int_to_iso (dd_date d)), PReal (dd_realized d),
     PReal (dd_unrealized d), PReal (dd_fees d), PReal (dd_total d)]"


section \<open>State\<close>

text \<open>\<open>pg_pool\<close> says of each slot whether it holds a connection.\<close>

record pg_reporter =
  pg_dry :: bool
  pg_flushed :: u64
  pg_pending :: u64
  pg_dropped :: u64
  pg_failures :: int
  pg_pool :: "bool list"
  pg_next :: nat
  pg_last_date :: int
  pg_day :: "db_daily_pnl option"
  pg_poison :: bool
  pg_dry_flushed :: "db_event list"

definition pg_init :: "string \<Rightarrow> pg_reporter" where
  "pg_init dsn = \<lparr>pg_dry = (dsn = []), pg_flushed = 0, pg_pending = 0, pg_dropped = 0, pg_failures = 0,
     pg_pool = [], pg_next = 0, pg_last_date = 0, pg_day = None, pg_poison = False, pg_dry_flushed = []\<rparr>"

record 'w pg_server =
  sv_connect :: "'w \<Rightarrow> bool \<times> 'w"
  sv_schema :: "'w \<Rightarrow> bool \<times> 'w"
  sv_txn :: "sql_stmt list \<Rightarrow> 'w \<Rightarrow> bool \<times> 'w"

type_synonym 'w pg_state = "pg_reporter \<times> 'w"


section \<open>Connections\<close>

definition ensure_conn :: "'w pg_server \<Rightarrow> nat \<Rightarrow> 'w pg_state \<Rightarrow> bool \<times> 'w pg_state" where
  "ensure_conn sv idx st =
     (let (r, w) = st in
      if pg_dry r then (False, st)
      else if length (pg_pool r) \<le> idx then (False, st)
      else if pg_pool r ! idx then (True, st)
      else
        let (ok, w) = sv_connect sv w
        in if ok then (True, r\<lparr>pg_pool := (pg_pool r)[idx := True]\<rparr>, w) else (False, r, w))"

definition pool_nonempty :: "pg_reporter \<Rightarrow> pg_reporter" where
  "pool_nonempty r = (if pg_pool r = [] then r\<lparr>pg_pool := [False]\<rparr> else r)"

definition create_schema_internal :: "'w pg_server \<Rightarrow> 'w pg_state \<Rightarrow> bool \<times> 'w pg_state" where
  "create_schema_internal sv st =
     (let (r, w) = st in
      if pg_dry r then (True, st)
      else
        let (ok, r, w) = ensure_conn sv 0 (pool_nonempty r, w)
        in if \<not> ok then (False, r, w) else let (ok, w) = sv_schema sv w in (ok, r, w))"

fun connect_all :: "'w pg_server \<Rightarrow> nat list \<Rightarrow> 'w pg_state \<Rightarrow> 'w pg_state" where
  "connect_all sv [] st = st"
| "connect_all sv (i # is) st = connect_all sv is (snd (ensure_conn sv i st))"

text \<open>\<open>start\<close> without the thread.\<close>

definition pg_start :: "'w pg_server \<Rightarrow> reporter_cfg \<Rightarrow> 'w pg_state \<Rightarrow> 'w pg_state" where
  "pg_start sv rc st =
     (let (r, w) = st in
      if pg_dry r then st
      else
        let n = nat (max 1 (rp_pg_pool_min rc));
            r = r\<lparr>pg_pool := take n (pg_pool r) @ replicate (n - length (pg_pool r)) False\<rparr>
        in snd (create_schema_internal sv (connect_all sv [0..<n] (r, w))))"


section \<open>Flushing\<close>

definition fail_flush :: "'w pg_state \<Rightarrow> 'w pg_state" where
  "fail_flush st = (let (r, w) = st in (r\<lparr>pg_failures := pg_failures r + 1\<rparr>, w))"

definition flushed_all :: "nat \<Rightarrow> 'w pg_state \<Rightarrow> 'w pg_state" where
  "flushed_all n st = (let (r, w) = st in (r\<lparr>pg_flushed := pg_flushed r + of_nat n, pg_failures := 0\<rparr>, w))"

definition reset_conn :: "nat \<Rightarrow> 'w pg_state \<Rightarrow> 'w pg_state" where
  "reset_conn idx st = (let (r, w) = st in (r\<lparr>pg_pool := (pg_pool r)[idx := False]\<rparr>, w))"

definition try_whole_batch :: "'w pg_server \<Rightarrow> db_event list \<Rightarrow> 'w pg_state \<Rightarrow> bool \<times> 'w pg_state" where
  "try_whole_batch sv batch st =
     (let (r, w) = st;
          (ok, w) = sv_txn sv ((if pg_poison r then [PoisonInsert] else []) @ map sql_of batch) w
      in (ok, r\<lparr>pg_poison := False\<rparr>, w))"

definition exec_one_event :: "'w pg_server \<Rightarrow> db_event \<Rightarrow> 'w pg_state \<Rightarrow> bool \<times> 'w pg_state" where
  "exec_one_event sv ev st = (let (r, w) = st; (ok, w) = sv_txn sv [sql_of ev] w in (ok, r, w))"

text \<open>The row-by-row fallback: the counts of rows written and skipped.\<close>

fun flush_rows :: "'w pg_server \<Rightarrow> nat \<Rightarrow> db_event list \<Rightarrow> nat \<times> nat \<Rightarrow> 'w pg_state \<Rightarrow> (nat \<times> nat) \<times> 'w pg_state" where
  "flush_rows sv idx [] counts st = (counts, st)"
| "flush_rows sv idx (ev # evs) (ok_count, skipped) st =
     (let (ok, st) = exec_one_event sv ev st
      in if ok then flush_rows sv idx evs (ok_count + 1, skipped) st
         else
           let (conn, st) = ensure_conn sv idx (reset_conn idx st)
           in if conn then flush_rows sv idx evs (ok_count, skipped + 1) st
              else ((ok_count, skipped + 1), st))"

definition flush_fallback :: "'w pg_server \<Rightarrow> nat \<Rightarrow> db_event list \<Rightarrow> 'w pg_state \<Rightarrow> 'w pg_state" where
  "flush_fallback sv idx batch st =
     (let ((ok_count, skipped), r, w) = flush_rows sv idx batch (0, 0) st
      in (r\<lparr>pg_flushed := pg_flushed r + of_nat ok_count, pg_dropped := pg_dropped r + of_nat skipped,
            pg_failures := 0\<rparr>, w))"

text \<open>The three attempts on connection \<open>idx\<close>; the pair is the result and the batch afterwards.\<close>

definition flush_attempts ::
  "'w pg_server \<Rightarrow> nat \<Rightarrow> db_event list \<Rightarrow> 'w pg_state \<Rightarrow> (bool \<times> db_event list) \<times> 'w pg_state" where
  "flush_attempts sv idx batch st =
     (let (ok, st) = try_whole_batch sv batch st in
      if ok then ((True, []), flushed_all (length batch) st)
      else
        let (conn, st) = ensure_conn sv idx (reset_conn idx st) in
        if \<not> conn then ((False, batch), fail_flush st)
        else
          let (ok, st) = try_whole_batch sv batch st in
          if ok then ((True, []), flushed_all (length batch) st)
          else
            let (conn, st) = ensure_conn sv idx (reset_conn idx st) in
            if \<not> conn then ((False, batch), fail_flush st)
            else ((True, []), flush_fallback sv idx batch st))"

definition flush_batch ::
  "'w pg_server \<Rightarrow> db_event list \<Rightarrow> 'w pg_state \<Rightarrow> (bool \<times> db_event list) \<times> 'w pg_state" where
  "flush_batch sv batch st =
     (if batch = [] then ((True, batch), st)
      else
        let (r, w) = st in
        if pg_dry r then
          ((True, []), r\<lparr>pg_dry_flushed := pg_dry_flushed r @ batch,
             pg_flushed := pg_flushed r + of_nat (length batch), pg_failures := 0\<rparr>, w)
        else
          let r = pool_nonempty r;
              idx = pg_next r mod length (pg_pool r);
              r = r\<lparr>pg_next := (pg_next r + 1) mod length (pg_pool r)\<rparr>;
              (conn, r, w) = ensure_conn sv idx (r, w)
          in if \<not> conn then ((False, batch), fail_flush (r, w))
             else if \<not> pg_pool r ! 0 \<and> idx \<noteq> 0 then
               let (ok, st) = create_schema_internal sv (r, w)
               in if \<not> ok then ((False, batch), fail_flush st) else flush_attempts sv idx batch st
             else flush_attempts sv idx batch (r, w))"


section \<open>The consumer\<close>

definition update_daily_current :: "db_daily_pnl \<Rightarrow> pg_reporter \<Rightarrow> pg_reporter" where
  "update_daily_current d r =
     (case pg_day r of
        None \<Rightarrow> r\<lparr>pg_day := Some d, pg_last_date := (if pg_last_date r = 0 then dd_date d else pg_last_date r)\<rparr>
      | Some _ \<Rightarrow> r\<lparr>pg_day := Some d\<rparr>)"

text \<open>What one popped event does to the batch: a daily row is held back until its date changes.\<close>

definition take_event :: "db_event \<Rightarrow> db_event list \<times> pg_reporter \<Rightarrow> db_event list \<times> pg_reporter" where
  "take_event e s =
     (let (batch, r) = s in
      case e of
        DbDaily d \<Rightarrow>
          (case pg_day r of
             Some cur \<Rightarrow>
               if dd_date cur \<noteq> 0 \<and> dd_date d \<noteq> dd_date cur
               then (batch @ [DbDaily cur], update_daily_current d (r\<lparr>pg_last_date := dd_date d\<rparr>))
               else (batch, update_daily_current d r)
           | None \<Rightarrow> (batch, update_daily_current d r))
      | _ \<Rightarrow> (batch @ [e], r))"

text \<open>\<open>while (batch.size() < cap && ring_.pop(e))\<close>; the flag is \<open>got_any\<close>.\<close>

partial_function (option) collect ::
  "nat \<Rightarrow> bool \<times> db_event list \<times> pg_reporter \<times> db_event ring
     \<Rightarrow> (bool \<times> db_event list \<times> pg_reporter \<times> db_event ring) option" where
  "collect cap s =
     (case s of (got, batch, r, ring) \<Rightarrow>
       if length batch < cap then
         case ring_pop ring of
           None \<Rightarrow> Some (got, batch, r, ring)
         | Some (e, ring) \<Rightarrow>
             (case take_event e (batch, r) of (batch, r) \<Rightarrow> collect cap (True, batch, r, ring))
       else Some (got, batch, r, ring))"

record 'w pg_thread =
  th_batch :: "db_event list"
  th_last_flush :: nanos
  th_rep :: pg_reporter
  th_ring :: "db_event ring"
  th_clock :: clock
  th_world :: 'w

text \<open>\<open>static_cast<size_t>(cfg_.reporter.batch_size)\<close>, and twice that.\<close>

definition batch_size_of :: "reporter_cfg \<Rightarrow> nat" where
  "batch_size_of rc = unat (word_of_int (rp_batch_size rc) :: u64)"

definition batch_cap :: "reporter_cfg \<Rightarrow> nat" where
  "batch_cap rc = unat (word_of_int (rp_batch_size rc) * 2 :: u64)"

text \<open>The flush decision of a round.\<close>

definition flush_round :: "'w pg_server \<Rightarrow> reporter_cfg \<Rightarrow> 'w pg_thread \<Rightarrow> 'w pg_thread" where
  "flush_round sv rc t =
     (let now = steady_now (th_clock t);
          t = t\<lparr>th_clock := clock_tick (th_clock t)\<rparr>;
          n = length (th_batch t);
          size_ready = batch_size_of rc \<le> n;
          time_ready = th_batch t \<noteq> [] \<and> ms_ns (rp_flush_interval_ms rc) \<le> now - th_last_flush t
      in if size_ready \<or> time_ready then
           let ((ok, batch), r, w) = flush_batch sv (th_batch t) (th_rep t, th_world t);
               t = t\<lparr>th_batch := batch, th_rep := r, th_world := w\<rparr>;
               t = (if ok then t\<lparr>th_last_flush := now\<rparr>
                    else if 2 \<le> pg_failures r then
                      t\<lparr>th_rep := r\<lparr>pg_dropped := pg_dropped r + of_nat (length batch), pg_failures := 0\<rparr>,
                        th_batch := [], th_last_flush := now\<rparr>
                    else t)
           in t\<lparr>th_rep := (th_rep t)\<lparr>pg_pending := of_nat (length (th_batch t))\<rparr>\<rparr>
         else t)"

definition consumer_round :: "'w pg_server \<Rightarrow> reporter_cfg \<Rightarrow> 'w pg_thread \<Rightarrow> 'w pg_thread option" where
  "consumer_round sv rc t =
     map_option (\<lambda>(got, batch, r, ring).
         flush_round sv rc (t\<lparr>th_batch := batch, th_ring := ring,
           th_rep := r\<lparr>pg_pending := of_nat (length batch)\<rparr>\<rparr>))
       (collect (batch_cap rc) (False, th_batch t, th_rep t, th_ring t))"

text \<open>After the loop: the current day's row, the rest of the ring, one last flush.\<close>

definition consumer_stop :: "'w pg_server \<Rightarrow> 'w pg_thread \<Rightarrow> 'w pg_thread option" where
  "consumer_stop sv t =
     (let batch = th_batch t @ (case pg_day (th_rep t) of None \<Rightarrow> [] | Some d \<Rightarrow> [DbDaily d]);
          r = (th_rep t)\<lparr>pg_day := None\<rparr>
      in map_option (\<lambda>(evs, ring).
           let batch = batch @ evs;
               ((ok, batch), r, w) = flush_batch sv batch (r, th_world t)
           in t\<lparr>th_batch := batch, th_ring := ring, th_rep := r, th_world := w\<rparr>)
         (drain ring_pop (th_ring t)))"


section \<open>Collecting\<close>

lemma collect_spec:
  assumes "ring_ok ring"
  shows "\<exists>got' batch' r' ring' evs. collect cap (got, batch, r, ring) = Some (got', batch', r', ring') \<and>
    ring_items ring = evs @ ring_items ring' \<and> (batch', r') = fold take_event evs (batch, r) \<and> ring_ok ring' \<and>
    ring_capacity ring' = ring_capacity ring \<and> (ring_items ring' = [] \<or> cap \<le> length batch')"
  using assms
proof (induction "ring_items ring" arbitrary: got batch r ring)
  case Nil
  then have "ring_pop ring = None"
    by (intro ring_pop_Nil) simp_all
  then have "collect cap (got, batch, r, ring) = Some (got, batch, r, ring)"
    by (simp add: collect.simps)
  with Nil show ?case
    by (intro exI [of _ got] exI [of _ batch] exI [of _ r] exI [of _ ring] exI [of _ "[]"]) simp
next
  case (Cons e evs)
  show ?case
  proof (cases "length batch < cap")
    case False
    then have "collect cap (got, batch, r, ring) = Some (got, batch, r, ring)"
      by (simp add: collect.simps)
    with Cons.prems False show ?thesis
      by (intro exI [of _ got] exI [of _ batch] exI [of _ r] exI [of _ ring] exI [of _ "[]"]) simp
  next
    case True
    obtain ring1 where p: "ring_pop ring = Some (e, ring1)" "ring_ok ring1" "ring_items ring1 = evs"
      "ring_capacity ring1 = ring_capacity ring"
      using ring_pop_Cons [OF Cons.prems Cons.hyps(2) [symmetric]] by blast
    obtain batch1 r1 where t: "take_event e (batch, r) = (batch1, r1)"
      by fastforce
    obtain got' batch' r' ring' evs' where c: "collect cap (True, batch1, r1, ring1) = Some (got', batch', r', ring')"
      "ring_items ring1 = evs' @ ring_items ring'" "(batch', r') = fold take_event evs' (batch1, r1)" "ring_ok ring'"
      "ring_capacity ring' = ring_capacity ring1" "ring_items ring' = [] \<or> cap \<le> length batch'"
      using Cons.hyps(1) [OF p(3) [symmetric] p(2), of True batch1 r1] by blast
    have "collect cap (got, batch, r, ring) = Some (got', batch', r', ring')"
      using True p(1) t c(1) by (subst collect.simps) simp
    with c p t Cons.hyps(2) show ?thesis
      by (intro exI [of _ got'] exI [of _ batch'] exI [of _ r'] exI [of _ ring'] exI [of _ "e # evs'"]) simp
  qed
qed

lemma drain_ring:
  "ring_ok ring \<Longrightarrow> \<exists>ring'. drain ring_pop ring = Some (ring_items ring, ring') \<and> ring_items ring' = []"
  using rq.drain_all by blast


section \<open>The day's row\<close>

fun is_daily :: "db_event \<Rightarrow> bool" where
  "is_daily (DbDaily d) \<longleftrightarrow> True"
| "is_daily _ \<longleftrightarrow> False"

text \<open>What the upserts of a list of events leave in the table for a date: the last one wins.\<close>

definition daily_row :: "int \<Rightarrow> db_event list \<Rightarrow> db_daily_pnl option" where
  "daily_row x evs = fold (\<lambda>e row. case e of DbDaily d \<Rightarrow> if dd_date d = x then Some d else row | _ \<Rightarrow> row) evs None"

definition day_rows :: "pg_reporter \<Rightarrow> db_event list" where
  "day_rows r = (case pg_day r of None \<Rightarrow> [] | Some d \<Rightarrow> [DbDaily d])"

lemma daily_row_snoc [simp]:
  "daily_row x [] = None"
  "daily_row x (evs @ [DbDaily d]) = (if dd_date d = x then Some d else daily_row x evs)"
  "\<not> is_daily e \<Longrightarrow> daily_row x (evs @ [e]) = daily_row x evs"
  by (cases e; simp add: daily_row_def)+

lemma daily_row_cong:
  "daily_row x as = daily_row x bs \<Longrightarrow> daily_row x (as @ cs) = daily_row x (bs @ cs)"
  by (simp add: daily_row_def)

lemma take_event_simps:
  "\<not> is_daily e \<Longrightarrow> take_event e (batch, r) = (batch @ [e], r)"
  "take_event (DbDaily d) (batch, r) =
     (case pg_day r of
        Some cur \<Rightarrow>
          if dd_date cur \<noteq> 0 \<and> dd_date d \<noteq> dd_date cur
          then (batch @ [DbDaily cur], update_daily_current d (r\<lparr>pg_last_date := dd_date d\<rparr>))
          else (batch, update_daily_current d r)
      | None \<Rightarrow> (batch, update_daily_current d r))"
  by (cases e; simp add: take_event_def)+

lemma update_daily_fields [simp]:
  "pg_day (update_daily_current d r) = Some d" "pg_dry (update_daily_current d r) = pg_dry r"
  "pg_dry_flushed (update_daily_current d r) = pg_dry_flushed r" "pg_flushed (update_daily_current d r) = pg_flushed r"
  by (simp_all add: update_daily_current_def split: option.split)

lemma take_event_keeps:
  assumes "take_event e (batch, r) = (batch', r')"
  shows "pg_dry r' = pg_dry r" and "pg_dry_flushed r' = pg_dry_flushed r" and "pg_flushed r' = pg_flushed r"
    and "filter (\<lambda>e. \<not> is_daily e) batch' = filter (\<lambda>e. \<not> is_daily e) (batch @ [e])"
    and "x \<noteq> 0 \<Longrightarrow> daily_row x (pre @ batch' @ day_rows r') = daily_row x (pre @ batch @ day_rows r @ [e])"
proof -
  have "pg_dry r' = pg_dry r \<and> pg_dry_flushed r' = pg_dry_flushed r \<and> pg_flushed r' = pg_flushed r \<and>
    filter (\<lambda>e. \<not> is_daily e) batch' = filter (\<lambda>e. \<not> is_daily e) (batch @ [e]) \<and>
    (x \<noteq> 0 \<longrightarrow> daily_row x (pre @ batch' @ day_rows r') = daily_row x (pre @ batch @ day_rows r @ [e]))"
  proof (cases "is_daily e")
    case False
    have "daily_row x ((pre @ batch @ [e]) @ day_rows r) = daily_row x ((pre @ batch) @ day_rows r)"
      by (rule daily_row_cong) (use False in \<open>simp flip: append_assoc\<close>)
    moreover have "daily_row x ((pre @ batch @ day_rows r) @ [e]) = daily_row x (pre @ batch @ day_rows r)"
      using False by (rule daily_row_snoc(3))
    ultimately show ?thesis
      using assms False by (auto simp: take_event_simps)
  next
    case True
    then obtain d where e: "e = DbDaily d"
      by (cases e) simp_all
    have s: "daily_row y (pre @ batch @ [DbDaily c, DbDaily d]) =
        (if dd_date d = y then Some d else if dd_date c = y then Some c else daily_row y (pre @ batch))" for c y
      using daily_row_snoc(2) [of y "pre @ batch @ [DbDaily c]" d] daily_row_snoc(2) [of y "pre @ batch" c] by simp
    have s1: "daily_row y (pre @ b @ [DbDaily c]) = (if dd_date c = y then Some c else daily_row y (pre @ b))" for b c y
      using daily_row_snoc(2) [of y "pre @ b" c] by simp
    show ?thesis
    proof (cases "pg_day r")
      case None
      then show ?thesis
        using assms s1 [of x batch d] by (auto simp: e take_event_simps day_rows_def)
    next
      case (Some cur)
      then show ?thesis
        using assms s [of x cur] s1 [of x batch d]
        by (cases "dd_date cur \<noteq> 0 \<and> dd_date d \<noteq> dd_date cur") (auto simp: e take_event_simps day_rows_def)
    qed
  qed
  then show "pg_dry r' = pg_dry r" "pg_dry_flushed r' = pg_dry_flushed r" "pg_flushed r' = pg_flushed r"
    "filter (\<lambda>e. \<not> is_daily e) batch' = filter (\<lambda>e. \<not> is_daily e) (batch @ [e])"
    "x \<noteq> 0 \<Longrightarrow> daily_row x (pre @ batch' @ day_rows r') = daily_row x (pre @ batch @ day_rows r @ [e])"
    by simp_all
qed


lemma fold_take_event_keeps:
  assumes "fold take_event evs (batch, r) = (batch', r')"
  shows "pg_dry r' = pg_dry r" and "pg_dry_flushed r' = pg_dry_flushed r" and "pg_flushed r' = pg_flushed r"
    and "filter (\<lambda>e. \<not> is_daily e) batch' = filter (\<lambda>e. \<not> is_daily e) (batch @ evs)"
    and "x \<noteq> 0 \<Longrightarrow> daily_row x (pre @ batch' @ day_rows r') = daily_row x (pre @ batch @ day_rows r @ evs)"
proof -
  have "pg_dry r' = pg_dry r \<and> pg_dry_flushed r' = pg_dry_flushed r \<and> pg_flushed r' = pg_flushed r \<and>
    filter (\<lambda>e. \<not> is_daily e) batch' = filter (\<lambda>e. \<not> is_daily e) (batch @ evs) \<and>
    (x \<noteq> 0 \<longrightarrow> daily_row x (pre @ batch' @ day_rows r') = daily_row x (pre @ batch @ day_rows r @ evs))"
    using assms
  proof (induction evs arbitrary: batch r)
    case (Cons e evs)
    obtain b1 r1 where t: "take_event e (batch, r) = (b1, r1)"
      by fastforce
    note k = take_event_keeps [OF t]
    have "x \<noteq> 0 \<Longrightarrow> daily_row x ((pre @ b1 @ day_rows r1) @ evs) = daily_row x ((pre @ batch @ day_rows r @ [e]) @ evs)"
      by (rule daily_row_cong) (use k(5) in simp)
    then show ?case
      using Cons.IH [of b1 r1] Cons.prems k(1-4) t by simp
  qed simp
  then show "pg_dry r' = pg_dry r" "pg_dry_flushed r' = pg_dry_flushed r" "pg_flushed r' = pg_flushed r"
    "filter (\<lambda>e. \<not> is_daily e) batch' = filter (\<lambda>e. \<not> is_daily e) (batch @ evs)"
    "x \<noteq> 0 \<Longrightarrow> daily_row x (pre @ batch' @ day_rows r') = daily_row x (pre @ batch @ day_rows r @ evs)"
    by blast+
qed


section \<open>Dry runs\<close>

text \<open>Pushes and rounds of the consumer, in any interleaving.\<close>

datatype pg_op = PgPush db_event | PgRound

text \<open>The accepted events, and the consumer afterwards.\<close>

fun pg_run :: "'w pg_server \<Rightarrow> reporter_cfg \<Rightarrow> pg_op list \<Rightarrow> 'w pg_thread \<Rightarrow> (db_event list \<times> 'w pg_thread) option" where
  "pg_run sv rc [] t = Some ([], t)"
| "pg_run sv rc (PgPush e # ops) t =
     (let (ok, ring) = ring_push (th_ring t) e
      in map_option (\<lambda>(es, t). (if ok then e # es else es, t)) (pg_run sv rc ops (t\<lparr>th_ring := ring\<rparr>)))"
| "pg_run sv rc (PgRound # ops) t = Option.bind (consumer_round sv rc t) (pg_run sv rc ops)"

text \<open>\<open>done\<close> are the events accepted so far: what has been written, what is batched, the day and the ring.\<close>

definition dry_ok :: "db_event list \<Rightarrow> 'w pg_thread \<Rightarrow> bool" where
  "dry_ok accepted t \<longleftrightarrow>
     pg_dry (th_rep t) \<and> ring_ok (th_ring t) \<and>
     pg_flushed (th_rep t) = of_nat (length (pg_dry_flushed (th_rep t))) \<and>
     filter (\<lambda>e. \<not> is_daily e) (pg_dry_flushed (th_rep t) @ th_batch t @ ring_items (th_ring t)) =
       filter (\<lambda>e. \<not> is_daily e) accepted \<and>
     (\<forall>x. x \<noteq> 0 \<longrightarrow> daily_row x (pg_dry_flushed (th_rep t) @ th_batch t @ day_rows (th_rep t) @ ring_items (th_ring t)) =
       daily_row x accepted)"

lemma flush_batch_dry:
  assumes "pg_dry r"
  shows "flush_batch sv batch (r, w) = ((True, []),
    (if batch = [] then r else r\<lparr>pg_dry_flushed := pg_dry_flushed r @ batch,
       pg_flushed := pg_flushed r + of_nat (length batch), pg_failures := 0\<rparr>), w)"
  using assms by (simp add: flush_batch_def)

lemma flush_round_dry:
  assumes "dry_ok accepted t"
  shows "dry_ok accepted (flush_round sv rc t)"
proof -
  have "pg_dry (th_rep t)"
    using assms by (simp add: dry_ok_def)
  then show ?thesis
    using assms by (cases "th_batch t = []") (simp_all add: flush_round_def flush_batch_dry Let_def dry_ok_def day_rows_def)
qed

lemma consumer_round_dry:
  assumes "dry_ok accepted t"
  shows "\<exists>t'. consumer_round sv rc t = Some t' \<and> dry_ok accepted t'"
proof -
  let ?pre = "pg_dry_flushed (th_rep t)"
  have ring: "ring_ok (th_ring t)"
    using assms by (simp add: dry_ok_def)
  obtain got' batch' r' ring' evs where c: "collect (batch_cap rc) (False, th_batch t, th_rep t, th_ring t) =
      Some (got', batch', r', ring')" "ring_items (th_ring t) = evs @ ring_items ring'"
    "(batch', r') = fold take_event evs (th_batch t, th_rep t)" "ring_ok ring'"
    using collect_spec [OF ring] by blast
  note k = fold_take_event_keeps [OF c(3) [symmetric]]
  have "daily_row x (?pre @ batch' @ day_rows r' @ ring_items ring') = daily_row x accepted" if "x \<noteq> 0" for x
  proof -
    have "daily_row x ((?pre @ batch' @ day_rows r') @ ring_items ring') =
        daily_row x ((?pre @ th_batch t @ day_rows (th_rep t) @ evs) @ ring_items ring')"
      by (rule daily_row_cong) (rule k(5) [OF that])
    also have "\<dots> = daily_row x accepted"
      using assms c(2) that by (simp add: dry_ok_def)
    finally show ?thesis
      by simp
  qed
  then have "dry_ok accepted (t\<lparr>th_batch := batch', th_ring := ring', th_rep := r'\<lparr>pg_pending := of_nat (length batch')\<rparr>\<rparr>)"
    using assms c(2,4) k(1-4) by (simp add: dry_ok_def day_rows_def)
  then show ?thesis
    using flush_round_dry c(1) by (simp add: consumer_round_def)
qed

lemma push_dry:
  assumes "dry_ok accepted t" and "ring_push (th_ring t) e = (ok, ring)"
  shows "dry_ok (if ok then accepted @ [e] else accepted) (t\<lparr>th_ring := ring\<rparr>)"
proof (cases ok)
  case True
  then have r: "ring_ok ring" "ring_items ring = ring_items (th_ring t) @ [e]"
    using rq.enq_cases [of "th_ring t" e] assms by (auto simp: dry_ok_def)
  have "daily_row x ((pg_dry_flushed (th_rep t) @ th_batch t @ day_rows (th_rep t) @ ring_items (th_ring t)) @ [e]) =
      daily_row x (accepted @ [e])" if "x \<noteq> 0" for x
    by (rule daily_row_cong) (use assms(1) that in \<open>simp add: dry_ok_def\<close>)
  then show ?thesis
    using True r assms(1) by (auto simp: dry_ok_def day_rows_def)
next
  case False
  then have "ring = th_ring t"
    using rq.enq_cases [of "th_ring t" e] assms by (auto simp: dry_ok_def)
  then show ?thesis
    using False assms(1) by simp
qed

lemma pg_run_dry:
  assumes "dry_ok accepted t"
  shows "\<exists>es t'. pg_run sv rc ops t = Some (es, t') \<and> dry_ok (accepted @ es) t'"
  using assms
proof (induction ops arbitrary: accepted t)
  case (Cons op ops)
  show ?case
  proof (cases op)
    case (PgPush e)
    obtain ok ring where p: "ring_push (th_ring t) e = (ok, ring)"
      by fastforce
    obtain es t' where "pg_run sv rc ops (t\<lparr>th_ring := ring\<rparr>) = Some (es, t')"
      "dry_ok ((if ok then accepted @ [e] else accepted) @ es) t'"
      using Cons.IH [OF push_dry [OF Cons.prems p]] by blast
    then show ?thesis
      using p by (cases ok) (simp_all add: PgPush)
  next
    case PgRound
    obtain t1 where t1: "consumer_round sv rc t = Some t1" "dry_ok accepted t1"
      using consumer_round_dry [OF Cons.prems] by blast
    with Cons.IH [OF t1(2)] show ?thesis
      by (simp add: PgRound)
  qed
qed simp

lemma consumer_stop_dry:
  assumes "pg_dry (th_rep t)" and "drain ring_pop (th_ring t) = Some (evs, ring')"
  shows "\<exists>t'. consumer_stop sv t = Some t' \<and>
    pg_dry_flushed (th_rep t') = pg_dry_flushed (th_rep t) @ th_batch t @ day_rows (th_rep t) @ evs \<and>
    pg_flushed (th_rep t') = pg_flushed (th_rep t) + of_nat (length (th_batch t @ day_rows (th_rep t) @ evs))"
proof -
  let ?r = "(th_rep t)\<lparr>pg_day := None\<rparr>" and ?batch = "(th_batch t @ day_rows (th_rep t)) @ evs"
  have "pg_dry ?r"
    using assms(1) by simp
  then have "consumer_stop sv t = Some (t\<lparr>th_batch := [], th_ring := ring',
      th_rep := (if ?batch = [] then ?r else ?r\<lparr>pg_dry_flushed := pg_dry_flushed ?r @ ?batch,
        pg_flushed := pg_flushed ?r + of_nat (length ?batch), pg_failures := 0\<rparr>)\<rparr>)"
    by (simp add: consumer_stop_def assms(2) flush_batch_dry Let_def flip: day_rows_def)
  then show ?thesis
    by (cases "?batch = []") simp_all
qed

definition pg_thread_init :: "string \<Rightarrow> clock \<Rightarrow> 'w \<Rightarrow> 'w pg_thread" where
  "pg_thread_init dsn ck w = \<lparr>th_batch = [], th_last_flush = steady_now ck, th_rep = pg_init dsn,
     th_ring = ring_init 4096 (DbDaily \<lparr>dd_date = 0, dd_realized = 0, dd_unrealized = 0, dd_fees = 0, dd_total = 0\<rparr>),
     th_clock = clock_tick ck, th_world = w\<rparr>"

text \<open>With no database configured, for every interleaving of pushes with rounds of the consumer and a
  final stop, every round ends, and what has been written is every accepted trade, snapshot and system
  event exactly once and in order, and for every date the last daily row accepted for it, wherever the
  batch limits and the day changes fall; the counter agrees.\<close>

theorem reporter_writes_everything:
  shows "\<exists>es t t'. pg_run sv rc ops (pg_thread_init [] ck w) = Some (es, t) \<and> consumer_stop sv t = Some t' \<and>
    filter (\<lambda>e. \<not> is_daily e) (pg_dry_flushed (th_rep t')) = filter (\<lambda>e. \<not> is_daily e) es \<and>
    (\<forall>x. x \<noteq> 0 \<longrightarrow> daily_row x (pg_dry_flushed (th_rep t')) = daily_row x es) \<and>
    pg_flushed (th_rep t') = of_nat (length (pg_dry_flushed (th_rep t')))"
proof -
  have ring: "ring_ok (ring_init 4096 d)" "ring_items (ring_init 4096 d) = []" for d :: db_event
    using ring_init_ok [of 12 d] by simp_all
  have "dry_ok [] (pg_thread_init [] ck w)"
    using ring by (simp add: dry_ok_def pg_thread_init_def pg_init_def day_rows_def)
  then obtain es t where t: "pg_run sv rc ops (pg_thread_init [] ck w) = Some (es, t)" "dry_ok es t"
    using pg_run_dry [where sv = sv and rc = rc and ops = ops] by fastforce
  then obtain ring' where d: "drain ring_pop (th_ring t) = Some (ring_items (th_ring t), ring')"
    using drain_ring by (auto simp: dry_ok_def)
  let ?batch = "th_batch t @ day_rows (th_rep t) @ ring_items (th_ring t)"
  have dry: "pg_dry (th_rep t)"
    using t(2) by (simp add: dry_ok_def)
  obtain t' where s: "consumer_stop sv t = Some t'" "pg_dry_flushed (th_rep t') = pg_dry_flushed (th_rep t) @ ?batch"
    "pg_flushed (th_rep t') = pg_flushed (th_rep t) + of_nat (length ?batch)"
    using consumer_stop_dry [OF dry d] by blast
  have "filter (\<lambda>e. \<not> is_daily e) (day_rows (th_rep t)) = []"
    by (simp add: day_rows_def split: option.split)
  then show ?thesis
    using t s by (intro exI [of _ es] exI [of _ t] exI [of _ t']) (simp add: dry_ok_def)
qed


section \<open>Writing to a server\<close>

text \<open>
  What is relied on of PostgreSQL and libpqxx: \<open>tab\<close> reads the rows written so far; connecting and
  creating the schema write none, a transaction writes all its rows or (when it throws) none, and the
  statement with the unknown column makes it throw.
\<close>

definition pg_atomic :: "'w pg_server \<Rightarrow> ('w \<Rightarrow> sql_stmt list) \<Rightarrow> bool" where
  "pg_atomic sv tab \<longleftrightarrow>
     (\<forall>w. tab (snd (sv_connect sv w)) = tab w) \<and> (\<forall>w. tab (snd (sv_schema sv w)) = tab w) \<and>
     (\<forall>ss w. tab (snd (sv_txn sv ss w)) = tab w @ (if fst (sv_txn sv ss w) then ss else [])) \<and>
     (\<forall>ss w. PoisonInsert \<in> set ss \<longrightarrow> \<not> fst (sv_txn sv ss w))"

text \<open>Everything but the counters, the pool and the database is kept.\<close>

definition wrote :: "('w \<Rightarrow> sql_stmt list) \<Rightarrow> sql_stmt list \<Rightarrow> 'w pg_state \<Rightarrow> 'w pg_state \<Rightarrow> bool" where
  "wrote tab rows st st' \<longleftrightarrow> tab (snd st') = tab (snd st) @ rows \<and>
     pg_flushed (fst st') = pg_flushed (fst st) \<and> pg_dropped (fst st') = pg_dropped (fst st) \<and>
     pg_dry (fst st') = pg_dry (fst st)"

lemma wrote_trans: "wrote tab xs a b \<Longrightarrow> wrote tab ys b c \<Longrightarrow> wrote tab (xs @ ys) a c"
  by (simp add: wrote_def)

lemma wrote_refl [simp]: "wrote tab [] st st"
  by (simp add: wrote_def)

lemma ensure_conn_wrote:
  assumes "pg_atomic sv tab"
  shows "wrote tab [] st (snd (ensure_conn sv idx st))"
proof -
  obtain r w where st: "st = (r, w)"
    by fastforce
  have "tab (snd (sv_connect sv w)) = tab w"
    using assms by (simp add: pg_atomic_def)
  then show ?thesis
    by (simp add: st ensure_conn_def wrote_def case_prod_beta Let_def)
qed

lemma create_schema_wrote:
  assumes "pg_atomic sv tab"
  shows "wrote tab [] st (snd (create_schema_internal sv st))"
proof -
  obtain r w where st: "st = (r, w)"
    by fastforce
  obtain ok r1 w1 where e: "ensure_conn sv 0 (pool_nonempty r, w) = (ok, r1, w1)"
    using prod_cases3 by blast
  have "wrote tab [] (pool_nonempty r, w) (r1, w1)"
    using ensure_conn_wrote [OF assms, of "(pool_nonempty r, w)" 0] e by simp
  moreover have "tab (snd (sv_schema sv w1)) = tab w1"
    using assms by (simp add: pg_atomic_def)
  moreover have "pg_flushed (pool_nonempty r) = pg_flushed r" "pg_dropped (pool_nonempty r) = pg_dropped r"
    "pg_dry (pool_nonempty r) = pg_dry r"
    by (simp_all add: pool_nonempty_def)
  moreover have "snd (create_schema_internal sv st) =
      (if pg_dry r then (r, w) else if ok then (r1, snd (sv_schema sv w1)) else (r1, w1))"
    by (simp add: st create_schema_internal_def e case_prod_beta)
  ultimately show ?thesis
    by (simp add: st wrote_def)
qed

lemma reset_conn_wrote [simp]: "wrote tab [] st (reset_conn idx st)"
  by (simp add: reset_conn_def wrote_def case_prod_beta)

lemma fail_flush_wrote [simp]: "wrote tab [] st (fail_flush st)"
  by (simp add: fail_flush_def wrote_def case_prod_beta)

lemma reconnect_wrote:
  "pg_atomic sv tab \<Longrightarrow> wrote tab [] st (snd (ensure_conn sv idx (reset_conn idx st)))"
  using wrote_trans [OF reset_conn_wrote ensure_conn_wrote] by fastforce

lemma try_whole_batch_wrote:
  assumes "pg_atomic sv tab" and "try_whole_batch sv batch st = (ok, st')"
  shows "wrote tab (if ok then map sql_of batch else []) st st'"
proof -
  let ?ss = "(if pg_poison (fst st) then [PoisonInsert] else []) @ map sql_of batch"
  have "tab (snd (sv_txn sv ?ss (snd st))) = tab (snd st) @ (if fst (sv_txn sv ?ss (snd st)) then ?ss else [])"
    using assms(1) by (simp only: pg_atomic_def)
  moreover have "pg_poison (fst st) \<Longrightarrow> \<not> fst (sv_txn sv ?ss (snd st))"
    using assms(1) by (simp add: pg_atomic_def)
  ultimately show ?thesis
    using assms(2) by (cases "pg_poison (fst st)") (auto simp: try_whole_batch_def wrote_def case_prod_beta Let_def)
qed

lemma exec_one_event_wrote:
  assumes "pg_atomic sv tab" and "exec_one_event sv ev st = (ok, st')"
  shows "wrote tab (if ok then [sql_of ev] else []) st st'"
proof -
  have "tab (snd (sv_txn sv [sql_of ev] (snd st))) =
      tab (snd st) @ (if fst (sv_txn sv [sql_of ev] (snd st)) then [sql_of ev] else [])"
    using assms(1) by (simp only: pg_atomic_def)
  then show ?thesis
    using assms(2) by (auto simp: exec_one_event_def wrote_def case_prod_beta Let_def)
qed

text \<open>The fallback writes a subsequence of the batch and counts it.\<close>

lemma flush_rows_wrote:
  assumes "pg_atomic sv tab" and "flush_rows sv idx evs (a, b) st = ((a', b'), st')"
  shows "\<exists>rows. wrote tab rows st st' \<and> subseq rows (map sql_of evs) \<and> a' = a + length rows \<and>
    b \<le> b' \<and> b' + length rows \<le> b + length evs \<and>
    ((\<forall>w. fst (sv_connect sv w)) \<and> idx < length (pg_pool (fst st)) \<and> \<not> pg_dry (fst st) \<longrightarrow>
      b' + length rows = b + length evs)"
  using assms(2)
proof (induction evs arbitrary: a b st)
  case Nil
  then show ?case
    by (intro exI [of _ "[]"]) simp
next
  case (Cons ev evs)
  obtain ok st1 where e: "exec_one_event sv ev st = (ok, st1)"
    by (rule prod.exhaust)
  note w1 = exec_one_event_wrote [OF assms(1) e]
  have f1: "pg_pool (fst st1) = pg_pool (fst st)"
    using e by (auto simp: exec_one_event_def case_prod_beta Let_def)
  show ?case
  proof (cases ok)
    case True
    then have rec: "flush_rows sv idx evs (a + 1, b) st1 = ((a', b'), st')"
      using Cons.prems e by simp
    obtain rows where r: "wrote tab rows st1 st'" "subseq rows (map sql_of evs)" "a' = a + 1 + length rows"
      "b \<le> b'" "b' + length rows \<le> b + length evs"
      "(\<forall>w. fst (sv_connect sv w)) \<and> idx < length (pg_pool (fst st1)) \<and> \<not> pg_dry (fst st1) \<longrightarrow> b' + length rows = b + length evs"
      using Cons.IH [OF rec] by blast
    have "wrote tab (sql_of ev # rows) st st'"
      using wrote_trans [OF w1 r(1)] True by simp
    with r w1 f1 show ?thesis
      by (intro exI [of _ "sql_of ev # rows"]) (simp add: wrote_def)
  next
    case False
    obtain conn st2 where c: "ensure_conn sv idx (reset_conn idx st1) = (conn, st2)"
      by (rule prod.exhaust)
    have w2: "wrote tab [] st st2"
      using wrote_trans [OF w1 reconnect_wrote [OF assms(1), of st1 idx]] False c by simp
    show ?thesis
    proof (cases conn)
      case True
      then have rec: "flush_rows sv idx evs (a, b + 1) st2 = ((a', b'), st')"
        using Cons.prems e c False by simp
      obtain rows where r: "wrote tab rows st2 st'" "subseq rows (map sql_of evs)" "a' = a + length rows"
        "b + 1 \<le> b'" "b' + length rows \<le> b + 1 + length evs"
        "(\<forall>w. fst (sv_connect sv w)) \<and> idx < length (pg_pool (fst st2)) \<and> \<not> pg_dry (fst st2) \<longrightarrow> b' + length rows = b + 1 + length evs"
        using Cons.IH [OF rec] by blast
      have "length (pg_pool (fst st2)) = length (pg_pool (fst st1))"
        using c by (cases st1) (auto simp: ensure_conn_def reset_conn_def case_prod_beta Let_def split: if_splits)
      with r wrote_trans [OF w2 r(1)] w2 f1 show ?thesis
        by (intro exI [of _ rows]) (auto simp: wrote_def)
    next
      case False2: False
      then have "(a', b') = (a, b + 1)" "st' = st2"
        using Cons.prems e c False by simp_all
      moreover have "\<not> ((\<forall>w. fst (sv_connect sv w)) \<and> idx < length (pg_pool (fst st)) \<and> \<not> pg_dry (fst st))"
        using c False2 f1 w1 by (cases st1) (auto simp: ensure_conn_def reset_conn_def case_prod_beta Let_def wrote_def split: if_splits)
      ultimately show ?thesis
        using w2 by (intro exI [of _ "[]"]) auto
    qed
  qed
qed


text \<open>The outcome of a flush: the rows written, how many events were given up, what is left to do.\<close>

definition flush_result ::
  "'w pg_server \<Rightarrow> ('w \<Rightarrow> sql_stmt list) \<Rightarrow> db_event list \<Rightarrow> bool \<times> db_event list \<Rightarrow> 'w pg_state \<Rightarrow> 'w pg_state \<Rightarrow> bool" where
  "flush_result sv tab evs res st st' \<longleftrightarrow>
     (\<exists>rows skipped. tab (snd st') = tab (snd st) @ rows \<and> subseq rows (map sql_of evs) \<and>
       pg_flushed (fst st') = pg_flushed (fst st) + of_nat (length rows) \<and>
       pg_dropped (fst st') = pg_dropped (fst st) + of_nat skipped \<and>
       (if fst res then snd res = [] \<and> length rows + skipped \<le> length evs
        else snd res = evs \<and> rows = [] \<and> skipped = 0) \<and>
       (fst res \<and> (\<forall>w. fst (sv_connect sv w)) \<longrightarrow> length rows + skipped = length evs))"

lemma flush_result_after:
  "wrote tab [] st st1 \<Longrightarrow> flush_result sv tab evs res st1 st' \<Longrightarrow> flush_result sv tab evs res st st'"
  by (simp add: flush_result_def wrote_def)

lemma flush_result_fail: "wrote tab [] st st1 \<Longrightarrow> flush_result sv tab evs (False, evs) st (fail_flush st1)"
  using wrote_trans [OF _ fail_flush_wrote, of tab "[]" st st1]
  by (auto simp: flush_result_def wrote_def intro!: exI [of _ "[]"] exI [of _ 0])

lemma flush_result_all:
  assumes "wrote tab (map sql_of evs) st st1"
  shows "flush_result sv tab evs (True, []) st (flushed_all (length evs) st1)"
  unfolding flush_result_def
  by (rule exI [of _ "map sql_of evs"], rule exI [of _ 0])
    (use assms in \<open>simp add: wrote_def flushed_all_def case_prod_beta\<close>)

lemma pool_length [simp]:
  "length (pg_pool (fst (snd (ensure_conn sv idx st)))) = length (pg_pool (fst st))"
  "length (pg_pool (fst (reset_conn idx st))) = length (pg_pool (fst st))"
  "pg_pool (fst (snd (try_whole_batch sv evs st))) = pg_pool (fst st)"
  by (simp_all add: ensure_conn_def reset_conn_def try_whole_batch_def case_prod_beta Let_def)

lemma flush_fallback_result:
  assumes "pg_atomic sv tab" and "idx < length (pg_pool (fst st))" and "\<not> pg_dry (fst st)"
  shows "flush_result sv tab evs (True, []) st (flush_fallback sv idx evs st)"
proof -
  obtain a b st1 where f: "flush_rows sv idx evs (0, 0) st = ((a, b), st1)"
    by (metis prod.exhaust)
  from flush_rows_wrote [OF assms(1) f] assms(2,3)
  obtain rows where "wrote tab rows st st1" "subseq rows (map sql_of evs)" "a = length rows"
    "b + length rows \<le> length evs" "(\<forall>w. fst (sv_connect sv w)) \<longrightarrow> b + length rows = length evs"
    by auto
  then show ?thesis
    unfolding flush_result_def
    by (intro exI [of _ rows] exI [of _ b]) (auto simp: flush_fallback_def f wrote_def case_prod_beta)
qed

lemma flush_attempts_result:
  assumes "pg_atomic sv tab" and "idx < length (pg_pool (fst st))" and "\<not> pg_dry (fst st)"
    and "flush_attempts sv idx evs st = (res, st')"
  shows "flush_result sv tab evs res st st'"
proof -
  obtain ok1 st1 where t1: "try_whole_batch sv evs st = (ok1, st1)"
    by (rule prod.exhaust)
  obtain c2 st2 where e2: "ensure_conn sv idx (reset_conn idx st1) = (c2, st2)"
    by (rule prod.exhaust)
  obtain ok3 st3 where t3: "try_whole_batch sv evs st2 = (ok3, st3)"
    by (rule prod.exhaust)
  obtain c4 st4 where e4: "ensure_conn sv idx (reset_conn idx st3) = (c4, st4)"
    by (rule prod.exhaust)
  note w1 = try_whole_batch_wrote [OF assms(1) t1] and w3 = try_whole_batch_wrote [OF assms(1) t3]
  have w2: "wrote tab [] st st2" if "\<not> ok1"
    using wrote_trans [OF w1 reconnect_wrote [OF assms(1), of st1 idx]] that e2 by simp
  have w4: "wrote tab [] st st4" if "\<not> ok1" "\<not> ok3"
    using wrote_trans [OF wrote_trans [OF w2 [OF that(1)] w3] reconnect_wrote [OF assms(1), of st3 idx]] that(2) e4 by simp
  have len: "length (pg_pool (fst st4)) = length (pg_pool (fst st))"
    using t1 e2 t3 e4 pool_length by (metis fst_conv snd_conv)
  have dry: "\<not> ok1 \<Longrightarrow> \<not> ok3 \<Longrightarrow> \<not> pg_dry (fst st4)"
    using w4 assms(3) by (simp add: wrote_def)
  have fb: "\<not> ok1 \<Longrightarrow> \<not> ok3 \<Longrightarrow> flush_result sv tab evs (True, []) st (flush_fallback sv idx evs st4)"
    using flush_result_after [OF w4 flush_fallback_result [OF assms(1) _ dry]] len assms(2) by simp
  have r2: "\<not> ok1 \<Longrightarrow> ok3 \<Longrightarrow> flush_result sv tab evs (True, []) st (flushed_all (length evs) st3)"
    using flush_result_after [OF w2 flush_result_all [of tab evs st2 st3 sv]] w3 by simp
  show ?thesis
    using assms(4) fb r2 flush_result_all [of tab evs st st1 sv] w1 flush_result_fail [OF w2] flush_result_fail [OF w4]
    by (auto simp: flush_attempts_def t1 e2 t3 e4 split: if_splits)
qed

lemma pool_nonempty_keeps [simp]:
  "pg_flushed (pool_nonempty r) = pg_flushed r" "pg_dropped (pool_nonempty r) = pg_dropped r"
  "pg_dry (pool_nonempty r) = pg_dry r" "pg_pool (pool_nonempty r) \<noteq> []"
  by (simp_all add: pool_nonempty_def)

lemma create_schema_pool:
  "pg_pool (fst st) \<noteq> [] \<Longrightarrow> length (pg_pool (fst (snd (create_schema_internal sv st)))) = length (pg_pool (fst st))"
proof -
  assume ne: "pg_pool (fst st) \<noteq> []"
  then have "pool_nonempty (fst st) = fst st"
    by (simp add: pool_nonempty_def)
  then show ?thesis
    using pool_length(1) [of sv 0 st] by (cases st) (simp add: create_schema_internal_def case_prod_beta)
qed

text \<open>A flush writes nothing before its attempts: it gives up, or it hands a connection of the pool to them.\<close>

lemma flush_batch_route:
  assumes "pg_atomic sv tab" and "\<not> pg_dry r" and "evs \<noteq> []"
  obtains st1 idx where "wrote tab [] (r, w) st1"
    and "flush_batch sv evs (r, w) = ((False, evs), fail_flush st1) \<or>
         idx < length (pg_pool (fst st1)) \<and> flush_batch sv evs (r, w) = flush_attempts sv idx evs st1"
proof -
  define p where "p = pool_nonempty r"
  define idx where "idx = pg_next p mod length (pg_pool p)"
  define r1 where "r1 = p\<lparr>pg_next := Suc (pg_next p) mod length (pg_pool p)\<rparr>"
  obtain conn r2 w2 where e: "ensure_conn sv idx (r1, w) = (conn, r2, w2)"
    using prod_cases3 by blast
  obtain ok3 st3 where c: "create_schema_internal sv (r2, w2) = (ok3, st3)"
    by (rule prod.exhaust)
  have p: "pg_pool p \<noteq> []" "idx < length (pg_pool p)"
    by (simp_all add: p_def idx_def)
  have l2: "length (pg_pool r2) = length (pg_pool p)"
    using pool_length(1) [of sv idx "(r1, w)", unfolded e] by (simp add: r1_def)
  have l3: "length (pg_pool (fst st3)) = length (pg_pool p)"
    using create_schema_pool [of "(r2, w2)" sv, unfolded c] l2 p(1) by (metis fst_conv length_0_conv snd_conv)
  have "wrote tab [] (r, w) (r1, w)"
    by (simp add: wrote_def r1_def p_def)
  then have w2: "wrote tab [] (r, w) (r2, w2)"
    using wrote_trans [OF _ ensure_conn_wrote [OF assms(1), of "(r1, w)" idx]] e by simp
  then have w3: "wrote tab [] (r, w) st3"
    using wrote_trans [OF _ create_schema_wrote [OF assms(1), of "(r2, w2)"]] c by simp
  have "flush_batch sv evs (r, w) = (if \<not> conn then ((False, evs), fail_flush (r2, w2))
      else if \<not> pg_pool r2 ! 0 \<and> idx \<noteq> 0 then
        (if \<not> ok3 then ((False, evs), fail_flush st3) else flush_attempts sv idx evs st3)
      else flush_attempts sv idx evs (r2, w2))"
    using assms(2,3) e c by (simp add: flush_batch_def Let_def idx_def r1_def p_def)
  with that [OF w2, of idx] that [OF w3, of idx] l2 l3 p(2) show thesis
    by (auto split: if_splits)
qed

lemma flush_batch_result:
  assumes "pg_atomic sv tab" and "\<not> pg_dry r" and "flush_batch sv evs (r, w) = (res, st')"
  shows "flush_result sv tab evs res (r, w) st'"
proof (cases "evs = []")
  case True
  then show ?thesis
    using assms(3) by (auto simp: flush_batch_def flush_result_def intro!: exI [of _ "[]"] exI [of _ 0])
next
  case False
  obtain st1 idx where w: "wrote tab [] (r, w) st1"
    and "flush_batch sv evs (r, w) = ((False, evs), fail_flush st1) \<or>
         idx < length (pg_pool (fst st1)) \<and> flush_batch sv evs (r, w) = flush_attempts sv idx evs st1"
    using flush_batch_route [OF assms(1,2) False] by metis
  then consider "(res, st') = ((False, evs), fail_flush st1)"
    | "idx < length (pg_pool (fst st1))" "flush_attempts sv idx evs st1 = (res, st')"
    using assms(3) by auto
  then show ?thesis
  proof cases
    case 1
    then show ?thesis
      using flush_result_fail [OF w, of sv evs] by simp
  next
    case 2
    then show ?thesis
      using flush_result_after [OF w flush_attempts_result [OF assms(1) 2(1) _ 2(2)]] w assms(2) by (simp add: wrote_def)
  qed
qed

text \<open>C12: against any server whose transactions are all-or-nothing, a flush writes a subsequence of the
  batch, in order and each event at most once, and adds exactly that many to the flushed counter; if
  it reports failure nothing was written and the batch is kept whole; if it succeeds the batch is done
  and, as long as every reconnection succeeds, each event of it is counted either flushed or dropped.\<close>

theorem flush_writes_once:
  assumes "pg_atomic sv tab" and "\<not> pg_dry r" and "flush_batch sv evs (r, w) = ((ok, left), r', w')"
  shows "\<exists>rows skipped. tab w' = tab w @ rows \<and> subseq rows (map sql_of evs) \<and>
    pg_flushed r' = pg_flushed r + of_nat (length rows) \<and> pg_dropped r' = pg_dropped r + of_nat skipped \<and>
    (if ok then left = [] \<and> length rows + skipped \<le> length evs else left = evs \<and> rows = [] \<and> skipped = 0) \<and>
    (ok \<and> (\<forall>w. fst (sv_connect sv w)) \<longrightarrow> length rows + skipped = length evs)"
  using flush_batch_result [OF assms] by (simp only: flush_result_def fst_conv snd_conv)

text \<open>
  A server with a script: the answers to the connection attempts, then the rows; a transaction fails
  when it holds a system event.
\<close>

type_synonym demo_world = "bool list \<times> sql_stmt list"

fun bad_stmt :: "sql_stmt \<Rightarrow> bool" where
  "bad_stmt (InsertEvent ps) \<longleftrightarrow> True"
| "bad_stmt PoisonInsert \<longleftrightarrow> True"
| "bad_stmt _ \<longleftrightarrow> False"

definition demo_server :: "demo_world pg_server" where
  "demo_server = \<lparr>
     sv_connect = (\<lambda>(script, rows). case script of [] \<Rightarrow> (True, [], rows) | b # bs \<Rightarrow> (b, bs, rows)),
     sv_schema = (\<lambda>w. (True, w)),
     sv_txn = (\<lambda>ss (script, rows). if list_ex bad_stmt ss then (False, script, rows) else (True, script, rows @ ss))\<rparr>"

definition demo_row :: "int \<Rightarrow> db_event" where
  "demo_row d = DbDaily \<lparr>dd_date = d, dd_realized = 0, dd_unrealized = 0, dd_fees = 0, dd_total = 0\<rparr>"

lemma demo_server_atomic: "pg_atomic demo_server snd"
proof -
  have "PoisonInsert \<in> set ss \<Longrightarrow> list_ex bad_stmt ss" for ss
    by (auto simp: list_ex_iff intro: bexI [of _ PoisonInsert])
  then show ?thesis
    by (auto simp: pg_atomic_def demo_server_def split: list.split)
qed

theorem flush_writes_once_witness:
  "case flush_batch demo_server [demo_row 1, system_event 0 [] [] [] [], demo_row 2] (pg_init ''db'', [], []) of
     ((ok, left), r', w') \<Rightarrow> subseq (snd w') (map sql_of [demo_row 1, system_event 0 [] [] [] [], demo_row 2]) \<and>
       pg_flushed r' = of_nat (length (snd w'))"
proof -
  let ?evs = "[demo_row 1, system_event 0 [] [] [] [], demo_row 2]"
  obtain ok left r' w' where f: "flush_batch demo_server ?evs (pg_init ''db'', [], []) = ((ok, left), r', w')"
    by (metis prod.exhaust)
  have "\<not> pg_dry (pg_init ''db'')" "pg_flushed (pg_init ''db'') = 0"
    by (simp_all add: pg_init_def)
  with flush_writes_once [OF demo_server_atomic _ f] show ?thesis
    by (auto simp: f)
qed

text \<open>A reconnection that fails in the middle of the fallback loses the rest of the batch uncounted.\<close>

lemma reconnect_failure_uncounted:
  "case flush_batch demo_server [system_event 0 [] [] [] [], demo_row 1, demo_row 2] (pg_init ''db'', [True, True, True, False], []) of
     ((ok, left), r', w') \<Rightarrow> ok \<and> left = [] \<and> snd w' = [] \<and> pg_flushed r' = 0 \<and> pg_dropped r' = 1"
  by (simp add: flush_batch_def pg_init_def pool_nonempty_def ensure_conn_def demo_server_def flush_attempts_def
      try_whole_batch_def reset_conn_def flush_fallback_def exec_one_event_def system_event_def demo_row_def Let_def)

theorem reporter_writes_everything_witness:
  "\<exists>es t t'. pg_run demo_server (load_reporter toml_empty) [PgPush (demo_row 20260101), PgRound, PgPush (demo_row 20260102)]
       (pg_thread_init [] demo_clock ([], [])) = Some (es, t) \<and> consumer_stop demo_server t = Some t' \<and>
     daily_row 20260101 (pg_dry_flushed (th_rep t')) = daily_row 20260101 es"
proof -
  let ?ops = "[PgPush (demo_row 20260101), PgRound, PgPush (demo_row 20260102)]"
  obtain es t t' where r: "pg_run demo_server (load_reporter toml_empty) ?ops (pg_thread_init [] demo_clock ([], [])) = Some (es, t)"
      "consumer_stop demo_server t = Some t'"
    and d: "\<forall>x. x \<noteq> 0 \<longrightarrow> daily_row x (pg_dry_flushed (th_rep t')) = daily_row x es"
    using reporter_writes_everything [of demo_server "load_reporter toml_empty" ?ops demo_clock "([], [])"] by blast
  have "daily_row 20260101 (pg_dry_flushed (th_rep t')) = daily_row 20260101 es"
    by (rule d [rule_format]) simp
  with r show ?thesis
    by blast
qed

end
