(* ===== verification/PgSchema.thy ===== *)
theory PgSchema
  imports PgReporter
begin

text \<open>
  The tables behind \<open>PgReporter\<close>: the schema text \<open>kSchemaSql\<close> of \<open>src/src/db/pg_reporter.cpp\<close> as a list
  of statements, the column lists of its INSERT statements, and what they need of a database.  What the
  statements do to a catalogue is PostgreSQL's documented behaviour; the theorems of \<open>PgStart\<close> assume
  it of the server.
\<close>

section \<open>The schema text\<close>

datatype sql_type = Bigserial | Bigint | Smallint | Integer | Double | Text | Date | Boolean

datatype col_rule = Nullable | NotNull | PrimaryKey | DefaultTrue

record column =
  co_name :: string
  co_type :: sql_type
  co_rule :: col_rule

datatype ddl =
    CreateTable string "column list"
  | CreateIndex string string
  | AddColumn string column

definition col :: "string \<Rightarrow> sql_type \<Rightarrow> col_rule \<Rightarrow> column" where
  "col n ty ru = \<lparr>co_name = n, co_type = ty, co_rule = ru\<rparr>"

text \<open>An index is a table and its column; its own name does not matter here.\<close>

definition kSchemaSql :: "ddl list" where
  "kSchemaSql =
    [CreateTable ''trades''
       [col ''id'' Bigserial PrimaryKey, col ''ts_ns'' Bigint NotNull, col ''order_id'' Text NotNull,
        col ''side'' Smallint NotNull, col ''price'' Double NotNull, col ''qty'' Double NotNull,
        col ''fee'' Double NotNull, col ''fee_asset'' Text NotNull],
     CreateIndex ''trades'' ''ts_ns'',
     CreateTable ''position_snapshots''
       [col ''id'' Bigserial PrimaryKey, col ''ts_ns'' Bigint NotNull, col ''inventory'' Double NotNull,
        col ''avg_entry'' Double NotNull, col ''realized_pnl'' Double NotNull,
        col ''unrealized_pnl'' Double NotNull, col ''total_fees'' Double NotNull, col ''mid_price'' Double NotNull],
     CreateIndex ''position_snapshots'' ''ts_ns'',
     CreateTable ''system_events''
       [col ''id'' Bigserial PrimaryKey, col ''ts_ns'' Bigint NotNull, col ''severity'' Text NotNull,
        col ''source'' Text NotNull, col ''code'' Text NotNull, col ''msg'' Text NotNull],
     CreateIndex ''system_events'' ''ts_ns'',
     CreateTable ''daily_pnl''
       [col ''date'' Date PrimaryKey, col ''realized'' Double NotNull, col ''unrealized'' Double NotNull,
        col ''fees'' Double NotNull, col ''total'' Double NotNull],
     AddColumn ''position_snapshots'' (col ''best_bid'' Double Nullable),
     AddColumn ''position_snapshots'' (col ''best_ask'' Double Nullable),
     AddColumn ''position_snapshots'' (col ''spread_bps'' Double Nullable),
     AddColumn ''position_snapshots'' (col ''bid_qty'' Double Nullable),
     AddColumn ''position_snapshots'' (col ''ask_qty'' Double Nullable),
     AddColumn ''position_snapshots'' (col ''volatility'' Double Nullable),
     AddColumn ''position_snapshots'' (col ''gamma'' Double Nullable),
     AddColumn ''position_snapshots'' (col ''k'' Double Nullable),
     AddColumn ''position_snapshots'' (col ''T_param'' Double Nullable),
     AddColumn ''position_snapshots'' (col ''lat_p50_us'' Double Nullable),
     AddColumn ''position_snapshots'' (col ''lat_p95_us'' Double Nullable),
     AddColumn ''position_snapshots'' (col ''lat_p99_us'' Double Nullable),
     AddColumn ''position_snapshots'' (col ''open_orders'' Integer Nullable),
     AddColumn ''trades'' (col ''is_maker'' Boolean DefaultTrue)]"


section \<open>Catalogues\<close>

type_synonym catalogue = "string \<Rightarrow> column list option"

text \<open>\<open>IF NOT EXISTS\<close> leaves a table or column of that name alone; \<open>None\<close> is an SQL error.\<close>

fun ddl_effect :: "ddl \<Rightarrow> catalogue \<Rightarrow> catalogue option" where
  "ddl_effect (CreateTable t cs) cat = Some (if cat t = None then cat(t \<mapsto> cs) else cat)"
| "ddl_effect (CreateIndex t n) cat =
     (case cat t of None \<Rightarrow> None | Some cs \<Rightarrow> if list_ex (\<lambda>c. co_name c = n) cs then Some cat else None)"
| "ddl_effect (AddColumn t c) cat =
     (case cat t of
        None \<Rightarrow> None
      | Some cs \<Rightarrow> Some (if list_ex (\<lambda>d. co_name d = co_name c) cs then cat else cat(t \<mapsto> cs @ [c])))"

fun run_ddl :: "ddl list \<Rightarrow> catalogue \<Rightarrow> catalogue option" where
  "run_ddl [] cat = Some cat"
| "run_ddl (d # ds) cat = Option.bind (ddl_effect d cat) (run_ddl ds)"


section \<open>The INSERT statements\<close>

fun stmt_table :: "sql_stmt \<Rightarrow> string" where
  "stmt_table (InsertTrade ps) = ''trades''"
| "stmt_table (InsertPosition ps) = ''position_snapshots''"
| "stmt_table (InsertEvent ps) = ''system_events''"
| "stmt_table (UpsertDaily ps) = ''daily_pnl''"
| "stmt_table PoisonInsert = ''trades''"

fun stmt_columns :: "sql_stmt \<Rightarrow> string list" where
  "stmt_columns (InsertTrade ps) =
     [''ts_ns'', ''order_id'', ''side'', ''price'', ''qty'', ''fee'', ''fee_asset'', ''is_maker'']"
| "stmt_columns (InsertPosition ps) =
     [''ts_ns'', ''inventory'', ''avg_entry'', ''realized_pnl'', ''unrealized_pnl'', ''total_fees'', ''mid_price'',
      ''best_bid'', ''best_ask'', ''spread_bps'', ''bid_qty'', ''ask_qty'', ''volatility'', ''gamma'', ''k'', ''T_param'',
      ''lat_p50_us'', ''lat_p95_us'', ''lat_p99_us'', ''open_orders'']"
| "stmt_columns (InsertEvent ps) = [''ts_ns'', ''severity'', ''source'', ''code'', ''msg'']"
| "stmt_columns (UpsertDaily ps) = [''date'', ''realized'', ''unrealized'', ''fees'', ''total'']"
| "stmt_columns PoisonInsert = [''no_such_column'']"

text \<open>The parameters, and the target of \<open>ON CONFLICT\<close>.\<close>

fun stmt_params :: "sql_stmt \<Rightarrow> sql_param list" where
  "stmt_params (InsertTrade ps) = ps"
| "stmt_params (InsertPosition ps) = ps"
| "stmt_params (InsertEvent ps) = ps"
| "stmt_params (UpsertDaily ps) = ps"
| "stmt_params PoisonInsert = [PInt 1]"

fun stmt_conflict :: "sql_stmt \<Rightarrow> string option" where
  "stmt_conflict (UpsertDaily ps) = Some ''date''"
| "stmt_conflict _ = None"

text \<open>
  Whether a value of the C++ side can go into a column, by its kind and, for integers, the width of the
  column's type.  The text of a date is cast by the server (\<open>$1::date\<close>) and has to look like
  \<open>yyyy-mm-dd\<close>; whether there is such a day is left to the server.
\<close>

definition iso_date :: "string \<Rightarrow> bool" where
  "iso_date s \<longleftrightarrow> length s = 10 \<and> list_all is_digit (take 4 s) \<and> s ! 4 = CHR ''-'' \<and>
     list_all is_digit (take 2 (drop 5 s)) \<and> s ! 7 = CHR ''-'' \<and> list_all is_digit (drop 8 s)"

fun int_fits :: "nat \<Rightarrow> int \<Rightarrow> bool" where
  "int_fits w n \<longleftrightarrow> - (2 ^ (w - 1)) \<le> n \<and> n < 2 ^ (w - 1)"

fun fits :: "sql_type \<Rightarrow> sql_param \<Rightarrow> bool" where
  "fits Bigint (PInt n) \<longleftrightarrow> int_fits 64 n"
| "fits Integer (PInt n) \<longleftrightarrow> int_fits 32 n"
| "fits Smallint (PInt n) \<longleftrightarrow> int_fits 16 n"
| "fits Double (PReal x) \<longleftrightarrow> True"
| "fits Text (PText s) \<longleftrightarrow> True"
| "fits Date (PText s) \<longleftrightarrow> iso_date s"
| "fits Boolean (PBool b) \<longleftrightarrow> True"
| "fits _ _ \<longleftrightarrow> False"

text \<open>A column that a row must give a value to: a serial key fills itself.\<close>

definition must_give :: "column \<Rightarrow> bool" where
  "must_give c \<longleftrightarrow> co_rule c = NotNull \<or> co_rule c = PrimaryKey \<and> co_type c \<noteq> Bigserial"

definition stmt_accepted :: "catalogue \<Rightarrow> sql_stmt \<Rightarrow> bool" where
  "stmt_accepted cat s \<longleftrightarrow>
     (case cat (stmt_table s) of
        None \<Rightarrow> False
      | Some cs \<Rightarrow>
          distinct (stmt_columns s) \<and>
          list_all2 (\<lambda>n p. list_ex (\<lambda>c. co_name c = n \<and> fits (co_type c) p) cs) (stmt_columns s) (stmt_params s) \<and>
          list_all (\<lambda>c. must_give c \<longrightarrow> co_name c \<in> set (stmt_columns s)) cs \<and>
          (case stmt_conflict s of
             None \<Rightarrow> True | Some n \<Rightarrow> list_ex (\<lambda>c. co_name c = n \<and> co_rule c = PrimaryKey) cs))"


section \<open>What the schema text makes of a database\<close>

definition schema_tables :: "string list" where
  "schema_tables = [''trades'', ''position_snapshots'', ''system_events'', ''daily_pnl'']"

definition created_cols :: "string \<Rightarrow> column list" where
  "created_cols t = concat (map (\<lambda>d. case d of CreateTable u cs \<Rightarrow> if u = t then cs else [] | _ \<Rightarrow> []) kSchemaSql)"

definition added_cols :: "string \<Rightarrow> column list" where
  "added_cols t = concat (map (\<lambda>d. case d of AddColumn u c \<Rightarrow> if u = t then [c] else [] | _ \<Rightarrow> []) kSchemaSql)"

text \<open>The columns of a table between the first release and this one.\<close>

definition released :: "string \<Rightarrow> column list \<Rightarrow> bool" where
  "released t cs \<longleftrightarrow> set (created_cols t) \<subseteq> set cs \<and> set cs \<subseteq> set (created_cols t) \<union> set (added_cols t)"

text \<open>An empty database, or one set up by this or an earlier release.\<close>

definition earlier_release :: "catalogue \<Rightarrow> bool" where
  "earlier_release cat \<longleftrightarrow> (\<forall>t \<in> set schema_tables. \<forall>cs. cat t = Some cs \<longrightarrow> released t cs)"

definition has_schema :: "catalogue \<Rightarrow> bool" where
  "has_schema cat \<longleftrightarrow>
     (\<forall>t \<in> set schema_tables. \<exists>cs. cat t = Some cs \<and> set cs = set (created_cols t) \<union> set (added_cols t))"

text \<open>
  The text creates a table before it uses it, each once, and no two columns of a table share a name.
\<close>

fun ddl_wf :: "string list \<Rightarrow> ddl list \<Rightarrow> bool" where
  "ddl_wf made [] \<longleftrightarrow> True"
| "ddl_wf made (CreateTable t cs # ds) \<longleftrightarrow> t \<in> set schema_tables \<and> cs = created_cols t \<and> ddl_wf (t # made) ds"
| "ddl_wf made (CreateIndex t n # ds) \<longleftrightarrow> t \<in> set made \<and> t \<in> set schema_tables \<and> n \<in> co_name ` set (created_cols t) \<and> ddl_wf made ds"
| "ddl_wf made (AddColumn t c # ds) \<longleftrightarrow> t \<in> set made \<and> t \<in> set schema_tables \<and> c \<in> set (added_cols t) \<and> ddl_wf made ds"

lemma kSchemaSql_wf: "ddl_wf [] kSchemaSql"
  by code_simp

lemma column_names_distinct: "t \<in> set schema_tables \<Longrightarrow> distinct (map co_name (created_cols t @ added_cols t))"
proof -
  have "list_all (\<lambda>t. distinct (map co_name (created_cols t @ added_cols t))) schema_tables"
    by code_simp
  then show "t \<in> set schema_tables \<Longrightarrow> ?thesis"
    by (simp only: list_all_iff Ball_def)
qed

lemma column_by_name:
  assumes "t \<in> set schema_tables" and "released t cs" and "c \<in> set (added_cols t)"
    and "d \<in> set cs" and "co_name d = co_name c"
  shows "d = c"
proof -
  have "inj_on co_name (set (created_cols t @ added_cols t))"
    using column_names_distinct [OF assms(1)] by (simp only: distinct_map)
  moreover have "d \<in> set (created_cols t @ added_cols t)" "c \<in> set (created_cols t @ added_cols t)"
    using assms(2-4) by (auto simp: released_def)
  ultimately show ?thesis
    using assms(5) by (blast dest: inj_onD)
qed

text \<open>A statement of the text succeeds, keeps the tables released and only adds to them.\<close>

lemma ddl_effect_released:
  assumes "ddl_wf made (d # ds)" and "earlier_release cat" and "\<forall>t \<in> set made. cat t \<noteq> None"
  shows "\<exists>cat' made'. ddl_effect d cat = Some cat' \<and> earlier_release cat' \<and> ddl_wf made' ds \<and>
    (\<forall>t \<in> set made'. cat' t \<noteq> None) \<and> (\<forall>t cs. cat t = Some cs \<longrightarrow> (\<exists>cs'. cat' t = Some cs' \<and> set cs \<subseteq> set cs')) \<and>
    (\<forall>t cs. d = CreateTable t cs \<longrightarrow> cat' t \<noteq> None) \<and>
    (\<forall>t c. d = AddColumn t c \<longrightarrow> (\<exists>cs. cat' t = Some cs \<and> c \<in> set cs))"
proof (cases d)
  case (CreateTable t cs)
  then have "released t cs" "ddl_wf (t # made) ds"
    using assms(1) by (auto simp: released_def)
  with assms(2,3) show ?thesis
    by (intro exI [of _ "if cat t = None then cat(t \<mapsto> cs) else cat"] exI [of _ "t # made"])
      (auto simp: CreateTable earlier_release_def)
next
  case (CreateIndex t n)
  then obtain cs where cs: "cat t = Some cs"
    using assms(1,3) by auto
  with assms(2) have "list_ex (\<lambda>c. co_name c = n) cs"
    using assms(1) CreateIndex by (fastforce simp: earlier_release_def released_def list_ex_iff)
  with assms cs show ?thesis
    by (intro exI [of _ cat] exI [of _ made]) (auto simp: CreateIndex)
next
  case (AddColumn t c)
  then obtain cs where cs: "cat t = Some cs" and t: "t \<in> set schema_tables" "c \<in> set (added_cols t)"
    using assms(1,3) by auto
  then have r: "released t cs"
    using assms(2) by (simp add: earlier_release_def)
  show ?thesis
  proof (cases "list_ex (\<lambda>d. co_name d = co_name c) cs")
    case True
    then have "c \<in> set cs"
      using column_by_name [OF t(1) r t(2)] by (auto simp: list_ex_iff)
    with True assms cs show ?thesis
      by (intro exI [of _ cat] exI [of _ made]) (auto simp: AddColumn)
  next
    case False
    moreover have "released t (cs @ [c])"
      using r t(2) by (auto simp: released_def)
    ultimately show ?thesis
      using assms cs by (intro exI [of _ "cat(t \<mapsto> cs @ [c])"] exI [of _ made]) (auto simp: AddColumn earlier_release_def)
  qed
qed

lemma run_ddl_released:
  assumes "ddl_wf made ds" and "earlier_release cat" and "\<forall>t \<in> set made. cat t \<noteq> None"
  shows "\<exists>cat'. run_ddl ds cat = Some cat' \<and> earlier_release cat' \<and>
    (\<forall>t cs. cat t = Some cs \<longrightarrow> (\<exists>cs'. cat' t = Some cs' \<and> set cs \<subseteq> set cs')) \<and>
    (\<forall>t cs. CreateTable t cs \<in> set ds \<longrightarrow> cat' t \<noteq> None) \<and>
    (\<forall>t c. AddColumn t c \<in> set ds \<longrightarrow> (\<exists>cs. cat' t = Some cs \<and> c \<in> set cs))"
  using assms
proof (induction ds arbitrary: made cat)
  case (Cons d ds)
  obtain cat1 made1 where 1: "ddl_effect d cat = Some cat1" "earlier_release cat1" "ddl_wf made1 ds"
    "\<forall>t \<in> set made1. cat1 t \<noteq> None" "\<forall>t cs. cat t = Some cs \<longrightarrow> (\<exists>cs'. cat1 t = Some cs' \<and> set cs \<subseteq> set cs')"
    "\<forall>t cs. d = CreateTable t cs \<longrightarrow> cat1 t \<noteq> None" "\<forall>t c. d = AddColumn t c \<longrightarrow> (\<exists>cs. cat1 t = Some cs \<and> c \<in> set cs)"
    using ddl_effect_released [OF Cons.prems] by blast
  obtain cat2 where 2: "run_ddl ds cat1 = Some cat2" "earlier_release cat2"
    "\<forall>t cs. cat1 t = Some cs \<longrightarrow> (\<exists>cs'. cat2 t = Some cs' \<and> set cs \<subseteq> set cs')"
    "\<forall>t cs. CreateTable t cs \<in> set ds \<longrightarrow> cat2 t \<noteq> None"
    "\<forall>t c. AddColumn t c \<in> set ds \<longrightarrow> (\<exists>cs. cat2 t = Some cs \<and> c \<in> set cs)"
    using Cons.IH [OF 1(3,2,4)] by blast
  have "\<forall>t cs. cat t = Some cs \<longrightarrow> (\<exists>cs'. cat2 t = Some cs' \<and> set cs \<subseteq> set cs')"
    using 1(5) 2(3) by (meson subset_trans)
  moreover have "\<forall>t cs. CreateTable t cs \<in> set (d # ds) \<longrightarrow> cat2 t \<noteq> None"
    using 1(6) 2(3,4) by fastforce
  moreover have "\<forall>t c. AddColumn t c \<in> set (d # ds) \<longrightarrow> (\<exists>cs. cat2 t = Some cs \<and> c \<in> set cs)"
    using 1(7) 2(3,5) by (metis set_ConsD subsetD)
  ultimately show ?case
    using 1(1) 2(1,2) by simp
qed simp

lemma in_added_cols: "c \<in> set (added_cols t) \<Longrightarrow> AddColumn t c \<in> set kSchemaSql"
  by (auto simp: added_cols_def split: ddl.splits if_splits)

lemma schema_tables_created: "t \<in> set schema_tables \<Longrightarrow> \<exists>cs. CreateTable t cs \<in> set kSchemaSql"
proof -
  have "list_all (\<lambda>t. list_ex (\<lambda>d. d = CreateTable t (created_cols t)) kSchemaSql) schema_tables"
    by code_simp
  then show "t \<in> set schema_tables \<Longrightarrow> ?thesis"
    by (auto simp only: list_all_iff list_ex_iff)
qed

lemma run_schema:
  assumes "earlier_release cat"
  shows "\<exists>cat'. run_ddl kSchemaSql cat = Some cat' \<and> has_schema cat'"
proof -
  obtain cat' where 1: "run_ddl kSchemaSql cat = Some cat'" "earlier_release cat'"
    "\<forall>t cs. CreateTable t cs \<in> set kSchemaSql \<longrightarrow> cat' t \<noteq> None"
    "\<forall>t c. AddColumn t c \<in> set kSchemaSql \<longrightarrow> (\<exists>cs. cat' t = Some cs \<and> c \<in> set cs)"
    using run_ddl_released [OF kSchemaSql_wf assms] by auto
  have "\<exists>cs. cat' t = Some cs \<and> set cs = set (created_cols t) \<union> set (added_cols t)" if t: "t \<in> set schema_tables" for t
  proof -
    obtain cs where cs: "cat' t = Some cs"
      using schema_tables_created [OF t] 1(3) by blast
    have "set (added_cols t) \<subseteq> set cs"
      using in_added_cols [of _ t] 1(4) cs by fastforce
    with 1(2) t cs show ?thesis
      by (auto simp: earlier_release_def released_def)
  qed
  with 1(1) show ?thesis
    by (auto simp: has_schema_def)
qed

text \<open>Run again, the text changes nothing.\<close>

lemma run_schema_again: "ddl_wf made ds \<Longrightarrow> has_schema cat \<Longrightarrow> run_ddl ds cat = Some cat"
proof (induction ds arbitrary: made)
  case (Cons d ds)
  have "ddl_effect d cat = Some cat \<and> (\<exists>made'. ddl_wf made' ds)"
    using Cons.prems by (cases d) (fastforce simp: has_schema_def list_ex_iff)+
  with Cons show ?case
    by auto
qed simp


section \<open>What the database stmt_accepted then\<close>

text \<open>The types of the named columns of a table of this release.\<close>

definition column_type :: "string \<Rightarrow> string \<Rightarrow> sql_type option" where
  "column_type t n = map_option co_type (find (\<lambda>c. co_name c = n) (created_cols t @ added_cols t))"

text \<open>The part of acceptance that does not depend on the parameters.\<close>

definition names_ok :: "sql_stmt \<Rightarrow> bool" where
  "names_ok s \<longleftrightarrow>
     (let full = created_cols (stmt_table s) @ added_cols (stmt_table s) in
      stmt_table s \<in> set schema_tables \<and> distinct (stmt_columns s) \<and>
      list_all (\<lambda>c. must_give c \<longrightarrow> co_name c \<in> set (stmt_columns s)) full \<and>
      (case stmt_conflict s of None \<Rightarrow> True | Some n \<Rightarrow> list_ex (\<lambda>c. co_name c = n \<and> co_rule c = PrimaryKey) full))"

lemma insert_names_ok:
  "names_ok (InsertTrade [])" "names_ok (InsertPosition [])" "names_ok (InsertEvent [])" "names_ok (UpsertDaily [])"
  by code_simp+

lemma insert_types:
  "map (column_type ''trades'') (stmt_columns (InsertTrade [])) =
     map Some [Bigint, Text, Smallint, Double, Double, Double, Text, Boolean]"
  "map (column_type ''position_snapshots'') (stmt_columns (InsertPosition [])) =
     map Some ([Bigint] @ replicate 18 Double @ [Integer])"
  "map (column_type ''system_events'') (stmt_columns (InsertEvent [])) = map Some [Bigint, Text, Text, Text, Text]"
  "map (column_type ''daily_pnl'') (stmt_columns (UpsertDaily [])) = map Some [Date, Double, Double, Double, Double]"
  by code_simp+

lemma find_Some_in: "find P xs = Some x \<Longrightarrow> x \<in> set xs \<and> P x"
  by (induction xs) (simp_all split: if_splits)

lemma accepts_by_type:
  assumes "has_schema cat" and "names_ok s"
    and "map (column_type (stmt_table s)) (stmt_columns s) = map Some tys" and "list_all2 fits tys (stmt_params s)"
  shows "stmt_accepted cat s"
proof -
  let ?t = "stmt_table s"
  let ?full = "created_cols ?t @ added_cols ?t"
  obtain cs where cs: "cat ?t = Some cs" "set cs = set ?full"
    using assms(1,2) by (auto simp: has_schema_def names_ok_def Let_def)
  have len: "length (stmt_columns s) = length tys" "length tys = length (stmt_params s)"
    using assms(3,4) by (auto dest: map_eq_imp_length_eq list_all2_lengthD)
  have "list_ex (\<lambda>c. co_name c = stmt_columns s ! i \<and> fits (co_type c) (stmt_params s ! i)) cs" if "i < length tys" for i
  proof -
    have "column_type ?t (stmt_columns s ! i) = Some (tys ! i)"
      using assms(3) that len(1) by (metis nth_map)
    then obtain c where f: "find (\<lambda>c. co_name c = stmt_columns s ! i) ?full = Some c" and ty: "co_type c = tys ! i"
      by (auto simp: column_type_def)
    note find_Some_in [OF f]
    moreover have "fits (tys ! i) (stmt_params s ! i)"
      using assms(4) that by (rule list_all2_nthD)
    ultimately show ?thesis
      using cs(2) ty unfolding list_ex_iff by (intro bexI [of _ c]) simp_all
  qed
  then have "list_all2 (\<lambda>n p. list_ex (\<lambda>c. co_name c = n \<and> fits (co_type c) p) cs) (stmt_columns s) (stmt_params s)"
    using len by (simp add: list_all2_conv_all_nth)
  then show ?thesis
    using assms(2) cs unfolding stmt_accepted_def names_ok_def Let_def list_ex_iff list_all_iff by (auto split: option.splits)
qed

text \<open>The ranges of the C++ fields: \<open>int8_t\<close>, \<open>int32_t\<close>, and a date of four-digit year.\<close>

fun event_in_range :: "db_event \<Rightarrow> bool" where
  "event_in_range (DbTrade t) \<longleftrightarrow> int_fits 8 (dt_side t)"
| "event_in_range (DbPosition s) \<longleftrightarrow> int_fits 32 (dp_open_orders s)"
| "event_in_range (DbSystem e) \<longleftrightarrow> True"
| "event_in_range (DbDaily d) \<longleftrightarrow> 0 \<le> dd_date d \<and> dd_date d < 100000000"

lemma sint_fits: "int_fits 64 (sint (x :: u64))"
  using sint_range_size [of x] by (simp add: word_size)

lemma iso_date_of_int:
  assumes "0 \<le> d" and "d < 100000000"
  shows "iso_date (date_int_to_iso d)"
proof -
  let ?y = "fmt_0d 4 (d div 10000)" and ?m = "fmt_0d 2 (d div 100 mod 100)" and ?d = "fmt_0d 2 (d mod 100)"
  have t: "trunc_div d n = d div n" "trunc_mod d n = d mod n" "trunc_mod (d div 100) n = d div 100 mod n" if "0 < n" for n
    using assms(1) that by (simp_all add: trunc_mod_def trunc_div_def sgn_if minus_mult_div_eq_mod pos_imp_zdiv_nonneg_iff)
  have l: "length ?y = 4" "list_all is_digit ?y" "length ?m = 2" "list_all is_digit ?m" "length ?d = 2" "list_all is_digit ?d"
    using fmt_0d_digits [of "d div 10000" 4] fmt_0d_digits [of "d div 100 mod 100" 2] fmt_0d_digits [of "d mod 100" 2] assms
    by simp_all
  have "date_int_to_iso d = ?y @ ''-'' @ ?m @ ''-'' @ ?d"
    using l(1,3,5) by (simp add: date_int_to_iso_def t c_buf_def)
  with l show ?thesis
    by (simp add: iso_date_def nth_append)
qed

lemmas stmt_simps = stmt_table.simps stmt_columns.simps stmt_params.simps stmt_conflict.simps

lemma accepts_inserts:
  assumes "has_schema cat"
  shows "list_all2 fits [Bigint, Text, Smallint, Double, Double, Double, Text, Boolean] ps \<Longrightarrow> stmt_accepted cat (InsertTrade ps)"
    and "list_all2 fits ([Bigint] @ replicate 18 Double @ [Integer]) ps \<Longrightarrow> stmt_accepted cat (InsertPosition ps)"
    and "list_all2 fits [Bigint, Text, Text, Text, Text] ps \<Longrightarrow> stmt_accepted cat (InsertEvent ps)"
    and "list_all2 fits [Date, Double, Double, Double, Double] ps \<Longrightarrow> stmt_accepted cat (UpsertDaily ps)"
  by (rule accepts_by_type [OF assms],
      use insert_names_ok in \<open>simp only: names_ok_def stmt_simps\<close>,
      use insert_types in \<open>simp only: stmt_simps\<close>, simp only: stmt_simps)+

lemma schema_accepts:
  assumes "has_schema cat" and "event_in_range ev"
  shows "stmt_accepted cat (sql_of ev)"
proof (cases ev)
  case (DbTrade t)
  then show ?thesis
    using assms sint_fits [of "dt_ts_ns t"] by (auto intro!: accepts_inserts(1))
next
  case (DbPosition s)
  have "list_all2 fits ([Bigint] @ replicate 18 Double @ [Integer]) (stmt_params (sql_of ev))"
    using assms(2) sint_fits [of "dp_ts_ns s"] by (simp add: DbPosition numeral_eq_Suc)
  then show ?thesis
    using accepts_inserts(2) [OF assms(1)] by (simp only: DbPosition sql_of.simps stmt_params.simps)
next
  case (DbSystem e)
  then show ?thesis
    using assms sint_fits [of "de_ts_ns e"] by (auto intro!: accepts_inserts(3))
next
  case (DbDaily d)
  then show ?thesis
    using assms iso_date_of_int [of "dd_date d"] by (auto intro!: accepts_inserts(4))
qed

lemma empty_rejects: "cat = Map.empty \<Longrightarrow> \<not> stmt_accepted cat s"
  by (simp add: stmt_accepted_def)

end
