(* ===== verification/PgStart.thy ===== *)
theory PgStart
  imports PgSchema
begin

text \<open>
  \<open>PgReporter\<close> against a database with tables.  A reporter started on a healthy server writes what a dry
  run of the same history would collect; one whose schema creation failed at the start never makes up
  for it, whatever the log message \<open>retry_on_first_flush\<close> says.
\<close>

section \<open>The server\<close>

text \<open>
  What is relied on: connecting leaves the tables alone, the schema text either takes its effect or none,
  and a transaction that commits had every statement accepted.
\<close>

definition pg_catalogue :: "'w pg_server \<Rightarrow> ('w \<Rightarrow> catalogue) \<Rightarrow> bool" where
  "pg_catalogue sv cat \<longleftrightarrow>
     (\<forall>w. cat (snd (sv_connect sv w)) = cat w) \<and>
     (\<forall>w. if fst (sv_schema sv w) then run_ddl kSchemaSql (cat w) = Some (cat (snd (sv_schema sv w)))
          else cat (snd (sv_schema sv w)) = cat w) \<and>
     (\<forall>ss w. cat (snd (sv_txn sv ss w)) = cat w) \<and>
     (\<forall>ss w. fst (sv_txn sv ss w) \<longrightarrow> list_all (stmt_accepted (cat w)) ss)"

text \<open>A server that refuses nothing it could accept.\<close>

definition pg_healthy :: "'w pg_server \<Rightarrow> ('w \<Rightarrow> catalogue) \<Rightarrow> bool" where
  "pg_healthy sv cat \<longleftrightarrow> pg_catalogue sv cat \<and> (\<forall>w. fst (sv_connect sv w)) \<and>
     (\<forall>w. run_ddl kSchemaSql (cat w) \<noteq> None \<longrightarrow> fst (sv_schema sv w)) \<and>
     (\<forall>ss w. list_all (stmt_accepted (cat w)) ss \<longrightarrow> fst (sv_txn sv ss w))"

text \<open>A server that can be reached from now on.\<close>

definition stays_up :: "'w pg_server \<Rightarrow> ('w \<Rightarrow> bool) \<Rightarrow> bool" where
  "stays_up sv alive \<longleftrightarrow> (\<forall>w. alive w \<longrightarrow> fst (sv_connect sv w) \<and> alive (snd (sv_connect sv w)) \<and>
     alive (snd (sv_schema sv w)) \<and> (\<forall>ss. alive (snd (sv_txn sv ss w))))"

text \<open>The consumer thread of a started reporter.\<close>

definition pg_thread_start :: "'w pg_server \<Rightarrow> reporter_cfg \<Rightarrow> string \<Rightarrow> clock \<Rightarrow> 'w \<Rightarrow> 'w pg_thread" where
  "pg_thread_start sv rc dsn ck w =
     (let (r, w) = pg_start sv rc (pg_init dsn, w)
      in (pg_thread_init dsn ck w)\<lparr>th_rep := r, th_world := w\<rparr>)"


section \<open>The consumer between two flushes\<close>

text \<open>Collecting touches only the day's row of the reporter.\<close>

definition day_only :: "pg_reporter \<Rightarrow> pg_reporter \<Rightarrow> bool" where
  "day_only r r' \<longleftrightarrow> r' = r\<lparr>pg_day := pg_day r', pg_last_date := pg_last_date r'\<rparr>"

lemma day_only_refl [simp]: "day_only r r"
  by (simp add: day_only_def)

lemma day_only_trans: "day_only a b \<Longrightarrow> day_only b c \<Longrightarrow> day_only a c"
  by (cases a; cases b; cases c) (simp add: day_only_def)

lemma take_event_day_only: "day_only r (snd (take_event e (batch, r)))"
  by (cases r; cases e)
    (auto simp: day_only_def take_event_simps update_daily_current_def split: option.split)

lemma fold_take_event_day_only: "day_only r (snd (fold take_event evs (batch, r)))"
proof (induction evs arbitrary: batch r)
  case (Cons e evs)
  obtain b1 r1 where "take_event e (batch, r) = (b1, r1)"
    by fastforce
  then show ?case
    using Cons.IH [of r1 b1] take_event_day_only [of r e batch] by (auto intro: day_only_trans)
qed simp


section \<open>A schema that was missed\<close>

text \<open>The tables do not exist, the server is up, and nothing has been written since \<open>T\<close>.\<close>

definition no_tables :: "('w \<Rightarrow> catalogue) \<Rightarrow> ('w \<Rightarrow> bool) \<Rightarrow> ('w \<Rightarrow> sql_stmt list) \<Rightarrow> sql_stmt list \<Rightarrow> 'w \<Rightarrow> bool" where
  "no_tables cat alive tab T w \<longleftrightarrow> cat w = Map.empty \<and> alive w \<and> tab w = T"

lemma missed_ensure:
  assumes "pg_atomic sv tab" "pg_catalogue sv cat" "stays_up sv alive"
    and "no_tables cat alive tab T w" and "idx < length (pg_pool r)" and "\<not> pg_dry r"
  shows "\<exists>w'. ensure_conn sv idx (r, w) = (True, r\<lparr>pg_pool := (pg_pool r)[idx := True]\<rparr>, w') \<and> no_tables cat alive tab T w'"
proof (cases "pg_pool r ! idx")
  case True
  then have "(pg_pool r)[idx := True] = pg_pool r"
    by (metis list_update_id)
  with True assms(4-6) show ?thesis
    by (simp add: ensure_conn_def)
next
  case False
  have "fst (sv_connect sv w)" "no_tables cat alive tab T (snd (sv_connect sv w))"
    using assms(1-4) by (simp_all add: no_tables_def pg_atomic_def pg_catalogue_def stays_up_def)
  with False assms(5,6) show ?thesis
    by (auto simp: ensure_conn_def case_prod_beta)
qed

lemma missed_txn:
  assumes "pg_atomic sv tab" "pg_catalogue sv cat" "stays_up sv alive"
    and "no_tables cat alive tab T w" and "ss \<noteq> []"
  shows "\<exists>w'. sv_txn sv ss w = (False, w') \<and> no_tables cat alive tab T w'"
proof -
  have "\<not> list_all (stmt_accepted (cat w)) ss"
    using assms(4,5) by (cases ss) (simp_all add: no_tables_def empty_rejects)
  then have "\<not> fst (sv_txn sv ss w)"
    using assms(2) unfolding pg_catalogue_def by blast
  moreover have "tab (snd (sv_txn sv ss w)) = tab w @ (if fst (sv_txn sv ss w) then ss else [])"
    using assms(1) unfolding pg_atomic_def by blast
  moreover have "cat (snd (sv_txn sv ss w)) = cat w" "alive (snd (sv_txn sv ss w))"
    using assms(2-4) by (simp_all add: pg_catalogue_def stays_up_def no_tables_def)
  ultimately show ?thesis
    using assms(4) by (intro exI [of _ "snd (sv_txn sv ss w)"]) (auto simp: no_tables_def prod_eq_iff)
qed

lemma missed_batch:
  assumes "pg_atomic sv tab" "pg_catalogue sv cat" "stays_up sv alive" "no_tables cat alive tab T w" and "evs \<noteq> []"
  shows "\<exists>w'. try_whole_batch sv evs (r, w) = (False, r\<lparr>pg_poison := False\<rparr>, w') \<and> no_tables cat alive tab T w'"
proof -
  have "(if pg_poison r then [PoisonInsert] else []) @ map sql_of evs \<noteq> []"
    using assms(5) by simp
  from missed_txn [OF assms(1-4) this] show ?thesis
    by (auto simp: try_whole_batch_def)
qed

text \<open>Every row of the fallback fails too, and is counted as dropped.\<close>

lemma missed_rows:
  assumes "pg_atomic sv tab" "pg_catalogue sv cat" "stays_up sv alive"
    and "no_tables cat alive tab T w" and "idx < length (pg_pool r)" and "\<not> pg_dry r"
  shows "\<exists>p w'. flush_rows sv idx evs (a, b) (r, w) = ((a, b + length evs), r\<lparr>pg_pool := p\<rparr>, w') \<and>
    no_tables cat alive tab T w' \<and> length p = length (pg_pool r) \<and> (pg_pool r ! 0 \<longrightarrow> p ! 0)"
  using assms(4-6)
proof (induction evs arbitrary: b r w)
  case Nil
  then show ?case
    by (intro exI [of _ "pg_pool r"]) simp
next
  case (Cons ev evs)
  obtain w1 where 1: "sv_txn sv [sql_of ev] w = (False, w1)" "no_tables cat alive tab T w1"
    using missed_txn [OF assms(1-3) Cons.prems(1), of "[sql_of ev]"] by auto
  let ?r1 = "r\<lparr>pg_pool := (pg_pool r)[idx := False]\<rparr>" and ?r2 = "r\<lparr>pg_pool := (pg_pool r)[idx := True]\<rparr>"
  obtain w2 where 2: "ensure_conn sv idx (?r1, w1) = (True, ?r2, w2)" "no_tables cat alive tab T w2"
    using missed_ensure [OF assms(1-3) 1(2), of idx ?r1] Cons.prems(2,3) by auto
  obtain p w' where 3: "flush_rows sv idx evs (a, b + 1) (?r2, w2) = ((a, b + 1 + length evs), ?r2\<lparr>pg_pool := p\<rparr>, w')"
    "no_tables cat alive tab T w'" "length p = length (pg_pool r)" "(pg_pool r)[idx := True] ! 0 \<longrightarrow> p ! 0"
    using Cons.IH [OF 2(2), of ?r2 "b + 1"] Cons.prems(2,3) by auto
  have "pg_pool r ! 0 \<longrightarrow> p ! 0"
    using 3(4) Cons.prems(2) by (cases idx; cases "pg_pool r") simp_all
  with 1 2 3 show ?case
    by (intro exI [of _ p] exI [of _ w']) (simp add: exec_one_event_def reset_conn_def)
qed

lemma nth_0_update_True: "xs ! 0 \<Longrightarrow> xs[i := True] ! 0"
  by (cases xs; cases i) simp_all

lemma missed_attempts:
  assumes "pg_atomic sv tab" "pg_catalogue sv cat" "stays_up sv alive"
    and "no_tables cat alive tab T w" and "idx < length (pg_pool r)" and "\<not> pg_dry r" and "evs \<noteq> []"
  shows "\<exists>p w'. flush_attempts sv idx evs (r, w) = ((True, []), r\<lparr>pg_pool := p, pg_poison := False,
      pg_dropped := pg_dropped r + of_nat (length evs), pg_failures := 0\<rparr>, w') \<and>
    no_tables cat alive tab T w' \<and> length p = length (pg_pool r) \<and> (pg_pool r ! 0 \<longrightarrow> p ! 0)"
proof -
  let ?r1 = "r\<lparr>pg_poison := False\<rparr>" and ?r2 = "r\<lparr>pg_poison := False, pg_pool := (pg_pool r)[idx := True]\<rparr>"
  have p: "(pg_pool r)[idx := True, idx := False, idx := True] = (pg_pool r)[idx := True]"
    "(pg_pool r)[idx := False, idx := True] = (pg_pool r)[idx := True]"
    by simp_all
  obtain w1 where 1: "try_whole_batch sv evs (r, w) = (False, ?r1, w1)" "no_tables cat alive tab T w1"
    using missed_batch [OF assms(1-4,7)] by blast
  obtain w2 where 2: "ensure_conn sv idx (reset_conn idx (?r1, w1)) = (True, ?r2, w2)" "no_tables cat alive tab T w2"
    using missed_ensure [OF assms(1-3) 1(2), of idx "?r1\<lparr>pg_pool := (pg_pool r)[idx := False]\<rparr>"] assms(5,6)
    by (auto simp: reset_conn_def)
  obtain w3 where 3: "try_whole_batch sv evs (?r2, w2) = (False, ?r2, w3)" "no_tables cat alive tab T w3"
    using missed_batch [OF assms(1-3) 2(2) assms(7), of ?r2] by auto
  obtain w4 where 4: "ensure_conn sv idx (reset_conn idx (?r2, w3)) = (True, ?r2, w4)" "no_tables cat alive tab T w4"
    using missed_ensure [OF assms(1-3) 3(2), of idx "?r2\<lparr>pg_pool := (pg_pool r)[idx := False]\<rparr>"] assms(5,6)
    by (auto simp: reset_conn_def p)
  obtain q w' where 5: "flush_rows sv idx evs (0, 0) (?r2, w4) = ((0, 0 + length evs), ?r2\<lparr>pg_pool := q\<rparr>, w')"
    "no_tables cat alive tab T w'" "length q = length (pg_pool ?r2)" "pg_pool ?r2 ! 0 \<longrightarrow> q ! 0"
    using missed_rows [OF assms(1-3) 4(2), of idx ?r2 evs 0 0] assms(5,6) by auto
  show ?thesis
    by (intro exI [of _ q] exI [of _ w'])
      (use 1 2 3 4 5 nth_0_update_True [of "pg_pool r" idx] in \<open>simp add: flush_attempts_def flush_fallback_def\<close>)
qed

text \<open>
  The pool's first connection is open, or is the next to be used; either way the retry of the schema in
  \<open>flush_batch\<close> (for another connection, while the first is closed) is not reached.
\<close>

definition missed :: "('w \<Rightarrow> catalogue) \<Rightarrow> ('w \<Rightarrow> bool) \<Rightarrow> ('w \<Rightarrow> sql_stmt list) \<Rightarrow> sql_stmt list \<Rightarrow> 'w pg_state \<Rightarrow> bool" where
  "missed cat alive tab T st \<longleftrightarrow>
     (let (r, w) = st in no_tables cat alive tab T w \<and> \<not> pg_dry r \<and> pg_pool r \<noteq> [] \<and> pg_flushed r = 0 \<and>
       (pg_pool r ! 0 \<or> pg_next r mod length (pg_pool r) = 0))"

lemma missed_flush:
  assumes "pg_atomic sv tab" "pg_catalogue sv cat" "stays_up sv alive" and "missed cat alive tab T (r, w)"
  shows "\<exists>r' w'. flush_batch sv evs (r, w) = ((True, []), r', w') \<and> missed cat alive tab T (r', w') \<and>
    pg_dropped r' = pg_dropped r + of_nat (length evs) \<and> pg_day r' = pg_day r"
proof (cases "evs = []")
  case True
  then show ?thesis
    using assms(4) by (simp add: flush_batch_def)
next
  case False
  define n where "n = length (pg_pool r)"
  define idx where "idx = pg_next r mod n"
  have r: "no_tables cat alive tab T w" "\<not> pg_dry r" "0 < n" "idx < n" "pg_flushed r = 0" "pg_pool r ! 0 \<or> idx = 0"
    "pool_nonempty r = r"
    using assms(4) by (simp_all add: missed_def n_def idx_def pool_nonempty_def)
  let ?r1 = "r\<lparr>pg_next := (pg_next r + 1) mod n, pg_pool := (pg_pool r)[idx := True]\<rparr>"
  obtain w1 where 1: "ensure_conn sv idx (r\<lparr>pg_next := (pg_next r + 1) mod n\<rparr>, w) = (True, ?r1, w1)"
    "no_tables cat alive tab T w1"
    using missed_ensure [OF assms(1-3) r(1), of idx "r\<lparr>pg_next := (pg_next r + 1) mod n\<rparr>"] r(2,4) by (auto simp: n_def)
  have first: "pg_pool ?r1 ! 0"
    using r(3,4,6) nth_0_update_True [of "pg_pool r" idx] by (cases "idx = 0") (simp_all add: n_def)
  obtain p w2 where 2: "flush_attempts sv idx evs (?r1, w1) = ((True, []), ?r1\<lparr>pg_pool := p, pg_poison := False,
      pg_dropped := pg_dropped r + of_nat (length evs), pg_failures := 0\<rparr>, w2)"
    "no_tables cat alive tab T w2" "length p = n" "p ! 0"
    using missed_attempts [OF assms(1-3) 1(2), of idx ?r1 evs] r(2,4) first False by (auto simp: n_def)
  have "flush_batch sv evs (r, w) = flush_attempts sv idx evs (?r1, w1)"
    using False r(2,7) 1(1) first by (simp add: flush_batch_def Let_def flip: n_def idx_def)
  with 2 r show ?thesis
    by (intro exI) (auto simp: missed_def)
qed

lemma missed_cong:
  "missed cat alive tab T (r, w) \<Longrightarrow> missed cat alive tab T (r\<lparr>pg_pending := n\<rparr>, w)"
  "missed cat alive tab T (r, w) \<Longrightarrow> day_only r r' \<Longrightarrow> missed cat alive tab T (r', w)"
proof -
  show "missed cat alive tab T (r, w) \<Longrightarrow> missed cat alive tab T (r\<lparr>pg_pending := n\<rparr>, w)"
    by (simp add: missed_def)
  show "missed cat alive tab T (r, w) \<Longrightarrow> missed cat alive tab T (r', w)" if "day_only r r'"
    using that unfolding day_only_def by (cases r; cases r') (simp add: missed_def)
qed

lemma missed_flush_round:
  assumes "pg_atomic sv tab" "pg_catalogue sv cat" "stays_up sv alive" and "missed cat alive tab T (th_rep t, th_world t)"
  shows "missed cat alive tab T (th_rep (flush_round sv rc t), th_world (flush_round sv rc t)) \<and>
    th_ring (flush_round sv rc t) = th_ring t"
proof -
  obtain r' w' where "flush_batch sv (th_batch t) (th_rep t, th_world t) = ((True, []), r', w')" "missed cat alive tab T (r', w')"
    using missed_flush [OF assms] by blast
  then show ?thesis
    using assms(4) by (simp add: flush_round_def Let_def missed_cong(1))
qed

lemma missed_consumer_round:
  assumes "pg_atomic sv tab" "pg_catalogue sv cat" "stays_up sv alive"
    and "missed cat alive tab T (th_rep t, th_world t)" and "ring_ok (th_ring t)"
  shows "\<exists>t'. consumer_round sv rc t = Some t' \<and> missed cat alive tab T (th_rep t', th_world t') \<and> ring_ok (th_ring t')"
proof -
  obtain got' batch' r' ring' evs where c: "collect (batch_cap rc) (False, th_batch t, th_rep t, th_ring t) =
      Some (got', batch', r', ring')" "(batch', r') = fold take_event evs (th_batch t, th_rep t)" "ring_ok ring'"
    using collect_spec [OF assms(5)] by blast
  have "day_only (th_rep t) r'"
    using fold_take_event_day_only [of "th_rep t" evs "th_batch t"] by (simp flip: c(2))
  then have m: "missed cat alive tab T (r'\<lparr>pg_pending := of_nat (length batch')\<rparr>, th_world t)"
    using assms(4) by (blast intro: missed_cong)
  let ?t = "t\<lparr>th_batch := batch', th_ring := ring', th_rep := r'\<lparr>pg_pending := of_nat (length batch')\<rparr>\<rparr>"
  have "missed cat alive tab T (th_rep (flush_round sv rc ?t), th_world (flush_round sv rc ?t)) \<and> th_ring (flush_round sv rc ?t) = ring'"
    using missed_flush_round [OF assms(1-3), of T ?t rc] m by simp
  then show ?thesis
    using c(1,3) by (simp add: consumer_round_def)
qed

lemma missed_run:
  assumes "pg_atomic sv tab" "pg_catalogue sv cat" "stays_up sv alive"
    and "missed cat alive tab T (th_rep t, th_world t)" and "ring_ok (th_ring t)"
  shows "\<exists>es t'. pg_run sv rc ops t = Some (es, t') \<and> missed cat alive tab T (th_rep t', th_world t') \<and> ring_ok (th_ring t')"
  using assms(4,5)
proof (induction ops arbitrary: t)
  case (Cons op ops)
  show ?case
  proof (cases op)
    case (PgPush e)
    obtain ok ring where p: "ring_push (th_ring t) e = (ok, ring)"
      by fastforce
    then have "ring_ok ring"
      using rq.enq_cases [of "th_ring t" e] Cons.prems(2) by auto
    then obtain es t' where "pg_run sv rc ops (t\<lparr>th_ring := ring\<rparr>) = Some (es, t')"
      "missed cat alive tab T (th_rep t', th_world t')" "ring_ok (th_ring t')"
      using Cons.IH [of "t\<lparr>th_ring := ring\<rparr>"] Cons.prems(1) by auto
    then show ?thesis
      by (simp add: PgPush p)
  next
    case PgRound
    obtain t1 where "consumer_round sv rc t = Some t1" "missed cat alive tab T (th_rep t1, th_world t1)" "ring_ok (th_ring t1)"
      using missed_consumer_round [OF assms(1-3) Cons.prems] by blast
    with Cons.IH [of t1] show ?thesis
      by (simp add: PgRound)
  qed
qed simp

lemma missed_stop:
  assumes "pg_atomic sv tab" "pg_catalogue sv cat" "stays_up sv alive"
    and "missed cat alive tab T (th_rep t, th_world t)" and "ring_ok (th_ring t)"
  shows "\<exists>t'. consumer_stop sv t = Some t' \<and> missed cat alive tab T (th_rep t', th_world t')"
proof -
  obtain ring' where d: "drain ring_pop (th_ring t) = Some (ring_items (th_ring t), ring')"
    using drain_ring [OF assms(5)] by blast
  have "missed cat alive tab T ((th_rep t)\<lparr>pg_day := None\<rparr>, th_world t)"
    using assms(4) by (simp add: missed_def)
  moreover define evs where
    "evs = (th_batch t @ (case pg_day (th_rep t) of None \<Rightarrow> [] | Some d \<Rightarrow> [DbDaily d])) @ ring_items (th_ring t)"
  ultimately obtain r' w' where "flush_batch sv evs ((th_rep t)\<lparr>pg_day := None\<rparr>, th_world t) = ((True, []), r', w')"
    "missed cat alive tab T (r', w')"
    using missed_flush [OF assms(1-3)] by blast
  then show ?thesis
    using d by (simp add: consumer_stop_def Let_def evs_def)
qed


section \<open>Starting\<close>

lemma ensure_conn_pool:
  "\<exists>p w'. snd (ensure_conn sv idx (r, w)) = (r\<lparr>pg_pool := p\<rparr>, w') \<and> length p = length (pg_pool r)"
  by (auto simp: ensure_conn_def case_prod_beta Let_def intro: exI [of _ "pg_pool r"] exI [of _ "(pg_pool r)[idx := True]"])

lemma connect_all_pool:
  "\<exists>p w'. connect_all sv is (r, w) = (r\<lparr>pg_pool := p\<rparr>, w') \<and> length p = length (pg_pool r)"
proof (induction "is" arbitrary: r w)
  case Nil
  show ?case
    by (intro exI [of _ "pg_pool r"]) simp
next
  case (Cons i "is")
  obtain p w1 where 1: "snd (ensure_conn sv i (r, w)) = (r\<lparr>pg_pool := p\<rparr>, w1)" "length p = length (pg_pool r)"
    using ensure_conn_pool [of sv i r w] by blast
  with Cons [of "r\<lparr>pg_pool := p\<rparr>" w1] show ?case
    by auto
qed

lemma create_schema_pool_only:
  "pg_pool r \<noteq> [] \<Longrightarrow> \<exists>p w'. snd (create_schema_internal sv (r, w)) = (r\<lparr>pg_pool := p\<rparr>, w') \<and> length p = length (pg_pool r)"
  using ensure_conn_pool [of sv 0 r w]
  by (cases "pg_dry r")
    (auto simp: create_schema_internal_def pool_nonempty_def case_prod_beta Let_def intro: exI [of _ "pg_pool r"])

lemma pg_thread_start_state:
  assumes "dsn \<noteq> []"
  shows "\<exists>p w'. pg_thread_start sv rc dsn ck w = (pg_thread_init dsn ck w)\<lparr>th_rep := (pg_init dsn)\<lparr>pg_pool := p\<rparr>, th_world := w'\<rparr> \<and>
    pg_start sv rc (pg_init dsn, w) = ((pg_init dsn)\<lparr>pg_pool := p\<rparr>, w') \<and> p \<noteq> []"
proof -
  define n where "n = nat (max 1 (rp_pg_pool_min rc))"
  let ?r = "(pg_init dsn)\<lparr>pg_pool := replicate n False\<rparr>"
  have dry: "\<not> pg_dry (pg_init dsn)" "pg_pool (pg_init dsn) = []"
    using assms by (simp_all add: pg_init_def)
  obtain p1 w1 where 1: "connect_all sv [0..<n] (?r, w) = (?r\<lparr>pg_pool := p1\<rparr>, w1)" "length p1 = n"
    using connect_all_pool [of sv "[0..<n]" ?r w] by auto
  have "0 < n"
    by (simp add: n_def)
  with 1(2) have "p1 \<noteq> []"
    by auto
  then obtain p2 w2 where 2: "snd (create_schema_internal sv (?r\<lparr>pg_pool := p1\<rparr>, w1)) = (?r\<lparr>pg_pool := p1, pg_pool := p2\<rparr>, w2)"
    "length p2 = n"
    using create_schema_pool_only [of "?r\<lparr>pg_pool := p1\<rparr>" sv w1] 1(2) by auto
  have s: "pg_start sv rc (pg_init dsn, w) = ((pg_init dsn)\<lparr>pg_pool := p2\<rparr>, w2)"
    using dry 1(1) 2(1) by (simp add: pg_start_def Let_def flip: n_def)
  moreover have "p2 \<noteq> []"
    using 2(2) \<open>0 < n\<close> by auto
  ultimately show ?thesis
    by (intro exI [of _ p2] exI [of _ w2]) (simp add: pg_thread_start_def pg_thread_init_def)
qed

lemma thread_ring_ok [simp]: "ring_ok (th_ring (pg_thread_init dsn ck w))" "ring_items (th_ring (pg_thread_init dsn ck w)) = []"
  using ring_init_ok [of 12 "DbDaily \<lparr>dd_date = 0, dd_realized = 0, dd_unrealized = 0, dd_fees = 0, dd_total = 0\<rparr>"]
  by (simp_all add: pg_thread_init_def)

text \<open>C37: a schema that could not be created at the start is never created: however many connections the
  pool has and although the server can be reached from then on, no history of pushes, consumer rounds
  and the final stop writes a row or counts one as flushed.\<close>

theorem missed_schema_loses_all:
  assumes "pg_atomic sv tab" and "pg_catalogue sv cat" and "stays_up sv alive" and "dsn \<noteq> []"
    and "pg_start sv rc (pg_init dsn, w) = (r0, w0)" and "cat w0 = Map.empty" and "alive w0"
  shows "\<exists>es t t'. pg_run sv rc ops (pg_thread_start sv rc dsn ck w) = Some (es, t) \<and> consumer_stop sv t = Some t' \<and>
    tab (th_world t') = tab w0 \<and> cat (th_world t') = Map.empty \<and> alive (th_world t') \<and> pg_flushed (th_rep t') = 0"
proof -
  let ?t0 = "pg_thread_start sv rc dsn ck w"
  obtain p w1 where s: "?t0 = (pg_thread_init dsn ck w)\<lparr>th_rep := (pg_init dsn)\<lparr>pg_pool := p\<rparr>, th_world := w1\<rparr>"
    "pg_start sv rc (pg_init dsn, w) = ((pg_init dsn)\<lparr>pg_pool := p\<rparr>, w1)" "p \<noteq> []"
    using pg_thread_start_state [OF assms(4), of sv rc ck w] by (elim exE conjE)
  have "th_rep ?t0 = (pg_init dsn)\<lparr>pg_pool := p\<rparr>" "th_world ?t0 = w0"
    using s(1,2) assms(5) by simp_all
  moreover have "missed cat alive tab (tab w0) ((pg_init dsn)\<lparr>pg_pool := p\<rparr>, w0)"
    using s(3) assms(4,6,7) by (simp add: missed_def no_tables_def pg_init_def)
  ultimately have "missed cat alive tab (tab w0) (th_rep ?t0, th_world ?t0)"
    by (simp only:)
  moreover have "ring_ok (th_ring ?t0)"
    using s(1) by simp
  ultimately obtain es t where t: "pg_run sv rc ops ?t0 = Some (es, t)"
    "missed cat alive tab (tab w0) (th_rep t, th_world t)" "ring_ok (th_ring t)"
    using missed_run [OF assms(1-3)] by blast
  obtain t' where t': "consumer_stop sv t = Some t'" "missed cat alive tab (tab w0) (th_rep t', th_world t')"
    using missed_stop [OF assms(1-3) t(2,3)] by blast
  from t'(2) have "tab (th_world t') = tab w0 \<and> cat (th_world t') = Map.empty \<and> alive (th_world t') \<and>
      pg_flushed (th_rep t') = 0"
    by (simp add: missed_def no_tables_def)
  with t(1) t'(1) show ?thesis
    by blast
qed


section \<open>A healthy server\<close>

text \<open>
  The reporter \<open>r\<close> in the state \<open>w\<close> of the server, and the dry reporter \<open>d\<close> that has seen the same events:
  the server holds the rows of what the dry run has collected.
\<close>

definition rep_mirrors ::
  "('w \<Rightarrow> catalogue) \<Rightarrow> ('w \<Rightarrow> sql_stmt list) \<Rightarrow> sql_stmt list \<Rightarrow> pg_reporter \<times> 'w \<Rightarrow> pg_reporter \<Rightarrow> bool" where
  "rep_mirrors cat tab T st d \<longleftrightarrow>
     (let (r, w) = st in \<not> pg_dry r \<and> pg_dry d \<and> pg_pool r \<noteq> [] \<and> \<not> pg_poison r \<and> pg_day d = pg_day r \<and>
       pg_last_date d = pg_last_date r \<and> pg_flushed d = pg_flushed r \<and> pg_dropped r = 0 \<and>
       has_schema (cat w) \<and> tab w = T @ map sql_of (pg_dry_flushed d))"

lemma healthy_ensure:
  assumes "pg_atomic sv tab" "pg_healthy sv cat" and "idx < length (pg_pool r)" and "\<not> pg_dry r"
  shows "\<exists>p w'. ensure_conn sv idx (r, w) = (True, r\<lparr>pg_pool := p\<rparr>, w') \<and> length p = length (pg_pool r) \<and>
    tab w' = tab w \<and> cat w' = cat w"
proof (cases "pg_pool r ! idx")
  case True
  then show ?thesis
    using assms(3,4) by (intro exI [of _ "pg_pool r"]) (simp add: ensure_conn_def)
next
  case False
  have "fst (sv_connect sv w)" "tab (snd (sv_connect sv w)) = tab w" "cat (snd (sv_connect sv w)) = cat w"
    using assms(1,2) by (simp_all add: pg_atomic_def pg_healthy_def pg_catalogue_def)
  with False assms(3,4) show ?thesis
    by (intro exI [of _ "(pg_pool r)[idx := True]"]) (auto simp: ensure_conn_def case_prod_beta)
qed

lemma healthy_schema:
  assumes "pg_atomic sv tab" "pg_healthy sv cat" and "pg_pool r \<noteq> []" and "\<not> pg_dry r" and "earlier_release (cat w)"
  shows "\<exists>p w'. create_schema_internal sv (r, w) = (True, r\<lparr>pg_pool := p\<rparr>, w') \<and> length p = length (pg_pool r) \<and>
    tab w' = tab w \<and> has_schema (cat w')"
proof -
  obtain p w1 where 1: "ensure_conn sv 0 (r, w) = (True, r\<lparr>pg_pool := p\<rparr>, w1)" "length p = length (pg_pool r)"
    "tab w1 = tab w" "cat w1 = cat w"
    using healthy_ensure [OF assms(1,2), of 0 r w] assms(3,4) by auto
  obtain cat' where c: "run_ddl kSchemaSql (cat w1) = Some cat'" "has_schema cat'"
    using run_schema [OF assms(5)] 1(4) by auto
  then have ok: "fst (sv_schema sv w1)"
    using assms(2) by (simp add: pg_healthy_def)
  then have "run_ddl kSchemaSql (cat w1) = Some (cat (snd (sv_schema sv w1)))"
    using assms(2) unfolding pg_healthy_def pg_catalogue_def by metis
  moreover have "tab (snd (sv_schema sv w1)) = tab w1"
    using assms(1) by (simp add: pg_atomic_def)
  ultimately show ?thesis
    using 1 c ok assms(3,4) by (auto simp: create_schema_internal_def pool_nonempty_def case_prod_beta)
qed

lemma has_schema_earlier: "has_schema cat \<Longrightarrow> earlier_release cat"
  by (fastforce simp: has_schema_def earlier_release_def released_def)

text \<open>A batch of events in range goes through at the first attempt.\<close>

lemma healthy_attempts:
  assumes "pg_atomic sv tab" "pg_healthy sv cat" "has_schema (cat w)" "list_all event_in_range evs" "\<not> pg_poison r"
  shows "\<exists>w'. flush_attempts sv idx evs (r, w) =
      ((True, []), r\<lparr>pg_flushed := pg_flushed r + of_nat (length evs), pg_failures := 0\<rparr>, w') \<and>
    tab w' = tab w @ map sql_of evs \<and> cat w' = cat w"
proof -
  let ?ss = "map sql_of evs"
  have "list_all (stmt_accepted (cat w)) ?ss"
    using schema_accepts [OF assms(3)] assms(4) by (simp add: list_all_iff)
  then have ok: "fst (sv_txn sv ?ss w)"
    using assms(2) by (simp add: pg_healthy_def)
  moreover have "tab (snd (sv_txn sv ?ss w)) = tab w @ (if fst (sv_txn sv ?ss w) then ?ss else [])"
    using assms(1) unfolding pg_atomic_def by blast
  moreover have "cat (snd (sv_txn sv ?ss w)) = cat w"
    using assms(2) by (simp add: pg_healthy_def pg_catalogue_def)
  ultimately show ?thesis
    using assms(5) by (cases r) (auto simp: flush_attempts_def try_whole_batch_def flushed_all_def case_prod_beta Let_def)
qed

lemma healthy_flush:
  assumes "pg_atomic sv tab" "pg_healthy sv cat" and "rep_mirrors cat tab T (r, w) d" and "list_all event_in_range evs"
  shows "\<exists>r' w' d'. flush_batch sv evs (r, w) = ((True, []), r', w') \<and> flush_batch sv evs (d, v) = ((True, []), d', v) \<and>
    rep_mirrors cat tab T (r', w') d' \<and> pg_day r' = pg_day r"
proof (cases "evs = []")
  case True
  then show ?thesis
    using assms(3) by (simp add: flush_batch_def)
next
  case False
  define n where "n = length (pg_pool r)"
  define idx where "idx = pg_next r mod n"
  have r: "\<not> pg_dry r" "idx < n" "\<not> pg_poison r" "pool_nonempty r = r" "has_schema (cat w)" "pg_dry d"
    using assms(3) by (simp_all add: rep_mirrors_def n_def idx_def pool_nonempty_def)
  let ?r1 = "r\<lparr>pg_next := (pg_next r + 1) mod n\<rparr>"
  obtain p w1 where 1: "ensure_conn sv idx (?r1, w) = (True, ?r1\<lparr>pg_pool := p\<rparr>, w1)" "length p = n" "tab w1 = tab w" "cat w1 = cat w"
    using healthy_ensure [OF assms(1,2), of idx ?r1 w] r(1,2) by (auto simp: n_def)
  obtain q w2 where 2: "create_schema_internal sv (?r1\<lparr>pg_pool := p\<rparr>, w1) = (True, ?r1\<lparr>pg_pool := q\<rparr>, w2)" "length q = n"
    "tab w2 = tab w" "has_schema (cat w2)"
    using healthy_schema [OF assms(1,2), of "?r1\<lparr>pg_pool := p\<rparr>" w1] 1 r has_schema_earlier by fastforce
  have f: "flush_batch sv evs (r, w) = (if \<not> p ! 0 \<and> idx \<noteq> 0 then flush_attempts sv idx evs (?r1\<lparr>pg_pool := q\<rparr>, w2)
      else flush_attempts sv idx evs (?r1\<lparr>pg_pool := p\<rparr>, w1))"
    using False r(1,4) 1(1) 2(1) by (simp add: flush_batch_def Let_def flip: n_def idx_def)
  obtain p' w' where p': "flush_batch sv evs (r, w) = flush_attempts sv idx evs (?r1\<lparr>pg_pool := p'\<rparr>, w')" "length p' = n"
    "tab w' = tab w" "has_schema (cat w')"
    using f 1 2 r(5) by (cases "\<not> p ! 0 \<and> idx \<noteq> 0") auto
  obtain w3 where "flush_attempts sv idx evs (?r1\<lparr>pg_pool := p'\<rparr>, w') = ((True, []),
      ?r1\<lparr>pg_pool := p', pg_flushed := pg_flushed r + of_nat (length evs), pg_failures := 0\<rparr>, w3)"
    "tab w3 = tab w' @ map sql_of evs" "cat w3 = cat w'"
    using healthy_attempts [OF assms(1,2) p'(4) assms(4), of "?r1\<lparr>pg_pool := p'\<rparr>" idx] r(3) by auto
  with p' False r(6) assms(3) show ?thesis
    by (auto simp: flush_batch_dry rep_mirrors_def n_def)
qed

lemma take_event_mirrors:
  assumes "rep_mirrors cat tab T (r, w) d" and "take_event e (batch, r) = (batch', r')"
    and "list_all event_in_range (batch @ day_rows r @ [e])"
  shows "\<exists>d'. take_event e (batch, d) = (batch', d') \<and> rep_mirrors cat tab T (r', w) d' \<and>
    list_all event_in_range (batch' @ day_rows r')"
proof (cases "is_daily e")
  case True
  then obtain x where "e = DbDaily x"
    by (cases e) simp_all
  with assms show ?thesis
    by (auto simp: take_event_simps rep_mirrors_def update_daily_current_def day_rows_def split: option.splits if_splits)
qed (use assms in \<open>auto simp: take_event_simps day_rows_def\<close>)

lemma collect_step:
  assumes "length batch < cap" and "ring_pop ring = Some (e, ring1)" and "take_event e (batch, r) = (b1, r1)"
  shows "collect cap (got, batch, r, ring) = collect cap (True, b1, r1, ring1)"
  unfolding collect.simps [of cap "(got, batch, r, ring)"] by (simp only: assms prod.case option.case if_True)

lemma collect_mirrors:
  assumes "rep_mirrors cat tab T (r, w) d" and "ring_ok ring" and "list_all event_in_range (batch @ day_rows r @ ring_items ring)"
  shows "\<exists>got' batch' r' d' ring'. collect cap (got, batch, r, ring) = Some (got', batch', r', ring') \<and>
    collect cap (got, batch, d, ring) = Some (got', batch', d', ring') \<and> rep_mirrors cat tab T (r', w) d' \<and> ring_ok ring' \<and>
    list_all event_in_range (batch' @ day_rows r' @ ring_items ring')"
  using assms
proof (induction "ring_items ring" arbitrary: got batch r d ring)
  case Nil
  then have "ring_pop ring = None"
    by (intro ring_pop_Nil) simp_all
  with Nil show ?case
    by (simp add: collect.simps)
next
  case (Cons e evs)
  show ?case
  proof (cases "length batch < cap")
    case False
    with Cons.prems show ?thesis
      by (simp add: collect.simps)
  next
    case True
    obtain ring1 where p: "ring_pop ring = Some (e, ring1)" "ring_ok ring1" "ring_items ring1 = evs"
      using ring_pop_Cons [OF Cons.prems(2) Cons.hyps(2) [symmetric]] by blast
    obtain b1 r1 where t: "take_event e (batch, r) = (b1, r1)"
      by fastforce
    have "list_all event_in_range (batch @ day_rows r @ [e])" "list_all event_in_range evs"
      using Cons.prems(3) unfolding Cons.hyps(2) [symmetric] by simp_all
    then obtain d1 where d1: "take_event e (batch, d) = (b1, d1)" "rep_mirrors cat tab T (r1, w) d1"
      "list_all event_in_range (b1 @ day_rows r1 @ ring_items ring1)"
      using take_event_mirrors [OF Cons.prems(1) t] p(3) by auto
    have "collect cap (got, batch, r, ring) = collect cap (True, b1, r1, ring1)"
      "collect cap (got, batch, d, ring) = collect cap (True, b1, d1, ring1)"
      using collect_step [OF True p(1)] t d1(1) by blast+
    with Cons.hyps(1) [OF p(3) [symmetric] d1(2) p(2) d1(3), of True] show ?thesis
      by simp
  qed
qed

definition mirrors ::
  "('w \<Rightarrow> catalogue) \<Rightarrow> ('w \<Rightarrow> sql_stmt list) \<Rightarrow> sql_stmt list \<Rightarrow> 'w pg_thread \<Rightarrow> 'w pg_thread \<Rightarrow> bool" where
  "mirrors cat tab T t d \<longleftrightarrow> th_batch d = th_batch t \<and> th_last_flush d = th_last_flush t \<and> th_ring d = th_ring t \<and>
     th_clock d = th_clock t \<and> ring_ok (th_ring t) \<and> rep_mirrors cat tab T (th_rep t, th_world t) (th_rep d) \<and>
     list_all event_in_range (th_batch t @ day_rows (th_rep t) @ ring_items (th_ring t))"

lemma rep_mirrors_pending: "rep_mirrors cat tab T (r, w) d \<Longrightarrow> rep_mirrors cat tab T (r\<lparr>pg_pending := n\<rparr>, w) (d\<lparr>pg_pending := n\<rparr>)"
  by (simp add: rep_mirrors_def)

lemma rep_mirrors_day: "rep_mirrors cat tab T (r, w) d \<Longrightarrow> pg_day d = pg_day r"
  by (simp add: rep_mirrors_def)

lemma mirrors_flush_round:
  assumes "pg_atomic sv tab" "pg_healthy sv cat" and "mirrors cat tab T t d"
  shows "mirrors cat tab T (flush_round sv rc t) (flush_round sv rc d)"
proof -
  have m: "rep_mirrors cat tab T (th_rep t, th_world t) (th_rep d)" "list_all event_in_range (th_batch t)"
    using assms(3) by (simp_all add: mirrors_def)
  obtain r' w' d' where f: "flush_batch sv (th_batch t) (th_rep t, th_world t) = ((True, []), r', w')"
    "flush_batch sv (th_batch t) (th_rep d, th_world d) = ((True, []), d', th_world d)" "rep_mirrors cat tab T (r', w') d'" "pg_day r' = pg_day (th_rep t)"
    using healthy_flush [OF assms(1,2) m] by blast
  with assms(3) show ?thesis
    by (auto simp: mirrors_def flush_round_def Let_def rep_mirrors_pending day_rows_def)
qed

lemma mirrors_consumer_round:
  assumes "pg_atomic sv tab" "pg_healthy sv cat" and "mirrors cat tab T t d"
  shows "\<exists>t' d'. consumer_round sv rc t = Some t' \<and> consumer_round sv rc d = Some d' \<and> mirrors cat tab T t' d'"
proof -
  have m: "rep_mirrors cat tab T (th_rep t, th_world t) (th_rep d)" "ring_ok (th_ring t)"
    "list_all event_in_range (th_batch t @ day_rows (th_rep t) @ ring_items (th_ring t))"
    "th_batch d = th_batch t" "th_ring d = th_ring t"
    using assms(3) by (simp_all add: mirrors_def)
  obtain got' batch' r' d' ring' where c: "collect (batch_cap rc) (False, th_batch t, th_rep t, th_ring t) = Some (got', batch', r', ring')"
    "collect (batch_cap rc) (False, th_batch t, th_rep d, th_ring t) = Some (got', batch', d', ring')"
    "rep_mirrors cat tab T (r', th_world t) d'" "ring_ok ring'"
    "list_all event_in_range (batch' @ day_rows r' @ ring_items ring')"
    using collect_mirrors [OF m(1-3), of "batch_cap rc" False] by blast
  let ?t = "t\<lparr>th_batch := batch', th_ring := ring', th_rep := r'\<lparr>pg_pending := of_nat (length batch')\<rparr>\<rparr>"
  let ?d = "d\<lparr>th_batch := batch', th_ring := ring', th_rep := d'\<lparr>pg_pending := of_nat (length batch')\<rparr>\<rparr>"
  have "mirrors cat tab T ?t ?d"
    using assms(3) c(3-5) by (simp add: mirrors_def rep_mirrors_pending day_rows_def)
  from mirrors_flush_round [OF assms(1,2) this, of rc] c(1,2) m(4,5) show ?thesis
    by (simp add: consumer_round_def)
qed

lemma mirrors_run:
  assumes "pg_atomic sv tab" "pg_healthy sv cat" and "mirrors cat tab T t d" and "\<And>e. PgPush e \<in> set ops \<Longrightarrow> event_in_range e"
  shows "\<exists>es t' d'. pg_run sv rc ops t = Some (es, t') \<and> pg_run sv rc ops d = Some (es, d') \<and> mirrors cat tab T t' d'"
  using assms(3,4)
proof (induction ops arbitrary: t d)
  case (Cons op ops)
  have later: "\<And>e. PgPush e \<in> set ops \<Longrightarrow> event_in_range e"
    using Cons.prems(2) by simp
  show ?case
  proof (cases op)
    case (PgPush e)
    obtain ok ring where p: "ring_push (th_ring t) e = (ok, ring)"
      by fastforce
    have "ring_ok (th_ring t)" "event_in_range e" "th_ring d = th_ring t"
      using Cons.prems by (simp_all add: mirrors_def PgPush)
    then have "mirrors cat tab T (t\<lparr>th_ring := ring\<rparr>) (d\<lparr>th_ring := ring\<rparr>)"
      using rq.enq_cases [of "th_ring t" e] Cons.prems(1) p by (auto simp: mirrors_def)
    from Cons.IH [OF this later] p \<open>th_ring d = th_ring t\<close> show ?thesis
      by (fastforce simp: PgPush)
  next
    case PgRound
    obtain t1 d1 where 1: "consumer_round sv rc t = Some t1" "consumer_round sv rc d = Some d1" "mirrors cat tab T t1 d1"
      using mirrors_consumer_round [OF assms(1,2) Cons.prems(1)] by blast
    from Cons.IH [OF 1(3) later] 1(1,2) show ?thesis
      by (simp add: PgRound)
  qed
qed simp

lemma mirrors_stop:
  assumes "pg_atomic sv tab" "pg_healthy sv cat" and "mirrors cat tab T t d"
  shows "\<exists>t' d'. consumer_stop sv t = Some t' \<and> consumer_stop sv d = Some d' \<and>
    rep_mirrors cat tab T (th_rep t', th_world t') (th_rep d')"
proof -
  have m: "rep_mirrors cat tab T (th_rep t, th_world t) (th_rep d)" "ring_ok (th_ring t)"
    "list_all event_in_range (th_batch t @ day_rows (th_rep t) @ ring_items (th_ring t))"
    "th_batch d = th_batch t" "th_ring d = th_ring t"
    using assms(3) by (simp_all add: mirrors_def)
  obtain ring' where dr: "drain ring_pop (th_ring t) = Some (ring_items (th_ring t), ring')"
    using drain_ring [OF m(2)] by blast
  let ?batch = "(th_batch t @ day_rows (th_rep t)) @ ring_items (th_ring t)"
  have "rep_mirrors cat tab T ((th_rep t)\<lparr>pg_day := None\<rparr>, th_world t) ((th_rep d)\<lparr>pg_day := None\<rparr>)"
    using m(1) by (simp add: rep_mirrors_def)
  moreover have "list_all event_in_range ?batch"
    using m(3) by simp
  ultimately obtain r' w' d' where "flush_batch sv ?batch ((th_rep t)\<lparr>pg_day := None\<rparr>, th_world t) = ((True, []), r', w')"
    "flush_batch sv ?batch ((th_rep d)\<lparr>pg_day := None\<rparr>, th_world d) = ((True, []), d', th_world d)"
    "rep_mirrors cat tab T (r', w') d'"
    using healthy_flush [OF assms(1,2)] by blast
  then show ?thesis
    using dr m(4,5) rep_mirrors_day [OF m(1)] by (simp add: consumer_stop_def Let_def day_rows_def)
qed

lemma healthy_connect_all:
  assumes "pg_atomic sv tab" "pg_healthy sv cat" and "\<forall>i \<in> set is. i < length (pg_pool r)" and "\<not> pg_dry r"
  shows "\<exists>p w'. connect_all sv is (r, w) = (r\<lparr>pg_pool := p\<rparr>, w') \<and> length p = length (pg_pool r) \<and> tab w' = tab w \<and> cat w' = cat w"
  using assms(3,4)
proof (induction "is" arbitrary: r w)
  case Nil
  show ?case
    by (intro exI [of _ "pg_pool r"]) simp
next
  case (Cons i "is")
  obtain p w1 where 1: "ensure_conn sv i (r, w) = (True, r\<lparr>pg_pool := p\<rparr>, w1)" "length p = length (pg_pool r)"
    "tab w1 = tab w" "cat w1 = cat w"
    using healthy_ensure [OF assms(1,2), of i r w] Cons.prems by auto
  with Cons.IH [of "r\<lparr>pg_pool := p\<rparr>" w1] Cons.prems show ?case
    by auto
qed

lemma healthy_start:
  assumes "pg_atomic sv tab" "pg_healthy sv cat" and "dsn \<noteq> []" and "earlier_release (cat w)"
  shows "\<exists>p w'. pg_start sv rc (pg_init dsn, w) = ((pg_init dsn)\<lparr>pg_pool := p\<rparr>, w') \<and> p \<noteq> [] \<and> tab w' = tab w \<and> has_schema (cat w')"
proof -
  define n where "n = nat (max 1 (rp_pg_pool_min rc))"
  let ?r = "(pg_init dsn)\<lparr>pg_pool := replicate n False\<rparr>"
  have r: "\<not> pg_dry (pg_init dsn)" "pg_pool (pg_init dsn) = []" "0 < n"
    using assms(3) by (simp_all add: pg_init_def n_def)
  obtain p1 w1 where 1: "connect_all sv [0..<n] (?r, w) = (?r\<lparr>pg_pool := p1\<rparr>, w1)" "length p1 = n" "tab w1 = tab w" "cat w1 = cat w"
    using healthy_connect_all [OF assms(1,2), of "[0..<n]" ?r w] r(1) by auto
  have "pg_pool (?r\<lparr>pg_pool := p1\<rparr>) \<noteq> []"
    using 1(2) r(3) by auto
  then obtain p2 w2 where 2: "create_schema_internal sv (?r\<lparr>pg_pool := p1\<rparr>, w1) = (True, ?r\<lparr>pg_pool := p1, pg_pool := p2\<rparr>, w2)"
    "length p2 = n" "tab w2 = tab w1" "has_schema (cat w2)"
    using healthy_schema [OF assms(1,2), of "?r\<lparr>pg_pool := p1\<rparr>" w1] 1 r(1) assms(4) by auto
  then have "p2 \<noteq> []"
    using r(3) by auto
  with 1 2 r(1,2) show ?thesis
    by (intro exI [of _ p2] exI [of _ w2]) (simp add: pg_start_def Let_def flip: n_def)
qed

text \<open>The rows written are those a reporter without a database would have collected from the same history.\<close>

lemma live_run_is_dry_run:
  assumes "pg_atomic sv tab" and "pg_healthy sv cat" and "dsn \<noteq> []" and "earlier_release (cat w)"
    and "\<And>e. PgPush e \<in> set ops \<Longrightarrow> event_in_range e"
  shows "\<exists>es t t' d d'. pg_run sv rc ops (pg_thread_start sv rc dsn ck w) = Some (es, t) \<and> consumer_stop sv t = Some t' \<and>
    pg_run sv rc ops (pg_thread_init [] ck w) = Some (es, d) \<and> consumer_stop sv d = Some d' \<and>
    tab (th_world t') = tab w @ map sql_of (pg_dry_flushed (th_rep d')) \<and>
    pg_flushed (th_rep t') = pg_flushed (th_rep d') \<and> pg_dropped (th_rep t') = 0"
proof -
  let ?t = "pg_thread_start sv rc dsn ck w" and ?d = "pg_thread_init [] ck w"
  obtain p w1 where s: "pg_start sv rc (pg_init dsn, w) = ((pg_init dsn)\<lparr>pg_pool := p\<rparr>, w1)" "p \<noteq> []" "tab w1 = tab w"
    "has_schema (cat w1)"
    using healthy_start [OF assms(1-4), of rc] by blast
  have "rep_mirrors cat tab (tab w) ((pg_init dsn)\<lparr>pg_pool := p\<rparr>, w1) (pg_init [])"
    using s(2-4) assms(3) by (simp add: rep_mirrors_def pg_init_def)
  moreover have "day_rows ((pg_init dsn)\<lparr>pg_pool := p\<rparr>) = []"
    by (simp add: day_rows_def pg_init_def)
  moreover have "?t = (pg_thread_init dsn ck w)\<lparr>th_rep := (pg_init dsn)\<lparr>pg_pool := p\<rparr>, th_world := w1\<rparr>"
    by (simp add: pg_thread_start_def s(1) pg_thread_init_def)
  ultimately have "mirrors cat tab (tab w) ?t ?d"
    using thread_ring_ok [of "[]" ck w] by (simp add: mirrors_def pg_thread_init_def)
  then obtain es t d where 1: "pg_run sv rc ops ?t = Some (es, t)" "pg_run sv rc ops ?d = Some (es, d)" "mirrors cat tab (tab w) t d"
    using mirrors_run [OF assms(1,2) _ assms(5)] by blast
  obtain t' d' where "consumer_stop sv t = Some t'" "consumer_stop sv d = Some d'"
    "rep_mirrors cat tab (tab w) (th_rep t', th_world t') (th_rep d')"
    using mirrors_stop [OF assms(1,2) 1(3)] by blast
  with 1(1,2) show ?thesis
    by (auto simp: rep_mirrors_def)
qed


text \<open>C13: on a healthy server whose database is empty or was set up by an earlier release, every history of
  pushes, consumer rounds and a final stop ends, and what it has written is every accepted trade, snapshot
  and system event exactly once and in order, and for every date the last daily row accepted for it; the
  flushed counter is the number of rows and nothing is dropped.\<close>

theorem live_reporter_exact:
  assumes "pg_atomic sv tab" and "pg_healthy sv cat" and "dsn \<noteq> []" and "earlier_release (cat w)"
    and "\<And>e. PgPush e \<in> set ops \<Longrightarrow> event_in_range e"
  shows "\<exists>es t t' evs. pg_run sv rc ops (pg_thread_start sv rc dsn ck w) = Some (es, t) \<and> consumer_stop sv t = Some t' \<and>
    tab (th_world t') = tab w @ map sql_of evs \<and>
    filter (\<lambda>e. \<not> is_daily e) evs = filter (\<lambda>e. \<not> is_daily e) es \<and>
    (\<forall>x. x \<noteq> 0 \<longrightarrow> daily_row x evs = daily_row x es) \<and>
    pg_flushed (th_rep t') = of_nat (length evs) \<and> pg_dropped (th_rep t') = 0"
proof -
  obtain es t t' d d' where 1: "pg_run sv rc ops (pg_thread_start sv rc dsn ck w) = Some (es, t)" "consumer_stop sv t = Some t'"
    "pg_run sv rc ops (pg_thread_init [] ck w) = Some (es, d)" "consumer_stop sv d = Some d'"
    "tab (th_world t') = tab w @ map sql_of (pg_dry_flushed (th_rep d'))"
    "pg_flushed (th_rep t') = pg_flushed (th_rep d')" "pg_dropped (th_rep t') = 0"
    using live_run_is_dry_run [OF assms] by blast
  with reporter_writes_everything [of sv rc ops ck w]
  have "filter (\<lambda>e. \<not> is_daily e) (pg_dry_flushed (th_rep d')) = filter (\<lambda>e. \<not> is_daily e) es"
    "\<forall>x. x \<noteq> 0 \<longrightarrow> daily_row x (pg_dry_flushed (th_rep d')) = daily_row x es"
    "pg_flushed (th_rep d') = of_nat (length (pg_dry_flushed (th_rep d')))"
    by auto
  with 1 show ?thesis
    by metis
qed


section \<open>Concrete servers\<close>

text \<open>
  A server whose answers to the schema text are scripted (success, once the script is used up); the
  tables exist after the first success.
\<close>

type_synonym table_world = "bool list \<times> bool \<times> sql_stmt list"

definition fresh_tables :: catalogue where
  "fresh_tables = the (run_ddl kSchemaSql Map.empty)"

definition table_cat :: "table_world \<Rightarrow> catalogue" where
  "table_cat w = (if fst (snd w) then fresh_tables else Map.empty)"

definition table_server :: "table_world pg_server" where
  "table_server = \<lparr>
     sv_connect = (\<lambda>w. (True, w)),
     sv_schema = (\<lambda>(script, made, rows).
       case script of [] \<Rightarrow> (True, [], True, rows) | b # bs \<Rightarrow> (b, bs, made \<or> b, rows)),
     sv_txn = (\<lambda>ss w. if list_all (stmt_accepted (table_cat w)) ss then (True, fst w, fst (snd w), snd (snd w) @ ss) else (False, w))\<rparr>"

lemma fresh_tables_schema: "run_ddl kSchemaSql Map.empty = Some fresh_tables" "run_ddl kSchemaSql fresh_tables = Some fresh_tables"
proof -
  obtain c where c: "run_ddl kSchemaSql Map.empty = Some c" "has_schema c"
    using run_schema [of Map.empty] by (auto simp: earlier_release_def)
  then show "run_ddl kSchemaSql Map.empty = Some fresh_tables" "run_ddl kSchemaSql fresh_tables = Some fresh_tables"
    using run_schema_again [OF kSchemaSql_wf c(2)] by (simp_all add: fresh_tables_def)
qed

lemma poison_rejected: "\<not> stmt_accepted fresh_tables PoisonInsert" "\<not> stmt_accepted Map.empty PoisonInsert"
  unfolding fresh_tables_def by code_simp+

lemma table_server_atomic: "pg_atomic table_server (snd \<circ> snd)"
proof -
  have "PoisonInsert \<in> set ss \<Longrightarrow> \<not> list_all (stmt_accepted (table_cat w)) ss" for ss w
    using poison_rejected by (auto simp: list_all_iff table_cat_def)
  then show ?thesis
    by (auto simp: pg_atomic_def table_server_def split: list.split)
qed

lemma table_server_catalogue: "pg_catalogue table_server table_cat"
  using fresh_tables_schema by (auto simp: pg_catalogue_def table_server_def table_cat_def split: list.split)

text \<open>The same server without a script.\<close>

definition healthy_server :: "table_world pg_server" where
  "healthy_server = table_server\<lparr>sv_schema := (\<lambda>(script, made, rows). (True, script, True, rows))\<rparr>"

lemma healthy_server_ok: "pg_atomic healthy_server (snd \<circ> snd)" "pg_healthy healthy_server table_cat"
proof -
  show "pg_atomic healthy_server (snd \<circ> snd)"
    using table_server_atomic by (auto simp: pg_atomic_def healthy_server_def)
  show "pg_healthy healthy_server table_cat"
    using fresh_tables_schema by (auto simp: pg_healthy_def pg_catalogue_def healthy_server_def table_server_def table_cat_def)
qed

definition demo_pushes :: "pg_op list" where
  "demo_pushes = [PgPush (system_event 7 ''INFO'' ''engine'' ''START'' ''up''), PgRound, PgPush (demo_row 20260101), PgRound]"

theorem live_reporter_exact_witness:
  "\<exists>es t t' evs. pg_run healthy_server (load_reporter toml_empty) demo_pushes
       (pg_thread_start healthy_server (load_reporter toml_empty) ''db'' demo_clock ([], False, [])) = Some (es, t) \<and>
     consumer_stop healthy_server t = Some t' \<and> snd (snd (th_world t')) = map sql_of evs \<and>
     filter (\<lambda>e. \<not> is_daily e) evs = filter (\<lambda>e. \<not> is_daily e) es \<and> daily_row 20260101 evs = daily_row 20260101 es \<and>
     pg_flushed (th_rep t') = of_nat (length evs)"
proof -
  have "earlier_release (table_cat ([], False, []))"
    by (simp add: earlier_release_def table_cat_def)
  moreover have "event_in_range e" if "PgPush e \<in> set demo_pushes" for e
    using that by (auto simp: demo_pushes_def system_event_def demo_row_def)
  ultimately obtain es t t' evs where "pg_run healthy_server (load_reporter toml_empty) demo_pushes
       (pg_thread_start healthy_server (load_reporter toml_empty) ''db'' demo_clock ([], False, [])) = Some (es, t)"
    "consumer_stop healthy_server t = Some t'" "snd (snd (th_world t')) = map sql_of evs"
    "filter (\<lambda>e. \<not> is_daily e) evs = filter (\<lambda>e. \<not> is_daily e) es"
    "\<forall>x. x \<noteq> 0 \<longrightarrow> daily_row x evs = daily_row x es" "pg_flushed (th_rep t') = of_nat (length evs)"
    using live_reporter_exact [OF healthy_server_ok, of "''db''" "([], False, [])" demo_pushes "load_reporter toml_empty" demo_clock]
    by (simp only: o_apply snd_conv append_Nil) blast
  moreover from this(5) have "daily_row 20260101 evs = daily_row 20260101 es"
    by simp
  ultimately show ?thesis
    by blast
qed

text \<open>The schema text fails once, at the start; it would succeed from then on.\<close>

lemma table_start:
  "\<exists>r. pg_start table_server (load_reporter toml_empty) (pg_init ''db'', [False], False, []) = (r, [], False, [])"
  by (simp add: pg_start_def pg_init_def load_reporter_def toml_empty_def table_server_def upt_rec ensure_conn_def
      create_schema_internal_def pool_nonempty_def Let_def)

theorem missed_schema_loses_all_witness:
  "\<exists>es t t'. pg_run table_server (load_reporter toml_empty) demo_pushes
       (pg_thread_start table_server (load_reporter toml_empty) ''db'' demo_clock ([False], False, [])) = Some (es, t) \<and>
     consumer_stop table_server t = Some t' \<and> snd (snd (th_world t')) = [] \<and> pg_flushed (th_rep t') = 0 \<and>
     fst (sv_schema table_server (th_world t'))"
proof -
  have up: "stays_up table_server (\<lambda>w. fst w = [])"
    by (auto simp: stays_up_def table_server_def)
  obtain r where "pg_start table_server (load_reporter toml_empty) (pg_init ''db'', [False], False, []) = (r, [], False, [])"
    using table_start by blast
  from missed_schema_loses_all [OF table_server_atomic table_server_catalogue up _ this, of demo_pushes demo_clock]
  obtain es t t' where "pg_run table_server (load_reporter toml_empty) demo_pushes
       (pg_thread_start table_server (load_reporter toml_empty) ''db'' demo_clock ([False], False, [])) = Some (es, t)"
    "consumer_stop table_server t = Some t'" "snd (snd (th_world t')) = []" "pg_flushed (th_rep t') = 0" "fst (th_world t') = []"
    by (auto simp: table_cat_def)
  moreover from this have "fst (sv_schema table_server (th_world t'))"
    by (cases "th_world t'") (simp add: table_server_def)
  ultimately show ?thesis
    by blast
qed

text \<open>The schema text takes an empty database, or one set up by this or an earlier release, to one that
  accepts every row the reporter writes: each INSERT names existing columns once each, gives as many
  values as columns, each of the column's type and width, leaves no mandatory column out, and the upsert
  has its key.  Run again, the text changes nothing.\<close>

theorem schema_accepts_events:
  assumes "earlier_release cat"
  shows "\<exists>cat'. run_ddl kSchemaSql cat = Some cat' \<and> run_ddl kSchemaSql cat' = Some cat' \<and>
    (\<forall>ev. event_in_range ev \<longrightarrow> stmt_accepted cat' (sql_of ev))"
  using run_schema [OF assms] run_schema_again [OF kSchemaSql_wf] schema_accepts by blast

text \<open>The tables of the first release, before the telemetry columns.\<close>

definition first_release :: catalogue where
  "first_release t = (if t \<in> set schema_tables then Some (created_cols t) else None)"

theorem schema_accepts_events_witness:
  "\<exists>cat'. run_ddl kSchemaSql first_release = Some cat' \<and> stmt_accepted cat' (sql_of (demo_row 20260101)) \<and>
    stmt_accepted cat' (sql_of (system_event 7 ''INFO'' ''engine'' ''START'' ''up''))"
proof -
  have "earlier_release first_release"
    by (simp add: earlier_release_def first_release_def released_def)
  moreover have "event_in_range (demo_row 20260101)" "event_in_range (system_event 7 ''INFO'' ''engine'' ''START'' ''up'')"
    by (simp_all add: demo_row_def system_event_def)
  ultimately show ?thesis
    using schema_accepts_events by blast
qed

end
