(* ===== verification/Json.thy ===== *)
theory Json
  imports Prelude
begin

text \<open>
  What the exchange adapters use of a parsed JSON document, and the number conversions of
  \<open><string>\<close> they apply to its strings.  The parser (simdjson) is not part of the repository: a parse is
  a parameter of the adapters that yields a \<open>json\<close> value, or \<open>None\<close> for a document it rejects.
\<close>

section \<open>Documents\<close>

datatype json =
    JStr string
  | JInt int
  | JDouble real
  | JBool bool
  | JNull
  | JArr "json list"
  | JObj "(string \<times> json) list"

text \<open>\<open>v[key]\<close>: the first field of that name; anything but an object has none.\<close>

definition jfield :: "string \<Rightarrow> json \<Rightarrow> json option" where
  "jfield key v = (case v of JObj kvs \<Rightarrow> map_of kvs key | _ \<Rightarrow> None)"

fun as_string :: "json option \<Rightarrow> string option" where
  "as_string (Some (JStr s)) = Some s"
| "as_string _ = None"

fun as_int :: "json option \<Rightarrow> int option" where
  "as_int (Some (JInt i)) = Some i"
| "as_int _ = None"

fun as_double :: "json option \<Rightarrow> real option" where
  "as_double (Some (JInt i)) = Some (of_int i)"
| "as_double (Some (JDouble d)) = Some d"
| "as_double _ = None"

fun as_array :: "json option \<Rightarrow> json list option" where
  "as_array (Some (JArr vs)) = Some vs"
| "as_array _ = None"

text \<open>\<open>v[key].get(sv)\<close> for a string, with the caller's initial value where the read fails.\<close>

definition jstr :: "string \<Rightarrow> json \<Rightarrow> string option" where
  "jstr key v = as_string (jfield key v)"

definition jstr_or :: "string \<Rightarrow> string \<Rightarrow> json \<Rightarrow> string" where
  "jstr_or d key v = (case jstr key v of Some s \<Rightarrow> s | None \<Rightarrow> d)"

lemma jfield_JObj [simp]: "jfield key (JObj kvs) = map_of kvs key"
  by (simp add: jfield_def)

lemma jstr_JObj [simp]: "jstr key (JObj kvs) = as_string (map_of kvs key)"
  by (simp add: jstr_def)

lemma jstr_or_simps [simp]:
  "jstr key v = Some s \<Longrightarrow> jstr_or d key v = s" "jstr key v = None \<Longrightarrow> jstr_or d key v = d"
  by (simp_all add: jstr_or_def)


section \<open>Numbers in strings\<close>

text \<open>\<open>isspace\<close> in the C locale, and the sign the \<open>strto*\<close> functions accept.\<close>

definition is_space :: "char \<Rightarrow> bool" where
  "is_space c \<longleftrightarrow> (of_char c :: nat) \<in> {9, 10, 11, 12, 13, 32}"

definition skip_space :: "string \<Rightarrow> string" where
  "skip_space s = dropWhile is_space s"

fun split_sign :: "string \<Rightarrow> bool \<times> string" where
  "split_sign (c # s) = (if c = CHR ''-'' then (True, s) else if c = CHR ''+'' then (False, s) else (False, c # s))"
| "split_sign [] = (False, [])"

text \<open>The integer at the start of a string: \<open>None\<close> is \<open>std::invalid_argument\<close>.\<close>

definition scan_int :: "string \<Rightarrow> (bool \<times> nat) option" where
  "scan_int s =
     (let (neg, r) = split_sign (skip_space s); ds = takeWhile is_digit r
      in if ds = [] then None else Some (neg, dec_val ds))"

definition sign_val :: "bool \<Rightarrow> nat \<Rightarrow> int" where
  "sign_val neg n = (if neg then - int n else int n)"

text \<open>\<open>std::stoi\<close>, \<open>std::stoll\<close>: \<open>None\<close> is either exception (not a number, out of range).\<close>

definition stoi :: "string \<Rightarrow> int option" where
  "stoi s =
     (case scan_int s of
        None \<Rightarrow> None
      | Some (neg, n) \<Rightarrow>
          if - (2 ^ 31) \<le> sign_val neg n \<and> sign_val neg n < 2 ^ 31 then Some (sign_val neg n) else None)"

definition stoll :: "string \<Rightarrow> int option" where
  "stoll s =
     (case scan_int s of
        None \<Rightarrow> None
      | Some (neg, n) \<Rightarrow>
          if - (2 ^ 63) \<le> sign_val neg n \<and> sign_val neg n < 2 ^ 63 then Some (sign_val neg n) else None)"

text \<open>\<open>std::stoull\<close> accepts a minus sign and negates in the unsigned type.\<close>

definition stoull :: "string \<Rightarrow> u64 option" where
  "stoull s =
     (case scan_int s of
        None \<Rightarrow> None
      | Some (neg, n) \<Rightarrow>
          if n < 2 ^ 64 then Some (if neg then - word_of_nat n else word_of_nat n) else None)"

text \<open>
  \<open>std::stod\<close> on decimal notation: digits with an optional fraction and an optional exponent.
  Infinities, NaN and hexadecimal floats, which \<open>strtod\<close> accepts too, are not reals of the model.
\<close>

definition scan_exponent :: "string \<Rightarrow> int" where
  "scan_exponent r =
     (case r of
        [] \<Rightarrow> 0
      | c # t \<Rightarrow>
          if c = CHR ''e'' \<or> c = CHR ''E'' then
            let (neg, u) = split_sign t; ds = takeWhile is_digit u
            in if ds = [] then 0 else sign_val neg (dec_val ds)
          else 0)"

definition pow10 :: "int \<Rightarrow> real" where
  "pow10 e = (if 0 \<le> e then 10 ^ nat e else 1 / 10 ^ nat (- e))"

definition stod :: "string \<Rightarrow> double option" where
  "stod s =
     (let (neg, r) = split_sign (skip_space s);
          whole = takeWhile is_digit r;
          r1 = dropWhile is_digit r;
          frac = (case r1 of [] \<Rightarrow> [] | c # t \<Rightarrow> if c = CHR ''.'' then takeWhile is_digit t else []);
          r2 = (case r1 of [] \<Rightarrow> [] | c # t \<Rightarrow> if c = CHR ''.'' then dropWhile is_digit t else r1);
          m = real (dec_val (whole @ frac)) / 10 ^ length frac * pow10 (scan_exponent r2)
      in if whole = [] \<and> frac = [] then None else Some (if neg then - m else m))"

text \<open>\<open>parse_double_sv\<close>: the output is written only where the conversion succeeds.\<close>

definition parse_double_sv :: "string \<Rightarrow> double \<Rightarrow> bool \<times> double" where
  "parse_double_sv sv out =
     (if sv = [] then (False, out) else case stod sv of Some x \<Rightarrow> (True, x) | None \<Rightarrow> (False, out))"

text \<open>Printing with \<open>std::to_string\<close> and reading back.\<close>

lemma digit_not_space: "is_digit c \<Longrightarrow> \<not> is_space c"
  by (auto simp: is_digit_def is_space_def)

lemma digit_not_sign: "is_digit c \<Longrightarrow> c \<noteq> CHR ''-'' \<and> c \<noteq> CHR ''+''"
  by (auto simp: is_digit_def)

lemma takeWhile_dec_nat [simp]: "takeWhile is_digit (dec_nat n) = dec_nat n"
  using dec_nat_digits by (simp add: takeWhile_eq_all_conv)

lemma dropWhile_dec_nat [simp]: "dropWhile is_digit (dec_nat n) = []"
  using dec_nat_digits by (simp add: dropWhile_eq_Nil_conv)

lemma dec_nat_start: "skip_space (dec_nat n) = dec_nat n" "split_sign (dec_nat n) = (False, dec_nat n)"
proof -
  obtain c cs where c: "dec_nat n = c # cs"
    using dec_nat_not_Nil by (cases "dec_nat n") auto
  then have "is_digit c"
    using dec_nat_digits [of c n] by simp
  then show "skip_space (dec_nat n) = dec_nat n" "split_sign (dec_nat n) = (False, dec_nat n)"
    using digit_not_space digit_not_sign by (auto simp: c skip_space_def)
qed

lemma scan_int_dec_nat [simp]: "scan_int (dec_nat n) = Some (False, n)"
  by (simp add: scan_int_def dec_nat_start)

lemma scan_int_dec_int [simp]: "scan_int (dec_int i) = Some (i < 0, nat \<bar>i\<bar>)"
proof (cases "i < 0")
  case True
  have "skip_space (CHR ''-'' # s) = CHR ''-'' # s" for s
    by (simp add: skip_space_def is_space_def)
  with True show ?thesis
    by (simp add: dec_int_def scan_int_def)
qed (simp add: dec_int_def)

lemma stoi_dec_int: "- (2 ^ 31) \<le> i \<Longrightarrow> i < 2 ^ 31 \<Longrightarrow> stoi (dec_int i) = Some i"
  by (simp add: stoi_def sign_val_def)

lemma stoll_dec_int: "- (2 ^ 63) \<le> i \<Longrightarrow> i < 2 ^ 63 \<Longrightarrow> stoll (dec_int i) = Some i"
  by (simp add: stoll_def sign_val_def)

lemma stoull_dec_u64: "stoull (dec_u64 w) = Some w"
proof -
  have "unat w < 2 ^ 64"
    using unsigned_less [of w] by simp
  then show ?thesis
    by (simp add: stoull_def dec_u64_def)
qed

lemma stod_dec_nat: "stod (dec_nat n) = Some (real n)"
  by (simp add: stod_def dec_nat_start scan_exponent_def pow10_def)

end
