(* ===== verification/OkxRest.thy ===== *)
theory OkxRest
  imports RestApi Json
begin

text \<open>
  \<open>OkxRestClient\<close> of \<open>src/src/execution/okx_rest_client.hpp\<close> and \<open>.cpp\<close>: request signing, the status
  and error-code protocol of the exchange, and the six operations of the REST interface.  libcurl
  (one exchange of a request for a reply), the JSON parser, HMAC and base64 are parameters, fields of
  the record \<open>okx\<close>; the state of the world behind libcurl is \<open>en_rest\<close> of the environment.
\<close>

section \<open>The client\<close>

record credentials =
  cr_api_key :: string
  cr_api_secret :: string
  cr_api_passphrase :: string

record http_request =
  hq_method :: string
  hq_url :: string
  hq_headers :: "string list"
  hq_body :: "string option"
  hq_timeout_ms :: int

text \<open>\<open>curl_easy_perform\<close>: an error code, or the status code and what the write callback appended.\<close>

datatype http_reply = HttpFail int | HttpReply int string

record 'w okx =
  ox_cfg :: config
  ox_creds :: credentials
  ox_has_cb :: bool
  ox_perform :: "http_request \<Rightarrow> 'w \<Rightarrow> http_reply \<times> 'w"
  ox_parse :: "string \<Rightarrow> json option"
  ox_hmac_sha256 :: "string \<Rightarrow> string \<Rightarrow> string"
  ox_encode_block :: "string \<Rightarrow> int \<times> string"


section \<open>Helpers\<close>

text \<open>\<open>gmtime_r\<close>: the civil date of a day number since 1970-01-01 (proleptic Gregorian calendar).\<close>

definition civil_of_days :: "int \<Rightarrow> int \<times> int \<times> int" where
  "civil_of_days n =
     (let z = n + 719468; era = z div 146097; doe = z mod 146097;
          yoe = (doe - doe div 1460 + doe div 36524 - doe div 146096) div 365;
          doy = doe - (365 * yoe + yoe div 4 - yoe div 100);
          mp = (5 * doy + 2) div 153;
          d = doy - (153 * mp + 2) div 5 + 1;
          m = (if mp < 10 then mp + 3 else mp - 9)
      in (yoe + era * 400 + (if m \<le> 2 then 1 else 0), m, d))"

definition iso8601_ms :: "nanos \<Rightarrow> string" where
  "iso8601_ms now =
     (let ms = ns_to_ms now;
          tt = trunc_div ms 1000;
          frac = ms - tt * 1000;
          (y, mo, d) = civil_of_days (tt div 86400);
          s = tt mod 86400
      in c_buf 96 (fmt_0d 4 y @ ''-'' @ fmt_0d 2 mo @ ''-'' @ fmt_0d 2 d @ ''T'' @ fmt_0d 2 (s div 3600) @ '':'' @
           fmt_0d 2 (s mod 3600 div 60) @ '':'' @ fmt_0d 2 (s mod 60) @ ''.'' @ fmt_0d 3 frac @ ''Z''))"

definition base64_encode :: "'w okx \<Rightarrow> string \<Rightarrow> string" where
  "base64_encode ox s = (let (n, out) = ox_encode_block ox s in if n < 0 then [] else take (nat n) out)"

definition hmac_sha256_b64 :: "'w okx \<Rightarrow> string \<Rightarrow> string \<Rightarrow> string" where
  "hmac_sha256_b64 ox secret msg = base64_encode ox (ox_hmac_sha256 ox secret msg)"

text \<open>\<open>std::toupper\<close> and \<open>std::tolower\<close> in the C locale.\<close>

definition char_upper :: "char \<Rightarrow> char" where
  "char_upper c = (if 97 \<le> (of_char c :: nat) \<and> (of_char c :: nat) \<le> 122 then char_of ((of_char c :: nat) - 32) else c)"

definition char_lower :: "char \<Rightarrow> char" where
  "char_lower c = (if 65 \<le> (of_char c :: nat) \<and> (of_char c :: nat) \<le> 90 then char_of ((of_char c :: nat) + 32) else c)"

definition prehash :: "string \<Rightarrow> string \<Rightarrow> string \<Rightarrow> string \<Rightarrow> string" where
  "prehash ts meth path body = ts @ map char_upper meth @ path @ body"

text \<open>\<open>std::round\<close>: to the nearest integer, halves away from zero.\<close>

definition round_away :: "real \<Rightarrow> int" where
  "round_away x = (if x < 0 then - \<lfloor>- x + 1 / 2\<rfloor> else \<lfloor>x + 1 / 2\<rfloor>)"

definition round_to_step :: "double \<Rightarrow> double \<Rightarrow> double" where
  "round_to_step v step = (if step \<le> 0 then v else of_int (round_away (v / step)) * step)"

definition stoi_or0 :: "string \<Rightarrow> int" where
  "stoi_or0 s = (case stoi s of Some i \<Rightarrow> i | None \<Rightarrow> 0)"

definition stoll_or0 :: "string \<Rightarrow> int" where
  "stoll_or0 s = (case stoll s of Some i \<Rightarrow> i | None \<Rightarrow> 0)"

text \<open>A numeric string field of an entry, zero where it is absent or no number.\<close>

definition num_field :: "string \<Rightarrow> json \<Rightarrow> double" where
  "num_field key v = (case jstr key v of None \<Rightarrow> 0 | Some s \<Rightarrow> (case stod s of Some x \<Rightarrow> x | None \<Rightarrow> 0))"


section \<open>The exchange's envelope\<close>

record okx_item =
  it_ok :: bool
  it_s_code :: int
  it_s_msg :: string
  it_exchange_order_id :: int
  it_client_order_id :: string

definition okx_item0 :: okx_item where
  "okx_item0 = \<lparr>it_ok = False, it_s_code = 0, it_s_msg = [], it_exchange_order_id = 0, it_client_order_id = []\<rparr>"

definition okx_item_of :: "json \<Rightarrow> okx_item" where
  "okx_item_of v =
     (let sc = (case jstr ''sCode'' v of Some s \<Rightarrow> stoi_or0 s | None \<Rightarrow> 0)
      in \<lparr>it_ok = (sc = 0), it_s_code = sc, it_s_msg = jstr_or [] ''sMsg'' v,
          it_exchange_order_id = (case jstr ''ordId'' v of Some s \<Rightarrow> stoll_or0 s | None \<Rightarrow> 0),
          it_client_order_id = jstr_or [] ''clOrdId'' v\<rparr>)"

definition parse_data_first :: "'w okx \<Rightarrow> string \<Rightarrow> okx_item" where
  "parse_data_first ox body =
     (case ox_parse ox body of
        None \<Rightarrow> okx_item0
      | Some doc \<Rightarrow>
          (case as_array (jfield ''data'' doc) of
             Some (v # _) \<Rightarrow> okx_item_of v
           | _ \<Rightarrow> okx_item0))"

definition envelope_code :: "'w okx \<Rightarrow> string \<Rightarrow> string" where
  "envelope_code ox body =
     (case ox_parse ox body of None \<Rightarrow> [] | Some doc \<Rightarrow> jstr_or [] ''code'' doc)"

definition okx_geoblock :: "'w okx \<Rightarrow> 'w env \<Rightarrow> 'w env" where
  "okx_geoblock ox e = (if ox_has_cb ox then env_notify_exception ''rest_geoblocked'' e else e)"

definition process_status :: "'w okx \<Rightarrow> int \<Rightarrow> string \<Rightarrow> 'w env \<Rightarrow> bool \<times> int \<times> 'w env" where
  "process_status ox http_code body e =
     (if http_code < 200 \<or> 300 \<le> http_code then
        (if http_code = 451 then (False, 451, okx_geoblock ox e) else (False, 0, e))
      else
        let code_str = envelope_code ox body;
            code_int = (if code_str \<noteq> [] then stoi_or0 code_str else 0)
        in if code_str = [] \<or> code_str = ''0'' then (True, code_int, e)
           else if code_str = ''50114'' then (False, code_int, okx_geoblock ox e)
           else
             let pr = parse_data_first ox body
             in (False, if it_s_code pr \<noteq> 0 then it_s_code pr else code_int, e))"


section \<open>Signed requests\<close>

record signed_resp =
  sr_ok :: bool
  sr_http_code :: int
  sr_body :: string

definition signed_headers :: "'w okx \<Rightarrow> string \<Rightarrow> string \<Rightarrow> string \<Rightarrow> string list" where
  "signed_headers ox meth ts sig =
     [''OK-ACCESS-KEY: '' @ cr_api_key (ox_creds ox), ''OK-ACCESS-SIGN: '' @ sig,
      ''OK-ACCESS-TIMESTAMP: '' @ ts, ''OK-ACCESS-PASSPHRASE: '' @ cr_api_passphrase (ox_creds ox)] @
     (if meth = ''POST'' then [''Content-Type: application/json''] else []) @
     (if tn_enabled (c_testnet (ox_cfg ox)) then [''x-simulated-trading: 1''] else [])"

text \<open>The request, signed over the time stamp it carries; \<open>now\<close> is the wall clock.\<close>

definition okx_request :: "'w okx \<Rightarrow> string \<Rightarrow> string \<Rightarrow> string \<Rightarrow> nanos \<Rightarrow> http_request" where
  "okx_request ox meth path body now =
     (let ts = iso8601_ms now;
          sig = hmac_sha256_b64 ox (cr_api_secret (ox_creds ox)) (prehash ts meth path body)
      in \<lparr>hq_method = meth, hq_url = ec_rest_base_url (c_execution (ox_cfg ox)) @ path,
          hq_headers = signed_headers ox meth ts sig,
          hq_body = (if meth = ''POST'' then Some body else None),
          hq_timeout_ms = ec_http_timeout_ms (c_execution (ox_cfg ox))\<rparr>)"

definition signed_request ::
  "'w okx \<Rightarrow> string \<Rightarrow> string \<Rightarrow> string \<Rightarrow> 'w env \<Rightarrow> signed_resp \<times> 'w env" where
  "signed_request ox meth path body e =
     (let req = okx_request ox meth path body (wall_now (en_clock e));
          e = env_tick e;
          (rep, w) = ox_perform ox req (en_rest e);
          e = e\<lparr>en_rest := w\<rparr>
      in case rep of
           HttpFail rc \<Rightarrow> (\<lparr>sr_ok = False, sr_http_code = 0, sr_body = []\<rparr>, e)
         | HttpReply code text \<Rightarrow>
             (\<lparr>sr_ok = (200 \<le> code \<and> code < 300), sr_http_code = code, sr_body = text\<rparr>, e))"

text \<open>A request and the judgement of its reply: what every operation starts with.\<close>

definition okx_call :: "'w okx \<Rightarrow> string \<Rightarrow> string \<Rightarrow> string \<Rightarrow> 'w env \<Rightarrow> signed_resp \<times> bool \<times> int \<times> 'w env" where
  "okx_call ox meth path body e =
     (let (r, e) = signed_request ox meth path body e in (r, process_status ox (sr_http_code r) (sr_body r) e))"


section \<open>Orders\<close>

definition okx_symbol :: "config \<Rightarrow> string" where
  "okx_symbol cfg =
     (if ex_symbol (c_exchange cfg) = [] then md_symbol (c_market_data cfg) else ex_symbol (c_exchange cfg))"

text \<open>The endpoints.\<close>

definition ep_order :: string where
  "ep_order = ''/api/v5/trade/order''"

definition ep_cancel :: string where
  "ep_cancel = ''/api/v5/trade/cancel-order''"

definition ep_amend :: string where
  "ep_amend = ''/api/v5/trade/amend-order''"

definition ep_positions :: "config \<Rightarrow> string" where
  "ep_positions cfg = ''/api/v5/account/positions?instId='' @ okx_symbol cfg"

definition ep_pending :: "config \<Rightarrow> string" where
  "ep_pending cfg = ''/api/v5/trade/orders-pending?instId='' @ okx_symbol cfg"

definition okx_tick :: "config \<Rightarrow> double" where
  "okx_tick cfg = (if 0 < ex_tick_size (c_exchange cfg) then ex_tick_size (c_exchange cfg) else st_min_tick (c_strategy cfg))"

definition px_buf :: "config \<Rightarrow> double \<Rightarrow> string" where
  "px_buf cfg price = c_buf 32 (fmt_fixed 1 (round_to_step price (okx_tick cfg)))"

text \<open>The size on the wire is a whole number of contracts.\<close>

definition sz_contracts :: "config \<Rightarrow> double \<Rightarrow> double" where
  "sz_contracts cfg qty_btc =
     (if 0 < ex_contract_size (c_exchange cfg)
      then of_int (round_away (qty_btc / ex_contract_size (c_exchange cfg))) else qty_btc)"

definition sz_buf :: "config \<Rightarrow> double \<Rightarrow> string" where
  "sz_buf cfg qty_btc = c_buf 32 (fmt_fixed 0 (sz_contracts cfg qty_btc))"

definition quoted :: "string \<Rightarrow> string" where
  "quoted s = [CHR 0x22] @ s @ [CHR 0x22]"

definition jpair :: "string \<Rightarrow> string \<Rightarrow> string" where
  "jpair k v = quoted k @ '':'' @ quoted v"

definition place_body :: "config \<Rightarrow> string \<Rightarrow> double \<Rightarrow> double \<Rightarrow> bool \<Rightarrow> string \<Rightarrow> string" where
  "place_body cfg side qty price post_only cid =
     ''{'' @ jpair ''instId'' (okx_symbol cfg) @ '','' @ jpair ''tdMode'' ''cross'' @ '','' @
     jpair ''side'' (map char_lower side) @ '','' @ jpair ''ordType'' ''limit'' @ '','' @
     jpair ''px'' (px_buf cfg price) @ '','' @ jpair ''sz'' (sz_buf cfg qty) @ '','' @
     quoted ''postOnly'' @ '':'' @ (if post_only then ''true'' else ''false'') @ '','' @
     jpair ''clOrdId'' cid @ ''}''"

definition okx_place_order ::
  "'w okx \<Rightarrow> string \<Rightarrow> double \<Rightarrow> double \<Rightarrow> bool \<Rightarrow> string \<Rightarrow> 'w env \<Rightarrow> order_ack \<times> 'w env" where
  "okx_place_order ox side qty price post_only cid e =
     (let a = order_ack0\<lparr>oa_client_order_id := cid\<rparr>;
          (r, ok, code, e) = okx_call ox ''POST'' ep_order (place_body (ox_cfg ox) side qty price post_only cid) e;
          a = a\<lparr>oa_http_code := sr_http_code r, oa_exchange_code := code\<rparr>
      in if \<not> ok then (a, e)
         else
           let pr = parse_data_first ox (sr_body r)
           in if \<not> it_ok pr then (a\<lparr>oa_exchange_code := it_s_code pr\<rparr>, e)
              else (a\<lparr>oa_exchange_order_id := it_exchange_order_id pr,
                      oa_client_order_id := (if it_client_order_id pr \<noteq> [] then it_client_order_id pr else cid),
                      oa_status := ''NEW'', oa_price := price, oa_qty := qty, oa_ok := True\<rparr>, e))"

definition market_body :: "config \<Rightarrow> string \<Rightarrow> double \<Rightarrow> string \<Rightarrow> string" where
  "market_body cfg side qty cid =
     ''{'' @ jpair ''instId'' (okx_symbol cfg) @ '','' @ jpair ''tdMode'' ''cross'' @ '','' @
     jpair ''side'' (map char_lower side) @ '','' @ jpair ''ordType'' ''market'' @ '','' @
     jpair ''sz'' (sz_buf cfg qty) @ '','' @ jpair ''clOrdId'' cid @ ''}''"

definition okx_place_market_order ::
  "'w okx \<Rightarrow> string \<Rightarrow> double \<Rightarrow> string \<Rightarrow> 'w env \<Rightarrow> order_ack \<times> 'w env" where
  "okx_place_market_order ox side qty cid e =
     (let a = order_ack0\<lparr>oa_client_order_id := cid\<rparr>;
          (r, ok, code, e) = okx_call ox ''POST'' ep_order (market_body (ox_cfg ox) side qty cid) e;
          a = a\<lparr>oa_http_code := sr_http_code r, oa_exchange_code := code\<rparr>
      in if \<not> ok then (a, e)
         else
           let pr = parse_data_first ox (sr_body r)
           in if \<not> it_ok pr then (a\<lparr>oa_exchange_code := it_s_code pr\<rparr>, e)
              else (a\<lparr>oa_exchange_order_id := it_exchange_order_id pr,
                      oa_client_order_id := (if it_client_order_id pr \<noteq> [] then it_client_order_id pr else cid),
                      oa_qty := qty, oa_status := ''NEW'', oa_ok := True\<rparr>, e))"

definition cancel_body :: "config \<Rightarrow> string \<Rightarrow> int \<Rightarrow> string" where
  "cancel_body cfg cid oid =
     ''{'' @ jpair ''instId'' (okx_symbol cfg) @ '','' @
     (if oid \<noteq> 0 then jpair ''ordId'' (dec_int oid) else jpair ''clOrdId'' cid) @ ''}''"

definition okx_cancel_order :: "'w okx \<Rightarrow> string \<Rightarrow> int \<Rightarrow> 'w env \<Rightarrow> cancel_ack \<times> 'w env" where
  "okx_cancel_order ox cid oid e =
     (let a = cancel_ack0\<lparr>ca_client_order_id := cid\<rparr>
      in if oid = 0 \<and> cid = [] then (a, e)
         else
           let (r, ok, code, e) = okx_call ox ''POST'' ep_cancel (cancel_body (ox_cfg ox) cid oid) e;
               a = a\<lparr>ca_http_code := sr_http_code r, ca_exchange_code := code\<rparr>
           in if \<not> ok then (a, e)
              else
                let pr = parse_data_first ox (sr_body r)
                in if \<not> it_ok pr then (a\<lparr>ca_exchange_code := it_s_code pr\<rparr>, e)
                   else (a\<lparr>ca_exchange_order_id := it_exchange_order_id pr, ca_status := ''CANCELED'', ca_ok := True\<rparr>, e))"

definition amend_body :: "config \<Rightarrow> int \<Rightarrow> double \<Rightarrow> double \<Rightarrow> string" where
  "amend_body cfg oid price qty =
     ''{'' @ jpair ''instId'' (okx_symbol cfg) @ '','' @ jpair ''ordId'' (dec_int oid) @ '','' @
     jpair ''newPx'' (px_buf cfg price) @ '','' @ jpair ''newSz'' (sz_buf cfg qty) @ ''}''"

text \<open>The cancel-and-replace fallback of an amend that was not accepted.\<close>

definition amend_fallback ::
  "'w okx \<Rightarrow> int \<Rightarrow> double \<Rightarrow> double \<Rightarrow> string \<Rightarrow> bool \<Rightarrow> string \<Rightarrow> amend_ack \<Rightarrow> 'w env \<Rightarrow> amend_ack \<times> 'w env" where
  "amend_fallback ox oid price qty side post_only cid a e =
     (let (c, e) = okx_cancel_order ox [] oid e
      in if \<not> ca_ok c then (a, e)
         else
           let (o1, e) = okx_place_order ox side qty price post_only cid e
           in if oa_ok o1
              then (a\<lparr>aa_ok := True, aa_exchange_order_id := oa_exchange_order_id o1, aa_price := price,
                      aa_qty := qty, aa_client_order_id := cid\<rparr>, e)
              else (a\<lparr>aa_cancelled_only := True\<rparr>, e))"

definition okx_amend_order ::
  "'w okx \<Rightarrow> int \<Rightarrow> double \<Rightarrow> double \<Rightarrow> string \<Rightarrow> bool \<Rightarrow> string \<Rightarrow> 'w env \<Rightarrow> amend_ack \<times> 'w env" where
  "okx_amend_order ox oid price qty side post_only cid e =
     (let a = amend_ack0\<lparr>aa_exchange_order_id := oid\<rparr>;
          (r, ok, code, e) = okx_call ox ''POST'' ep_amend (amend_body (ox_cfg ox) oid price qty) e;
          a = a\<lparr>aa_http_code := sr_http_code r, aa_exchange_code := code\<rparr>
      in if \<not> ok then amend_fallback ox oid price qty side post_only cid a e
         else
           let pr = parse_data_first ox (sr_body r)
           in if it_ok pr
              then (a\<lparr>aa_ok := True, aa_price := price, aa_qty := qty,
                      aa_exchange_order_id := (if it_exchange_order_id pr \<noteq> 0 then it_exchange_order_id pr else oid)\<rparr>, e)
              else amend_fallback ox oid price qty side post_only cid (a\<lparr>aa_exchange_code := it_s_code pr\<rparr>) e)"


section \<open>Queries\<close>

definition position_entry_of :: "config \<Rightarrow> json \<Rightarrow> position_entry" where
  "position_entry_of cfg v =
     (let pos_contracts = num_field ''pos'' v; cs = ex_contract_size (c_exchange cfg)
      in \<lparr>pe_symbol = jstr_or [] ''instId'' v,
          pe_position_amt = (if 0 < cs then pos_contracts * cs else pos_contracts),
          pe_entry_price = num_field ''avgPx'' v, pe_unrealized_profit = num_field ''upl'' v\<rparr>)"

text \<open>
  \<open>doc["data"]\<close> is missing when the document does not parse, and then the loop is skipped and the
  snapshot is still marked good; \<open>data\<close> of another type than an array throws.
\<close>

definition data_entries :: "'w okx \<Rightarrow> string \<Rightarrow> json list option" where
  "data_entries ox body =
     (case ox_parse ox body of
        None \<Rightarrow> Some []
      | Some doc \<Rightarrow> (case jfield ''data'' doc of None \<Rightarrow> Some [] | Some d \<Rightarrow> as_array (Some d)))"

definition okx_query_positions :: "'w okx \<Rightarrow> 'w env \<Rightarrow> positions_snapshot \<times> 'w env" where
  "okx_query_positions ox e =
     (let (r, ok, code, e) = okx_call ox ''GET'' (ep_positions (ox_cfg ox)) [] e;
          s = \<lparr>ps_ok = False, ps_positions = [], ps_http_code = sr_http_code r\<rparr>
      in if \<not> ok then (s, e)
         else case data_entries ox (sr_body r) of
                None \<Rightarrow> (s, e)
              | Some vs \<Rightarrow> (s\<lparr>ps_ok := True, ps_positions := map (position_entry_of (ox_cfg ox)) vs\<rparr>, e))"

definition open_order_of :: "config \<Rightarrow> json \<Rightarrow> open_order_entry" where
  "open_order_of cfg v =
     (let cs = (if 0 < ex_contract_size (c_exchange cfg) then ex_contract_size (c_exchange cfg) else 1)
      in \<lparr>oe_exchange_order_id = (case jstr ''ordId'' v of Some s \<Rightarrow> stoll_or0 s | None \<Rightarrow> 0),
          oe_client_order_id = jstr_or [] ''clOrdId'' v, oe_symbol = jstr_or [] ''instId'' v,
          oe_side = jstr_or [] ''side'' v, oe_price = num_field ''px'' v,
          oe_orig_qty = num_field ''sz'' v * cs, oe_executed_qty = num_field ''accFillSz'' v * cs,
          oe_status = jstr_or [] ''state'' v\<rparr>)"

definition okx_query_open_orders :: "'w okx \<Rightarrow> 'w env \<Rightarrow> open_orders_snapshot \<times> 'w env" where
  "okx_query_open_orders ox e =
     (let (r, ok, code, e) = okx_call ox ''GET'' (ep_pending (ox_cfg ox)) [] e;
          s = \<lparr>os_ok = False, os_orders = [], os_http_code = sr_http_code r\<rparr>
      in if \<not> ok then (s, e)
         else case data_entries ox (sr_body r) of
                None \<Rightarrow> (s, e)
              | Some vs \<Rightarrow> (s\<lparr>os_ok := True, os_orders := map (open_order_of (ox_cfg ox)) vs\<rparr>, e))"

definition okx_client :: "'w okx \<Rightarrow> 'w rest_client" where
  "okx_client ox = \<lparr>rest_place = okx_place_order ox, rest_market = okx_place_market_order ox,
     rest_cancel = okx_cancel_order ox, rest_amend = okx_amend_order ox,
     rest_positions = okx_query_positions ox, rest_open_orders = okx_query_open_orders ox\<rparr>"


text \<open>The reply the exchange gives to an operation's request.\<close>

definition okx_reply :: "'w okx \<Rightarrow> string \<Rightarrow> string \<Rightarrow> string \<Rightarrow> 'w env \<Rightarrow> http_reply" where
  "okx_reply ox meth path body e = fst (ox_perform ox (okx_request ox meth path body (wall_now (en_clock e))) (en_rest e))"

section \<open>The client keeps the REST contract\<close>

lemma signed_request_frame: "rest_frame e (snd (signed_request ox meth path body e))"
proof -
  have "rest_frame e ((env_tick e)\<lparr>en_rest := w\<rparr>)" for w
    by (rule rest_frame_trans [OF rest_frame_ops(1) rest_frame_ops(3)])
  then show ?thesis
    by (simp add: signed_request_def Let_def case_prod_beta split: http_reply.split)
qed

lemma okx_geoblock_frame: "rest_frame e (okx_geoblock ox e)"
  by (simp add: okx_geoblock_def)

lemma process_status_frame: "rest_frame e (snd (snd (process_status ox code body e)))"
  by (simp add: process_status_def Let_def okx_geoblock_frame)

lemma okx_call_frame:
  assumes "okx_call ox meth path body e = (r, ok, code, e')"
  shows "rest_frame e e'"
proof -
  obtain e1 where 1: "signed_request ox meth path body e = (r, e1)"
    using assms by (simp add: okx_call_def Let_def split: prod.splits)
  then have 2: "process_status ox (sr_http_code r) (sr_body r) e1 = (ok, code, e')"
    using assms by (simp add: okx_call_def)
  show ?thesis
    using rest_frame_trans [OF signed_request_frame [of e ox meth path body] process_status_frame
        [of "snd (signed_request ox meth path body e)" ox "sr_http_code r" "sr_body r"]]
    by (simp add: 1 2)
qed

lemma okx_place_unfold:
  assumes "okx_call ox ''POST'' ep_order (place_body (ox_cfg ox) side qty price po cid) e = (r, ok, code, e')"
  shows "okx_place_order ox side qty price po cid e =
    (let a = order_ack0\<lparr>oa_client_order_id := cid, oa_http_code := sr_http_code r, oa_exchange_code := code\<rparr>;
         pr = parse_data_first ox (sr_body r)
     in (if \<not> ok then a else if \<not> it_ok pr then a\<lparr>oa_exchange_code := it_s_code pr\<rparr>
         else a\<lparr>oa_exchange_order_id := it_exchange_order_id pr,
                oa_client_order_id := (if it_client_order_id pr \<noteq> [] then it_client_order_id pr else cid),
                oa_status := ''NEW'', oa_price := price, oa_qty := qty, oa_ok := True\<rparr>, e'))"
  using assms by (simp add: okx_place_order_def Let_def)

lemma okx_market_unfold:
  assumes "okx_call ox ''POST'' ep_order (market_body (ox_cfg ox) side qty cid) e = (r, ok, code, e')"
  shows "okx_place_market_order ox side qty cid e =
    (let a = order_ack0\<lparr>oa_client_order_id := cid, oa_http_code := sr_http_code r, oa_exchange_code := code\<rparr>;
         pr = parse_data_first ox (sr_body r)
     in (if \<not> ok then a else if \<not> it_ok pr then a\<lparr>oa_exchange_code := it_s_code pr\<rparr>
         else a\<lparr>oa_exchange_order_id := it_exchange_order_id pr,
                oa_client_order_id := (if it_client_order_id pr \<noteq> [] then it_client_order_id pr else cid),
                oa_qty := qty, oa_status := ''NEW'', oa_ok := True\<rparr>, e'))"
  using assms by (simp add: okx_place_market_order_def Let_def)

lemma okx_cancel_unfold:
  assumes "okx_call ox ''POST'' ep_cancel (cancel_body (ox_cfg ox) cid oid) e = (r, ok, code, e')"
    and "oid \<noteq> 0 \<or> cid \<noteq> []"
  shows "okx_cancel_order ox cid oid e =
    (let a = cancel_ack0\<lparr>ca_client_order_id := cid, ca_http_code := sr_http_code r, ca_exchange_code := code\<rparr>;
         pr = parse_data_first ox (sr_body r)
     in (if \<not> ok then a else if \<not> it_ok pr then a\<lparr>ca_exchange_code := it_s_code pr\<rparr>
         else a\<lparr>ca_exchange_order_id := it_exchange_order_id pr, ca_status := ''CANCELED'', ca_ok := True\<rparr>, e'))"
  using assms by (auto simp: okx_cancel_order_def Let_def)

lemma okx_positions_unfold:
  assumes "okx_call ox ''GET'' (ep_positions (ox_cfg ox)) [] e = (r, ok, code, e')"
  shows "okx_query_positions ox e =
    (case (if ok then data_entries ox (sr_body r) else None) of
       None \<Rightarrow> \<lparr>ps_ok = False, ps_positions = [], ps_http_code = sr_http_code r\<rparr>
     | Some vs \<Rightarrow> \<lparr>ps_ok = True, ps_positions = map (position_entry_of (ox_cfg ox)) vs, ps_http_code = sr_http_code r\<rparr>, e')"
  using assms by (simp add: okx_query_positions_def split: option.split)

lemma okx_open_orders_unfold:
  assumes "okx_call ox ''GET'' (ep_pending (ox_cfg ox)) [] e = (r, ok, code, e')"
  shows "okx_query_open_orders ox e =
    (case (if ok then data_entries ox (sr_body r) else None) of
       None \<Rightarrow> \<lparr>os_ok = False, os_orders = [], os_http_code = sr_http_code r\<rparr>
     | Some vs \<Rightarrow> \<lparr>os_ok = True, os_orders = map (open_order_of (ox_cfg ox)) vs, os_http_code = sr_http_code r\<rparr>, e')"
  using assms by (simp add: okx_query_open_orders_def split: option.split)

lemma okx_place_frame: "rest_frame e (snd (okx_place_order ox side qty price po cid e))"
proof -
  obtain r ok code e' where c: "okx_call ox ''POST'' ep_order (place_body (ox_cfg ox) side qty price po cid) e = (r, ok, code, e')"
    using prod_cases4 by blast
  show ?thesis
    using okx_call_frame [OF c] by (simp add: okx_place_unfold [OF c] Let_def)
qed

lemma okx_market_frame: "rest_frame e (snd (okx_place_market_order ox side qty cid e))"
proof -
  obtain r ok code e' where c: "okx_call ox ''POST'' ep_order (market_body (ox_cfg ox) side qty cid) e = (r, ok, code, e')"
    using prod_cases4 by blast
  show ?thesis
    using okx_call_frame [OF c] by (simp add: okx_market_unfold [OF c] Let_def)
qed

lemma okx_cancel_frame: "rest_frame e (snd (okx_cancel_order ox cid oid e))"
proof (cases "oid = 0 \<and> cid = []")
  case False
  obtain r ok code e' where c: "okx_call ox ''POST'' ep_cancel (cancel_body (ox_cfg ox) cid oid) e = (r, ok, code, e')"
    using prod_cases4 by blast
  show ?thesis
    using okx_call_frame [OF c] okx_cancel_unfold [OF c] False by (auto simp: Let_def)
qed (simp add: okx_cancel_order_def)

lemma amend_fallback_frame: "rest_frame e (snd (amend_fallback ox oid price qty side po cid a e))"
  using okx_cancel_frame [of e ox "[]" oid] rest_frame_trans [OF okx_cancel_frame [of e ox "[]" oid] okx_place_frame]
  by (simp add: amend_fallback_def Let_def case_prod_beta)

lemma okx_amend_frame: "rest_frame e (snd (okx_amend_order ox oid price qty side po cid e))"
proof -
  obtain r ok code e' where c: "okx_call ox ''POST'' ep_amend (amend_body (ox_cfg ox) oid price qty) e = (r, ok, code, e')"
    using prod_cases4 by blast
  note f = okx_call_frame [OF c]
  show ?thesis
    using c f rest_frame_trans [OF f amend_fallback_frame]
    by (simp add: okx_amend_order_def Let_def)
qed

lemma okx_query_frames:
  "rest_frame e (snd (okx_query_positions ox e))" "rest_frame e (snd (okx_query_open_orders ox e))"
proof -
  obtain r ok code e' where c: "okx_call ox ''GET'' (ep_positions (ox_cfg ox)) [] e = (r, ok, code, e')"
    using prod_cases4 by blast
  show "rest_frame e (snd (okx_query_positions ox e))"
    using okx_call_frame [OF c] by (simp add: okx_positions_unfold [OF c])
next
  obtain r ok code e' where c: "okx_call ox ''GET'' (ep_pending (ox_cfg ox)) [] e = (r, ok, code, e')"
    using prod_cases4 by blast
  show "rest_frame e (snd (okx_query_open_orders ox e))"
    using okx_call_frame [OF c] by (simp add: okx_open_orders_unfold [OF c])
qed

interpretation okx: rest_contract "okx_client ox" for ox
  by unfold_locales
    (simp_all add: okx_client_def okx_place_frame okx_market_frame okx_cancel_frame okx_amend_frame okx_query_frames)

end
