(* ===== verification/OkxProps.thy ===== *)
theory OkxProps
  imports OkxRest OrderProps
begin

text \<open>
  The properties of the exchange client: when an order counts as accepted, what a geo-block and a
  per-order error code cause, the size of an order on the wire, and how the client and the order
  manager behave together when a reply cannot be parsed.
\<close>

section \<open>Replies\<close>

text \<open>The client of the exchange behind the call list is a traced client, like the simulated one.\<close>

interpretation okx_trace: rest_trace "logged (okx_client ox)" snd good for ox good
  by (rule rest_trace_logged [OF okx.rest_contract_axioms])

lemma okx_call_reply:
  "okx_call ox meth path body e =
     (case okx_reply ox meth path body e of
        HttpFail rc \<Rightarrow> (let r = \<lparr>sr_ok = False, sr_http_code = 0, sr_body = []\<rparr>
                      in (r, process_status ox 0 [] (snd (signed_request ox meth path body e))))
      | HttpReply code text \<Rightarrow> (let r = \<lparr>sr_ok = (200 \<le> code \<and> code < 300), sr_http_code = code, sr_body = text\<rparr>
                      in (r, process_status ox code text (snd (signed_request ox meth path body e)))))"
  by (simp add: okx_call_def signed_request_def okx_reply_def Let_def case_prod_beta env_tick_def
      split: http_reply.split)

text \<open>The replies that accept an order: an envelope without an error whose first entry has none.\<close>

definition accepts :: "'w okx \<Rightarrow> http_reply \<Rightarrow> json \<Rightarrow> bool" where
  "accepts ox rep v \<longleftrightarrow>
     (\<exists>code body doc vs. rep = HttpReply code body \<and> 200 \<le> code \<and> code < 300 \<and>
        ox_parse ox body = Some doc \<and> jstr_or [] ''code'' doc \<in> {[], ''0''} \<and>
        jfield ''data'' doc = Some (JArr (v # vs)) \<and> it_s_code (okx_item_of v) = 0)"

lemma parse_data_first_ok:
  "it_ok (parse_data_first ox body) \<longleftrightarrow>
     (\<exists>doc v vs. ox_parse ox body = Some doc \<and> jfield ''data'' doc = Some (JArr (v # vs)) \<and>
        it_s_code (okx_item_of v) = 0)"
proof -
  have "as_array x = Some vs \<longleftrightarrow> x = Some (JArr vs)" for x vs
    by (cases x rule: as_array.cases) auto
  then show ?thesis
    by (auto simp: parse_data_first_def okx_item0_def okx_item_of_def Let_def split: option.splits list.splits)
qed

lemma parse_data_first_entry:
  "ox_parse ox body = Some doc \<Longrightarrow> jfield ''data'' doc = Some (JArr (v # vs)) \<Longrightarrow>
   parse_data_first ox body = okx_item_of v"
  by (simp add: parse_data_first_def)

lemma process_status_ok:
  "fst (process_status ox code body e) \<longleftrightarrow> 200 \<le> code \<and> code < 300 \<and> envelope_code ox body \<in> {[], ''0''}"
  by (auto simp: process_status_def Let_def)

text \<open>A call whose reply is judged good and whose first entry is good is one that \<open>accepts\<close> describes.\<close>

lemma okx_call_accepts:
  assumes "okx_call ox meth path body e = (r, ok, code, e')"
  shows "(ok \<and> it_ok (parse_data_first ox (sr_body r))) \<longleftrightarrow> (\<exists>v. accepts ox (okx_reply ox meth path body e) v)"
    and "accepts ox (okx_reply ox meth path body e) v \<Longrightarrow> parse_data_first ox (sr_body r) = okx_item_of v"
proof -
  have "fst (process_status ox 0 [] e1) = False" for e1 :: "'a env"
    by (simp add: process_status_def)
  then show "(ok \<and> it_ok (parse_data_first ox (sr_body r))) \<longleftrightarrow> (\<exists>v. accepts ox (okx_reply ox meth path body e) v)"
  proof (cases "okx_reply ox meth path body e")
    case (HttpReply c b)
    then have "sr_body r = b" "ok = fst (process_status ox c b (snd (signed_request ox meth path body e)))"
      using assms by (auto simp: okx_call_reply Let_def prod_eq_iff)
    then show ?thesis
      unfolding parse_data_first_ok
      by (auto simp: HttpReply process_status_ok accepts_def envelope_code_def split: option.splits)
  next
    case (HttpFail rc)
    then have "\<not> ok"
      using assms by (simp add: okx_call_reply Let_def prod_eq_iff process_status_def)
    then show ?thesis
      by (simp add: HttpFail accepts_def)
  qed
  show "parse_data_first ox (sr_body r) = okx_item_of v" if "accepts ox (okx_reply ox meth path body e) v"
    using that assms by (auto simp: accepts_def okx_call_reply Let_def parse_data_first_entry)
qed

text \<open>C24: a placement is reported as accepted exactly when the exchange answered with a 2xx status,
  an envelope without an error code and a first entry without one; the acknowledgement then carries
  that entry's order id, the quantity and price asked for and the entry's client order id, or the one
  sent where the entry has none.  A placement that is not accepted carries no order id and no size.\<close>

theorem okx_place_accepted:
  assumes "rep = okx_reply ox ''POST'' ep_order (place_body (ox_cfg ox) side qty price po cid) e"
    and "okx_place_order ox side qty price po cid e = (a, e')"
  shows "(oa_ok a \<longleftrightarrow> (\<exists>v. accepts ox rep v)) \<and>
    (\<forall>v. accepts ox rep v \<longrightarrow>
       oa_exchange_order_id a = it_exchange_order_id (okx_item_of v) \<and> oa_qty a = qty \<and> oa_price a = price \<and>
       oa_client_order_id a = (if it_client_order_id (okx_item_of v) = [] then cid else it_client_order_id (okx_item_of v))) \<and>
    (\<not> oa_ok a \<longrightarrow> oa_exchange_order_id a = 0 \<and> oa_qty a = 0 \<and> oa_client_order_id a = cid)"
proof -
  obtain r ok code e1 where c: "okx_call ox ''POST'' ep_order
      (place_body (ox_cfg ox) side qty price po cid) e = (r, ok, code, e1)"
    using prod_cases4 by blast
  note acc = okx_call_accepts [OF c, folded assms(1)]
  have a: "oa_ok a \<longleftrightarrow> ok \<and> it_ok (parse_data_first ox (sr_body r))"
    "oa_ok a \<longrightarrow> oa_exchange_order_id a = it_exchange_order_id (parse_data_first ox (sr_body r)) \<and> oa_qty a = qty \<and>
      oa_price a = price \<and> oa_client_order_id a = (if it_client_order_id (parse_data_first ox (sr_body r)) = [] then cid
        else it_client_order_id (parse_data_first ox (sr_body r)))"
    "\<not> oa_ok a \<longrightarrow> oa_exchange_order_id a = 0 \<and> oa_qty a = 0 \<and> oa_client_order_id a = cid"
    using assms(2) by (auto simp: okx_place_unfold [OF c] Let_def order_ack0_def split: if_splits)
  show ?thesis
    using a acc(1) acc(2) by metis
qed

text \<open>A client whose exchange gives one canned answer.\<close>

definition demo_okx :: "http_reply \<Rightarrow> json option \<Rightarrow> unit okx" where
  "demo_okx rep doc = \<lparr>ox_cfg = demo_cfg, ox_creds = \<lparr>cr_api_key = ''k'', cr_api_secret = ''s'', cr_api_passphrase = ''p''\<rparr>,
     ox_has_cb = True, ox_perform = \<lambda>req w. (rep, w), ox_parse = \<lambda>body. doc,
     ox_hmac_sha256 = \<lambda>k m. [], ox_encode_block = \<lambda>s. (0, [])\<rparr>"

definition demo_accept :: json where
  "demo_accept = JObj [(''code'', JStr ''0''), (''data'', JArr [JObj [(''ordId'', JStr ''77''), (''sCode'', JStr ''0'')]])]"

lemma stoi_0 [simp]: "stoi ''0'' = Some 0"
  by code_simp

theorem okx_place_accepted_witness:
  "oa_ok (fst (okx_place_order (demo_okx (HttpReply 200 []) (Some demo_accept)) ''BUY'' 1 100 True ''c'' (demo_env ())))"
proof -
  let ?ox = "demo_okx (HttpReply 200 []) (Some demo_accept)"
  obtain a e' where r: "okx_place_order ?ox ''BUY'' 1 100 True ''c'' (demo_env ()) = (a, e')"
    by fastforce
  have "accepts ?ox (HttpReply 200 []) (JObj [(''ordId'', JStr ''77''), (''sCode'', JStr ''0'')])"
    by (simp add: accepts_def demo_okx_def demo_accept_def jstr_or_def okx_item_of_def stoi_or0_def)
  moreover have "okx_reply ?ox meth path body (demo_env ()) = HttpReply 200 []" for meth path body
    by (simp add: okx_reply_def demo_okx_def)
  ultimately show ?thesis
    using okx_place_accepted [OF refl r] r by auto
qed


section \<open>Geo-blocks\<close>

definition geoblocked :: "'w okx \<Rightarrow> http_reply \<Rightarrow> bool" where
  "geoblocked ox rep \<longleftrightarrow>
     (\<exists>code body. rep = HttpReply code body \<and>
        (code = 451 \<or> 200 \<le> code \<and> code < 300 \<and> envelope_code ox body = ''50114''))"

lemma okx_call_geoblock:
  assumes "geoblocked ox (okx_reply ox meth path body e)" and "ox_has_cb ox"
    and "okx_call ox meth path body e = (r, ok, code, e')"
  shows "\<not> ok" and "env_halted e'"
  using assms by (auto simp: geoblocked_def okx_call_reply Let_def process_status_def okx_geoblock_def)

lemma okx_geoblock_simple:
  assumes "ox_has_cb ox"
  shows "geoblocked ox (okx_reply ox ''POST'' ep_order (place_body (ox_cfg ox) side qty price po cid) e) \<Longrightarrow>
      \<not> oa_ok (fst (okx_place_order ox side qty price po cid e)) \<and> env_halted (snd (okx_place_order ox side qty price po cid e))"
    and "geoblocked ox (okx_reply ox ''POST'' ep_order (market_body (ox_cfg ox) side qty cid) e) \<Longrightarrow>
      \<not> oa_ok (fst (okx_place_market_order ox side qty cid e)) \<and> env_halted (snd (okx_place_market_order ox side qty cid e))"
    and "geoblocked ox (okx_reply ox ''POST'' ep_cancel (cancel_body (ox_cfg ox) cid oid) e) \<Longrightarrow> oid \<noteq> 0 \<or> cid \<noteq> [] \<Longrightarrow>
      \<not> ca_ok (fst (okx_cancel_order ox cid oid e)) \<and> env_halted (snd (okx_cancel_order ox cid oid e))"
    and "geoblocked ox (okx_reply ox ''GET'' (ep_positions (ox_cfg ox)) [] e) \<Longrightarrow>
      \<not> ps_ok (fst (okx_query_positions ox e)) \<and> env_halted (snd (okx_query_positions ox e))"
    and "geoblocked ox (okx_reply ox ''GET'' (ep_pending (ox_cfg ox)) [] e) \<Longrightarrow>
      \<not> os_ok (fst (okx_query_open_orders ox e)) \<and> env_halted (snd (okx_query_open_orders ox e))"
proof -
  have call: "\<not> ok \<and> env_halted e'"
    if "geoblocked ox (okx_reply ox meth path body e)" "okx_call ox meth path body e = (r, ok, code, e')" for meth path body r ok code e'
    using okx_call_geoblock [OF that(1) assms that(2)] by simp
  obtain r ok code e' where c: "okx_call ox ''POST'' ep_order (place_body (ox_cfg ox) side qty price po cid) e = (r, ok, code, e')"
    using prod_cases4 by blast
  show "geoblocked ox (okx_reply ox ''POST'' ep_order (place_body (ox_cfg ox) side qty price po cid) e) \<Longrightarrow>
      \<not> oa_ok (fst (okx_place_order ox side qty price po cid e)) \<and> env_halted (snd (okx_place_order ox side qty price po cid e))"
    using call [OF _ c] by (simp add: okx_place_unfold [OF c] Let_def order_ack0_def)
  obtain r ok code e' where c: "okx_call ox ''POST'' ep_order (market_body (ox_cfg ox) side qty cid) e = (r, ok, code, e')"
    using prod_cases4 by blast
  show "geoblocked ox (okx_reply ox ''POST'' ep_order (market_body (ox_cfg ox) side qty cid) e) \<Longrightarrow>
      \<not> oa_ok (fst (okx_place_market_order ox side qty cid e)) \<and> env_halted (snd (okx_place_market_order ox side qty cid e))"
    using call [OF _ c] by (simp add: okx_market_unfold [OF c] Let_def order_ack0_def)
  obtain r ok code e' where c: "okx_call ox ''POST'' ep_cancel (cancel_body (ox_cfg ox) cid oid) e = (r, ok, code, e')"
    using prod_cases4 by blast
  show "geoblocked ox (okx_reply ox ''POST'' ep_cancel (cancel_body (ox_cfg ox) cid oid) e) \<Longrightarrow> oid \<noteq> 0 \<or> cid \<noteq> [] \<Longrightarrow>
      \<not> ca_ok (fst (okx_cancel_order ox cid oid e)) \<and> env_halted (snd (okx_cancel_order ox cid oid e))"
    using call [OF _ c] by (simp add: okx_cancel_unfold [OF c] Let_def cancel_ack0_def)
  obtain r ok code e' where c: "okx_call ox ''GET'' (ep_positions (ox_cfg ox)) [] e = (r, ok, code, e')"
    using prod_cases4 by blast
  show "geoblocked ox (okx_reply ox ''GET'' (ep_positions (ox_cfg ox)) [] e) \<Longrightarrow>
      \<not> ps_ok (fst (okx_query_positions ox e)) \<and> env_halted (snd (okx_query_positions ox e))"
    using call [OF _ c] by (simp add: okx_positions_unfold [OF c])
  obtain r ok code e' where c: "okx_call ox ''GET'' (ep_pending (ox_cfg ox)) [] e = (r, ok, code, e')"
    using prod_cases4 by blast
  show "geoblocked ox (okx_reply ox ''GET'' (ep_pending (ox_cfg ox)) [] e) \<Longrightarrow>
      \<not> os_ok (fst (okx_query_open_orders ox e)) \<and> env_halted (snd (okx_query_open_orders ox e))"
    using call [OF _ c] by (simp add: okx_open_orders_unfold [OF c])
qed

lemma okx_geoblock_amend:
  assumes "ox_has_cb ox" and "geoblocked ox (okx_reply ox ''POST'' ep_amend (amend_body (ox_cfg ox) oid price qty) e)"
    and "okx_call ox ''POST'' ep_amend (amend_body (ox_cfg ox) oid price qty) e = (r, ok, code, e1)"
    and "okx_cancel_order ox [] oid e1 = (c, e2)"
  shows "env_halted e1" and "env_halted (snd (okx_amend_order ox oid price qty side po cid e))"
    and "aa_ok (fst (okx_amend_order ox oid price qty side po cid e)) \<longleftrightarrow>
      ca_ok c \<and> oa_ok (fst (okx_place_order ox side qty price po cid e2))"
proof -
  note g = okx_call_geoblock [OF assms(2,1,3)]
  let ?a = "amend_ack0\<lparr>aa_exchange_order_id := oid, aa_http_code := sr_http_code r, aa_exchange_code := code\<rparr>"
  have a: "okx_amend_order ox oid price qty side po cid e = amend_fallback ox oid price qty side po cid ?a e1"
    using g(1) by (simp add: okx_amend_order_def assms(3) Let_def)
  show "env_halted e1"
    by (rule g)
  then show "env_halted (snd (okx_amend_order ox oid price qty side po cid e))"
    using amend_fallback_frame [of e1 ox oid price qty side po cid ?a] by (simp add: a rest_frame_def)
  show "aa_ok (fst (okx_amend_order ox oid price qty side po cid e)) \<longleftrightarrow>
      ca_ok c \<and> oa_ok (fst (okx_place_order ox side qty price po cid e2))"
    unfolding a amend_fallback_def assms(4) by (simp add: amend_ack0_def case_prod_beta Let_def)
qed

text \<open>C25: with the halt callback installed, a geo-block reply (status 451, or a 2xx envelope with code
  50114) to the request of an operation halts the breaker, whatever the exchange answers elsewhere: an order, a
  market order, a cancel that names an order, and the two queries then report failure.  An amend does
  not stop at its geo-block: it runs the cancel-and-place fallback with the breaker already halted, and
  reports success exactly when the exchange accepts both.\<close>

theorem okx_geoblock_halts:
  assumes "ox_has_cb ox"
  shows "(geoblocked ox (okx_reply ox ''POST'' ep_order (place_body (ox_cfg ox) side qty price po cid) e) \<longrightarrow>
      \<not> oa_ok (fst (okx_place_order ox side qty price po cid e)) \<and> env_halted (snd (okx_place_order ox side qty price po cid e))) \<and>
    (geoblocked ox (okx_reply ox ''POST'' ep_order (market_body (ox_cfg ox) side qty cid) e) \<longrightarrow>
      \<not> oa_ok (fst (okx_place_market_order ox side qty cid e)) \<and> env_halted (snd (okx_place_market_order ox side qty cid e))) \<and>
    (geoblocked ox (okx_reply ox ''POST'' ep_cancel (cancel_body (ox_cfg ox) cid oid) e) \<and> (oid \<noteq> 0 \<or> cid \<noteq> []) \<longrightarrow>
      \<not> ca_ok (fst (okx_cancel_order ox cid oid e)) \<and> env_halted (snd (okx_cancel_order ox cid oid e))) \<and>
    (geoblocked ox (okx_reply ox ''GET'' (ep_positions (ox_cfg ox)) [] e) \<longrightarrow>
      \<not> ps_ok (fst (okx_query_positions ox e)) \<and> env_halted (snd (okx_query_positions ox e))) \<and>
    (geoblocked ox (okx_reply ox ''GET'' (ep_pending (ox_cfg ox)) [] e) \<longrightarrow>
      \<not> os_ok (fst (okx_query_open_orders ox e)) \<and> env_halted (snd (okx_query_open_orders ox e))) \<and>
    (geoblocked ox (okx_reply ox ''POST'' ep_amend (amend_body (ox_cfg ox) oid price qty) e) \<longrightarrow>
      (\<exists>r code e1 c e2. okx_call ox ''POST'' ep_amend (amend_body (ox_cfg ox) oid price qty) e = (r, False, code, e1) \<and>
        env_halted e1 \<and> okx_cancel_order ox [] oid e1 = (c, e2) \<and>
        env_halted (snd (okx_amend_order ox oid price qty side po cid e)) \<and>
        (aa_ok (fst (okx_amend_order ox oid price qty side po cid e)) \<longleftrightarrow>
           ca_ok c \<and> oa_ok (fst (okx_place_order ox side qty price po cid e2)))))"
proof -
  obtain r ok code e1 where k: "okx_call ox ''POST'' ep_amend (amend_body (ox_cfg ox) oid price qty) e = (r, ok, code, e1)"
    using prod_cases4 by blast
  obtain c e2 where c: "okx_cancel_order ox [] oid e1 = (c, e2)"
    by (rule prod.exhaust)
  have "geoblocked ox (okx_reply ox ''POST'' ep_amend (amend_body (ox_cfg ox) oid price qty) e) \<longrightarrow> \<not> ok"
    using okx_call_geoblock(1) [OF _ assms k] by blast
  then show ?thesis
    using okx_geoblock_simple [OF assms] okx_geoblock_amend [OF assms _ k c] k c by auto
qed

text \<open>An exchange that geo-blocks the first request and accepts those that follow: the amend reports success
  and has put a fresh order on the book of a halted engine.\<close>

definition first_blocked :: "bool okx" where
  "first_blocked = \<lparr>ox_cfg = demo_cfg, ox_creds = \<lparr>cr_api_key = ''k'', cr_api_secret = ''s'', cr_api_passphrase = ''p''\<rparr>,
     ox_has_cb = True, ox_perform = \<lambda>req later. (if later then HttpReply 200 [] else HttpReply 451 [], True),
     ox_parse = \<lambda>body. Some demo_accept, ox_hmac_sha256 = \<lambda>k m. [], ox_encode_block = \<lambda>s. (0, [])\<rparr>"

lemma first_blocked_call:
  "\<exists>r e1. okx_call first_blocked meth path body e = (r, en_rest e, if en_rest e then 0 else 451, e1) \<and> en_rest e1"
  by (simp add: okx_call_def signed_request_def Let_def first_blocked_def process_status_def okx_geoblock_def
      envelope_code_def demo_accept_def jstr_or_def stoi_or0_def)

theorem okx_geoblock_halts_witness:
  "aa_ok (fst (okx_amend_order first_blocked 7 100 1 ''BUY'' True ''c'' (demo_env False))) \<and>
   env_halted (snd (okx_amend_order first_blocked 7 100 1 ''BUY'' True ''c'' (demo_env False)))"
proof -
  let ?amend = "amend_body (ox_cfg first_blocked) 7 100 1"
  have cb: "ox_has_cb first_blocked"
    by (simp add: first_blocked_def)
  have item: "it_ok (parse_data_first first_blocked body)" for body
    by (simp add: parse_data_first_def first_blocked_def demo_accept_def okx_item_of_def jstr_or_def stoi_or0_def)
  have "geoblocked first_blocked (okx_reply first_blocked ''POST'' ep_amend ?amend (demo_env False))"
    by (simp add: geoblocked_def okx_reply_def first_blocked_def demo_env_def)
  then obtain r code e1 c e2 where k: "okx_call first_blocked ''POST'' ep_amend ?amend (demo_env False) = (r, False, code, e1)"
    and c: "okx_cancel_order first_blocked [] 7 e1 = (c, e2)"
    and h: "env_halted (snd (okx_amend_order first_blocked 7 100 1 ''BUY'' True ''c'' (demo_env False)))"
      "aa_ok (fst (okx_amend_order first_blocked 7 100 1 ''BUY'' True ''c'' (demo_env False))) \<longleftrightarrow>
        ca_ok c \<and> oa_ok (fst (okx_place_order first_blocked ''BUY'' 1 100 True ''c'' e2))"
    using okx_geoblock_halts [OF cb, of "''BUY''" 1 100 True "''c''" "demo_env False" 7] by blast
  have e1: "en_rest e1"
    using first_blocked_call [of "''POST''" ep_amend ?amend "demo_env False"] k by auto
  obtain r2 e3 where k2: "okx_call first_blocked ''POST'' ep_cancel (cancel_body (ox_cfg first_blocked) [] 7) e1 = (r2, True, 0, e3)" "en_rest e3"
    using first_blocked_call [of "''POST''" ep_cancel "cancel_body (ox_cfg first_blocked) [] 7" e1] e1 by auto
  then have "ca_ok c" "en_rest e2"
    using c item by (auto simp: okx_cancel_unfold [OF k2(1)] Let_def)
  moreover obtain r3 e4 where k3: "okx_call first_blocked ''POST'' ep_order (place_body (ox_cfg first_blocked) ''BUY'' 1 100 True ''c'') e2 = (r3, True, 0, e4)"
    using first_blocked_call [of "''POST''" ep_order "place_body (ox_cfg first_blocked) ''BUY'' 1 100 True ''c''" e2] calculation(2) by auto
  moreover have "oa_ok (fst (okx_place_order first_blocked ''BUY'' 1 100 True ''c'' e2))"
    using item by (simp add: okx_place_unfold [OF k3] Let_def)
  ultimately show ?thesis
    using h by blast
qed


section \<open>Orders the exchange no longer has\<close>

lemma process_status_item:
  assumes "200 \<le> code" and "code < 300" and "envelope_code ox body \<noteq> ''50114''"
    and "it_s_code (parse_data_first ox body) = c" and "c \<noteq> 0"
  shows "snd (snd (process_status ox code body e)) = e"
    and "fst (process_status ox code body e) \<or> fst (snd (process_status ox code body e)) = c"
  using assms by (auto simp: process_status_def Let_def)

text \<open>C26: a cancel that the exchange answers with the per-order code "order does not exist", whether
  the envelope calls the request a success or a failure, is complete after that one request: the slot
  is released, the breaker is left as it was and nothing is retried.\<close>

theorem okx_gone_cancel_completes:
  assumes "sl_active (slot i om)" and "sl_oid (slot i om) \<noteq> 0"
    and "okx_reply ox ''POST'' ep_cancel
      (cancel_body (ox_cfg ox) (sl_cid (slot i om)) (sl_oid (slot i om))) (env_record_cancel e) = HttpReply code body"
    and "200 \<le> code" and "code < 300" and "envelope_code ox body \<noteq> ''50114''"
    and "it_s_code (parse_data_first ox body) = 51400"
    and "cancel_slot (okx_client ox) i (om, e) = (ok, st')"
  shows "ok \<and> \<not> sl_active (slot i (fst st')) \<and> (env_halted (snd st') \<longleftrightarrow> env_halted e) \<and>
    en_rest (snd st') = en_rest (snd (signed_request ox ''POST'' ep_cancel
      (cancel_body (ox_cfg ox) (sl_cid (slot i om)) (sl_oid (slot i om))) (env_record_cancel e)))"
proof -
  let ?cid = "sl_cid (slot i om)" and ?oid = "sl_oid (slot i om)" and ?e = "env_record_cancel e"
  let ?sr = "snd (signed_request ox ''POST'' ep_cancel (cancel_body (ox_cfg ox) ?cid ?oid) ?e)"
  obtain r rok c e1 where c: "okx_call ox ''POST'' ep_cancel
      (cancel_body (ox_cfg ox) ?cid ?oid) ?e = (r, rok, c, e1)"
    using prod_cases4 by blast
  have r: "sr_body r = body" "(rok, c, e1) = process_status ox code body ?sr"
    using c by (auto simp: okx_call_reply assms(3) Let_def)
  note ps = process_status_item [OF assms(4-7), of ?sr]
  have e1: "e1 = ?sr" and cr: "rok \<or> c = 51400"
    using ps by (simp_all flip: r(2))
  have h: "env_halted ?sr \<longleftrightarrow> env_halted e"
    by (simp add: signed_request_def Let_def case_prod_beta env_tick_def env_halted_def split: http_reply.split)
  define a where "a = fst (okx_cancel_order ox ?cid ?oid ?e)"
  have bad: "\<not> it_ok (parse_data_first ox body)"
    using assms(7) parse_data_first_ok [of ox body] by (auto simp: parse_data_first_entry)
  have u: "okx_cancel_order ox ?cid ?oid ?e = (a, e1)"
    using okx_cancel_unfold [OF c] assms(2) by (simp add: a_def Let_def)
  have "ca_exchange_code a = (if rok then 51400 else c)"
    using okx_cancel_unfold [OF c] assms(2,7) bad r(1) by (simp add: a_def Let_def)
  then have gone: "cancel_gone a"
    using cr by (auto simp: cancel_gone_def)
  have a: "rest_cancel (okx_client ox) ?cid ?oid ?e = (a, e1)"
    by (simp add: okx_client_def u)
  have "cancel_slot (okx_client ox) i (om, e) = (True, cancel_done i (om, e1))"
    using assms(1) a gone by (simp add: cancel_slot_def kMaxCancelAttempts_def numeral_3_eq_3)
  moreover have "\<not> sl_active (slot i (fst (cancel_done i (om, e1))))"
    by (simp add: cancel_done_def)
  moreover have "en_rest (snd (cancel_done i (om, e1))) = en_rest e1"
    by (simp add: cancel_done_def)
  moreover have "env_halted (snd (cancel_done i (om, e1))) = env_halted e1"
    by simp
  ultimately show ?thesis
    using assms(8) h by (simp add: e1)
qed

definition demo_gone :: json where
  "demo_gone = JObj [(''code'', JStr ''1''), (''data'', JArr [JObj [(''sCode'', JStr ''51400'')]])]"

theorem okx_gone_cancel_completes_witness:
  "fst (cancel_slot (okx_client (demo_okx (HttpReply 200 []) (Some demo_gone))) BID (demo_live, demo_env ()))"
proof -
  let ?ox = "demo_okx (HttpReply 200 []) (Some demo_gone)"
  have "stoi ''51400'' = Some 51400"
    by (simp add: stoi_def scan_int_def skip_space_def is_space_def is_digit_def dec_val_def sign_val_def)
  then have "it_s_code (parse_data_first ?ox []) = 51400"
    by (simp add: parse_data_first_def demo_okx_def demo_gone_def okx_item_of_def stoi_or0_def Let_def)
  moreover have "envelope_code ?ox [] \<noteq> ''50114''"
    by (simp add: envelope_code_def demo_okx_def demo_gone_def jstr_or_def)
  moreover have "sl_active (slot BID demo_live)" "sl_oid (slot BID demo_live) \<noteq> 0"
    by (simp_all add: demo_live_def)
  moreover have "okx_reply ?ox meth path b e = HttpReply 200 []" for meth path b e
    by (simp add: okx_reply_def demo_okx_def)
  moreover obtain ok st' where "cancel_slot (okx_client ?ox) BID (demo_live, demo_env ()) = (ok, st')"
    by (rule prod.exhaust)
  ultimately show ?thesis
    using okx_gone_cancel_completes [of BID demo_live ?ox "demo_env ()" 200 "[]" ok st'] by simp
qed


section \<open>Replies that do not parse\<close>

lemma garbled_positions:
  assumes "okx_reply ox ''GET'' (ep_positions (ox_cfg ox)) [] e = HttpReply code body"
    and "200 \<le> code" and "code < 300" and "ox_parse ox body = None"
  shows "fst (okx_query_positions ox e) = \<lparr>ps_ok = True, ps_positions = [], ps_http_code = code\<rparr>"
proof -
  obtain r ok c e' where c: "okx_call ox ''GET'' (ep_positions (ox_cfg ox)) [] e = (r, ok, c, e')"
    using prod_cases4 by blast
  have "sr_body r = body" "sr_http_code r = code" "ok"
    using c assms by (auto simp: okx_call_reply Let_def process_status_def envelope_code_def split: if_splits)
  then show ?thesis
    using assms(4) by (simp add: okx_positions_unfold [OF c] data_entries_def)
qed

text \<open>A 2xx reply to the position query whose body is not JSON counts as an account without
  positions.  If the exchange answers the halt's query so, the engine cancels its orders, sends no
  market order whatever the local inventory, and never comes back to it.\<close>

theorem garbled_positions_skip_flatten:
  assumes "env_halted e" and "\<not> om_halt_handled om" and "0 \<le> ec_flatten_threshold (c_execution cfg)"
    and "\<forall>req w. hq_method req = ''GET'' \<longrightarrow> (\<exists>code body. fst (ox_perform ox req w) = HttpReply code body \<and>
      200 \<le> code \<and> code < 300 \<and> ox_parse ox body = None)"
    and "halt_watch cfg (logged (okx_client ox)) (om, e) = (om', e')"
  shows "(\<exists>cancels. snd (en_rest e') = snd (en_rest e) @ cancels @ [CallOther] \<and>
      (\<forall>c \<in> set cancels. \<exists>cid oid h. c = CallCancel cid oid h)) \<and>
    halt_watch cfg (logged (okx_client ox)) (om', e') = (om', e')"
proof -
  obtain om1 e1 where 1: "cancel_live (logged (okx_client ox)) ASK
      (cancel_live (logged (okx_client ox)) BID (om\<lparr>om_halt_handled := True\<rparr>, e)) = (om1, e1)"
    by (rule prod.exhaust)
  obtain ps e2 where 2: "rest_positions (logged (okx_client ox)) e1 = (ps, e2)"
    by (rule prod.exhaust)
  have q: "fst (okx_query_positions ox (unlog e1)) = ps"
    using 2 by (simp add: logged_positions call_logged_def case_prod_beta okx_client_def Let_def)
  let ?req = "okx_request ox ''GET'' (ep_positions (ox_cfg ox)) [] (wall_now (en_clock (unlog e1)))"
  have "hq_method ?req = ''GET''"
    by (simp add: okx_request_def Let_def)
  then obtain code body where "okx_reply ox ''GET'' (ep_positions (ox_cfg ox)) [] (unlog e1) = HttpReply code body"
    "200 \<le> code" "code < 300" "ox_parse ox body = None"
    using assms(4) unfolding okx_reply_def by blast
  from garbled_positions [OF this] have ps: "ps_ok ps" "net_position ps = 0"
    by (simp_all add: q net_position_def)
  note h = halt_watch_sends [OF assms(1,2) 1 2 refl assms(5)]
  have "\<not> ec_flatten_threshold (c_execution cfg) < \<bar>if ps_ok ps then net_position ps else pt_inventory (en_pt e1)\<bar>"
    using ps assms(3) by simp
  with h obtain cancels where "snd (en_rest e') = snd (en_rest e) @ cancels @ [CallOther]"
    "\<forall>c \<in> set cancels. \<exists>i h. is_live (slot i om) \<and> c = CallCancel (sl_cid (slot i om)) (sl_oid (slot i om)) h"
    "om_halt_handled om'"
    by auto
  then show ?thesis
    by (auto simp: halt_watch_def)
qed

theorem garbled_positions_skip_flatten_witness:
  "\<exists>st. pt_inventory (en_pt (snd st)) = 5 \<and> env_halted (snd st) \<and>
     snd (en_rest (snd (halt_watch demo_cfg (logged (okx_client (demo_okx (HttpReply 200 ''<html>'') None))) st))) = [CallOther]"
proof -
  let ?ox = "demo_okx (HttpReply 200 ''<html>'') None" and ?om = "fst (om_init demo_clock)"
  define e where "e = demo_halted_env\<lparr>en_pt := tracker_init\<lparr>pt_inventory := 5\<rparr>\<rparr>"
  have e: "env_halted e" "snd (en_rest e) = []" "pt_inventory (en_pt e) = 5"
    by (simp_all add: e_def demo_halted_env_def env_halted_def demo_env_def)
  have om: "\<not> om_halt_handled ?om" "\<not> is_live (slot i ?om)" for i
    by (cases i; simp add: om_init_def is_live_def slot_init_def)+
  have g: "\<forall>req w. hq_method req = ''GET'' \<longrightarrow> (\<exists>code body. fst (ox_perform ?ox req w) = HttpReply code body \<and>
      200 \<le> code \<and> code < 300 \<and> ox_parse ?ox body = None)"
    by (simp add: demo_okx_def)
  obtain om' e' where w: "halt_watch demo_cfg (logged (okx_client ?ox)) (?om, e) = (om', e')"
    by (rule prod.exhaust)
  obtain cancels where "snd (en_rest e') = cancels @ [CallOther]" "\<forall>c \<in> set cancels. \<exists>cid oid h. c = CallCancel cid oid h"
    using garbled_positions_skip_flatten [OF e(1) om(1) _ g w] demo_threshold e(2) by auto
  moreover have "cancels = []"
  proof -
    obtain om1 e1 where 1: "cancel_live (logged (okx_client ?ox)) ASK
        (cancel_live (logged (okx_client ?ox)) BID (?om\<lparr>om_halt_handled := True\<rparr>, e)) = (om1, e1)"
      by (rule prod.exhaust)
    obtain ps e2 where 2: "rest_positions (logged (okx_client ?ox)) e1 = (ps, e2)"
      by (rule prod.exhaust)
    have "\<forall>c \<in> set cancels. c \<noteq> CallOther"
      using \<open>\<forall>c \<in> set cancels. \<exists>cid oid h. c = CallCancel cid oid h\<close> by auto
    moreover obtain cs rest where "cancels @ [CallOther] = cs @ CallOther # rest"
      "\<forall>c \<in> set cs. \<exists>i h. is_live (slot i ?om) \<and> c = CallCancel (sl_cid (slot i ?om)) (sl_oid (slot i ?om)) h"
      using halt_watch_sends [OF e(1) om(1) 1 2 refl w] e(2) \<open>snd (en_rest e') = cancels @ [CallOther]\<close> by auto
    moreover from this(2) have "cs = []"
      using om(2) by (cases cs) auto
    ultimately show ?thesis
      by (cases cancels) auto
  qed
  ultimately show ?thesis
    using e w by (intro exI [of _ "(?om, e)"]) simp
qed


section \<open>Sizes on the wire\<close>

lemma round_half_even_int [simp]: "round_half_even (of_int k) = k"
  by (simp add: round_half_even_def Let_def)

lemma fmt_fixed_0: "0 \<le> k \<Longrightarrow> fmt_fixed 0 (of_int k) = dec_nat (nat k)"
  by (simp add: fmt_fixed_def Let_def)

lemma round_away_near: "\<bar>of_int (round_away x) - x\<bar> \<le> 1 / 2"
proof (cases "x < 0")
  case True
  then have "round_away x = - \<lfloor>- x + 1 / 2\<rfloor>"
    by (simp add: round_away_def)
  then show ?thesis
    by linarith
next
  case False
  then have "round_away x = \<lfloor>x + 1 / 2\<rfloor>"
    by (simp add: round_away_def)
  then show ?thesis
    by linarith
qed

lemma round_away_of_int [simp]: "round_away (of_int k) = k"
proof -
  have "\<lfloor>of_int k + (1 / 2 :: real)\<rfloor> = k" "\<lfloor>- of_int k + (1 / 2 :: real)\<rfloor> = - k" for k
    by linarith+
  then show ?thesis
    by (simp add: round_away_def)
qed

lemma round_away_bounds: "0 \<le> x \<Longrightarrow> x < 10 ^ 30 \<Longrightarrow> 0 \<le> round_away x \<and> round_away x < 10 ^ 31"
  unfolding round_away_def by (simp add: floor_less_iff)

text \<open>The size string of an order is the whole number of contracts nearest to the quantity; an order
  that the exchange lists with that size is read back as a quantity within half a contract of the one
  asked for, and as exactly that quantity when it was a whole number of contracts.\<close>

theorem okx_size_roundtrip:
  assumes "0 < ex_contract_size (c_exchange cfg)" and "0 \<le> qty"
    and "qty / ex_contract_size (c_exchange cfg) < 10 ^ 30"
    and "jstr ''sz'' v = Some (sz_buf cfg qty)"
  shows "\<bar>oe_orig_qty (open_order_of cfg v) - qty\<bar> \<le> ex_contract_size (c_exchange cfg) / 2 \<and>
    (\<forall>n. qty = of_int n * ex_contract_size (c_exchange cfg) \<longrightarrow>
       sz_buf cfg qty = dec_int n \<and> oe_orig_qty (open_order_of cfg v) = qty)"
proof -
  define cs where "cs = ex_contract_size (c_exchange cfg)"
  have cs: "0 < cs"
    using assms(1) by (simp add: cs_def)
  define k where "k = round_away (qty / cs)"
  have k: "0 \<le> k" "k < 10 ^ 31"
    using round_away_bounds [of "qty / cs"] assms(2,3) cs by (simp_all add: k_def cs_def)
  have "length (dec_nat (nat k)) \<le> 31"
    using k by (intro length_dec_nat) (simp_all add: nat_less_iff)
  moreover have "fmt_fixed 0 (sz_contracts cfg qty) = dec_nat (nat k)"
    using fmt_fixed_0 [OF k(1)] cs by (simp add: sz_contracts_def cs_def k_def)
  ultimately have sz: "sz_buf cfg qty = dec_nat (nat k)"
    by (simp add: sz_buf_def)
  have "num_field ''sz'' v = of_int k"
    using assms(4) k by (simp add: num_field_def sz stod_dec_nat)
  then have q: "oe_orig_qty (open_order_of cfg v) = of_int k * cs"
    using assms(1) by (simp add: open_order_of_def cs_def Let_def)
  have "\<bar>of_int k * cs - qty\<bar> = \<bar>of_int k - qty / cs\<bar> * cs"
    using cs by (simp add: abs_mult_pos field_simps flip: abs_mult_pos)
  also have "\<dots> \<le> 1 / 2 * cs"
    using round_away_near [of "qty / cs"] cs unfolding k_def by (intro mult_right_mono) simp_all
  finally have "\<bar>oe_orig_qty (open_order_of cfg v) - qty\<bar> \<le> cs / 2"
    by (simp add: q)
  moreover have "sz_buf cfg qty = dec_int n \<and> oe_orig_qty (open_order_of cfg v) = qty" if "qty = of_int n * cs" for n
  proof -
    have "k = n"
      using that cs by (simp add: k_def)
    then show ?thesis
      using sz q that k by (simp add: dec_int_def)
  qed
  ultimately show ?thesis
    by (simp add: cs_def)
qed

theorem okx_size_roundtrip_witness:
  "\<exists>cfg. oe_orig_qty (open_order_of cfg (JObj [(''sz'', JStr (sz_buf cfg 3))])) = 3"
proof -
  define cfg where "cfg = demo_cfg\<lparr>c_exchange := (c_exchange demo_cfg)\<lparr>ex_contract_size := 1 / 2\<rparr>\<rparr>"
  have h: "ex_contract_size (c_exchange cfg) = 1 / 2"
    by (simp add: cfg_def)
  have c: "0 < ex_contract_size (c_exchange cfg)" "3 = of_int 6 * ex_contract_size (c_exchange cfg)" "3 / ex_contract_size (c_exchange cfg) < 10 ^ 30"
    unfolding h by simp_all
  have "oe_orig_qty (open_order_of cfg (JObj [(''sz'', JStr (sz_buf cfg 3))])) = 3"
    by (rule okx_size_roundtrip [OF c(1) _ c(3), THEN conjunct2, rule_format, OF _ _ c(2), THEN conjunct2]) simp_all
  then show ?thesis
    by blast
qed

end
