(* ===== verification/WsSession.thy ===== *)
theory WsSession
  imports Config
begin

text \<open>
  The WebSocket connection that \<open>okx_ws_client.cpp\<close> (public feed) and \<open>okx_private_ws_client.cpp\<close>
  (orders) share line for line: resolve, connect, TLS, handshake, read loop, write queue, keep-alive
  and exponential back-off.  What differs, the action on a completed handshake and the treatment of
  a frame, is a record of two hooks.

  Boost.Asio and Beast are the environment: every asynchronous operation a handler starts is put in
  \<open>ws_pending\<close>, and a step of the machine completes one of them (any one, with any outcome), lets an
  armed timer expire, or is a call of \<open>stop\<close>.  An operation started on a stream object that has since
  been replaced can only fail, as Beast documents for a destroyed stream.  The handlers run on one
  strand, so each is one step.
\<close>

section \<open>State\<close>

datatype ws_op =
    OpResolve
  | OpConnect nat
  | OpSsl nat
  | OpHandshake nat
  | OpRead nat
  | OpWrite nat string
  | OpClose nat
  | OpStop

datatype outcome = Failed | Done | SniFailed | Frame string

text \<open>
  \<open>ws_stream\<close> numbers the stream object \<open>ws_\<close> points to, \<open>ws_fatal\<close> counts the calls of \<open>on_fatal_\<close>,
  and \<open>ws_sink\<close> is the state behind the connection (the event ring, the order manager).
\<close>

record 'a ws =
  ws_attempt :: int
  ws_backoff_ms :: int
  ws_logged_in :: bool
  ws_stopping :: bool
  ws_queue :: "string list"
  ws_writing :: bool
  ws_stream :: nat
  ws_pending :: "ws_op list"
  ws_backoff_timer :: "int option"
  ws_ping_timer :: bool
  ws_fatal :: nat
  ws_sink :: 'a

record 'a ws_hooks =
  hk_open :: "'a ws \<Rightarrow> 'a ws"
  hk_frame :: "string \<Rightarrow> 'a ws \<Rightarrow> 'a ws"

definition ws_new :: "reconnect_cfg \<Rightarrow> 'a \<Rightarrow> 'a ws" where
  "ws_new rc x = \<lparr>ws_attempt = 0, ws_backoff_ms = rc_initial_backoff_ms rc, ws_logged_in = False,
     ws_stopping = False, ws_queue = [], ws_writing = False, ws_stream = 0, ws_pending = [],
     ws_backoff_timer = None, ws_ping_timer = False, ws_fatal = 0, ws_sink = x\<rparr>"


section \<open>Addresses\<close>

record ws_url =
  wu_host :: string
  wu_port :: string
  wu_path :: string

text \<open>\<open>None\<close> is the result false.\<close>

definition parse_ws_url :: "string \<Rightarrow> ws_url option" where
  "parse_ws_url url =
     (if take 6 url \<noteq> ''wss://'' then None
      else
        let rest = drop 6 url;
            host_port = takeWhile (\<lambda>ch. ch \<noteq> CHR ''/'') rest;
            path = dropWhile (\<lambda>ch. ch \<noteq> CHR ''/'') rest;
            after = dropWhile (\<lambda>ch. ch \<noteq> CHR '':'') host_port;
            u = \<lparr>wu_host = takeWhile (\<lambda>ch. ch \<noteq> CHR '':'') host_port,
                 wu_port = (if after = [] then ''443'' else tl after),
                 wu_path = (if path = [] then ''/'' else path)\<rparr>
        in if wu_host u = [] then None else Some u)"


section \<open>Handlers\<close>

definition ws_async :: "ws_op \<Rightarrow> 'a ws \<Rightarrow> 'a ws" where
  "ws_async op c = c\<lparr>ws_pending := ws_pending c @ [op]\<rparr>"

definition do_resolve :: "'a ws \<Rightarrow> 'a ws" where
  "do_resolve c = ws_async OpResolve c"

definition ws_call_fatal :: "'a ws \<Rightarrow> 'a ws" where
  "ws_call_fatal c = c\<lparr>ws_fatal := Suc (ws_fatal c)\<rparr>"

definition schedule_reconnect :: "reconnect_cfg \<Rightarrow> 'a ws \<Rightarrow> 'a ws" where
  "schedule_reconnect rc c =
     (if ws_stopping c then c
      else
        let c = c\<lparr>ws_ping_timer := False, ws_attempt := ws_attempt c + 1\<rparr>
        in if rc_max_attempts rc < ws_attempt c then ws_call_fatal c
           else
             let ms = min (ws_backoff_ms c) (rc_max_backoff_ms rc)
             in c\<lparr>ws_backoff_ms := min (ws_backoff_ms c * 2) (rc_max_backoff_ms rc), ws_backoff_timer := Some ms\<rparr>)"

definition drain_write_queue :: "'a ws \<Rightarrow> 'a ws" where
  "drain_write_queue c =
     (if ws_queue c = [] then c\<lparr>ws_writing := False\<rparr>
      else ws_async (OpWrite (ws_stream c) (hd (ws_queue c))) (c\<lparr>ws_writing := True\<rparr>))"

definition enqueue_write :: "string \<Rightarrow> 'a ws \<Rightarrow> 'a ws" where
  "enqueue_write msg c =
     (let c = c\<lparr>ws_queue := ws_queue c @ [msg]\<rparr> in if \<not> ws_writing c then drain_write_queue c else c)"

text \<open>The completion of a write, successful or not.\<close>

definition on_write :: "'a ws \<Rightarrow> 'a ws" where
  "on_write c = drain_write_queue (c\<lparr>ws_queue := tl (ws_queue c)\<rparr>)"

definition arm_ping_timer :: "'a ws \<Rightarrow> 'a ws" where
  "arm_ping_timer c = (if ws_stopping c then c else c\<lparr>ws_ping_timer := True\<rparr>)"

definition on_ping_timer :: "'a ws \<Rightarrow> 'a ws" where
  "on_ping_timer c = (if ws_stopping c then c else arm_ping_timer (enqueue_write ''ping'' c))"

definition do_read :: "'a ws \<Rightarrow> 'a ws" where
  "do_read c = ws_async (OpRead (ws_stream c)) c"

definition on_resolve :: "reconnect_cfg \<Rightarrow> outcome \<Rightarrow> 'a ws \<Rightarrow> 'a ws" where
  "on_resolve rc out c = (if out = Failed then schedule_reconnect rc c else ws_async (OpConnect (ws_stream c)) c)"

definition on_connect :: "reconnect_cfg \<Rightarrow> outcome \<Rightarrow> 'a ws \<Rightarrow> 'a ws" where
  "on_connect rc out c =
     (if out = Failed \<or> out = SniFailed then schedule_reconnect rc c else ws_async (OpSsl (ws_stream c)) c)"

definition on_ssl_handshake :: "reconnect_cfg \<Rightarrow> outcome \<Rightarrow> 'a ws \<Rightarrow> 'a ws" where
  "on_ssl_handshake rc out c =
     (if out = Failed then schedule_reconnect rc c else ws_async (OpHandshake (ws_stream c)) c)"

definition on_ws_handshake :: "reconnect_cfg \<Rightarrow> 'a ws_hooks \<Rightarrow> outcome \<Rightarrow> 'a ws \<Rightarrow> 'a ws" where
  "on_ws_handshake rc hk out c =
     (if out = Failed then schedule_reconnect rc c
      else do_read (arm_ping_timer (hk_open hk (c\<lparr>ws_attempt := 0, ws_backoff_ms := rc_initial_backoff_ms rc\<rparr>))))"

definition read_again :: "'a ws \<Rightarrow> 'a ws" where
  "read_again c = (if ws_stopping c then c else do_read c)"

fun on_read :: "reconnect_cfg \<Rightarrow> 'a ws_hooks \<Rightarrow> outcome \<Rightarrow> 'a ws \<Rightarrow> 'a ws" where
  "on_read rc hk (Frame p) c =
     (if p = ''ping'' then read_again (enqueue_write ''pong'' c) else read_again (hk_frame hk p c))"
| "on_read rc hk _ c = schedule_reconnect rc c"

definition reset_and_reconnect :: "'a ws \<Rightarrow> 'a ws" where
  "reset_and_reconnect c = (if ws_stopping c then c else do_resolve (c\<lparr>ws_stream := Suc (ws_stream c)\<rparr>))"

text \<open>The task that \<open>stop\<close> posts to the strand; whether the stream is open is the environment's.\<close>

definition on_stop :: "bool \<Rightarrow> 'a ws \<Rightarrow> 'a ws" where
  "on_stop is_open c =
     (let c = c\<lparr>ws_backoff_timer := None, ws_ping_timer := False\<rparr>
      in if is_open then ws_async (OpClose (ws_stream c)) c else c)"

fun ws_complete :: "reconnect_cfg \<Rightarrow> 'a ws_hooks \<Rightarrow> ws_op \<Rightarrow> outcome \<Rightarrow> 'a ws \<Rightarrow> 'a ws" where
  "ws_complete rc hk OpResolve out c = on_resolve rc out c"
| "ws_complete rc hk (OpConnect s) out c = on_connect rc out c"
| "ws_complete rc hk (OpSsl s) out c = on_ssl_handshake rc out c"
| "ws_complete rc hk (OpHandshake s) out c = on_ws_handshake rc hk out c"
| "ws_complete rc hk (OpRead s) out c = on_read rc hk out c"
| "ws_complete rc hk (OpWrite s m) out c = on_write c"
| "ws_complete rc hk (OpClose s) out c = c"
| "ws_complete rc hk OpStop out c = on_stop (out = Done) c"


section \<open>Steps\<close>

fun op_stream :: "ws_op \<Rightarrow> nat option" where
  "op_stream (OpConnect s) = Some s"
| "op_stream (OpSsl s) = Some s"
| "op_stream (OpHandshake s) = Some s"
| "op_stream (OpRead s) = Some s"
| "op_stream (OpWrite s m) = Some s"
| "op_stream (OpClose s) = Some s"
| "op_stream _ = None"

text \<open>A read that succeeds yields a frame; only a connect can fail for the server name.\<close>

definition outcome_ok :: "ws_op \<Rightarrow> outcome \<Rightarrow> 'a ws \<Rightarrow> bool" where
  "outcome_ok op out c \<longleftrightarrow>
     (out = SniFailed \<longrightarrow> (\<exists>s. op = OpConnect s)) \<and> (out = Done \<longrightarrow> (\<forall>s. op \<noteq> OpRead s)) \<and>
     ((\<exists>p. out = Frame p) \<longrightarrow> (\<exists>s. op = OpRead s)) \<and>
     (\<forall>s. op_stream op = Some s \<and> s \<noteq> ws_stream c \<longrightarrow> out = Failed)"

inductive ws_step :: "reconnect_cfg \<Rightarrow> 'a ws_hooks \<Rightarrow> 'a ws \<Rightarrow> 'a ws \<Rightarrow> bool"
  for rc :: reconnect_cfg and hk :: "'a ws_hooks" where
  complete: "ws_pending c = xs @ op # ys \<Longrightarrow> outcome_ok op out c \<Longrightarrow>
    ws_step rc hk c (ws_complete rc hk op out (c\<lparr>ws_pending := xs @ ys\<rparr>))"
| backoff: "ws_backoff_timer c = Some ms \<Longrightarrow> ws_step rc hk c (reset_and_reconnect (c\<lparr>ws_backoff_timer := None\<rparr>))"
| ping: "ws_ping_timer c \<Longrightarrow> ws_step rc hk c (on_ping_timer (c\<lparr>ws_ping_timer := False\<rparr>))"
| stop: "ws_step rc hk c (ws_async OpStop (c\<lparr>ws_stopping := True\<rparr>))"

inductive ws_reach :: "reconnect_cfg \<Rightarrow> 'a ws_hooks \<Rightarrow> 'a \<Rightarrow> 'a ws \<Rightarrow> bool"
  for rc :: reconnect_cfg and hk :: "'a ws_hooks" and x :: 'a where
  run: "ws_reach rc hk x (do_resolve (ws_new rc x))"
| step: "ws_reach rc hk x c \<Longrightarrow> ws_step rc hk c c' \<Longrightarrow> ws_reach rc hk x c'"

text \<open>
  \<open>start\<close> of both clients: the address comes from the testnet section when that is enabled and names
  one, otherwise from the live one.  An address that does not parse is fatal; otherwise a connection is
  made and set going.
\<close>

definition ws_pick_url :: "config \<Rightarrow> string \<Rightarrow> string \<Rightarrow> string" where
  "ws_pick_url cfg testnet live = (if tn_enabled (c_testnet cfg) \<and> testnet \<noteq> [] then testnet else live)"

definition ws_start :: "reconnect_cfg \<Rightarrow> string \<Rightarrow> 'a \<Rightarrow> (ws_url \<times> 'a ws) option" where
  "ws_start rc url x = map_option (\<lambda>u. (u, do_resolve (ws_new rc x))) (parse_ws_url url)"


section \<open>What the hooks may do\<close>

text \<open>
  A hook is built from queueing frames, changing the state behind the connection or the login flag,
  calling \<open>on_fatal_\<close> and, for the private client only (\<open>r\<close>), scheduling a reconnection.
\<close>

inductive ws_effect :: "reconnect_cfg \<Rightarrow> bool \<Rightarrow> 'a ws \<Rightarrow> 'a ws \<Rightarrow> bool"
  for rc :: reconnect_cfg and r :: bool and c :: "'a ws" where
  nothing: "ws_effect rc r c c"
| enqueue: "ws_effect rc r c d \<Longrightarrow> ws_effect rc r c (enqueue_write m d)"
| sink: "ws_effect rc r c d \<Longrightarrow> ws_effect rc r c (d\<lparr>ws_sink := x\<rparr>)"
| login: "ws_effect rc r c d \<Longrightarrow> ws_effect rc r c (d\<lparr>ws_logged_in := b\<rparr>)"
| fatal: "ws_effect rc r c d \<Longrightarrow> ws_effect rc r c (ws_call_fatal d)"
| reconnect: "r \<Longrightarrow> ws_effect rc r c d \<Longrightarrow> ws_effect rc r c (schedule_reconnect rc d)"

lemma ws_effect_trans: "ws_effect rc r d e \<Longrightarrow> ws_effect rc r c d \<Longrightarrow> ws_effect rc r c e"
  by (induction rule: ws_effect.induct) (auto intro: ws_effect.intros)

locale ws_client =
  fixes rc :: reconnect_cfg and hk :: "'a ws_hooks" and r :: bool
  assumes open_effect: "ws_effect rc False c (hk_open hk c)"
    and frame_effect: "ws_effect rc r c (hk_frame hk p c)"

text \<open>A client whose frames never ask for a reconnection.\<close>

locale ws_passive = ws_client rc hk False
  for rc :: reconnect_cfg and hk :: "'a ws_hooks"


section \<open>The write queue\<close>

fun is_write :: "ws_op \<Rightarrow> bool" where
  "is_write (OpWrite s m) \<longleftrightarrow> True"
| "is_write _ \<longleftrightarrow> False"

text \<open>
  Beast allows one write at a time.  \<open>writing_\<close> says whether one is in flight, and then it is the frame
  at the front of the queue; when none is in flight the queue is empty.
\<close>

definition writer_ok :: "'a ws \<Rightarrow> bool" where
  "writer_ok c \<longleftrightarrow>
     (if ws_writing c then ws_queue c \<noteq> [] \<and> (\<exists>s. filter is_write (ws_pending c) = [OpWrite s (hd (ws_queue c))])
      else ws_queue c = [] \<and> filter is_write (ws_pending c) = [])"

lemma ws_async_simps [simp]:
  "ws_attempt (ws_async op c) = ws_attempt c" "ws_backoff_ms (ws_async op c) = ws_backoff_ms c"
  "ws_logged_in (ws_async op c) = ws_logged_in c" "ws_stopping (ws_async op c) = ws_stopping c"
  "ws_queue (ws_async op c) = ws_queue c" "ws_writing (ws_async op c) = ws_writing c"
  "ws_stream (ws_async op c) = ws_stream c" "ws_pending (ws_async op c) = ws_pending c @ [op]"
  "ws_backoff_timer (ws_async op c) = ws_backoff_timer c" "ws_ping_timer (ws_async op c) = ws_ping_timer c"
  "ws_fatal (ws_async op c) = ws_fatal c" "ws_sink (ws_async op c) = ws_sink c"
  by (simp_all add: ws_async_def)

lemma drain_simps [simp]:
  "ws_attempt (drain_write_queue c) = ws_attempt c" "ws_backoff_ms (drain_write_queue c) = ws_backoff_ms c"
  "ws_logged_in (drain_write_queue c) = ws_logged_in c" "ws_stopping (drain_write_queue c) = ws_stopping c"
  "ws_stream (drain_write_queue c) = ws_stream c" "ws_backoff_timer (drain_write_queue c) = ws_backoff_timer c"
  "ws_ping_timer (drain_write_queue c) = ws_ping_timer c" "ws_fatal (drain_write_queue c) = ws_fatal c"
  "ws_sink (drain_write_queue c) = ws_sink c" "ws_queue (drain_write_queue c) = ws_queue c"
  "\<forall>s m. \<not> P (OpWrite s m) \<Longrightarrow> filter P (ws_pending (drain_write_queue c)) = filter P (ws_pending c)"
  by (simp_all add: drain_write_queue_def)

lemma enqueue_simps [simp]:
  "ws_attempt (enqueue_write m c) = ws_attempt c" "ws_backoff_ms (enqueue_write m c) = ws_backoff_ms c"
  "ws_logged_in (enqueue_write m c) = ws_logged_in c" "ws_stopping (enqueue_write m c) = ws_stopping c"
  "ws_stream (enqueue_write m c) = ws_stream c" "ws_backoff_timer (enqueue_write m c) = ws_backoff_timer c"
  "ws_ping_timer (enqueue_write m c) = ws_ping_timer c" "ws_fatal (enqueue_write m c) = ws_fatal c"
  "ws_sink (enqueue_write m c) = ws_sink c"
  "\<forall>s m. \<not> P (OpWrite s m) \<Longrightarrow> filter P (ws_pending (enqueue_write m c)) = filter P (ws_pending c)"
  by (simp_all add: enqueue_write_def Let_def)

lemma schedule_simps [simp]:
  "ws_logged_in (schedule_reconnect rc c) = ws_logged_in c" "ws_stopping (schedule_reconnect rc c) = ws_stopping c"
  "ws_queue (schedule_reconnect rc c) = ws_queue c" "ws_writing (schedule_reconnect rc c) = ws_writing c"
  "ws_stream (schedule_reconnect rc c) = ws_stream c" "ws_pending (schedule_reconnect rc c) = ws_pending c"
  "ws_sink (schedule_reconnect rc c) = ws_sink c"
  by (simp_all add: schedule_reconnect_def Let_def ws_call_fatal_def)

lemma call_fatal_simps [simp]:
  "ws_attempt (ws_call_fatal c) = ws_attempt c" "ws_backoff_ms (ws_call_fatal c) = ws_backoff_ms c"
  "ws_logged_in (ws_call_fatal c) = ws_logged_in c" "ws_stopping (ws_call_fatal c) = ws_stopping c"
  "ws_queue (ws_call_fatal c) = ws_queue c" "ws_writing (ws_call_fatal c) = ws_writing c"
  "ws_stream (ws_call_fatal c) = ws_stream c" "ws_pending (ws_call_fatal c) = ws_pending c"
  "ws_backoff_timer (ws_call_fatal c) = ws_backoff_timer c" "ws_ping_timer (ws_call_fatal c) = ws_ping_timer c"
  "ws_fatal (ws_call_fatal c) = Suc (ws_fatal c)" "ws_sink (ws_call_fatal c) = ws_sink c"
  by (simp_all add: ws_call_fatal_def)

lemma arm_ping_simps [simp]:
  "ws_attempt (arm_ping_timer c) = ws_attempt c" "ws_backoff_ms (arm_ping_timer c) = ws_backoff_ms c"
  "ws_logged_in (arm_ping_timer c) = ws_logged_in c" "ws_stopping (arm_ping_timer c) = ws_stopping c"
  "ws_queue (arm_ping_timer c) = ws_queue c" "ws_writing (arm_ping_timer c) = ws_writing c"
  "ws_stream (arm_ping_timer c) = ws_stream c" "ws_pending (arm_ping_timer c) = ws_pending c"
  "ws_backoff_timer (arm_ping_timer c) = ws_backoff_timer c" "ws_fatal (arm_ping_timer c) = ws_fatal c"
  "ws_sink (arm_ping_timer c) = ws_sink c"
  by (simp_all add: arm_ping_timer_def)

lemma writer_ok_drain:
  assumes "filter is_write (ws_pending c) = []"
  shows "writer_ok (drain_write_queue c)"
  using assms by (auto simp: writer_ok_def drain_write_queue_def)

lemma writer_ok_enqueue:
  assumes "writer_ok c"
  shows "writer_ok (enqueue_write m c)"
proof (cases "ws_writing c")
  case True
  with assms show ?thesis
    by (auto simp: writer_ok_def enqueue_write_def)
next
  case False
  with assms have "writer_ok (drain_write_queue (c\<lparr>ws_queue := ws_queue c @ [m]\<rparr>))"
    by (intro writer_ok_drain) (simp add: writer_ok_def)
  with False show ?thesis
    by (simp add: enqueue_write_def)
qed

text \<open>An operation that leaves the queue and the writes in flight alone.\<close>

lemma writer_ok_same:
  "writer_ok c \<Longrightarrow> ws_queue d = ws_queue c \<Longrightarrow> ws_writing d = ws_writing c \<Longrightarrow>
   filter is_write (ws_pending d) = filter is_write (ws_pending c) \<Longrightarrow> writer_ok d"
  by (simp add: writer_ok_def)

lemma writer_ok_effect: "ws_effect rc r c d \<Longrightarrow> writer_ok c \<Longrightarrow> writer_ok d"
proof (induction rule: ws_effect.induct)
  case (enqueue d m)
  then show ?case by (simp add: writer_ok_enqueue)
next
  case (fatal d)
  then show ?case by (auto intro: writer_ok_same [of d])
next
  case (reconnect d)
  then show ?case by (auto intro: writer_ok_same [of d])
qed (auto simp: writer_ok_def)

lemma writer_ok_async: "writer_ok c \<Longrightarrow> \<not> is_write op \<Longrightarrow> writer_ok (ws_async op c)"
  by (auto intro: writer_ok_same)

lemma writer_ok_schedule: "writer_ok c \<Longrightarrow> writer_ok (schedule_reconnect rc c)"
  by (auto intro: writer_ok_same)

lemma writer_ok_read_again: "writer_ok c \<Longrightarrow> writer_ok (read_again c)"
  by (simp add: read_again_def do_read_def writer_ok_async)

lemma filter_take_out: "\<not> P op \<Longrightarrow> filter P (xs @ op # ys) = filter P (xs @ ys)"
  by simp

context ws_client
begin

lemma writer_ok_complete:
  assumes "writer_ok c" and "ws_pending c = xs @ op # ys"
  shows "writer_ok (ws_complete rc hk op out (c\<lparr>ws_pending := xs @ ys\<rparr>))"
proof (cases "is_write op")
  case True
  then obtain s m where op: "op = OpWrite s m"
    by (cases op) auto
  with assms have "filter is_write (xs @ ys) = []"
    by (auto simp: writer_ok_def append_eq_Cons_conv split: if_splits)
  then show ?thesis
    by (simp add: op on_write_def writer_ok_drain)
next
  case False
  let ?c = "c\<lparr>ws_pending := xs @ ys\<rparr>"
  have c: "writer_ok ?c"
    using assms False by (cases "ws_writing c") (auto simp: writer_ok_def)
  have opened: "writer_ok (hk_open hk (?c\<lparr>ws_attempt := 0, ws_backoff_ms := rc_initial_backoff_ms rc\<rparr>))"
    by (rule writer_ok_effect [OF open_effect], rule writer_ok_same [OF c]) simp_all
  then have "writer_ok (arm_ping_timer (hk_open hk (?c\<lparr>ws_attempt := 0, ws_backoff_ms := rc_initial_backoff_ms rc\<rparr>)))"
    by (auto intro: writer_ok_same)
  moreover have "writer_ok (hk_frame hk p ?c)" for p
    by (rule writer_ok_effect [OF frame_effect c])
  moreover have "writer_ok (?c\<lparr>ws_backoff_timer := None, ws_ping_timer := False\<rparr>)"
    by (rule writer_ok_same [OF c]) simp_all
  ultimately show ?thesis
    using c False
    by (cases op; cases out)
      (simp_all add: on_resolve_def on_connect_def on_ssl_handshake_def on_ws_handshake_def on_stop_def do_read_def
        writer_ok_schedule writer_ok_async writer_ok_read_again writer_ok_enqueue)
qed

lemma writer_ok_step:
  assumes "ws_step rc hk c c'" and "writer_ok c"
  shows "writer_ok c'"
  using assms
proof (cases rule: ws_step.cases)
  case (complete xs op ys out)
  with assms(2) show ?thesis
    by (simp add: writer_ok_complete)
next
  case (backoff ms)
  have "writer_ok (c\<lparr>ws_backoff_timer := None\<rparr>)" "writer_ok (c\<lparr>ws_backoff_timer := None, ws_stream := Suc (ws_stream c)\<rparr>)"
    using assms(2) by (simp_all add: writer_ok_def)
  then show ?thesis
    by (simp add: backoff reset_and_reconnect_def do_resolve_def writer_ok_async)
next
  case ping
  have "writer_ok (enqueue_write ''ping'' (c\<lparr>ws_ping_timer := False\<rparr>))"
    by (rule writer_ok_enqueue) (use assms(2) in \<open>simp add: writer_ok_def\<close>)
  then have "writer_ok (arm_ping_timer (enqueue_write ''ping'' (c\<lparr>ws_ping_timer := False\<rparr>)))"
    by (auto intro: writer_ok_same)
  then show ?thesis
    using assms(2) by (auto simp: ping on_ping_timer_def writer_ok_def)
next
  case stop
  then show ?thesis
    using assms(2) by (auto intro: writer_ok_same)
qed

lemma writer_ok_reach: "ws_reach rc hk x c \<Longrightarrow> writer_ok c"
proof (induction rule: ws_reach.induct)
  case run
  then show ?case by (simp add: writer_ok_def do_resolve_def ws_new_def)
next
  case (step c c')
  then show ?case by (blast intro: writer_ok_step)
qed

text \<open>A property of the state behind the connection that the hooks keep holds throughout.\<close>

lemma sink_invariant:
  assumes "ws_reach rc hk x c" and "P x"
    and "\<And>c. P (ws_sink c) \<Longrightarrow> P (ws_sink (hk_open hk c))" and "\<And>p c. P (ws_sink c) \<Longrightarrow> P (ws_sink (hk_frame hk p c))"
  shows "P (ws_sink c)"
  using assms(1)
proof (induction rule: ws_reach.induct)
  case run
  then show ?case
    using assms(2) by (simp add: do_resolve_def ws_new_def)
next
  case (step c c')
  from step.hyps(2) show ?case
  proof (cases rule: ws_step.cases)
    case (complete xs op ys out)
    have "P (ws_sink (hk_open hk (c\<lparr>ws_pending := xs @ ys, ws_attempt := 0, ws_backoff_ms := b\<rparr>)))"
      "P (ws_sink (hk_frame hk p (c\<lparr>ws_pending := xs @ ys\<rparr>)))" for b p
      using step.IH assms(3,4) by simp_all
    then show ?thesis
      using step.IH complete(1)
      by (cases op; cases out)
        (simp_all add: on_resolve_def on_connect_def on_ssl_handshake_def on_ws_handshake_def on_stop_def on_write_def
          do_read_def read_again_def Let_def)
  qed (use step.IH in \<open>simp_all add: reset_and_reconnect_def do_resolve_def on_ping_timer_def\<close>)
qed

end


section \<open>A session that comes up\<close>

text \<open>Completing one pending operation.\<close>

lemma reach_take:
  assumes "ws_reach rc hk x c" and "ws_pending c = xs @ op # ys" and "outcome_ok op out c"
  shows "ws_reach rc hk x (ws_complete rc hk op out (c\<lparr>ws_pending := xs @ ys\<rparr>))"
  using ws_reach.step [OF assms(1) ws_step.complete [OF assms(2,3)]] .

lemma reach_only:
  assumes "ws_reach rc hk x (ws_async op (ws_new rc x))" and "outcome_ok op Done (ws_async op (ws_new rc x))"
  shows "ws_reach rc hk x (ws_complete rc hk op Done (ws_new rc x))"
proof -
  have "(ws_async op (ws_new rc x))\<lparr>ws_pending := [] @ []\<rparr> = ws_new rc x"
    and p: "ws_pending (ws_async op (ws_new rc x)) = [] @ op # []"
    by (simp_all add: ws_async_def ws_new_def)
  then show ?thesis
    using reach_take [OF assms(1) p assms(2)] by metis
qed

text \<open>The state of the first session, every step of which succeeded.\<close>

definition session_start :: "reconnect_cfg \<Rightarrow> 'a ws_hooks \<Rightarrow> 'a \<Rightarrow> 'a ws" where
  "session_start rc hk x = on_ws_handshake rc hk Done (ws_new rc x)"

lemma session_start_reach: "ws_reach rc hk x (session_start rc hk x)"
proof -
  have s: "ws_stream (ws_new rc x) = 0"
    by (simp add: ws_new_def)
  have "ws_reach rc hk x (ws_async OpResolve (ws_new rc x))"
    using ws_reach.run [of rc hk x] by (simp add: do_resolve_def)
  then have "ws_reach rc hk x (ws_async (OpConnect 0) (ws_new rc x))"
    using reach_only [of rc hk x OpResolve] by (simp add: on_resolve_def outcome_ok_def s)
  then have "ws_reach rc hk x (ws_async (OpSsl 0) (ws_new rc x))"
    using reach_only [of rc hk x "OpConnect 0"] by (auto simp: on_connect_def outcome_ok_def s)
  then have "ws_reach rc hk x (ws_async (OpHandshake 0) (ws_new rc x))"
    using reach_only [of rc hk x "OpSsl 0"] by (auto simp: on_ssl_handshake_def outcome_ok_def s)
  then show ?thesis
    using reach_only [of rc hk x "OpHandshake 0"] by (auto simp add: outcome_ok_def s session_start_def)
qed

end
