(* ===== verification/WsProgress.thy ===== *)
theory WsProgress
  imports WsSession
begin

text \<open>
  What becomes of a connection: it is never silently dead (some operation or timer is pending unless it
  was stopped or gave up through \<open>on_fatal_\<close>), a client whose frames do not reconnect runs one attempt
  at a time with the documented back-off, and without a completed handshake it gives up after finitely
  many steps.
\<close>

section \<open>Progress tokens\<close>

fun is_progress :: "ws_op \<Rightarrow> bool" where
  "is_progress OpResolve \<longleftrightarrow> True"
| "is_progress (OpConnect s) \<longleftrightarrow> True"
| "is_progress (OpSsl s) \<longleftrightarrow> True"
| "is_progress (OpHandshake s) \<longleftrightarrow> True"
| "is_progress (OpRead s) \<longleftrightarrow> True"
| "is_progress _ \<longleftrightarrow> False"

text \<open>The operations and timers that carry the connection on.\<close>

definition progress :: "'a ws \<Rightarrow> ws_op list" where
  "progress c = filter is_progress (ws_pending c)"

definition tokens :: "'a ws \<Rightarrow> nat" where
  "tokens c = length (progress c) + (if ws_backoff_timer c = None then 0 else 1)"

definition live_ok :: "'a ws \<Rightarrow> bool" where
  "live_ok c \<longleftrightarrow> (ws_stopping c \<or> 0 < ws_fatal c \<or> 0 < tokens c) \<and> (OpStop \<in> set (ws_pending c) \<longrightarrow> ws_stopping c)"

lemma progress_simps [simp]:
  "progress (enqueue_write m c) = progress c" "progress (drain_write_queue c) = progress c"
  "progress (schedule_reconnect rc c) = progress c" "progress (ws_call_fatal c) = progress c"
  "progress (arm_ping_timer c) = progress c"
  "progress (ws_async op c) = progress c @ (if is_progress op then [op] else [])"
  by (simp_all add: progress_def)

lemma stop_pending_simps [simp]:
  "OpStop \<in> set (ws_pending (drain_write_queue c)) \<longleftrightarrow> OpStop \<in> set (ws_pending c)"
  "OpStop \<in> set (ws_pending (enqueue_write m c)) \<longleftrightarrow> OpStop \<in> set (ws_pending c)"
  by (simp_all add: drain_write_queue_def enqueue_write_def Let_def)

lemma effect_keeps:
  assumes "ws_effect rc r c d"
  shows "progress d = progress c" and "ws_stopping d = ws_stopping c" and "ws_stream d = ws_stream c"
    and "ws_fatal c \<le> ws_fatal d" and "tokens c \<le> tokens d"
    and "OpStop \<in> set (ws_pending d) \<longleftrightarrow> OpStop \<in> set (ws_pending c)"
proof -
  have "progress d = progress c \<and> ws_stopping d = ws_stopping c \<and> ws_stream d = ws_stream c \<and>
      ws_fatal c \<le> ws_fatal d \<and> (ws_backoff_timer c \<noteq> None \<longrightarrow> ws_backoff_timer d \<noteq> None) \<and>
      (OpStop \<in> set (ws_pending d) \<longleftrightarrow> OpStop \<in> set (ws_pending c))"
    using assms
  proof (induction rule: ws_effect.induct)
    case (reconnect d)
    then show ?case
      by (auto simp: schedule_reconnect_def Let_def progress_def)
  qed (simp_all, simp_all add: progress_def)
  then show "progress d = progress c" "ws_stopping d = ws_stopping c" "ws_stream d = ws_stream c"
    "ws_fatal c \<le> ws_fatal d" "tokens c \<le> tokens d"
    "OpStop \<in> set (ws_pending d) \<longleftrightarrow> OpStop \<in> set (ws_pending c)"
    by (auto simp: tokens_def)
qed

lemma effect_quiet:
  assumes "ws_effect rc False c d"
  shows "ws_attempt d = ws_attempt c \<and> ws_backoff_ms d = ws_backoff_ms c \<and> ws_backoff_timer d = ws_backoff_timer c"
  using assms by (induction rule: ws_effect.induct) simp_all


section \<open>Never silently dead\<close>

lemma live_ok_schedule: "OpStop \<in> set (ws_pending c) \<longrightarrow> ws_stopping c \<Longrightarrow> live_ok (schedule_reconnect rc c)"
  by (auto simp: live_ok_def schedule_reconnect_def tokens_def Let_def ws_call_fatal_def)

lemma live_ok_async:
  "is_progress op \<Longrightarrow> OpStop \<in> set (ws_pending c) \<longrightarrow> ws_stopping c \<Longrightarrow> live_ok (ws_async op c)"
  by (cases op) (auto simp: live_ok_def tokens_def)

lemma live_ok_read_again: "OpStop \<in> set (ws_pending c) \<longrightarrow> ws_stopping c \<Longrightarrow> live_ok (read_again c)"
  using live_ok_async [of "OpRead (ws_stream c)" c] by (auto simp: read_again_def do_read_def live_ok_def)

lemma live_ok_same:
  "live_ok c \<Longrightarrow> ws_stopping d = ws_stopping c \<Longrightarrow> ws_fatal d = ws_fatal c \<Longrightarrow> progress d = progress c \<Longrightarrow>
   ws_backoff_timer d = ws_backoff_timer c \<Longrightarrow>
   (OpStop \<in> set (ws_pending d) \<longrightarrow> OpStop \<in> set (ws_pending c)) \<Longrightarrow> live_ok d"
  by (auto simp: live_ok_def tokens_def)

context ws_client
begin

lemma live_ok_complete:
  assumes "live_ok c" and "ws_pending c = xs @ op # ys"
  shows "live_ok (ws_complete rc hk op out (c\<lparr>ws_pending := xs @ ys\<rparr>))"
proof -
  let ?c = "c\<lparr>ws_pending := xs @ ys\<rparr>"
  have s: "OpStop \<in> set (ws_pending ?c) \<longrightarrow> ws_stopping ?c"
    using assms by (auto simp: live_ok_def)
  note sched = live_ok_schedule [OF s] and go = live_ok_async [OF _ s]
  let ?o = "hk_open hk (?c\<lparr>ws_attempt := 0, ws_backoff_ms := rc_initial_backoff_ms rc\<rparr>)"
  have opened: "live_ok (do_read (arm_ping_timer ?o))"
    unfolding do_read_def
    by (rule live_ok_async) (use s effect_keeps [OF open_effect [of "?c\<lparr>ws_attempt := 0, ws_backoff_ms := rc_initial_backoff_ms rc\<rparr>"]] in auto)
  have framed: "live_ok (read_again (hk_frame hk p ?c))" for p
    by (rule live_ok_read_again) (use s effect_keeps [OF frame_effect [of ?c p]] in auto)
  have pong: "live_ok (read_again (enqueue_write ''pong'' ?c))"
    by (rule live_ok_read_again) (use s in auto)
  show ?thesis
  proof (cases op)
    case (OpWrite s' m)
    then have "progress ?c = progress c"
      using assms(2) by (simp add: progress_def)
    then show ?thesis
      using assms by (auto simp: OpWrite on_write_def progress_def intro!: live_ok_same [OF assms(1)])
  next
    case (OpClose s')
    then show ?thesis
      using assms by (auto simp: progress_def intro!: live_ok_same [OF assms(1)])
  next
    case OpStop
    then have "ws_stopping c"
      using assms by (auto simp: live_ok_def)
    then show ?thesis
      by (simp add: OpStop on_stop_def live_ok_def Let_def)
  next
    case (OpRead s')
    then show ?thesis
      using sched framed pong by (cases out) simp_all
  qed (use sched go opened in \<open>simp_all add: on_resolve_def on_connect_def on_ssl_handshake_def on_ws_handshake_def\<close>)
qed

lemma live_ok_step:
  assumes "ws_step rc hk c c'" and "live_ok c"
  shows "live_ok c'"
  using assms(1)
proof (cases rule: ws_step.cases)
  case (complete xs op ys out)
  with assms(2) show ?thesis
    by (simp add: live_ok_complete)
next
  case (backoff ms)
  then show ?thesis
    using assms(2) by (auto simp: reset_and_reconnect_def do_resolve_def live_ok_def tokens_def)
next
  case ping
  then show ?thesis
    by (auto simp: on_ping_timer_def progress_def intro: live_ok_same [OF assms(2)])
next
  case stop
  then show ?thesis
    by (simp add: live_ok_def)
qed

lemma live_ok_reach: "ws_reach rc hk x c \<Longrightarrow> live_ok c"
proof (induction rule: ws_reach.induct)
  case run
  then show ?case by (simp add: live_ok_def tokens_def do_resolve_def ws_new_def)
next
  case (step c c')
  then show ?case by (blast intro: live_ok_step)
qed

end


section \<open>One attempt at a time\<close>

text \<open>The back-off before the \<open>n\<close>-th reconnection since the last handshake.\<close>

definition backoff_delay :: "reconnect_cfg \<Rightarrow> nat \<Rightarrow> int" where
  "backoff_delay rc n = min (rc_initial_backoff_ms rc * 2 ^ n) (rc_max_backoff_ms rc)"

text \<open>Nothing in flight, attempts left, and the next delay is the doubled one.\<close>

definition ready :: "reconnect_cfg \<Rightarrow> 'a ws \<Rightarrow> bool" where
  "ready rc c \<longleftrightarrow> tokens c = 0 \<and> 0 \<le> ws_attempt c \<and> ws_attempt c \<le> rc_max_attempts rc \<and>
     min (ws_backoff_ms c) (rc_max_backoff_ms rc) = backoff_delay rc (nat (ws_attempt c))"

definition conn_ok :: "reconnect_cfg \<Rightarrow> 'a ws \<Rightarrow> bool" where
  "conn_ok rc c \<longleftrightarrow> tokens c \<le> 1 \<and> 0 \<le> ws_attempt c \<and> ws_attempt c \<le> rc_max_attempts rc + 1 \<and>
     (ws_attempt c \<le> rc_max_attempts rc \<longrightarrow>
       min (ws_backoff_ms c) (rc_max_backoff_ms rc) = backoff_delay rc (nat (ws_attempt c))) \<and>
     (ws_attempt c = rc_max_attempts rc + 1 \<longrightarrow> tokens c = 0 \<and> 0 < ws_fatal c) \<and>
     (\<forall>ms. ws_backoff_timer c = Some ms \<longrightarrow> 0 < ws_attempt c \<and> ms = backoff_delay rc (nat (ws_attempt c) - 1))"

lemma backoff_delay_Suc:
  assumes "0 \<le> rc_max_backoff_ms rc" and "min b (rc_max_backoff_ms rc) = backoff_delay rc n"
  shows "min (min (b * 2) (rc_max_backoff_ms rc)) (rc_max_backoff_ms rc) = backoff_delay rc (Suc n)"
  using assms by (auto simp: backoff_delay_def min_def split: if_splits)

lemma ready_conn_ok: "ready rc c \<Longrightarrow> conn_ok rc c"
  by (auto simp: ready_def conn_ok_def tokens_def)

lemma ready_same:
  "ready rc c \<Longrightarrow> ws_attempt d = ws_attempt c \<Longrightarrow> ws_backoff_ms d = ws_backoff_ms c \<Longrightarrow>
   progress d = progress c \<Longrightarrow> ws_backoff_timer d = ws_backoff_timer c \<Longrightarrow> ready rc d"
  by (simp add: ready_def tokens_def)

lemma conn_ok_same:
  "conn_ok rc c \<Longrightarrow> ws_attempt d = ws_attempt c \<Longrightarrow> ws_backoff_ms d = ws_backoff_ms c \<Longrightarrow>
   progress d = progress c \<Longrightarrow> ws_backoff_timer d = ws_backoff_timer c \<Longrightarrow> ws_fatal c \<le> ws_fatal d \<Longrightarrow> conn_ok rc d"
  by (auto simp: conn_ok_def tokens_def)

lemma ready_async: "ready rc c \<Longrightarrow> is_progress op \<Longrightarrow> conn_ok rc (ws_async op c)"
  by (auto simp: ready_def conn_ok_def tokens_def split: if_splits)

lemma ready_schedule:
  assumes "0 \<le> rc_max_backoff_ms rc" and "ready rc c"
  shows "conn_ok rc (schedule_reconnect rc c)"
proof (cases "ws_stopping c")
  case True
  with assms(2) show ?thesis
    by (simp add: schedule_reconnect_def ready_conn_ok)
next
  case False
  have n: "nat (ws_attempt c + 1) = Suc (nat (ws_attempt c))"
    using assms(2) by (simp add: ready_def nat_add_distrib)
  have b: "min (ws_backoff_ms c) (rc_max_backoff_ms rc) = backoff_delay rc (nat (ws_attempt c))" "tokens c = 0"
    using assms(2) by (simp_all add: ready_def)
  note d = backoff_delay_Suc [OF assms(1) b(1)]
  show ?thesis
  proof (cases "rc_max_attempts rc < ws_attempt c + 1")
    case True
    with False assms(2) b show ?thesis
      by (auto simp: schedule_reconnect_def Let_def conn_ok_def ready_def tokens_def progress_def ws_call_fatal_def)
  next
    case gt: False
    with False assms(2) b d n show ?thesis
      by (simp add: schedule_reconnect_def Let_def conn_ok_def ready_def tokens_def progress_def)
  qed
qed

lemma conn_ok_read_again: "ready rc c \<Longrightarrow> conn_ok rc (read_again c)"
  by (simp add: read_again_def do_read_def ready_async ready_conn_ok)

text \<open>Completing the one operation in flight leaves the connection ready for the next.\<close>

lemma conn_ok_take:
  assumes "conn_ok rc c" and "ws_pending c = xs @ op # ys" and "is_progress op"
  shows "ready rc (c\<lparr>ws_pending := xs @ ys\<rparr>)"
proof -
  have "progress c = filter is_progress xs @ op # filter is_progress ys"
    using assms(2,3) by (simp add: progress_def)
  then have "filter is_progress xs = []" "filter is_progress ys = []" "ws_backoff_timer c = None" "tokens c = 1"
    using assms(1) by (auto simp: conn_ok_def tokens_def split: if_splits)
  then show ?thesis
    using assms(1) by (auto simp: ready_def conn_ok_def tokens_def progress_def)
qed

lemma conn_ok_timer:
  assumes "conn_ok rc c" and "ws_backoff_timer c = Some ms"
  shows "ready rc (c\<lparr>ws_backoff_timer := None\<rparr>)"
  using assms by (auto simp: ready_def conn_ok_def tokens_def progress_def)

context ws_passive
begin

lemma ready_open:
  assumes "0 \<le> rc_max_attempts rc" and "ready rc c"
  shows "ready rc (arm_ping_timer (hk_open hk (c\<lparr>ws_attempt := 0, ws_backoff_ms := rc_initial_backoff_ms rc\<rparr>)))"
proof -
  let ?d = "c\<lparr>ws_attempt := 0, ws_backoff_ms := rc_initial_backoff_ms rc\<rparr>"
  have "ready rc ?d"
    using assms by (simp add: ready_def backoff_delay_def tokens_def progress_def)
  then show ?thesis
    by (rule ready_same) (simp_all add: effect_keeps(1) [OF open_effect] effect_quiet [OF open_effect])
qed

lemma ready_frame: "ready rc c \<Longrightarrow> ready rc (hk_frame hk p c)"
  by (rule ready_same) (simp_all add: effect_keeps(1) [OF frame_effect] effect_quiet [OF frame_effect])

lemma conn_ok_complete:
  assumes "0 \<le> rc_max_attempts rc" and "0 \<le> rc_max_backoff_ms rc"
    and "conn_ok rc c" and "ws_pending c = xs @ op # ys"
  shows "conn_ok rc (ws_complete rc hk op out (c\<lparr>ws_pending := xs @ ys\<rparr>))"
proof (cases "is_progress op")
  case True
  note t = conn_ok_take [OF assms(3,4) True]
  show ?thesis
  proof (cases op)
    case (OpHandshake s)
    then show ?thesis
      using ready_schedule [OF assms(2) t] ready_async [OF ready_open [OF assms(1) t]]
      by (simp add: on_ws_handshake_def do_read_def)
  next
    case (OpRead s)
    have "ready rc (enqueue_write ''pong'' (c\<lparr>ws_pending := xs @ ys\<rparr>))"
      by (rule ready_same [OF t]) simp_all
    then show ?thesis
      using ready_schedule [OF assms(2) t] ready_frame [OF t] by (cases out) (simp_all add: OpRead conn_ok_read_again)
  qed (use True ready_schedule [OF assms(2) t] ready_async [OF t] in
      \<open>simp_all add: on_resolve_def on_connect_def on_ssl_handshake_def\<close>)
next
  case False
  then have p: "progress (c\<lparr>ws_pending := xs @ ys\<rparr>) = progress c"
    using assms(4) by (simp add: progress_def)
  show ?thesis
  proof (cases op)
    case (OpWrite s m)
    have "progress (on_write (c\<lparr>ws_pending := xs @ ys\<rparr>)) = progress c"
      using p by (simp add: on_write_def) (simp add: progress_def)
    then show ?thesis
      by (simp add: OpWrite, intro conn_ok_same [OF assms(3)]) (simp_all add: on_write_def)
  next
    case (OpClose s)
    then show ?thesis
      by (simp, intro conn_ok_same [OF assms(3) _ _ p]) simp_all
  next
    case OpStop
    have "progress (on_stop b (c\<lparr>ws_pending := xs @ ys\<rparr>)) = progress c" for b
      using p by (simp add: on_stop_def Let_def progress_def)
    moreover have "ws_backoff_timer (on_stop b d) = None" "ws_attempt (on_stop b d) = ws_attempt d"
      "ws_backoff_ms (on_stop b d) = ws_backoff_ms d" "ws_fatal (on_stop b d) = ws_fatal d" for b and d :: "'a ws"
      by (simp_all add: on_stop_def Let_def)
    ultimately show ?thesis
      using assms(3) by (auto simp: OpStop conn_ok_def tokens_def)
  qed (use False in simp_all)
qed

lemma conn_ok_step:
  assumes "0 \<le> rc_max_attempts rc" and "0 \<le> rc_max_backoff_ms rc" and "ws_step rc hk c c'" and "conn_ok rc c"
  shows "conn_ok rc c'"
  using assms(3)
proof (cases rule: ws_step.cases)
  case (complete xs op ys out)
  with assms show ?thesis
    by (simp add: conn_ok_complete)
next
  case (backoff ms)
  have "ready rc (c\<lparr>ws_backoff_timer := None, ws_stream := Suc (ws_stream c)\<rparr>)"
    by (rule ready_same [OF conn_ok_timer [OF assms(4) backoff(2)]]) (simp_all add: progress_def)
  then show ?thesis
    using conn_ok_timer [OF assms(4) backoff(2)]
    by (simp add: backoff(1) reset_and_reconnect_def do_resolve_def ready_conn_ok ready_async)
next
  case ping
  then show ?thesis
    by (auto simp: on_ping_timer_def progress_def intro: conn_ok_same [OF assms(4)])
next
  case stop
  then show ?thesis
    by (auto simp: progress_def intro: conn_ok_same [OF assms(4)])
qed

lemma conn_ok_reach:
  assumes "0 \<le> rc_max_attempts rc" and "0 \<le> rc_max_backoff_ms rc" and "ws_reach rc hk x c"
  shows "conn_ok rc c"
  using assms(3)
proof (induction rule: ws_reach.induct)
  case run
  have "ready rc (ws_new rc x)"
    using assms(1) by (simp add: ready_def ws_new_def tokens_def progress_def backoff_delay_def)
  then show ?case
    by (simp add: do_resolve_def ready_async)
next
  case (step c c')
  then show ?case
    using conn_ok_step [OF assms(1,2)] by blast
qed

end


section \<open>Giving up\<close>

text \<open>
  Steps that try to bring a session up: the completion of an operation in flight that is not a
  completed handshake or a received frame, and the end of a back-off.  The other steps that can happen
  without a session are idle.
\<close>

inductive connect_step :: "reconnect_cfg \<Rightarrow> 'a ws_hooks \<Rightarrow> 'a ws \<Rightarrow> 'a ws \<Rightarrow> bool"
  for rc :: reconnect_cfg and hk :: "'a ws_hooks" where
  attempt: "ws_pending c = xs @ op # ys \<Longrightarrow> outcome_ok op out c \<Longrightarrow> is_progress op \<Longrightarrow>
    (\<forall>s. op = OpHandshake s \<longrightarrow> out = Failed) \<Longrightarrow> (\<forall>p. out \<noteq> Frame p) \<Longrightarrow>
    connect_step rc hk c (ws_complete rc hk op out (c\<lparr>ws_pending := xs @ ys\<rparr>))"
| wait: "ws_backoff_timer c = Some ms \<Longrightarrow>
    connect_step rc hk c (reset_and_reconnect (c\<lparr>ws_backoff_timer := None\<rparr>))"

inductive idle_step :: "reconnect_cfg \<Rightarrow> 'a ws_hooks \<Rightarrow> 'a ws \<Rightarrow> 'a ws \<Rightarrow> bool"
  for rc :: reconnect_cfg and hk :: "'a ws_hooks" where
  other: "ws_pending c = xs @ op # ys \<Longrightarrow> outcome_ok op out c \<Longrightarrow> \<not> is_progress op \<Longrightarrow>
    idle_step rc hk c (ws_complete rc hk op out (c\<lparr>ws_pending := xs @ ys\<rparr>))"
| keepalive: "ws_ping_timer c \<Longrightarrow> idle_step rc hk c (on_ping_timer (c\<lparr>ws_ping_timer := False\<rparr>))"
| shutdown: "idle_step rc hk c (ws_async OpStop (c\<lparr>ws_stopping := True\<rparr>))"

text \<open>Runs without a session, with the number of their connecting steps.\<close>

inductive offline_run :: "reconnect_cfg \<Rightarrow> 'a ws_hooks \<Rightarrow> nat \<Rightarrow> 'a ws \<Rightarrow> 'a ws \<Rightarrow> bool"
  for rc :: reconnect_cfg and hk :: "'a ws_hooks" where
  here: "offline_run rc hk 0 c c"
| connecting: "offline_run rc hk n c d \<Longrightarrow> connect_step rc hk d e \<Longrightarrow> offline_run rc hk (Suc n) c e"
| idling: "offline_run rc hk n c d \<Longrightarrow> idle_step rc hk d e \<Longrightarrow> offline_run rc hk n c e"

lemma connect_step_ws: "connect_step rc hk c c' \<Longrightarrow> ws_step rc hk c c'"
  by (induction rule: connect_step.induct) (auto intro: ws_step.intros)

lemma idle_step_ws: "idle_step rc hk c c' \<Longrightarrow> ws_step rc hk c c'"
  by (induction rule: idle_step.induct) (auto intro: ws_step.intros)

fun op_rank :: "ws_op \<Rightarrow> nat" where
  "op_rank OpResolve = 4"
| "op_rank (OpConnect s) = 3"
| "op_rank (OpSsl s) = 2"
| "op_rank _ = 1"

definition conn_rank :: "'a ws \<Rightarrow> nat" where
  "conn_rank c = (if ws_backoff_timer c \<noteq> None then 5 else case progress c of [] \<Rightarrow> 0 | op # _ \<Rightarrow> op_rank op)"

text \<open>Six per attempt left, and how far the current attempt is.\<close>

definition conn_measure :: "reconnect_cfg \<Rightarrow> 'a ws \<Rightarrow> nat" where
  "conn_measure rc c = 6 * nat (rc_max_attempts rc + 1 - ws_attempt c) + conn_rank c"

lemma op_rank_le: "op_rank op \<le> 5"
  by (cases op) auto

lemma conn_rank_le: "conn_rank c \<le> 5"
  by (auto simp: conn_rank_def op_rank_le split: list.split)

lemma rank_pos: "is_progress op \<Longrightarrow> 0 < op_rank op"
  by (cases op) auto

lemma measure_schedule:
  assumes "ready rc c"
  shows "conn_measure rc (schedule_reconnect rc c) \<le> 6 * nat (rc_max_attempts rc + 1 - ws_attempt c)"
proof (cases "ws_stopping c")
  case True
  with assms show ?thesis
    by (auto simp: schedule_reconnect_def conn_measure_def conn_rank_def ready_def tokens_def split: if_splits)
next
  case False
  let ?d = "schedule_reconnect rc c"
  have a: "ws_attempt ?d = ws_attempt c + 1"
    using False by (simp add: schedule_reconnect_def Let_def ws_call_fatal_def)
  have "0 < nat (rc_max_attempts rc + 1 - ws_attempt c)"
    using assms by (simp add: ready_def)
  then have "nat (rc_max_attempts rc + 1 - ws_attempt c) = Suc (nat (rc_max_attempts rc + 1 - ws_attempt ?d))"
    by (simp add: a)
  then show ?thesis
    using conn_rank_le [of ?d] by (simp add: conn_measure_def)
qed

lemma measure_async:
  assumes "ready rc c" and "is_progress op"
  shows "conn_measure rc (ws_async op c) = 6 * nat (rc_max_attempts rc + 1 - ws_attempt c) + op_rank op"
  using assms by (auto simp: conn_measure_def conn_rank_def ready_def tokens_def split: if_splits)

lemma measure_taken:
  assumes "conn_ok rc c" and "ws_pending c = xs @ op # ys" and "is_progress op"
  shows "conn_measure rc c = 6 * nat (rc_max_attempts rc + 1 - ws_attempt c) + op_rank op"
proof -
  have "progress c = filter is_progress xs @ op # filter is_progress ys"
    using assms(2,3) by (simp add: progress_def)
  then have "progress c = [op]" "ws_backoff_timer c = None"
    using assms(1) by (auto simp: conn_ok_def tokens_def split: if_splits)
  then show ?thesis
    by (simp add: conn_measure_def conn_rank_def)
qed

lemma connect_step_measure:
  assumes "connect_step rc hk c c'" and "conn_ok rc c"
  shows "conn_measure rc c' < conn_measure rc c"
  using assms(1)
proof (cases rule: connect_step.cases)
  case (attempt xs op ys out)
  note t = conn_ok_take [OF assms(2) attempt(2,4)] and m = measure_taken [OF assms(2) attempt(2,4)]
  have s: "conn_measure rc (schedule_reconnect rc (c\<lparr>ws_pending := xs @ ys\<rparr>)) < conn_measure rc c"
    using measure_schedule [OF t] m rank_pos [OF attempt(4)] by simp
  show ?thesis
    using attempt s m measure_async [OF t]
    by (cases op; cases out)
      (auto simp: on_resolve_def on_connect_def on_ssl_handshake_def on_ws_handshake_def outcome_ok_def)
next
  case (wait ms)
  note t = conn_ok_timer [OF assms(2) wait(2)]
  have r: "ready rc (c\<lparr>ws_backoff_timer := None, ws_stream := Suc (ws_stream c)\<rparr>)"
    by (rule ready_same [OF t]) (simp_all add: progress_def)
  have "conn_measure rc c = 6 * nat (rc_max_attempts rc + 1 - ws_attempt c) + 5"
    using wait(2) by (simp add: conn_measure_def conn_rank_def)
  moreover have "conn_rank (c\<lparr>ws_backoff_timer := None\<rparr>) = 0"
    using t by (simp add: ready_def tokens_def conn_rank_def)
  ultimately show ?thesis
    using wait(1) measure_async [OF r, of OpResolve]
    by (simp add: reset_and_reconnect_def do_resolve_def conn_measure_def)
qed

lemma idle_step_measure:
  assumes "idle_step rc hk c c'"
  shows "conn_measure rc c' \<le> conn_measure rc c"
  using assms
proof (cases rule: idle_step.cases)
  case (other xs op ys out)
  then have p: "progress (c\<lparr>ws_pending := xs @ ys\<rparr>) = progress c"
    by (simp add: progress_def)
  have same: "conn_measure rc d = conn_measure rc c"
    if "progress d = progress c" "ws_attempt d = ws_attempt c" "ws_backoff_timer d = ws_backoff_timer c" for d :: "'a ws"
    using that by (simp add: conn_measure_def conn_rank_def)
  show ?thesis
  proof (cases op)
    case (OpWrite s m)
    have "progress (on_write (c\<lparr>ws_pending := xs @ ys\<rparr>)) = progress c"
      using p by (simp add: on_write_def) (simp add: progress_def)
    then show ?thesis
      using other(1) by (simp add: OpWrite, intro eq_refl same) (simp_all add: on_write_def)
  next
    case (OpClose s)
    then show ?thesis
      using other(1) p by (simp, intro eq_refl same) simp_all
  next
    case OpStop
    have "progress (on_stop b (c\<lparr>ws_pending := xs @ ys\<rparr>)) = progress c"
      "ws_backoff_timer (on_stop b (c\<lparr>ws_pending := xs @ ys\<rparr>)) = None"
      "ws_attempt (on_stop b (c\<lparr>ws_pending := xs @ ys\<rparr>)) = ws_attempt c" for b
      using p by (simp_all add: on_stop_def Let_def progress_def)
    moreover have "(case progress c of [] \<Rightarrow> 0 | op # _ \<Rightarrow> op_rank op) \<le> conn_rank c"
      by (auto simp: conn_rank_def op_rank_le split: list.split)
    ultimately show ?thesis
      using other(1) by (simp add: OpStop conn_measure_def conn_rank_def)
  qed (use other(4) in simp_all)
next
  case keepalive
  then show ?thesis
    by (auto simp: on_ping_timer_def conn_measure_def conn_rank_def progress_def)
next
  case shutdown
  then show ?thesis
    by (simp add: conn_measure_def conn_rank_def progress_def)
qed

text \<open>A connection with something in flight, or with its back-off armed, can always take a connecting step.\<close>

lemma connect_step_exists:
  assumes "0 < tokens c"
  shows "\<exists>c'. connect_step rc hk c c'"
proof (cases "ws_backoff_timer c")
  case None
  then obtain op where "op \<in> set (ws_pending c)" "is_progress op"
    using assms by (auto simp: tokens_def progress_def filter_empty_conv)
  then obtain xs ys where "ws_pending c = xs @ op # ys" "is_progress op"
    by (auto dest: split_list)
  then have "connect_step rc hk c (ws_complete rc hk op Failed (c\<lparr>ws_pending := xs @ ys\<rparr>))"
    by (intro connect_step.attempt) (auto simp: outcome_ok_def)
  then show ?thesis ..
next
  case (Some ms)
  then show ?thesis
    using connect_step.wait by blast
qed

context ws_passive
begin

lemma offline_run_bounded:
  assumes "0 \<le> rc_max_attempts rc" and "0 \<le> rc_max_backoff_ms rc"
    and "offline_run rc hk n c c'" and "conn_ok rc c"
  shows "n + conn_measure rc c' \<le> conn_measure rc c \<and> conn_ok rc c'"
  using assms(3,4)
proof (induction rule: offline_run.induct)
  case (connecting n c d e)
  then have "conn_measure rc e < conn_measure rc d" "conn_ok rc e"
    using connect_step_measure conn_ok_step [OF assms(1,2) connect_step_ws] by blast+
  with connecting show ?case
    by fastforce
next
  case (idling n c d e)
  then have "conn_measure rc e \<le> conn_measure rc d" "conn_ok rc e"
    using idle_step_measure conn_ok_step [OF assms(1,2) idle_step_ws] by blast+
  with idling show ?case
    by fastforce
qed simp

lemma conn_measure_bound:
  assumes "conn_ok rc c"
  shows "conn_measure rc c \<le> 6 * nat (rc_max_attempts rc + 1) + 5"
proof -
  have "nat (rc_max_attempts rc + 1 - ws_attempt c) \<le> nat (rc_max_attempts rc + 1)"
    using assms by (intro nat_mono) (simp add: conn_ok_def)
  then show ?thesis
    using conn_rank_le [of c] by (simp add: conn_measure_def)
qed

end

end
