(* ===== verification/PublicWs.thy ===== *)
theory PublicWs
  imports WsProgress Json TickProcessor
begin

text \<open>
  The public market-data client, \<open>src/src/market_data/okx_ws_client.cpp\<close>: subscription, and the decoding
  of the tickers, books5 and trades channels into the events of the feed ring.  The JSON parser is the
  parameter \<open>parse\<close>; a level that is not an array of at least two elements counts as an exception of the
  parser (simdjson leaves the read past the end of such an array open).
\<close>

section \<open>Decoding\<close>

type_synonym feed = "market_event ring \<times> clock"

definition parse_double_field :: "json \<Rightarrow> double \<Rightarrow> double" where
  "parse_double_field v out =
     (case v of
        JStr s \<Rightarrow> snd (parse_double_sv s out)
      | _ \<Rightarrow> (case as_double (Some v) of Some d \<Rightarrow> d | None \<Rightarrow> out))"

definition double_at :: "string \<Rightarrow> json \<Rightarrow> double" where
  "double_at key entry = (case jfield key entry of None \<Rightarrow> 0 | Some v \<Rightarrow> parse_double_field v 0)"

text \<open>\<open>get_int64\<close>: an integer literal in range; the caller's zero otherwise.\<close>

definition int64_at :: "string \<Rightarrow> json \<Rightarrow> int" where
  "int64_at key entry =
     (case as_int (jfield key entry) of
        Some i \<Rightarrow> if - (2 ^ 63) \<le> i \<and> i < 2 ^ 63 then i else 0
      | None \<Rightarrow> 0)"

definition exchange_ts :: "json \<Rightarrow> u64" where
  "exchange_ts entry =
     (case jstr ''ts'' entry of
        None \<Rightarrow> 0
      | Some s \<Rightarrow> (case stoull s of Some w \<Rightarrow> w | None \<Rightarrow> 0))"

definition ticker_event :: "u64 \<Rightarrow> json \<Rightarrow> market_event" where
  "ticker_event ts_ns entry =
     market_event0\<lparr>me_ingress_ts_ns := ts_ns, me_type := EvBookTicker,
       me_book_ticker := \<lparr>bte_exchange_ts_ms = exchange_ts entry,
         bte_best_bid_price = double_at ''bidPx'' entry, bte_best_bid_qty = double_at ''bidSz'' entry,
         bte_best_ask_price = double_at ''askPx'' entry, bte_best_ask_qty = double_at ''askSz'' entry\<rparr>\<rparr>"

definition parse_level :: "json \<Rightarrow> price_level option" where
  "parse_level v =
     (case as_array (Some v) of
        Some (p # q # _) \<Rightarrow> Some \<lparr>pl_price = parse_double_field p 0, pl_qty = parse_double_field q 0\<rparr>
      | _ \<Rightarrow> None)"

text \<open>The first twenty levels of a side; \<open>None\<close> is an exception of the parser.\<close>

definition parse_levels :: "string \<Rightarrow> json \<Rightarrow> price_level list option" where
  "parse_levels key entry =
     (case jfield key entry of
        None \<Rightarrow> Some []
      | Some v \<Rightarrow>
          (case as_array (Some v) of
             None \<Rightarrow> None
           | Some vs \<Rightarrow> those (map parse_level (take 20 vs))))"

definition level_array :: "price_level list \<Rightarrow> price_level list" where
  "level_array ls = ls @ replicate (20 - length ls) level0"

definition books5_event :: "u64 \<Rightarrow> json \<Rightarrow> market_event option" where
  "books5_event ts_ns entry =
     (case parse_levels ''bids'' entry of
        None \<Rightarrow> None
      | Some bids \<Rightarrow>
          (case parse_levels ''asks'' entry of
             None \<Rightarrow> None
           | Some asks \<Rightarrow>
               Some (market_event0\<lparr>me_ingress_ts_ns := ts_ns, me_type := EvDepth,
                 me_depth := \<lparr>dpe_exchange_ts_ms = exchange_ts entry,
                   dpe_first_update_id = word_of_int (int64_at ''seqId'' entry),
                   dpe_final_update_id = word_of_int (int64_at ''seqId'' entry),
                   dpe_prev_final_update_id = word_of_int (int64_at ''prevSeqId'' entry),
                   dpe_is_snapshot = True,
                   dpe_bid_count = word_of_nat (length bids), dpe_ask_count = word_of_nat (length asks),
                   dpe_bids = level_array bids, dpe_asks = level_array asks\<rparr>\<rparr>)))"

definition trade_event_of_json :: "u64 \<Rightarrow> json \<Rightarrow> market_event" where
  "trade_event_of_json ts_ns entry =
     market_event0\<lparr>me_ingress_ts_ns := ts_ns, me_type := EvTrade,
       me_trade := \<lparr>tre_exchange_ts_ms = exchange_ts entry,
         tre_price = double_at ''px'' entry, tre_qty = double_at ''sz'' entry\<rparr>\<rparr>"

text \<open>The entries in order; an exception ends the loop, and what was pushed before it stays.\<close>

fun push_entries :: "(json \<Rightarrow> market_event option) \<Rightarrow> json list \<Rightarrow> market_event ring \<Rightarrow> market_event ring" where
  "push_entries f [] r = r"
| "push_entries f (v # vs) r =
     (case f v of None \<Rightarrow> r | Some ev \<Rightarrow> push_entries f vs (snd (ring_push r ev)))"

definition channel_event :: "string \<Rightarrow> u64 \<Rightarrow> json \<Rightarrow> market_event option" where
  "channel_event channel ts_ns entry =
     (if channel = ''tickers'' then Some (ticker_event ts_ns entry)
      else if channel = ''books5'' then books5_event ts_ns entry
      else Some (trade_event_of_json ts_ns entry))"

definition dispatch_channel :: "json \<Rightarrow> u64 \<Rightarrow> market_event ring \<Rightarrow> market_event ring" where
  "dispatch_channel doc ts_ns r =
     (case jfield ''arg'' doc of
        None \<Rightarrow> r
      | Some arg \<Rightarrow>
          (case jstr ''channel'' arg of
             None \<Rightarrow> r
           | Some channel \<Rightarrow>
               (case as_array (jfield ''data'' doc) of
                  None \<Rightarrow> r
                | Some entries \<Rightarrow>
                    if channel \<in> {''tickers'', ''books5'', ''trades''}
                    then push_entries (channel_event channel ts_ns) entries r else r)))"

definition pub_dispatch :: "json \<Rightarrow> u64 \<Rightarrow> feed ws \<Rightarrow> feed ws" where
  "pub_dispatch doc ts_ns c =
     (case jstr ''event'' doc of
        Some ev \<Rightarrow> if ev = ''error'' then ws_call_fatal c else c
      | None \<Rightarrow> c\<lparr>ws_sink := (dispatch_channel doc ts_ns (fst (ws_sink c)), snd (ws_sink c))\<rparr>)"

text \<open>A received frame that is not the text ping.\<close>

definition pub_frame :: "(string \<Rightarrow> json option) \<Rightarrow> string \<Rightarrow> feed ws \<Rightarrow> feed ws" where
  "pub_frame parse p c =
     (let ts_ns = mono_ns (snd (ws_sink c));
          c = c\<lparr>ws_sink := (fst (ws_sink c), clock_tick (snd (ws_sink c)))\<rparr>
      in case parse p of None \<Rightarrow> c | Some doc \<Rightarrow> pub_dispatch doc ts_ns c)"

definition q_str :: "string \<Rightarrow> string" where
  "q_str s = [CHR 0x22] @ s @ [CHR 0x22]"

definition channel_arg :: "string \<Rightarrow> string \<Rightarrow> string" where
  "channel_arg channel symbol =
     ''{'' @ q_str ''channel'' @ '':'' @ q_str channel @ '','' @ q_str ''instId'' @ '':'' @ q_str symbol @ ''}''"

definition pub_subscribe_msg :: "string \<Rightarrow> string" where
  "pub_subscribe_msg symbol =
     ''{'' @ q_str ''op'' @ '':'' @ q_str ''subscribe'' @ '','' @ q_str ''args'' @ '':['' @
     channel_arg ''tickers'' symbol @ '','' @ channel_arg ''books5'' symbol @ '','' @ channel_arg ''trades'' symbol @ '']}''"

definition pub_send_subscriptions :: "string \<Rightarrow> feed ws \<Rightarrow> feed ws" where
  "pub_send_subscriptions symbol c = enqueue_write (pub_subscribe_msg symbol) c"

definition pub_hooks :: "(string \<Rightarrow> json option) \<Rightarrow> string \<Rightarrow> feed ws_hooks" where
  "pub_hooks parse symbol = \<lparr>hk_open = pub_send_subscriptions symbol, hk_frame = pub_frame parse\<rparr>"

definition ws_symbol :: "config \<Rightarrow> string" where
  "ws_symbol cfg =
     (if ex_symbol (c_exchange cfg) = [] then md_symbol (c_market_data cfg) else ex_symbol (c_exchange cfg))"

definition pub_start :: "config \<Rightarrow> feed \<Rightarrow> (ws_url \<times> feed ws) option" where
  "pub_start cfg x =
     ws_start (c_reconnect cfg)
       (ws_pick_url cfg (tn_ws_base_url (c_testnet cfg)) (md_ws_base_url (c_market_data cfg))) x"


section \<open>The client as a session\<close>

lemma pub_frame_effect: "ws_effect rc False c (pub_frame parse p c)"
  unfolding pub_frame_def pub_dispatch_def Let_def
  by (auto intro: ws_effect.intros split: option.split)

interpretation pub: ws_passive rc "pub_hooks parse symbol" for rc parse symbol
  by unfold_locales
    (simp_all add: pub_hooks_def pub_send_subscriptions_def pub_frame_effect ws_effect.intros)


section \<open>The events pushed\<close>

lemma length_level_array [simp]: "length ls \<le> 20 \<Longrightarrow> length (level_array ls) = 20"
  by (simp add: level_array_def)

lemma length_parse_levels: "parse_levels key entry = Some ls \<Longrightarrow> length ls \<le> 20"
  by (auto simp: parse_levels_def dest: length_those split: option.splits)

lemma books5_event_cases:
  assumes "books5_event ts entry = Some ev"
  obtains bids asks where "parse_levels ''bids'' entry = Some bids" "parse_levels ''asks'' entry = Some asks"
    "length bids \<le> 20" "length asks \<le> 20" "me_type ev = EvDepth" "dpe_is_snapshot (me_depth ev)"
    "dpe_bids (me_depth ev) = level_array bids" "dpe_asks (me_depth ev) = level_array asks"
    "unat (dpe_bid_count (me_depth ev)) = length bids" "unat (dpe_ask_count (me_depth ev)) = length asks"
proof -
  obtain bids asks where b: "parse_levels ''bids'' entry = Some bids" "parse_levels ''asks'' entry = Some asks"
    using assms by (auto simp: books5_event_def split: option.splits)
  moreover have l: "length bids \<le> 20" "length asks \<le> 20"
    using b length_parse_levels by blast+
  moreover have "unat (word_of_nat n :: u8) = n" if "n \<le> 20" for n
    using that by (simp add: unat_of_nat)
  ultimately show ?thesis
    using assms that [OF b l] by (auto simp: books5_event_def)
qed

lemma channel_event_shape: "channel_event channel ts entry = Some ev \<Longrightarrow> event_shape ev"
proof (cases "channel = ''books5''")
  case True
  assume "channel_event channel ts entry = Some ev"
  with True have "books5_event ts entry = Some ev"
    by (simp add: channel_event_def)
  then show ?thesis
    by (rule books5_event_cases) (simp add: event_shape_def depth_shape_def kMaxLevels_def)
qed (auto simp: channel_event_def event_shape_def depth_shape_def kMaxLevels_def ticker_event_def
    trade_event_of_json_def market_event0_def split: if_splits)

definition feed_ok :: "feed \<Rightarrow> bool" where
  "feed_ok x \<longleftrightarrow> ring_ok (fst x) \<and> list_all event_shape (ring_items (fst x))"

lemma push_entries_ok:
  assumes "ring_ok r" and "list_all event_shape (ring_items r)" and "\<And>v ev. f v = Some ev \<Longrightarrow> event_shape ev"
  shows "ring_ok (push_entries f vs r) \<and> list_all event_shape (ring_items (push_entries f vs r))"
  using assms(1,2)
proof (induction vs arbitrary: r)
  case (Cons v vs)
  have "ring_ok (snd (ring_push r ev)) \<and> list_all event_shape (ring_items (snd (ring_push r ev)))" if "f v = Some ev" for ev
  proof (cases "ring_count r < ring_capacity r")
    case True
    then show ?thesis
      using ring_push_items [OF Cons.prems(1) True] Cons.prems(2) assms(3) [OF that] by simp
  next
    case False
    then have "ring_push r ev = (False, r)"
      using rq.len_items [OF Cons.prems(1)] by (intro rq.enq_full [OF Cons.prems(1)]) simp
    then show ?thesis
      using Cons.prems by simp
  qed
  then show ?case
    using Cons.IH Cons.prems by (auto split: option.split)
qed simp

lemma feed_ok_frame: "feed_ok (ws_sink c) \<Longrightarrow> feed_ok (ws_sink (pub_frame parse p c))"
  using push_entries_ok [of "fst (ws_sink c)" "channel_event ch ts" for ch ts] channel_event_shape
  by (auto simp: pub_frame_def pub_dispatch_def dispatch_channel_def feed_ok_def Let_def split: option.split)


section \<open>Properties\<close>

text \<open>C23: in every state the public connection can reach, at most one write is in flight and it is the frame
  at the front of the queue; at most one connection attempt, read or back-off is under way, and one is
  unless the connection was stopped or gave up through the fatal callback; and a back-off is the
  initial one doubled per failed attempt since the last session, never more than the maximum.\<close>

theorem public_session_invariant:
  assumes "0 \<le> rc_max_attempts rc" and "0 \<le> rc_max_backoff_ms rc"
    and "ws_reach rc (pub_hooks parse symbol) x c"
  shows "length (filter is_write (ws_pending c)) \<le> 1 \<and>
    (\<forall>s m. OpWrite s m \<in> set (ws_pending c) \<longrightarrow> ws_queue c \<noteq> [] \<and> m = hd (ws_queue c)) \<and>
    tokens c \<le> 1 \<and> (ws_stopping c \<or> 0 < ws_fatal c \<or> tokens c = 1) \<and>
    (\<forall>ms. ws_backoff_timer c = Some ms \<longrightarrow>
       ms = min (rc_initial_backoff_ms rc * 2 ^ (nat (ws_attempt c) - 1)) (rc_max_backoff_ms rc) \<and>
       0 < ws_attempt c \<and> ws_attempt c \<le> rc_max_attempts rc)"
proof -
  have w: "writer_ok c"
    using assms(3) by (rule pub.writer_ok_reach)
  then have "length (filter is_write (ws_pending c)) \<le> 1"
    by (auto simp: writer_ok_def split: if_splits)
  moreover have "ws_queue c \<noteq> [] \<and> m = hd (ws_queue c)" if "OpWrite s m \<in> set (ws_pending c)" for s m
  proof -
    define ws where "ws = filter is_write (ws_pending c)"
    have "OpWrite s m \<in> set ws"
      using that by (simp add: ws_def)
    moreover have "if ws_writing c then ws_queue c \<noteq> [] \<and> (\<exists>s. ws = [OpWrite s (hd (ws_queue c))]) else ws_queue c = [] \<and> ws = []"
      using w by (simp add: writer_ok_def ws_def)
    ultimately show ?thesis
      by (cases "ws_writing c") auto
  qed
  moreover have l: "live_ok c"
    using assms(3) by (rule pub.live_ok_reach)
  moreover have k: "conn_ok rc c"
    using assms by (rule pub.conn_ok_reach)
  moreover have "ws_attempt c \<le> rc_max_attempts rc" if "ws_backoff_timer c = Some ms" for ms
    using k that by (auto simp: conn_ok_def tokens_def)
  ultimately show ?thesis
    by (auto simp: conn_ok_def live_ok_def backoff_delay_def)
qed

definition demo_rc :: reconnect_cfg where
  "demo_rc = \<lparr>rc_initial_backoff_ms = 1000, rc_max_backoff_ms = 30000, rc_max_attempts = 2\<rparr>"

definition demo_feed :: feed where
  "demo_feed = (ring_init 4 market_event0, demo_clock)"

definition demo_pub :: "feed ws" where
  "demo_pub = ws_complete demo_rc (pub_hooks (\<lambda>_. None) ''S'') OpResolve Failed (ws_new demo_rc demo_feed)"

lemma demo_pub_reach: "ws_reach demo_rc (pub_hooks (\<lambda>_. None) ''S'') demo_feed demo_pub"
proof -
  let ?c = "do_resolve (ws_new demo_rc demo_feed)"
  have "ws_step demo_rc (pub_hooks (\<lambda>_. None) ''S'') ?c
      (ws_complete demo_rc (pub_hooks (\<lambda>_. None) ''S'') OpResolve Failed (?c\<lparr>ws_pending := [] @ []\<rparr>))"
    by (rule ws_step.complete) (simp_all add: do_resolve_def ws_new_def outcome_ok_def)
  moreover have "?c\<lparr>ws_pending := [] @ []\<rparr> = ws_new demo_rc demo_feed"
    by (simp add: do_resolve_def ws_async_def ws_new_def)
  ultimately show ?thesis
    unfolding demo_pub_def by (metis ws_reach.run ws_reach.step)
qed

lemma demo_pub_timer: "ws_backoff_timer demo_pub = Some 1000"
  by (simp add: demo_pub_def on_resolve_def schedule_reconnect_def ws_new_def demo_rc_def Let_def)

theorem public_session_invariant_witness: "tokens demo_pub = 1 \<and> ws_backoff_timer demo_pub = Some 1000"
  using public_session_invariant [OF _ _ demo_pub_reach] demo_pub_timer
  by (auto simp: demo_rc_def tokens_def)

text \<open>C22: without a completed handshake a public connection makes at most six connecting steps per allowed
  attempt and six more, whatever idle steps come in between; and a run that cannot be continued has
  either been stopped or called the fatal callback.\<close>

theorem public_gives_up:
  assumes "0 \<le> rc_max_attempts rc" and "0 \<le> rc_max_backoff_ms rc"
    and "ws_reach rc (pub_hooks parse symbol) x c" and "offline_run rc (pub_hooks parse symbol) n c c'"
  shows "n \<le> 6 * nat (rc_max_attempts rc + 1) + 5 \<and>
    ((\<nexists>c''. connect_step rc (pub_hooks parse symbol) c' c'') \<longrightarrow> ws_stopping c' \<or> 0 < ws_fatal c')"
proof -
  have k: "conn_ok rc c"
    using assms(1-3) by (rule pub.conn_ok_reach)
  have "ws_reach rc (pub_hooks parse symbol) x c'"
    using assms(4,3) by (induction rule: offline_run.induct)
      (auto intro: ws_reach.step connect_step_ws idle_step_ws)
  then have "live_ok c'"
    by (rule pub.live_ok_reach)
  moreover have "n \<le> 6 * nat (rc_max_attempts rc + 1) + 5"
    using pub.offline_run_bounded [OF assms(1,2,4) k] pub.conn_measure_bound [OF k] by simp
  ultimately show ?thesis
    using connect_step_exists [of c'] by (auto simp: live_ok_def)
qed

theorem public_gives_up_witness:
  "\<exists>n c'. offline_run demo_rc (pub_hooks (\<lambda>_. None) ''S'') n demo_pub c' \<and> 1 \<le> n \<and> n \<le> 23"
proof -
  let ?hk = "pub_hooks (\<lambda>_. None) ''S''"
  have "connect_step demo_rc ?hk demo_pub (reset_and_reconnect (demo_pub\<lparr>ws_backoff_timer := None\<rparr>))"
    by (rule connect_step.wait [OF demo_pub_timer])
  then have r: "offline_run demo_rc ?hk (Suc 0) demo_pub (reset_and_reconnect (demo_pub\<lparr>ws_backoff_timer := None\<rparr>))"
    by (rule offline_run.connecting [OF offline_run.here])
  have "Suc 0 \<le> 23"
    using public_gives_up [OF _ _ demo_pub_reach r] by (simp add: demo_rc_def)
  with r show ?thesis
    by (intro exI [of _ "Suc 0"] exI [of _ "reset_and_reconnect (demo_pub\<lparr>ws_backoff_timer := None\<rparr>)"]) simp
qed

text \<open>C16: with a positive volatility window (a window of zero does make the processor fail), resync
  snapshots of the shape the REST fetch delivers, and whatever frames the exchange sends, well-formed or not, every event that reaches the feed ring, which starts
  empty, has the shape the tick processor needs: draining the ring never fails and ends with both sides
  of the book ordered.\<close>

theorem feed_never_fails_processor:
  assumes "ws_reach rc (pub_hooks parse symbol) (ring_init (2 ^ k) d, ck) c" and "1 \<le> k" and "k < 64"
    and "0 < md_volatility_window (c_market_data cfg)" and "\<And>i. fetch_shape (fetch i)"
  shows "\<exists>t'. process_events enc fetch (ring_items (fst (ws_sink c))) (tick_init cfg sr rr ck') = Some t' \<and>
    book_ok (tk_book t') \<and> (\<exists>r'. drain ring_pop (fst (ws_sink c)) = Some (ring_items (fst (ws_sink c)), r') \<and> ring_items r' = [])"
proof -
  have "feed_ok (ring_init (2 ^ k) d, ck)"
    using ring_init_ok [OF assms(2,3), of d] by (simp add: feed_ok_def)
  then have ok: "feed_ok (ws_sink c)"
    by (rule pub.sink_invariant [OF assms(1)])
      (simp_all add: pub_hooks_def pub_send_subscriptions_def feed_ok_frame)
  obtain t' where "process_events enc fetch (ring_items (fst (ws_sink c))) (tick_init cfg sr rr ck') = Some t'" "tick_ok t'"
    using process_events_ok [OF tick_ok_init [OF assms(4), of sr rr ck'], where fetch = fetch and enc = enc] ok assms(5)
    unfolding feed_ok_def by blast
  moreover obtain r' where "drain ring_pop (fst (ws_sink c)) = Some (ring_items (fst (ws_sink c)), r')" "ring_items r' = []"
    using rq.drain_all [of "fst (ws_sink c)"] ok by (auto simp: feed_ok_def)
  ultimately show ?thesis
    by (auto simp: tick_ok_def)
qed

text \<open>One books5 frame on the first session: its event is on the ring, and the processor's book takes it.\<close>

definition demo_book_entry :: json where
  "demo_book_entry = JObj [(''bids'', JArr [JArr [JStr ''99'', JStr ''1''], JArr [JStr ''98'', JStr ''2'']]),
     (''asks'', JArr [JArr [JStr ''101'', JStr ''3'']]), (''seqId'', JInt 7)]"

definition demo_feed_parse :: "string \<Rightarrow> json option" where
  "demo_feed_parse p =
     (if p = ''book'' then Some (JObj [(''arg'', JObj [(''channel'', JStr ''books5''), (''instId'', JStr ''S'')]),
        (''data'', JArr [demo_book_entry])]) else None)"

definition demo_fed :: "feed ws" where
  "demo_fed = on_read demo_rc (pub_hooks demo_feed_parse ''S'') (Frame ''book'')
     ((session_start demo_rc (pub_hooks demo_feed_parse ''S'') demo_feed)\<lparr>ws_pending := [OpWrite 0 (pub_subscribe_msg ''S'')]\<rparr>)"

lemma demo_fed_reach: "ws_reach demo_rc (pub_hooks demo_feed_parse ''S'') demo_feed demo_fed"
proof -
  let ?hk = "pub_hooks demo_feed_parse ''S''"
  have "ws_pending (session_start demo_rc ?hk demo_feed) = [OpWrite 0 (pub_subscribe_msg ''S'')] @ OpRead 0 # []"
    by (simp add: session_start_def on_ws_handshake_def ws_new_def pub_hooks_def pub_send_subscriptions_def enqueue_write_def
        drain_write_queue_def do_read_def)
  moreover have "outcome_ok (OpRead 0) (Frame ''book'') (session_start demo_rc ?hk demo_feed)"
    by (auto simp: outcome_ok_def session_start_def on_ws_handshake_def ws_new_def pub_hooks_def pub_send_subscriptions_def do_read_def)
  ultimately have "ws_reach demo_rc ?hk demo_feed (ws_complete demo_rc ?hk (OpRead 0) (Frame ''book'')
      ((session_start demo_rc ?hk demo_feed)\<lparr>ws_pending := [OpWrite 0 (pub_subscribe_msg ''S'')] @ []\<rparr>))"
    by (rule reach_take [OF session_start_reach])
  then show ?thesis
    by (simp add: demo_fed_def)
qed

lemma demo_fed_items: "\<exists>ev. books5_event (mono_ns demo_clock) demo_book_entry = Some ev \<and> ring_items (fst (ws_sink demo_fed)) = [ev]"
proof -
  let ?s = "session_start demo_rc (pub_hooks demo_feed_parse ''S'') demo_feed"
  obtain ev where ev: "books5_event (mono_ns demo_clock) demo_book_entry = Some ev"
    by (simp add: books5_event_def demo_book_entry_def parse_levels_def parse_level_def numeral_nat)
  let ?c = "?s\<lparr>ws_pending := [OpWrite 0 (pub_subscribe_msg ''S'')]\<rparr>"
  have sink: "ws_sink ?c = demo_feed"
    by (simp add: session_start_def on_ws_handshake_def ws_new_def pub_hooks_def pub_send_subscriptions_def do_read_def)
  have "fst (ws_sink (pub_frame demo_feed_parse ''book'' c)) = snd (ring_push (ring_init 4 market_event0) ev)"
    if "ws_sink c = demo_feed" for c
    by (simp add: pub_frame_def that demo_feed_def demo_feed_parse_def pub_dispatch_def dispatch_channel_def
        channel_event_def ev Let_def)
  from this [OF sink] have "fst (ws_sink demo_fed) = snd (ring_push (ring_init 4 market_event0) ev)"
    unfolding demo_fed_def by (simp add: pub_hooks_def read_again_def do_read_def Let_def)
  moreover have "ring_ok (ring_init (2 ^ 2) market_event0)" "ring_items (ring_init (2 ^ 2) market_event0) = []"
    "ring_capacity (ring_init (2 ^ 2) market_event0) = 3"
    "ring_count (ring_init (2 ^ 2) market_event0) = 0"
    using ring_init_ok [of 2 market_event0] by (simp_all add: ring_capacity_def ring_init_def ring_count_def)
  ultimately show ?thesis
    using ev ring_push_items [of "ring_init 4 market_event0" ev] by simp
qed

theorem feed_never_fails_processor_witness:
  "\<exists>ev t'. ring_items (fst (ws_sink demo_fed)) = [ev] \<and>
     process_event (\<lambda>_. []) None ev (tick_init (load_config toml_empty) None None demo_clock) = Some t' \<and> book_ok (tk_book t')"
proof -
  obtain ev where ev: "ring_items (fst (ws_sink demo_fed)) = [ev]"
    using demo_fed_items by blast
  have "ws_reach demo_rc (pub_hooks demo_feed_parse ''S'') (ring_init (2 ^ 2) market_event0, demo_clock) demo_fed"
    using demo_fed_reach by (simp add: demo_feed_def)
  moreover have "0 < md_volatility_window (c_market_data (load_config toml_empty))"
    by (simp add: load_config_def mirror_exchange_def load_market_data_def toml_empty_def Let_def)
  ultimately obtain t' where "process_events (\<lambda>_. []) (\<lambda>_. None) (ring_items (fst (ws_sink demo_fed)))
      (tick_init (load_config toml_empty) None None demo_clock) = Some t'" "book_ok (tk_book t')"
    using feed_never_fails_processor [where fetch = "\<lambda>_. None" and enc = "\<lambda>_. []" and sr = None and rr = None and ck' = demo_clock]
    by (fastforce simp: fetch_shape_def)
  then show ?thesis
    using ev by (auto simp: bind_eq_Some_conv split: option.splits)
qed

text \<open>A books5 entry becomes one snapshot event, and the tick processor's book then has exactly the
  levels of the entry (at most twenty a side), bids from the highest price down and asks from the lowest
  up, whatever the book was before; its resynchronisation logic is not involved.\<close>

theorem books5_reaches_book:
  assumes "channel_event ''books5'' ts entry = Some ev" and "process_event enc fetch ev t = Some t'"
    and "parse_levels ''bids'' entry = Some bids" and "parse_levels ''asks'' entry = Some asks"
  shows "live_bids (tk_book t') = sort_key (\<lambda>l. - pl_price l) bids \<and>
    live_asks (tk_book t') = sort_key pl_price asks \<and>
    ob_last_update_id (tk_book t') = word_of_int (int64_at ''seqId'' entry)"
proof -
  have b5: "books5_event ts entry = Some ev"
    using assms(1) by (simp add: channel_event_def)
  note ev = books5_event_cases [OF b5]
  have l: "length (level_array bids) = 20" "length (level_array asks) = 20"
    using assms(3,4) length_parse_levels by simp_all
  have "me_type ev = EvDepth"
    by (rule ev)
  then have "tk_book t' = apply_depth fetch (me_depth ev) (tk_book t)"
    using assms(2) by (auto simp: process_event_def Let_def split: option.splits)
  moreover have "me_depth ev = \<lparr>dpe_exchange_ts_ms = exchange_ts entry,
      dpe_first_update_id = word_of_int (int64_at ''seqId'' entry), dpe_final_update_id = word_of_int (int64_at ''seqId'' entry),
      dpe_prev_final_update_id = word_of_int (int64_at ''prevSeqId'' entry), dpe_is_snapshot = True,
      dpe_bid_count = word_of_nat (length bids), dpe_ask_count = word_of_nat (length asks),
      dpe_bids = level_array bids, dpe_asks = level_array asks\<rparr>"
    using b5 assms(3,4) by (auto simp: books5_event_def)
  moreover have "unat (word_of_nat (length bids) :: u8) = length bids" "unat (word_of_nat (length asks) :: u8) = length asks"
    using length_parse_levels [OF assms(3)] length_parse_levels [OF assms(4)] by (simp_all add: unat_of_nat)
  moreover have "take (length ls) (level_array ls) = ls" for ls
    by (simp add: level_array_def)
  ultimately show ?thesis
    using l by (simp add: apply_depth_def Let_def live_snapshot kMaxLevels_def) (simp add: apply_snapshot_def Let_def)
qed

definition demo_start :: tick_proc where
  "demo_start = tick_init (load_config toml_empty) None None demo_clock"

theorem books5_reaches_book_witness:
  "\<exists>ev t'. channel_event ''books5'' 0 demo_book_entry = Some ev \<and> process_event (\<lambda>_. []) None ev demo_start = Some t' \<and>
     length (live_bids (tk_book t')) = 2 \<and> ob_last_update_id (tk_book t') = 7"
proof -
  obtain ev where ev: "channel_event ''books5'' 0 demo_book_entry = Some ev"
    by (simp add: channel_event_def books5_event_def demo_book_entry_def parse_levels_def parse_level_def numeral_nat)
  obtain bids asks where l: "parse_levels ''bids'' demo_book_entry = Some bids" "length bids = 2"
    "parse_levels ''asks'' demo_book_entry = Some asks"
    by (simp add: demo_book_entry_def parse_levels_def parse_level_def numeral_nat)
  have "event_shape ev"
    using ev by (rule channel_event_shape)
  moreover have "tick_ok demo_start"
    unfolding demo_start_def by (rule tick_ok_init)
      (simp add: load_config_def mirror_exchange_def load_market_data_def toml_empty_def Let_def)
  ultimately obtain t' where t': "process_event (\<lambda>_. []) None ev demo_start = Some t'"
    using process_event_ok [of demo_start ev None "\<lambda>_. []"] by (auto simp: fetch_shape_def)
  have "int64_at ''seqId'' demo_book_entry = 7"
    by (simp add: int64_at_def demo_book_entry_def)
  then show ?thesis
    using books5_reaches_book [OF ev t' l(1,3)] ev t' l(2) by auto
qed

end
