(* ===== verification/PrivateWs.thy ===== *)
theory PrivateWs
  imports WsProgress Json FillPath
begin

text \<open>
  The private client, \<open>src/src/market_data/okx_private_ws_client.cpp\<close>: login, subscription, and the
  conversion of order updates into fills for the order manager.  The JSON parser, HMAC, base64 and the
  FlatBuffers encoder of the order manager are parameters, fields of the record \<open>priv\<close>; the state behind
  the connection is the order manager with its environment.
\<close>

section \<open>Login\<close>

record priv =
  pv_cfg :: config
  pv_api_key :: string
  pv_api_secret :: string
  pv_api_passphrase :: string
  pv_parse :: "string \<Rightarrow> json option"
  pv_hmac_sha256 :: "string \<Rightarrow> string \<Rightarrow> string"
  pv_encode_block :: "string \<Rightarrow> int \<times> string"
  pv_enc_fill :: "fill_event \<Rightarrow> u8 list"

definition ws_base64 :: "priv \<Rightarrow> string \<Rightarrow> string" where
  "ws_base64 pv s = (let (n, out) = pv_encode_block pv s in if n < 0 then [] else take (nat n) out)"

definition ws_hmac_sha256_b64 :: "priv \<Rightarrow> string \<Rightarrow> string \<Rightarrow> string" where
  "ws_hmac_sha256_b64 pv secret msg = ws_base64 pv (pv_hmac_sha256 pv secret msg)"

definition unix_seconds_str :: "nanos \<Rightarrow> string" where
  "unix_seconds_str now = dec_int (trunc_div now 1000000000)"

text \<open>Quotes and backslashes are escaped; control characters become spaces.\<close>

definition json_escape :: "string \<Rightarrow> string" where
  "json_escape s =
     concat (map (\<lambda>c. if c = CHR 0x22 \<or> c = CHR 0x5C then [CHR 0x5C, c]
                     else if (of_char c :: nat) < 32 then '' '' else [c]) s)"

definition pq_str :: "string \<Rightarrow> string" where
  "pq_str s = [CHR 0x22] @ s @ [CHR 0x22]"

definition login_msg :: "priv \<Rightarrow> string \<Rightarrow> string" where
  "login_msg pv ts =
     (let sig = ws_hmac_sha256_b64 pv (pv_api_secret pv) (ts @ ''GET'' @ ''/users/self/verify'')
      in ''{'' @ pq_str ''op'' @ '':'' @ pq_str ''login'' @ '','' @ pq_str ''args'' @ '':[{'' @
         pq_str ''apiKey'' @ '':'' @ pq_str (json_escape (pv_api_key pv)) @ '','' @
         pq_str ''passphrase'' @ '':'' @ pq_str (json_escape (pv_api_passphrase pv)) @ '','' @
         pq_str ''timestamp'' @ '':'' @ pq_str ts @ '','' @ pq_str ''sign'' @ '':'' @ pq_str sig @ ''}]}'')"

definition send_login :: "priv \<Rightarrow> 'r om_state ws \<Rightarrow> 'r om_state ws" where
  "send_login pv c =
     (let (om, e) = ws_sink c;
          ts = unix_seconds_str (wall_now (en_clock e))
      in enqueue_write (login_msg pv ts) (c\<lparr>ws_sink := (om, env_tick e)\<rparr>))"

definition swap_channel_arg :: "string \<Rightarrow> string \<Rightarrow> string" where
  "swap_channel_arg channel symbol =
     ''{'' @ pq_str ''channel'' @ '':'' @ pq_str channel @ '','' @ pq_str ''instType'' @ '':'' @ pq_str ''SWAP'' @ '','' @
     pq_str ''instId'' @ '':'' @ pq_str symbol @ ''}''"

definition build_subscribe_message :: "string \<Rightarrow> string" where
  "build_subscribe_message symbol =
     ''{'' @ pq_str ''op'' @ '':'' @ pq_str ''subscribe'' @ '','' @ pq_str ''args'' @ '':['' @
     swap_channel_arg ''orders'' symbol @ '','' @ swap_channel_arg ''positions'' symbol @ '']}''"

definition priv_symbol :: "config \<Rightarrow> string" where
  "priv_symbol cfg =
     (if ex_symbol (c_exchange cfg) = [] then md_symbol (c_market_data cfg) else ex_symbol (c_exchange cfg))"

definition priv_send_subscriptions :: "priv \<Rightarrow> 'r om_state ws \<Rightarrow> 'r om_state ws" where
  "priv_send_subscriptions pv c = enqueue_write (build_subscribe_message (priv_symbol (pv_cfg pv))) c"


section \<open>Order updates\<close>

text \<open>The fill an entry of the orders channel reports; \<open>None\<close> is \<open>continue\<close>.\<close>

definition entry_fill :: "config \<Rightarrow> json \<Rightarrow> fill_input option" where
  "entry_fill cfg entry =
     (case jstr ''state'' entry of
        None \<Rightarrow> None
      | Some st \<Rightarrow>
          if st \<noteq> ''filled'' \<and> st \<noteq> ''partially_filled'' then None
          else case jstr ''fillSz'' entry of
                 None \<Rightarrow> None
               | Some sz \<Rightarrow>
                   let (ok, fill_sz) = parse_double_sv sz 0
                   in if \<not> ok \<or> fill_sz \<le> 0 then None
                      else
                        let cl = jstr_or [] ''clOrdId'' entry
                        in Some \<lparr>fi_order_id = (if cl = [] then jstr_or [] ''ordId'' entry else cl),
                            fi_symbol = jstr_or [] ''instId'' entry,
                            fi_side = (if jstr_or [] ''side'' entry = ''buy'' then 1 else - 1),
                            fi_price = snd (parse_double_sv (jstr_or [] ''fillPx'' entry) 0),
                            fi_qty = fill_sz * ex_contract_size (c_exchange cfg),
                            fi_fee = \<bar>snd (parse_double_sv (jstr_or [] ''fee'' entry) 0)\<bar>,
                            fi_fee_asset = jstr_or [] ''feeCcy'' entry,
                            fi_timestamp_ns = (case stoull (jstr_or [] ''uTime'' entry) of
                                                 Some ms \<Rightarrow> ms * 1000000 | None \<Rightarrow> 0)\<rparr>)"

text \<open>\<open>detail::parse_orders_fill\<close>, the helper of the unit tests: the first entry that is a fill.\<close>

fun first_fill :: "config \<Rightarrow> json list \<Rightarrow> fill_input option" where
  "first_fill cfg [] = None"
| "first_fill cfg (v # vs) = (case entry_fill cfg v of Some f \<Rightarrow> Some f | None \<Rightarrow> first_fill cfg vs)"

definition parse_orders_fill :: "(string \<Rightarrow> json option) \<Rightarrow> config \<Rightarrow> string \<Rightarrow> fill_input option" where
  "parse_orders_fill parse cfg text =
     (case parse text of
        None \<Rightarrow> None
      | Some doc \<Rightarrow> (case as_array (jfield ''data'' doc) of None \<Rightarrow> None | Some vs \<Rightarrow> first_fill cfg vs))"

definition push_external_fill :: "priv \<Rightarrow> fill_input \<Rightarrow> 'r om_state \<Rightarrow> 'r om_state" where
  "push_external_fill pv f st = snd (inject_fill (pv_enc_fill pv) f st)"

fun push_fills :: "priv \<Rightarrow> json list \<Rightarrow> 'r om_state \<Rightarrow> 'r om_state" where
  "push_fills pv [] st = st"
| "push_fills pv (v # vs) st =
     push_fills pv vs (case entry_fill (pv_cfg pv) v of None \<Rightarrow> st | Some f \<Rightarrow> push_external_fill pv f st)"

definition handle_orders :: "priv \<Rightarrow> json \<Rightarrow> 'r om_state ws \<Rightarrow> 'r om_state ws" where
  "handle_orders pv doc c =
     (case as_array (jfield ''data'' doc) of
        None \<Rightarrow> c
      | Some vs \<Rightarrow> c\<lparr>ws_sink := push_fills pv vs (ws_sink c)\<rparr>)"


section \<open>Dispatch\<close>

text \<open>The reconnection of \<open>WsSession\<close>, which this client's source repeats, at its configuration.\<close>

abbreviation priv_schedule_reconnect :: "priv \<Rightarrow> 'r om_state ws \<Rightarrow> 'r om_state ws" where
  "priv_schedule_reconnect pv \<equiv> schedule_reconnect (c_reconnect (pv_cfg pv))"

text \<open>The positions channel is only logged.\<close>

definition priv_route :: "priv \<Rightarrow> json \<Rightarrow> 'r om_state ws \<Rightarrow> 'r om_state ws" where
  "priv_route pv doc c =
     (case jfield ''arg'' doc of
        None \<Rightarrow> c
      | Some arg \<Rightarrow>
          (case jstr ''channel'' arg of
             None \<Rightarrow> c
           | Some channel \<Rightarrow> if channel = ''orders'' then handle_orders pv doc c else c))"

definition handle_login_failure :: "priv \<Rightarrow> 'r om_state ws \<Rightarrow> 'r om_state ws" where
  "handle_login_failure pv c = priv_schedule_reconnect pv c"

definition priv_dispatch :: "priv \<Rightarrow> json \<Rightarrow> 'r om_state ws \<Rightarrow> 'r om_state ws" where
  "priv_dispatch pv doc c =
     (case jstr ''event'' doc of
        None \<Rightarrow> priv_route pv doc c
      | Some ev \<Rightarrow>
          if ev = ''login'' then
            if jstr_or [] ''code'' doc = ''0'' then priv_send_subscriptions pv (c\<lparr>ws_logged_in := True\<rparr>)
            else handle_login_failure pv c
          else if ev = ''error'' then
            if \<not> ws_logged_in c then handle_login_failure pv c else c
          else if ev = ''subscribe'' then c
          else priv_route pv doc c)"

definition priv_frame :: "priv \<Rightarrow> string \<Rightarrow> 'r om_state ws \<Rightarrow> 'r om_state ws" where
  "priv_frame pv p c = (case pv_parse pv p of None \<Rightarrow> c | Some doc \<Rightarrow> priv_dispatch pv doc c)"

definition priv_open :: "priv \<Rightarrow> 'r om_state ws \<Rightarrow> 'r om_state ws" where
  "priv_open pv c = send_login pv (c\<lparr>ws_logged_in := False\<rparr>)"

definition priv_hooks :: "priv \<Rightarrow> 'r om_state ws_hooks" where
  "priv_hooks pv = \<lparr>hk_open = priv_open pv, hk_frame = priv_frame pv\<rparr>"

text \<open>
  The connection as constructed, and its completion handlers, from \<open>on_resolve\<close> to \<open>on_read\<close>: those of
  \<open>WsSession\<close> with this client's hooks.
\<close>

abbreviation priv_new :: "priv \<Rightarrow> 'r om_state \<Rightarrow> 'r om_state ws" where
  "priv_new pv \<equiv> ws_new (c_reconnect (pv_cfg pv))"

abbreviation priv_complete :: "priv \<Rightarrow> ws_op \<Rightarrow> outcome \<Rightarrow> 'r om_state ws \<Rightarrow> 'r om_state ws" where
  "priv_complete pv \<equiv> ws_complete (c_reconnect (pv_cfg pv)) (priv_hooks pv)"

definition priv_start :: "priv \<Rightarrow> 'r om_state \<Rightarrow> (ws_url \<times> 'r om_state ws) option" where
  "priv_start pv x =
     (let cfg = pv_cfg pv
      in ws_start (c_reconnect cfg)
           (ws_pick_url cfg (tn_private_ws_base_url (c_testnet cfg)) (ex_private_ws_base_url (c_exchange cfg))) x)"


section \<open>The client as a session\<close>

lemma priv_frame_effect: "ws_effect (c_reconnect (pv_cfg pv)) True c (priv_frame pv p c)"
  by (auto simp: priv_frame_def priv_dispatch_def priv_route_def handle_orders_def handle_login_failure_def
      priv_send_subscriptions_def intro!: ws_effect.intros split: option.split)

lemma priv_open_effect: "ws_effect rc False c (priv_open pv c)"
  unfolding priv_open_def send_login_def Let_def case_prod_beta
  by (intro ws_effect.enqueue ws_effect.sink ws_effect.login ws_effect.nothing)

interpretation priv: ws_client "c_reconnect (pv_cfg pv)" "priv_hooks pv" True for pv
  by unfold_locales (simp_all add: priv_hooks_def priv_frame_effect priv_open_effect)


section \<open>Fills\<close>

definition entry_fills :: "config \<Rightarrow> json list \<Rightarrow> fill_input list" where
  "entry_fills cfg vs = List.map_filter (entry_fill cfg) vs"

lemma entry_fills_simps [simp]:
  "entry_fills cfg [] = []"
  "entry_fills cfg (v # vs) = (case entry_fill cfg v of None \<Rightarrow> entry_fills cfg vs | Some f \<Rightarrow> f # entry_fills cfg vs)"
  by (simp_all add: entry_fills_def map_filter_simps split: option.split)

lemma push_fills_inject_all: "push_fills pv vs st = inject_all (pv_enc_fill pv) (entry_fills (pv_cfg pv) vs) st"
  by (induction vs arbitrary: st) (simp_all add: inject_all_def push_external_fill_def split: option.split)

lemma first_fill_hd: "first_fill cfg vs = (case entry_fills cfg vs of [] \<Rightarrow> None | f # _ \<Rightarrow> Some f)"
  by (induction vs) (simp_all split: option.split)

text \<open>A data frame of the orders channel: no event envelope, whatever else its argument carries.\<close>

definition orders_frame :: "priv \<Rightarrow> string \<Rightarrow> json list \<Rightarrow> bool" where
  "orders_frame pv p vs \<longleftrightarrow>
     (\<exists>doc arg. pv_parse pv p = Some doc \<and> jstr ''event'' doc = None \<and> jfield ''arg'' doc = Some arg \<and>
       jstr ''channel'' arg = Some ''orders'' \<and> jfield ''data'' doc = Some (JArr vs))"

lemma priv_frame_orders:
  assumes "orders_frame pv p vs"
  shows "priv_frame pv p c = c\<lparr>ws_sink := push_fills pv vs (ws_sink c)\<rparr>"
  using assms by (auto simp: priv_frame_def priv_dispatch_def priv_route_def handle_orders_def orders_frame_def)

lemma parse_orders_frame: "orders_frame pv p vs \<Longrightarrow> parse_orders_fill (pv_parse pv) cfg p = first_fill cfg vs"
  by (auto simp: parse_orders_fill_def orders_frame_def)

end
