(* ===== verification/PrivateProps.thy ===== *)
theory PrivateProps
  imports PrivateWs
begin

text \<open>
  The properties of the private client: an orders frame moves the position by the executions it reports,
  and the test helper agrees with the production path.
\<close>

section \<open>Reference: the executions an orders message reports\<close>

text \<open>
  The exchange's reading of an entry: an order that has filled, in whole or in part, reports its last
  execution in contracts, with the fee that was charged (negative) or rebated; any other state, and a
  fill size that is empty or zero, reports none.
\<close>

record wire_exec =
  wx_buy :: bool
  wx_contracts :: double
  wx_price :: double
  wx_fee :: double

definition numeral_at :: "string \<Rightarrow> json \<Rightarrow> double \<Rightarrow> bool" where
  "numeral_at key v d \<longleftrightarrow> (\<exists>s. jstr key v = Some s \<and> s \<noteq> [] \<and> stod s = Some d)"

definition reports_exec :: "json \<Rightarrow> wire_exec \<Rightarrow> bool" where
  "reports_exec v x \<longleftrightarrow>
     (jstr ''state'' v = Some ''filled'' \<or> jstr ''state'' v = Some ''partially_filled'') \<and>
     jstr ''side'' v = Some (if wx_buy x then ''buy'' else ''sell'') \<and>
     numeral_at ''fillSz'' v (wx_contracts x) \<and> 0 < wx_contracts x \<and>
     numeral_at ''fillPx'' v (wx_price x) \<and> 0 < wx_price x \<and> numeral_at ''fee'' v (wx_fee x)"

definition reports_none :: "json \<Rightarrow> bool" where
  "reports_none v \<longleftrightarrow>
     (\<exists>st. jstr ''state'' v = Some st \<and> st \<noteq> ''filled'' \<and> st \<noteq> ''partially_filled'') \<or>
     jstr ''fillSz'' v = Some [] \<or> (\<exists>d. numeral_at ''fillSz'' v d \<and> d \<le> 0)"

inductive wire_execs :: "json list \<Rightarrow> wire_exec list \<Rightarrow> bool" where
  none: "wire_execs [] []"
| exec: "reports_exec v x \<Longrightarrow> wire_execs vs xs \<Longrightarrow> wire_execs (v # vs) (x # xs)"
| skip: "reports_none v \<Longrightarrow> wire_execs vs xs \<Longrightarrow> wire_execs (v # vs) xs"

text \<open>The base quantity an execution adds to the position, at a contract size of \<open>cs\<close>.\<close>

definition exec_base :: "double \<Rightarrow> wire_exec \<Rightarrow> double" where
  "exec_base cs x = (if wx_buy x then wx_contracts x * cs else - (wx_contracts x * cs))"

lemma numeral_at_parse:
  assumes "numeral_at key v d"
  obtains s where "jstr key v = Some s" "parse_double_sv s out = (True, d)"
  using assms by (auto simp: numeral_at_def parse_double_sv_def)

text \<open>Whether a state is one of the two that report a fill, as one atom.\<close>

definition fill_state :: "string \<Rightarrow> bool" where
  "fill_state st \<longleftrightarrow> st = ''filled'' \<or> st = ''partially_filled''"

lemma entry_fill_state:
  assumes "jstr ''state'' v = Some st"
  shows "entry_fill cfg v = None \<or> fill_state st" and
    "fill_state st \<Longrightarrow> jstr ''fillSz'' v = Some sz \<Longrightarrow> parse_double_sv sz 0 = (ok, q) \<Longrightarrow> \<not> ok \<or> q \<le> 0 \<Longrightarrow> entry_fill cfg v = None"
  using assms unfolding entry_fill_def fill_state_def de_Morgan_disj [symmetric] by (simp_all del: de_Morgan_disj)

lemma entry_fill_exec:
  assumes "reports_exec v x" and "0 < ex_contract_size (c_exchange cfg)"
  shows "\<exists>f. entry_fill cfg v = Some f \<and> fill_valid f \<and> fi_qty f = wx_contracts x * ex_contract_size (c_exchange cfg) \<and>
    fill_signed_qty f = exec_base (ex_contract_size (c_exchange cfg)) x \<and> fi_price f = wx_price x \<and> fi_fee f = \<bar>wx_fee x\<bar>"
proof -
  have r: "numeral_at ''fillSz'' v (wx_contracts x)" "numeral_at ''fillPx'' v (wx_price x)" "numeral_at ''fee'' v (wx_fee x)"
    "0 < wx_contracts x" "0 < wx_price x" "jstr ''side'' v = Some (if wx_buy x then ''buy'' else ''sell'')"
    using assms(1) unfolding reports_exec_def by blast+
  obtain st where st: "jstr ''state'' v = Some st" "fill_state st"
    using assms(1) unfolding reports_exec_def fill_state_def by blast
  obtain sz where sz: "jstr ''fillSz'' v = Some sz" "parse_double_sv sz 0 = (True, wx_contracts x)"
    using r(1) by (rule numeral_at_parse)
  obtain px where px: "jstr ''fillPx'' v = Some px" "parse_double_sv px 0 = (True, wx_price x)"
    using r(2) by (rule numeral_at_parse)
  obtain fee where fee: "jstr ''fee'' v = Some fee" "parse_double_sv fee 0 = (True, wx_fee x)"
    using r(3) by (rule numeral_at_parse)
  have "(st \<noteq> ''filled'' \<and> st \<noteq> ''partially_filled'') = False"
    using st(2) unfolding fill_state_def by blast
  moreover have "0 < wx_contracts x * ex_contract_size (c_exchange cfg)"
    using r(4) assms(2) by simp
  ultimately show ?thesis
    using r(4,5)
    by (simp only: entry_fill_def st sz r(6) option.simps if_False Let_def prod.case)
      (simp add: px fee r(6) fill_valid_def fill_signed_qty_def exec_base_def not_le)
qed

lemma entry_fill_none:
  assumes "reports_none v"
  shows "entry_fill cfg v = None"
proof (cases "jstr ''state'' v")
  case None
  then show ?thesis
    by (simp add: entry_fill_def)
next
  case (Some st)
  show ?thesis
  proof (cases "fill_state st")
    case True
    then consider "jstr ''fillSz'' v = Some []" | d where "numeral_at ''fillSz'' v d" "d \<le> 0"
      using assms Some unfolding reports_none_def fill_state_def by auto
    then show ?thesis
    proof cases
      case 1
      show ?thesis
        by (rule entry_fill_state(2) [OF Some True 1, of False 0]) (simp_all add: parse_double_sv_def)
    next
      case 2
      then obtain sz where "jstr ''fillSz'' v = Some sz" "parse_double_sv sz 0 = (True, d)"
        using numeral_at_parse by blast
      then show ?thesis
        using entry_fill_state(2) [OF Some True] 2(2) by blast
    qed
  qed (use entry_fill_state(1) [OF Some] in blast)
qed

lemma wire_execs_fills:
  assumes "wire_execs vs xs" and "0 < ex_contract_size (c_exchange cfg)"
  shows "length (entry_fills cfg vs) = length xs \<and>
    map fi_qty (entry_fills cfg vs) = map (\<lambda>x. wx_contracts x * ex_contract_size (c_exchange cfg)) xs \<and>
    ledger_inv (entry_fills cfg vs) = (\<Sum>x\<leftarrow>xs. exec_base (ex_contract_size (c_exchange cfg)) x) \<and>
    ledger_cash (entry_fills cfg vs) = - (\<Sum>x\<leftarrow>xs. exec_base (ex_contract_size (c_exchange cfg)) x * wx_price x) \<and>
    ledger_fees (entry_fills cfg vs) = (\<Sum>x\<leftarrow>xs. \<bar>wx_fee x\<bar>)"
  using assms(1)
proof (induction rule: wire_execs.induct)
  case none
  show ?case
    by (simp add: ledger_inv_def ledger_cash_def ledger_fees_def)
next
  case (exec v x vs xs)
  then show ?case
    using entry_fill_exec [OF exec.hyps(1) assms(2)] by (auto simp: ledger_inv_def ledger_cash_def ledger_fees_def)
next
  case (skip v vs xs)
  then show ?case
    by (simp add: entry_fill_none)
qed


section \<open>From the frame to the tracker\<close>

text \<open>C15: an orders frame moves the position by what its entries say on the wire.  Let the frame report the
  executions \<open>xs\<close>, in contracts; let the contract size be positive and the base quantities lie on a lot the
  tracker can resolve; let the fill ring be empty with room for one message per execution, and the
  FlatBuffers code carry the fills across it.  Then the frame itself changes nothing in the tracker, and
  after one round of the fill thread per execution the ring is empty again and the tracker's position
  has grown by every bought and shrunk by every sold contract times the contract size, its fees by the
  magnitude of every reported fee, and its cash has paid for exactly those quantities at their prices.\<close>

theorem orders_frame_reaches_tracker:
  assumes "orders_frame pv p vs" and "wire_execs vs xs" and "cs = ex_contract_size (c_exchange (pv_cfg pv))" and "0 < cs"
    and "kInvEpsilon \<le> lot" and "\<forall>x \<in> set xs. on_grid lot (wx_contracts x * cs)"
    and "tracks lot cash pos fees (en_pt (snd (ws_sink c)))"
    and "ring_ok (om_fill_ring (fst (ws_sink c)))" and "ring_items (om_fill_ring (fst (ws_sink c))) = []"
    and "length xs \<le> ring_capacity (om_fill_ring (fst (ws_sink c)))"
    and "\<forall>f \<in> set (entry_fills (pv_cfg pv) vs). fill_codec (pv_enc_fill pv) dec f"
    and "st = ws_sink (hk_frame (priv_hooks pv) p c)" and "st' = apply_rounds dec (length xs) st"
  shows "en_pt (snd st) = en_pt (snd (ws_sink c)) \<and>
    tracks lot (cash - (\<Sum>x\<leftarrow>xs. exec_base cs x * wx_price x)) (pos + (\<Sum>x\<leftarrow>xs. exec_base cs x))
      (fees + (\<Sum>x\<leftarrow>xs. \<bar>wx_fee x\<bar>)) (en_pt (snd st')) \<and>
    ring_items (om_fill_ring (fst st')) = []"
proof -
  let ?fs = "entry_fills (pv_cfg pv) vs"
  have st: "st = inject_all (pv_enc_fill pv) ?fs (ws_sink c)"
    by (simp add: assms(12) priv_hooks_def priv_frame_orders [OF assms(1)] push_fills_inject_all)
  have fs: "length ?fs = length xs" "map fi_qty ?fs = map (\<lambda>x. wx_contracts x * cs) xs"
    "ledger_inv ?fs = (\<Sum>x\<leftarrow>xs. exec_base cs x)" "ledger_cash ?fs = - (\<Sum>x\<leftarrow>xs. exec_base cs x * wx_price x)"
    "ledger_fees ?fs = (\<Sum>x\<leftarrow>xs. \<bar>wx_fee x\<bar>)"
    using wire_execs_fills [OF assms(2)] assms(3,4) by simp_all
  have "\<forall>q \<in> set (map fi_qty ?fs). on_grid lot q"
    unfolding fs(2) using assms(6) by simp
  then have "\<forall>f \<in> set ?fs. on_grid lot (fi_qty f)"
    by simp
  note t = apply_fills_tracks [OF assms(7,5) this]
  have "en_pt (snd st) = en_pt (snd (ws_sink c)) \<and> en_pt (snd st') = apply_fills ?fs (en_pt (snd (ws_sink c))) \<and>
      ring_items (om_fill_ring (fst st')) = []"
    unfolding assms(13) st fs(1) [symmetric] by (rule inject_all_applied [OF assms(11,8,9)]) (simp only: fs(1) assms(10))
  then show ?thesis
    using t by (simp only: fs(3-5) add_uminus_conv_diff)
qed

text \<open>A frame as the exchange sends it: an order that went live, then a sale of two contracts and a purchase of five.\<close>

definition demo_live_entry :: json where
  "demo_live_entry = JObj [(''instId'', JStr ''BTC-USDT-SWAP''), (''ordId'', JStr ''311''), (''clOrdId'', JStr ''a1''),
     (''side'', JStr ''buy''), (''state'', JStr ''live''), (''fillSz'', JStr ''0''), (''fillPx'', JStr [])]"

definition demo_sell_entry :: json where
  "demo_sell_entry = JObj [(''instId'', JStr ''BTC-USDT-SWAP''), (''ordId'', JStr ''312''), (''clOrdId'', JStr ''a2''),
     (''side'', JStr ''sell''), (''state'', JStr ''partially_filled''), (''fillSz'', JStr ''2''), (''fillPx'', JStr ''110''),
     (''fee'', JStr ''-3''), (''feeCcy'', JStr ''USDT''), (''uTime'', JStr ''7'')]"

definition demo_buy_entry :: json where
  "demo_buy_entry = JObj [(''instId'', JStr ''BTC-USDT-SWAP''), (''ordId'', JStr ''313''), (''clOrdId'', JStr []),
     (''side'', JStr ''buy''), (''state'', JStr ''filled''), (''fillSz'', JStr ''5''), (''fillPx'', JStr ''100''),
     (''fee'', JStr ''-4''), (''feeCcy'', JStr ''USDT''), (''uTime'', JStr ''8'')]"

definition demo_entries :: "json list" where
  "demo_entries = [demo_live_entry, demo_sell_entry, demo_buy_entry]"

definition demo_orders_doc :: json where
  "demo_orders_doc = JObj [(''arg'', JObj [(''channel'', JStr ''orders''), (''instType'', JStr ''SWAP''),
       (''instId'', JStr ''BTC-USDT-SWAP''), (''uid'', JStr ''77'')]), (''data'', JArr demo_entries)]"

definition demo_sell_fill :: fill_input where
  "demo_sell_fill = \<lparr>fi_order_id = ''a2'', fi_symbol = ''BTC-USDT-SWAP'', fi_side = - 1, fi_price = 110, fi_qty = 1 / 5,
     fi_fee = 3, fi_fee_asset = ''USDT'', fi_timestamp_ns = 7000000\<rparr>"

definition demo_buy_fill :: fill_input where
  "demo_buy_fill = \<lparr>fi_order_id = ''313'', fi_symbol = ''BTC-USDT-SWAP'', fi_side = 1, fi_price = 100, fi_qty = 1 / 2,
     fi_fee = 4, fi_fee_asset = ''USDT'', fi_timestamp_ns = 8000000\<rparr>"

text \<open>Contracts of a tenth; an encoding that carries the two fills.\<close>

definition demo_enc :: "fill_event \<Rightarrow> u8 list" where
  "demo_enc e = (if e = fill_event_of demo_sell_fill then [1] else [2])"

definition demo_dec :: "u8 list \<Rightarrow> fill_event option" where
  "demo_dec bs = Some (fill_event_of (if bs = [1] then demo_sell_fill else demo_buy_fill))"

definition demo_priv :: priv where
  "demo_priv = \<lparr>pv_cfg = demo_cfg\<lparr>c_exchange := (c_exchange demo_cfg)\<lparr>ex_contract_size := 1 / 10\<rparr>,
       c_reconnect := \<lparr>rc_initial_backoff_ms = 1000, rc_max_backoff_ms = 30000, rc_max_attempts = 2\<rparr>\<rparr>,
     pv_api_key = ''k'', pv_api_secret = ''s'', pv_api_passphrase = ''p'',
     pv_parse = (\<lambda>t. if t = ''fill'' then Some demo_orders_doc
       else if t = ''bad'' then Some (JObj [(''event'', JStr ''login''), (''code'', JStr ''60009'')])
       else if t = ''good'' then Some (JObj [(''event'', JStr ''login''), (''code'', JStr ''0'')]) else None),
     pv_hmac_sha256 = (\<lambda>k m. []), pv_encode_block = (\<lambda>s. (0, [])), pv_enc_fill = demo_enc\<rparr>"

lemma demo_orders_frame: "orders_frame demo_priv ''fill'' demo_entries"
  by (simp add: orders_frame_def demo_priv_def demo_orders_doc_def)

lemmas number_scan = stod_def skip_space_def is_space_def is_digit_def dec_val_def scan_exponent_def pow10_def
  stoull_def scan_int_def

lemma stod_digit: "stod ''0'' = Some 0" "stod ''2'' = Some 2" "stod ''5'' = Some 5" "stod ''100'' = Some 100"
  "stod ''110'' = Some 110" "stod ''-3'' = Some (- 3)" "stod ''-4'' = Some (- 4)"
  "stoull ''7'' = Some 7" "stoull ''8'' = Some 8"
  by (simp_all add: number_scan)

lemma demo_entry_fill:
  "entry_fill (pv_cfg demo_priv) demo_live_entry = None"
  "entry_fill (pv_cfg demo_priv) demo_sell_entry = Some demo_sell_fill"
  "entry_fill (pv_cfg demo_priv) demo_buy_entry = Some demo_buy_fill"
  by (simp_all add: entry_fill_def demo_live_entry_def demo_sell_entry_def demo_buy_entry_def demo_sell_fill_def
      demo_buy_fill_def demo_priv_def jstr_or_def parse_double_sv_def stod_digit)

lemma demo_entry_fills: "entry_fills (pv_cfg demo_priv) demo_entries = [demo_sell_fill, demo_buy_fill]"
  by (simp add: demo_entries_def demo_entry_fill)

definition demo_execs :: "wire_exec list" where
  "demo_execs = [\<lparr>wx_buy = False, wx_contracts = 2, wx_price = 110, wx_fee = - 3\<rparr>,
     \<lparr>wx_buy = True, wx_contracts = 5, wx_price = 100, wx_fee = - 4\<rparr>]"

lemma demo_wire_execs: "wire_execs demo_entries demo_execs"
  unfolding demo_entries_def demo_execs_def
  by (intro wire_execs.intros; simp add: reports_none_def reports_exec_def numeral_at_def demo_live_entry_def
      demo_sell_entry_def demo_buy_entry_def stod_digit)

theorem orders_frame_reaches_tracker_witness:
  "tracks (1 / 10) (22 - 50) (3 / 10) 7 (en_pt (snd (apply_rounds demo_dec 2
     (ws_sink (hk_frame (priv_hooks demo_priv) ''fill'' (ws_new (c_reconnect demo_cfg) (fst (om_init demo_clock), demo_env ())))))))"
proof -
  let ?c = "ws_new (c_reconnect demo_cfg) (fst (om_init demo_clock), demo_env ())"
  have sink: "ws_sink ?c = (fst (om_init demo_clock), demo_env ())" "en_pt (demo_env ()) = tracker_init"
    by (simp_all add: ws_new_def) (simp add: demo_env_def)
  have cs: "1 / 10 = ex_contract_size (c_exchange (pv_cfg demo_priv))"
    by (simp add: demo_priv_def)
  have grid: "\<forall>x \<in> set demo_execs. on_grid (1 / 10) (wx_contracts x * (1 / 10))"
    by (auto simp: demo_execs_def on_grid_def intro: exI [of _ 2] exI [of _ 5])
  have ne: "fill_event_of demo_buy_fill \<noteq> fill_event_of demo_sell_fill"
    by (simp add: fill_event_of_def demo_sell_fill_def demo_buy_fill_def)
  have codec: "\<forall>f \<in> set (entry_fills (pv_cfg demo_priv) demo_entries). fill_codec (pv_enc_fill demo_priv) demo_dec f"
    unfolding demo_entry_fills by (simp add: ne fill_codec_def codec_at_def demo_priv_def demo_enc_def demo_dec_def)
  from orders_frame_reaches_tracker [OF demo_orders_frame demo_wire_execs cs _ _ grid _ _ _ _ codec refl refl, of 0 0 0 ?c]
  have "tracks (1 / 10) (0 - (\<Sum>x\<leftarrow>demo_execs. exec_base (1 / 10) x * wx_price x)) (0 + (\<Sum>x\<leftarrow>demo_execs. exec_base (1 / 10) x))
      (0 + (\<Sum>x\<leftarrow>demo_execs. \<bar>wx_fee x\<bar>)) (en_pt (snd (apply_rounds demo_dec (length demo_execs)
        (ws_sink (hk_frame (priv_hooks demo_priv) ''fill'' ?c)))))"
    by (simp add: sink tracks_init ring_init_1024 kInvEpsilon_def demo_execs_def)
  then show ?thesis
    by (simp add: demo_execs_def exec_base_def numeral_2_eq_2)
qed

text \<open>The helper of the unit tests, \<open>parse_orders_fill\<close>, finds a fill exactly when the production handler
  pushes one, and finds the first that the handler pushes.\<close>

theorem parse_orders_fill_agrees:
  assumes "orders_frame pv p vs"
  shows "ws_sink (hk_frame (priv_hooks pv) p c) = inject_all (pv_enc_fill pv) (entry_fills (pv_cfg pv) vs) (ws_sink c) \<and>
    parse_orders_fill (pv_parse pv) (pv_cfg pv) p =
      (case entry_fills (pv_cfg pv) vs of [] \<Rightarrow> None | f # _ \<Rightarrow> Some f)"
  using assms
  by (simp add: priv_hooks_def priv_frame_orders push_fills_inject_all parse_orders_frame first_fill_hd)

theorem parse_orders_fill_agrees_witness:
  "parse_orders_fill (pv_parse demo_priv) (pv_cfg demo_priv) ''fill'' = Some demo_sell_fill"
  using parse_orders_fill_agrees [OF demo_orders_frame, of "ws_new (c_reconnect demo_cfg) (fst (om_init demo_clock), demo_env ())"]
  by (simp add: demo_entry_fills)


section \<open>The session\<close>

text \<open>In every state the private connection can reach at most one write is in flight and it is the frame at
  the front of the queue, and the connection is never silently dead: unless it was stopped or called the
  fatal callback, an operation or a back-off is pending.\<close>

theorem private_session_invariant:
  assumes "ws_reach (c_reconnect (pv_cfg pv)) (priv_hooks pv) x c"
  shows "(if ws_writing c then ws_queue c \<noteq> [] \<and> (\<exists>s. filter is_write (ws_pending c) = [OpWrite s (hd (ws_queue c))])
      else ws_queue c = [] \<and> filter is_write (ws_pending c) = []) \<and>
    (ws_stopping c \<or> 0 < ws_fatal c \<or> 0 < tokens c)"
  using priv.writer_ok_reach [OF assms] priv.live_ok_reach [OF assms] by (simp add: writer_ok_def live_ok_def)

theorem private_session_invariant_witness:
  "0 < tokens (do_resolve (ws_new (c_reconnect (pv_cfg demo_priv)) (fst (om_init demo_clock), demo_env ())))"
  using private_session_invariant [OF ws_reach.run [of "c_reconnect (pv_cfg demo_priv)" "priv_hooks demo_priv" "(fst (om_init demo_clock), demo_env ())"]]
  by (simp add: do_resolve_def ws_new_def)

end
