(* ===== verification/LoginChurn.thy ===== *)
theory LoginChurn
  imports PrivateProps
begin

text \<open>
  What one rejected login does to the private connection when nothing fails afterwards.  The runs
  considered are the calm ones: after the rejection no operation fails but those on a stream that was
  replaced, which must, every further frame is harmless, and a back-off outlasts a reconnection.
\<close>

section \<open>Calm runs\<close>

text \<open>A login reply and the frames that reject nothing.\<close>

definition login_reply :: "priv \<Rightarrow> string \<Rightarrow> bool \<Rightarrow> bool" where
  "login_reply pv p accepted \<longleftrightarrow> p \<noteq> ''ping'' \<and>
     (\<exists>doc. pv_parse pv p = Some doc \<and> jstr ''event'' doc = Some ''login'' \<and> (jstr_or [] ''code'' doc = ''0'') = accepted)"

definition calm_frame :: "priv \<Rightarrow> string \<Rightarrow> bool" where
  "calm_frame pv p \<longleftrightarrow>
     (case pv_parse pv p of None \<Rightarrow> True
      | Some doc \<Rightarrow> jstr ''event'' doc \<noteq> Some ''error'' \<and>
          (jstr ''event'' doc = Some ''login'' \<longrightarrow> jstr_or [] ''code'' doc = ''0''))"

text \<open>Only an operation on a stream that was replaced fails.\<close>

definition willing :: "priv \<Rightarrow> ws_op \<Rightarrow> outcome \<Rightarrow> 'a ws \<Rightarrow> bool" where
  "willing pv op out c \<longleftrightarrow> out \<noteq> SniFailed \<and>
     (out = Failed \<longrightarrow> (\<exists>s. op_stream op = Some s \<and> s \<noteq> ws_stream c)) \<and> (\<forall>p. out = Frame p \<longrightarrow> calm_frame pv p)"

inductive calm_step :: "priv \<Rightarrow> 'r om_state ws \<Rightarrow> 'r om_state ws \<Rightarrow> bool"
  for pv :: priv where
  complete: "ws_pending c = xs @ op # ys \<Longrightarrow> outcome_ok op out c \<Longrightarrow> willing pv op out c \<Longrightarrow>
    calm_step pv c (priv_complete pv op out (c\<lparr>ws_pending := xs @ ys\<rparr>))"
| ping: "ws_ping_timer c \<Longrightarrow> calm_step pv c (on_ping_timer (c\<lparr>ws_ping_timer := False\<rparr>))"

text \<open>Runs, with the number of back-offs that elapsed; each does so on a session that is up.\<close>

inductive calm_run :: "priv \<Rightarrow> nat \<Rightarrow> 'r om_state ws \<Rightarrow> 'r om_state ws \<Rightarrow> bool"
  for pv :: priv where
  here: "calm_run pv 0 c c"
| step: "calm_run pv k c d \<Longrightarrow> calm_step pv d e \<Longrightarrow> calm_run pv k c e"
| elapse: "calm_run pv k c d \<Longrightarrow> ws_backoff_timer d = Some ms \<Longrightarrow> progress d = [OpRead (ws_stream d)] \<Longrightarrow>
    calm_run pv (Suc k) c (reset_and_reconnect (d\<lparr>ws_backoff_timer := None\<rparr>))"

lemma calm_run_trans: "calm_run pv k d e \<Longrightarrow> calm_run pv j c d \<Longrightarrow> calm_run pv (j + k) c e"
proof (induction rule: calm_run.induct)
  case (elapse k d e ms)
  then show ?case
    using calm_run.elapse by fastforce
qed (auto intro: calm_run.intros)

lemma calm_run_reach:
  assumes "calm_run pv k c d" and "ws_reach (c_reconnect (pv_cfg pv)) (priv_hooks pv) x c"
  shows "ws_reach (c_reconnect (pv_cfg pv)) (priv_hooks pv) x d"
  using assms
proof (induction rule: calm_run.induct)
  case (step k c d e)
  from step.hyps(2) have "ws_step (c_reconnect (pv_cfg pv)) (priv_hooks pv) d e"
    by (induction rule: calm_step.induct) (auto intro: ws_step.intros)
  then show ?case
    using step by (blast intro: ws_reach.step)
next
  case (elapse k c d ms)
  then show ?case
    by (blast intro: ws_reach.step ws_step.backoff)
qed


section \<open>The churn\<close>

text \<open>How far a connection attempt on stream \<open>s\<close> is, up to the read of its session.\<close>

definition stage :: "nat \<Rightarrow> ws_op \<Rightarrow> bool" where
  "stage s op \<longleftrightarrow> op \<in> {OpResolve, OpConnect s, OpSsl s, OpHandshake s, OpRead s}"

text \<open>
  Either the attempt is alone and a back-off is armed that will replace it, or the read of an older stream
  is still to fail.  The attempt counter is what the failures since the last handshake can make it.
\<close>

definition armed :: "'a ws \<Rightarrow> bool" where
  "armed c \<longleftrightarrow> (\<exists>op. stage (ws_stream c) op \<and> progress c = [op] \<and> ws_backoff_timer c \<noteq> None \<and>
     ws_attempt c \<le> (if op = OpRead (ws_stream c) then 1 else 2))"

definition haunted :: "'a ws \<Rightarrow> bool" where
  "haunted c \<longleftrightarrow> (\<exists>m op. m < ws_stream c \<and> stage (ws_stream c) op \<and> progress c = [OpRead m, op] \<and>
     ws_backoff_timer c = None \<and> ws_attempt c \<le> (if op = OpRead (ws_stream c) then 0 else 1))"

definition churning :: "'a ws \<Rightarrow> bool" where
  "churning c \<longleftrightarrow> \<not> ws_stopping c \<and> OpStop \<notin> set (ws_pending c) \<and> (armed c \<or> haunted c)"

text \<open>What the handlers leave alone.\<close>

definition same_conn :: "'a ws \<Rightarrow> 'a ws \<Rightarrow> bool" where
  "same_conn c d \<longleftrightarrow> ws_stopping d = ws_stopping c \<and> ws_stream d = ws_stream c \<and> ws_fatal d = ws_fatal c \<and>
     ws_attempt d = ws_attempt c \<and> ws_backoff_timer d = ws_backoff_timer c \<and> progress d = progress c \<and>
     (OpStop \<in> set (ws_pending d) \<longleftrightarrow> OpStop \<in> set (ws_pending c))"

lemma churning_same: "churning c \<Longrightarrow> same_conn c d \<Longrightarrow> churning d"
  by (simp add: churning_def armed_def haunted_def same_conn_def)

lemma same_conn_refl: "same_conn c c"
  by (simp add: same_conn_def)

lemma route_same: "same_conn c (priv_route pv doc c)"
  by (simp add: priv_route_def handle_orders_def same_conn_def progress_def split: option.split)

lemma subscribe_same: "same_conn c (priv_send_subscriptions pv (c\<lparr>ws_logged_in := b\<rparr>))"
  by (simp add: priv_send_subscriptions_def same_conn_def) (simp add: progress_def)

lemma calm_frame_same:
  assumes "calm_frame pv p"
  shows "same_conn c (priv_frame pv p c)"
proof (cases "pv_parse pv p")
  case None
  then show ?thesis
    by (simp add: priv_frame_def same_conn_refl)
next
  case (Some doc)
  show ?thesis
  proof (cases "jstr ''event'' doc")
    case None
    then show ?thesis
      by (simp only: priv_frame_def Some priv_dispatch_def option.case route_same)
  next
    case (Some ev)
    have "ev \<noteq> ''error''" "ev = ''login'' \<Longrightarrow> jstr_or [] ''code'' doc = ''0''"
      using assms unfolding calm_frame_def \<open>pv_parse pv p = Some doc\<close> Some option.case by blast+
    then have "same_conn c (priv_dispatch pv doc c)"
      unfolding priv_dispatch_def Some option.case
      by (cases "ev = ''login''"; cases "ev = ''subscribe''")
        (simp_all only: if_True if_False route_same subscribe_same same_conn_refl simp_thms)
    then show ?thesis
      by (simp only: priv_frame_def \<open>pv_parse pv p = Some doc\<close> option.case)
  qed
qed

lemma open_same: "same_conn c (priv_open pv c)"
  by (simp add: priv_open_def send_login_def same_conn_def Let_def case_prod_beta) (simp add: progress_def)

text \<open>The two shapes of the operations in flight, and what remains when one is taken out.\<close>

lemma take_one:
  assumes "progress c = [op']" and "ws_pending c = xs @ op # ys" and "is_progress op"
  shows "op = op' \<and> progress (c\<lparr>ws_pending := xs @ ys\<rparr>) = []"
  using assms by (auto simp: progress_def append_eq_Cons_conv)

lemma take_two:
  assumes "progress c = [op1, op2]" and "ws_pending c = xs @ op # ys" and "is_progress op"
  shows "op = op1 \<and> progress (c\<lparr>ws_pending := xs @ ys\<rparr>) = [op2] \<or>
    op = op2 \<and> progress (c\<lparr>ws_pending := xs @ ys\<rparr>) = [op1]"
  using assms by (auto simp: progress_def append_eq_Cons_conv)

lemma stage_progress: "stage s op \<Longrightarrow> is_progress op"
  by (auto simp: stage_def)

text \<open>The connection between the completion of a stage and the start of the next (\<open>r\<close>: the next is the read).\<close>

definition between :: "bool \<Rightarrow> 'a ws \<Rightarrow> bool" where
  "between r c \<longleftrightarrow> \<not> ws_stopping c \<and> OpStop \<notin> set (ws_pending c) \<and>
     (progress c = [] \<and> ws_backoff_timer c \<noteq> None \<and> ws_attempt c \<le> (if r then 1 else 2) \<or>
      (\<exists>m < ws_stream c. progress c = [OpRead m] \<and> ws_backoff_timer c = None \<and> ws_attempt c \<le> (if r then 0 else 1)))"

lemma between_same: "between r c \<Longrightarrow> same_conn c d \<Longrightarrow> between r d"
  by (simp add: between_def same_conn_def)

lemma between_async:
  assumes "between r c" and "stage (ws_stream c) op" and "op = OpRead (ws_stream c) \<Longrightarrow> r"
  shows "churning (ws_async op c)"
  using assms stage_progress [OF assms(2)]
  by (auto simp: between_def churning_def armed_def haunted_def stage_def split: if_splits)

lemma between_opened: "between r c \<Longrightarrow> between True (c\<lparr>ws_attempt := 0, ws_backoff_ms := b\<rparr>)"
  by (auto simp: between_def progress_def)

text \<open>The current stage completes.\<close>

lemma churn_stage:
  assumes "between (op = OpRead (ws_stream c)) c" and "stage (ws_stream c) op" and "outcome_ok op out c"
    and "willing pv op out c"
  shows "churning (priv_complete pv op out c) \<and> ws_stream (priv_complete pv op out c) = ws_stream c \<and>
    ws_fatal (priv_complete pv op out c) = ws_fatal c"
proof -
  have ok: "out \<noteq> Failed" "out \<noteq> SniFailed" "\<And>p. out = Frame p \<Longrightarrow> calm_frame pv p"
    using assms(2,4) by (auto simp: willing_def stage_def)
  have ns: "\<not> ws_stopping c"
    using assms(1) by (simp add: between_def)
  have go: "churning (ws_async (OpConnect (ws_stream c)) c)" "churning (ws_async (OpSsl (ws_stream c)) c)"
    "churning (ws_async (OpHandshake (ws_stream c)) c)"
    by (rule between_async [OF assms(1)]; simp add: stage_def)+
  consider "op = OpResolve" | "op = OpConnect (ws_stream c)" | "op = OpSsl (ws_stream c)" | "op = OpHandshake (ws_stream c)"
    | "op = OpRead (ws_stream c)"
    using assms(2) by (auto simp: stage_def)
  then show ?thesis
  proof cases
    case 4
    let ?c = "c\<lparr>ws_attempt := 0, ws_backoff_ms := rc_initial_backoff_ms (c_reconnect (pv_cfg pv))\<rparr>"
    have "between True (priv_open pv ?c)"
      by (rule between_same [OF between_opened [OF assms(1)] open_same])
    moreover have "same_conn e (arm_ping_timer e)" for e :: "'a om_state ws"
      by (simp add: same_conn_def)
    ultimately have "between True (arm_ping_timer (priv_open pv ?c))"
      by (rule between_same)
    then have "churning (ws_async (OpRead (ws_stream c)) (arm_ping_timer (priv_open pv ?c)))"
      using open_same [of ?c pv] by (intro between_async) (simp_all add: stage_def same_conn_def)
    then show ?thesis
      using ok open_same [of ?c pv] by (simp add: 4 on_ws_handshake_def priv_hooks_def do_read_def same_conn_def)
  next
    case 5
    then obtain p where p: "out = Frame p" "calm_frame pv p"
      using assms(3) ok by (cases out) (auto simp: outcome_ok_def)
    have b: "between True c"
      using assms(1) 5 by simp
    have "churning (read_again d) \<and> ws_stream (read_again d) = ws_stream c \<and> ws_fatal (read_again d) = ws_fatal c"
      if "same_conn c d" for d
      using between_async [OF between_same [OF b that], of "OpRead (ws_stream d)"] that ns
      by (simp add: read_again_def do_read_def same_conn_def stage_def)
    moreover have "same_conn c (enqueue_write ''pong'' c)" "same_conn c (priv_frame pv p c)"
      using calm_frame_same [OF p(2)] by (simp_all add: same_conn_def)
    ultimately show ?thesis
      by (simp add: 5 p(1) priv_hooks_def)
  qed (use ok go in \<open>simp_all add: on_resolve_def on_connect_def on_ssl_handshake_def stage_def\<close>)
qed

text \<open>The read of a replaced stream fails, and arms the back-off again.\<close>

lemma churn_stale:
  assumes "\<not> ws_stopping c" and "OpStop \<notin> set (ws_pending c)" and "progress c = [op]" and "stage (ws_stream c) op"
    and "ws_attempt c \<le> (if op = OpRead (ws_stream c) then 0 else 1)" and "2 \<le> rc_max_attempts rc"
  shows "churning (schedule_reconnect rc c) \<and> ws_fatal (schedule_reconnect rc c) = ws_fatal c"
  using assms by (auto simp: schedule_reconnect_def Let_def churning_def armed_def progress_def)

lemma churn_complete:
  assumes "churning c" and "ws_pending c = xs @ op # ys" and "outcome_ok op out c" and "willing pv op out c"
    and "2 \<le> rc_max_attempts (c_reconnect (pv_cfg pv))" and "d = priv_complete pv op out (c\<lparr>ws_pending := xs @ ys\<rparr>)"
  shows "churning d \<and> ws_stream d = ws_stream c \<and> ws_fatal d = ws_fatal c"
proof (cases "is_progress op")
  case False
  let ?c = "c\<lparr>ws_pending := xs @ ys\<rparr>"
  have "op \<noteq> OpStop"
    using assms(1,2) by (auto simp: churning_def)
  moreover have "same_conn c ?c"
    using assms(1,2) False by (auto simp: same_conn_def progress_def churning_def)
  moreover have "same_conn e (on_write e)" for e :: "'a om_state ws"
    by (simp add: on_write_def same_conn_def) (simp add: progress_def)
  ultimately have "same_conn c d"
    using False by (cases op) (simp_all add: assms(6) same_conn_def)
  then show ?thesis
    using churning_same [OF assms(1)] by (simp add: same_conn_def)
next
  case True
  let ?c = "c\<lparr>ws_pending := xs @ ys\<rparr>"
  have q: "\<not> ws_stopping ?c" "OpStop \<notin> set (ws_pending ?c)" "outcome_ok op out ?c" "willing pv op out ?c"
    using assms(1-4) by (auto simp: churning_def outcome_ok_def willing_def)
  have live: ?thesis if "between (op = OpRead (ws_stream c)) ?c" "stage (ws_stream c) op"
    using churn_stage [of op ?c out pv] that q by (simp add: assms(6))
  show ?thesis
  proof (cases "armed c")
    case a: True
    then obtain op' where a: "stage (ws_stream c) op'" "progress c = [op']" "ws_backoff_timer c \<noteq> None"
      "ws_attempt c \<le> (if op' = OpRead (ws_stream c) then 1 else 2)"
      by (auto simp: armed_def)
    then show ?thesis
      using take_one [OF a(2) assms(2) True] q(1,2) by (intro live) (auto simp: between_def)
  next
    case False
    then obtain m op' where h: "m < ws_stream c" "stage (ws_stream c) op'" "progress c = [OpRead m, op']"
      "ws_backoff_timer c = None" "ws_attempt c \<le> (if op' = OpRead (ws_stream c) then 0 else 1)"
      using assms(1) by (auto simp: churning_def haunted_def)
    from take_two [OF h(3) assms(2) True] show ?thesis
    proof
      assume t: "op = OpRead m \<and> progress ?c = [op']"
      then have "out = Failed"
        using assms(3) h(1) by (simp add: outcome_ok_def)
      then show ?thesis
        using churn_stale [of ?c op' "c_reconnect (pv_cfg pv)"] t q(1,2) h assms(5) by (simp add: assms(6))
    next
      assume "op = op' \<and> progress ?c = [OpRead m]"
      then show ?thesis
        using h q(1,2) by (intro live) (auto simp: between_def)
    qed
  qed
qed

lemma churn_step:
  assumes "calm_step pv c d" and "churning c" and "2 \<le> rc_max_attempts (c_reconnect (pv_cfg pv))"
  shows "churning d \<and> ws_stream d = ws_stream c \<and> ws_fatal d = ws_fatal c"
  using assms(1)
proof (cases rule: calm_step.cases)
  case (complete xs op ys out)
  then show ?thesis
    using churn_complete [OF assms(2) _ _ _ assms(3)] by blast
next
  case ping
  have "same_conn c d"
    using assms(2) by (simp add: ping churning_def on_ping_timer_def same_conn_def progress_def)
  then show ?thesis
    using churning_same [OF assms(2)] by (simp add: same_conn_def)
qed

lemma churn_elapse:
  assumes "churning c" and "ws_backoff_timer c = Some ms" and "progress c = [OpRead (ws_stream c)]"
    and "d = reset_and_reconnect (c\<lparr>ws_backoff_timer := None\<rparr>)"
  shows "churning d \<and> ws_stream d = Suc (ws_stream c) \<and> ws_fatal d = ws_fatal c"
proof -
  have "ws_attempt c \<le> 1"
    using assms(1-3) by (auto simp: churning_def armed_def haunted_def)
  then have "between False (c\<lparr>ws_backoff_timer := None, ws_stream := Suc (ws_stream c)\<rparr>)"
    using assms(1,3) by (simp add: between_def churning_def progress_def)
  from between_async [OF this, of OpResolve] show ?thesis
    using assms(1) by (simp add: assms(4) churning_def reset_and_reconnect_def do_resolve_def stage_def)
qed

lemma churn_run:
  assumes "calm_run pv k c d" and "churning c" and "2 \<le> rc_max_attempts (c_reconnect (pv_cfg pv))"
  shows "churning d \<and> ws_stream d = ws_stream c + k \<and> ws_fatal d = ws_fatal c"
  using assms(1,2)
proof (induction rule: calm_run.induct)
  case (step k c d e)
  then show ?case
    using churn_step [OF _ _ assms(3)] by force
next
  case (elapse k c d ms)
  have d: "churning d \<and> ws_stream d = ws_stream c + k \<and> ws_fatal d = ws_fatal c"
    by (rule elapse.IH [OF elapse.prems])
  then show ?case
    using churn_elapse [OF _ elapse.hyps(2,3) refl] by simp
qed simp


section \<open>A run can always go on\<close>

lemma churn_armed: "churning c \<Longrightarrow> progress c = [op] \<Longrightarrow> ws_backoff_timer c \<noteq> None"
  by (auto simp: churning_def armed_def haunted_def)

lemma progress_split:
  assumes "op \<in> set (progress c)"
  obtains xs ys where "ws_pending c = xs @ op # ys" and "is_progress op"
  using assms by (auto simp: progress_def dest: split_list)

text \<open>A step of the run from \<open>c\<close>, with what it keeps.\<close>

lemma calm_go:
  assumes "churning c" and "calm_step pv c d" and "2 \<le> rc_max_attempts (c_reconnect (pv_cfg pv))"
  shows "calm_run pv 0 c d \<and> churning d \<and> ws_stream d = ws_stream c"
  using churn_step [OF assms(2,1,3)] calm_run.step [OF calm_run.here assms(2)] by simp

lemma calm_next:
  fixes c :: "'r om_state ws"
  assumes "churning c" and "progress c = [op]" and "2 \<le> rc_max_attempts (c_reconnect (pv_cfg pv))"
    and "outcome_ok op Done c" 
    and "\<And>e :: 'r om_state ws. ws_stream e = ws_stream c \<Longrightarrow> progress (priv_complete pv op Done e) = progress e @ [op']"
  shows "\<exists>d. calm_run pv 0 c d \<and> churning d \<and> ws_stream d = ws_stream c \<and> progress d = [op']"
proof -
  obtain xs ys where p: "ws_pending c = xs @ op # ys" "is_progress op"
    using assms(2) by (auto intro: progress_split [of op c])
  have "calm_step pv c (priv_complete pv op Done (c\<lparr>ws_pending := xs @ ys\<rparr>))"
    by (rule calm_step.complete [OF p(1) assms(4)]) (simp add: willing_def)
  from calm_go [OF assms(1) this assms(3)] show ?thesis
    using take_one [OF assms(2) p] assms(5) [of "c\<lparr>ws_pending := xs @ ys\<rparr>"] by auto
qed

lemma calm_up:
  fixes c :: "'r om_state ws"
  assumes "churning c" and "progress c = [op]" and "stage (ws_stream c) op" and "2 \<le> rc_max_attempts (c_reconnect (pv_cfg pv))"
  shows "\<exists>d. calm_run pv 0 c d \<and> churning d \<and> ws_stream d = ws_stream c \<and> progress d = [OpRead (ws_stream c)]"
proof -
  let ?G = "\<lambda>c :: 'r om_state ws. \<exists>d. calm_run pv 0 c d \<and> churning d \<and> ws_stream d = ws_stream c \<and>
    progress d = [OpRead (ws_stream c)]"
  have glue: "?G c" if c: "\<exists>d. calm_run pv 0 c d \<and> churning d \<and> ws_stream d = ws_stream c \<and> progress d = [op']"
    and g: "\<And>d. churning d \<Longrightarrow> ws_stream d = ws_stream c \<Longrightarrow> progress d = [op'] \<Longrightarrow> ?G d" for c op'
  proof -
    obtain d where d: "calm_run pv 0 c d" "churning d" "ws_stream d = ws_stream c" "progress d = [op']"
      using c by blast
    from g [OF d(2-4)] obtain e where "calm_run pv 0 d e" "churning e" "ws_stream e = ws_stream d"
      "progress e = [OpRead (ws_stream d)]"
      by blast
    then show ?thesis
      using calm_run_trans [OF _ d(1), of 0 e] d(3) by auto
  qed
  have h: "?G c" if "churning c" "progress c = [OpHandshake (ws_stream c)]" for c :: "'r om_state ws"
    by (rule calm_next [OF that assms(4)])
      (auto simp: outcome_ok_def on_ws_handshake_def do_read_def priv_hooks_def priv_open_def send_login_def Let_def
        case_prod_beta progress_def)
  have s: "?G c" if "churning c" "progress c = [OpSsl (ws_stream c)]" for c :: "'r om_state ws"
    by (rule glue [where op' = "OpHandshake (ws_stream c)", OF calm_next [OF that assms(4)] h]) (auto simp: outcome_ok_def on_ssl_handshake_def)
  have k: "?G c" if "churning c" "progress c = [OpConnect (ws_stream c)]" for c :: "'r om_state ws"
    by (rule glue [where op' = "OpSsl (ws_stream c)", OF calm_next [OF that assms(4)] s]) (auto simp: outcome_ok_def on_connect_def)
  have r: "?G c" if "churning c" "progress c = [OpResolve]" for c :: "'r om_state ws"
    by (rule glue [where op' = "OpConnect (ws_stream c)", OF calm_next [OF that assms(4)] k]) (auto simp: outcome_ok_def on_resolve_def)
  show ?thesis
    using assms(1-3) h s k r calm_run.here by (fastforce simp: stage_def)
qed

lemma calm_single:
  assumes "churning c" and "2 \<le> rc_max_attempts (c_reconnect (pv_cfg pv))"
  shows "\<exists>d op. calm_run pv 0 c d \<and> churning d \<and> ws_stream d = ws_stream c \<and> stage (ws_stream c) op \<and> progress d = [op]"
proof (cases "armed c")
  case True
  then show ?thesis
    using assms(1) calm_run.here by (auto simp: armed_def)
next
  case False
  then obtain m op where h: "m < ws_stream c" "stage (ws_stream c) op" "progress c = [OpRead m, op]"
    using assms(1) by (auto simp: churning_def haunted_def)
  then obtain xs ys where p: "ws_pending c = xs @ OpRead m # ys" "is_progress (OpRead m)"
    by (auto intro: progress_split [of "OpRead m" c])
  have "OpRead m \<noteq> op"
    using h(1,2) by (auto simp: stage_def)
  then have t: "progress (c\<lparr>ws_pending := xs @ ys\<rparr>) = [op]"
    using take_two [OF h(3) p] by auto
  have "calm_step pv c (priv_complete pv (OpRead m) Failed (c\<lparr>ws_pending := xs @ ys\<rparr>))"
    by (rule calm_step.complete [OF p(1)]) (use h(1) in \<open>auto simp: outcome_ok_def willing_def\<close>)
  from calm_go [OF assms(1) this assms(2)] show ?thesis
    using t h(2) by auto
qed

lemma calm_login:
  assumes "churning c" and "progress c = [OpRead (ws_stream c)]" and "login_reply pv q True"
    and "2 \<le> rc_max_attempts (c_reconnect (pv_cfg pv))"
  shows "\<exists>d. calm_run pv 0 c d \<and> churning d \<and> ws_stream d = ws_stream c \<and> progress d = [OpRead (ws_stream c)] \<and> ws_logged_in d"
proof -
  obtain xs ys where p: "ws_pending c = xs @ OpRead (ws_stream c) # ys" "is_progress (OpRead (ws_stream c))"
    using assms(2) by (auto intro: progress_split [of "OpRead (ws_stream c)" c])
  obtain doc where q: "q \<noteq> ''ping''" "pv_parse pv q = Some doc" "jstr ''event'' doc = Some ''login''"
    "jstr_or [] ''code'' doc = ''0''"
    using assms(3) unfolding login_reply_def by blast
  let ?c = "c\<lparr>ws_pending := xs @ ys\<rparr>"
  let ?d = "priv_complete pv (OpRead (ws_stream c)) (Frame q) ?c"
  have "calm_frame pv q"
    unfolding calm_frame_def q(2,3) option.case using q(4) by simp
  then have "calm_step pv c ?d"
    by (intro calm_step.complete [OF p(1)]) (simp_all add: outcome_ok_def willing_def)
  moreover have "?d = read_again (priv_send_subscriptions pv (?c\<lparr>ws_logged_in := True\<rparr>))"
    using q(1) by (simp only: ws_complete.simps on_read.simps if_False priv_hooks_def ws_hooks.simps priv_frame_def
        q(2,3,4) option.case priv_dispatch_def if_True simp_thms)
  moreover have "progress (read_again (priv_send_subscriptions pv e)) = progress e @ [OpRead (ws_stream e)] \<and>
      ws_logged_in (read_again (priv_send_subscriptions pv e)) = ws_logged_in e" if "\<not> ws_stopping e" for e :: "'a om_state ws"
    using that by (simp add: read_again_def do_read_def priv_send_subscriptions_def)
  moreover have "\<not> ws_stopping c"
    using assms(1) by (simp add: churning_def)
  ultimately show ?thesis
    using calm_go [OF assms(1) _ assms(4)] take_one [OF assms(2) p]
    by (intro exI [of _ ?d]) (simp add: progress_def)
qed

lemma calm_session:
  assumes "churning c" and "login_reply pv q True" and "2 \<le> rc_max_attempts (c_reconnect (pv_cfg pv))"
  shows "\<exists>d. calm_run pv 0 c d \<and> churning d \<and> progress d = [OpRead (ws_stream d)] \<and> ws_logged_in d"
proof -
  obtain d op where d: "calm_run pv 0 c d" "churning d" "stage (ws_stream d) op" "progress d = [op]"
    using calm_single [OF assms(1,3)] by auto
  obtain e where e: "calm_run pv 0 d e" "churning e" "progress e = [OpRead (ws_stream e)]"
    using calm_up [OF d(2,4,3) assms(3)] by auto
  obtain f where f: "calm_run pv 0 e f" "churning f" "progress f = [OpRead (ws_stream f)]" "ws_logged_in f"
    using calm_login [OF e(2,3) assms(2,3)] by auto
  show ?thesis
    using calm_run_trans [OF f(1) calm_run_trans [OF e(1) d(1)]] f(2-4) by auto
qed

lemma calm_sessions:
  assumes "churning c" and "login_reply pv q True" and "2 \<le> rc_max_attempts (c_reconnect (pv_cfg pv))"
  shows "\<exists>d. calm_run pv n c d \<and> churning d \<and> progress d = [OpRead (ws_stream d)] \<and> ws_logged_in d"
proof (induction n)
  case 0
  show ?case
    by (rule calm_session [OF assms])
next
  case (Suc n)
  then obtain d where d: "calm_run pv n c d" "churning d" "progress d = [OpRead (ws_stream d)]"
    by blast
  then obtain ms where ms: "ws_backoff_timer d = Some ms"
    using churn_armed [OF d(2,3)] by auto
  obtain e where "calm_run pv 0 (reset_and_reconnect (d\<lparr>ws_backoff_timer := None\<rparr>)) e" "churning e"
    "progress e = [OpRead (ws_stream e)]" "ws_logged_in e"
    using calm_session [OF _ assms(2,3)] churn_elapse [OF d(2) ms d(3) refl] by blast
  then show ?case
    using calm_run_trans [OF _ calm_run.elapse [OF d(1) ms d(3)]] by (metis add_0_right)
qed


section \<open>After a rejected login\<close>

text \<open>A session that has just come up: its read is all that is in flight, and no back-off is armed.\<close>

definition fresh_session :: "'a ws \<Rightarrow> bool" where
  "fresh_session c \<longleftrightarrow> \<not> ws_stopping c \<and> progress c = [OpRead (ws_stream c)] \<and> ws_attempt c = 0 \<and> ws_backoff_timer c = None"

lemma reject_churns:
  assumes "ws_reach (c_reconnect (pv_cfg pv)) (priv_hooks pv) x c" and "fresh_session c"
    and "ws_pending c = xs @ OpRead (ws_stream c) # ys" and "login_reply pv p False"
    and "2 \<le> rc_max_attempts (c_reconnect (pv_cfg pv))"
    and "b = priv_complete pv (OpRead (ws_stream c)) (Frame p) (c\<lparr>ws_pending := xs @ ys\<rparr>)"
  shows "churning b \<and> ws_stream b = ws_stream c \<and> ws_fatal b = ws_fatal c"
proof -
  let ?c = "c\<lparr>ws_pending := xs @ ys\<rparr>"
  obtain doc where p: "p \<noteq> ''ping''" "pv_parse pv p = Some doc" "jstr ''event'' doc = Some ''login''"
    "(jstr_or [] ''code'' doc = ''0'') = False"
    using assms(4) unfolding login_reply_def by blast
  have "b = read_again (schedule_reconnect (c_reconnect (pv_cfg pv)) ?c)"
    using p(1) by (simp only: assms(6) ws_complete.simps on_read.simps if_False priv_hooks_def ws_hooks.simps priv_frame_def
        p(2-4) option.case priv_dispatch_def handle_login_failure_def if_True simp_thms)
  moreover have "OpStop \<notin> set (ws_pending c)"
    using priv.live_ok_reach [OF assms(1)] assms(2) by (auto simp: live_ok_def fresh_session_def)
  moreover have "progress ?c = []"
    using take_one [of c "OpRead (ws_stream c)", OF _ assms(3)] assms(2) by (simp add: fresh_session_def)
  ultimately show ?thesis
    using assms(2,3,5)
    by (auto simp: schedule_reconnect_def Let_def read_again_def do_read_def fresh_session_def churning_def armed_def
        stage_def progress_def)
qed

text \<open>C40: one rejected login costs every session after it, even when nothing goes wrong any more.  Take a
  session that has just come up and let the exchange reject its login once.  From there on let every
  operation succeed but those on replaced streams, let no further frame reject anything, and let every
  back-off outlast the reconnection it follows.  Then in every such run, after \<open>k\<close> back-offs, the connection
  is on its \<open>k\<close>-th further session, the fatal callback has not been called, and the next teardown is always
  under way: the back-off is armed, or the aborted read of an older stream, which arms it, is still to
  complete.  The run never gets stuck: for every \<open>n\<close> it can be continued through \<open>n\<close> more sessions to
  one whose login was accepted and which is being read with the back-off armed that will end it.  (The
  configuration allows two attempts or more; with fewer the second failure is fatal.)\<close>

theorem login_reject_churn:
  assumes "ws_reach (c_reconnect (pv_cfg pv)) (priv_hooks pv) x c" and "fresh_session c"
    and "ws_pending c = xs @ OpRead (ws_stream c) # ys" and "login_reply pv p False" and "login_reply pv q True"
    and "2 \<le> rc_max_attempts (c_reconnect (pv_cfg pv))"
    and "b = priv_complete pv (OpRead (ws_stream c)) (Frame p) (c\<lparr>ws_pending := xs @ ys\<rparr>)"
    and "calm_run pv k b d"
  shows "ws_reach (c_reconnect (pv_cfg pv)) (priv_hooks pv) x d \<and>
    ws_stream d = ws_stream c + k \<and> ws_fatal d = ws_fatal c \<and>
    (ws_backoff_timer d \<noteq> None \<or> (\<exists>m. m < ws_stream d \<and> OpRead m \<in> set (ws_pending d))) \<and>
    (\<exists>e. calm_run pv n d e \<and> ws_stream e = ws_stream d + n \<and> ws_logged_in e \<and>
      OpRead (ws_stream e) \<in> set (ws_pending e) \<and> ws_backoff_timer e \<noteq> None)"
proof -
  have b: "churning b \<and> ws_stream b = ws_stream c \<and> ws_fatal b = ws_fatal c"
    by (rule reject_churns [OF assms(1-4,6,7)])
  have d: "churning d" "ws_stream d = ws_stream c + k" "ws_fatal d = ws_fatal c"
    using churn_run [OF assms(8) _ assms(6)] b by simp_all
  have "ws_step (c_reconnect (pv_cfg pv)) (priv_hooks pv) c b"
    unfolding assms(7) by (rule ws_step.complete [OF assms(3)]) (simp add: outcome_ok_def)
  then have "ws_reach (c_reconnect (pv_cfg pv)) (priv_hooks pv) x d"
    using calm_run_reach [OF assms(8)] ws_reach.step [OF assms(1)] by blast
  moreover have "ws_backoff_timer d \<noteq> None \<or> (\<exists>m. m < ws_stream d \<and> OpRead m \<in> set (ws_pending d))"
  proof (cases "armed d")
    case False
    then obtain m op where "m < ws_stream d" "progress d = [OpRead m, op]"
      using d(1) by (auto simp: churning_def haunted_def)
    then have "OpRead m \<in> set (progress d)" "m < ws_stream d"
      by simp_all
    then show ?thesis
      by (auto simp: progress_def)
  qed (auto simp: armed_def)
  moreover obtain e where e: "calm_run pv n d e" "churning e" "progress e = [OpRead (ws_stream e)]" "ws_logged_in e"
    using calm_sessions [OF d(1) assms(5,6)] by blast
  moreover have "OpRead (ws_stream e) \<in> set (progress e)"
    using e(3) by simp
  then have "OpRead (ws_stream e) \<in> set (ws_pending e)"
    by (simp add: progress_def)
  ultimately show ?thesis
    using d churn_armed [OF e(2,3)] churn_run [OF e(1) d(1) assms(6)] by blast
qed

text \<open>The first session of the demonstration client is rejected; three back-offs later its fourth is
  logged in and about to be torn down.\<close>

theorem login_reject_churn_witness:
  "\<exists>e. ws_reach (c_reconnect (pv_cfg demo_priv)) (priv_hooks demo_priv) (fst (om_init demo_clock), demo_env ()) e \<and>
     ws_stream e = 3 \<and> ws_logged_in e \<and> ws_backoff_timer e \<noteq> None \<and> ws_fatal e = 0"
proof -
  let ?rc = "c_reconnect (pv_cfg demo_priv)" and ?x = "(fst (om_init demo_clock), demo_env ())"
  let ?c = "session_start ?rc (priv_hooks demo_priv) ?x"
  obtain w where w: "ws_pending ?c = [w] @ OpRead 0 # []" "progress ?c = [OpRead 0]" "ws_stream ?c = 0"
    "ws_attempt ?c = 0" "ws_backoff_timer ?c = None" "\<not> ws_stopping ?c" "ws_fatal ?c = 0"
    by (simp add: session_start_def on_ws_handshake_def priv_hooks_def priv_open_def send_login_def ws_new_def do_read_def
        enqueue_write_def drain_write_queue_def progress_def Let_def case_prod_beta)
  have f: "fresh_session ?c" and p: "ws_pending ?c = [w] @ OpRead (ws_stream ?c) # []"
    using w by (simp_all add: fresh_session_def)
  have l: "login_reply demo_priv ''bad'' False" "login_reply demo_priv ''good'' True" "2 \<le> rc_max_attempts ?rc"
    by (simp_all add: login_reply_def demo_priv_def jstr_or_def)
  note churn = login_reject_churn [OF session_start_reach f p l refl]
  obtain e where e: "calm_run demo_priv 3 (priv_complete demo_priv (OpRead (ws_stream ?c)) (Frame ''bad'')
      (?c\<lparr>ws_pending := [w] @ []\<rparr>)) e" "ws_logged_in e" "ws_backoff_timer e \<noteq> None"
    using churn [OF calm_run.here, of 3] by blast
  then show ?thesis
    using churn [OF e(1)] w(3,7) by auto
qed

end
