(* ===== verification/Archive.thy ===== *)
theory Archive
  imports MarketData Volatility Json
begin

text \<open>
  The archives of the backtest: length-prefixed records as \<open>recorder.cpp\<close> and
  \<open>historical_data_loader.cpp\<close> write them and \<open>stream_archive\<close> reads them back, and the conversion of
  the exchange's daily CSV files.  A file is the list of its bytes (a string for a text file); \<open>None\<close>
  in place of a file is one that could not be opened.
\<close>

section \<open>Records\<close>

definition le32 :: "u32 \<Rightarrow> u8 list" where
  "le32 sz =
     [ucast (sz AND 0xFF), ucast (drop_bit 8 sz AND 0xFF), ucast (drop_bit 16 sz AND 0xFF),
      ucast (drop_bit 24 sz AND 0xFF)]"

definition rd32 :: "u8 list \<Rightarrow> u32" where
  "rd32 lp = ucast (lp ! 0) OR push_bit 8 (ucast (lp ! 1)) OR push_bit 16 (ucast (lp ! 2)) OR push_bit 24 (ucast (lp ! 3))"

text \<open>\<open>sz\<close> bytes of \<open>data\<close>; the callers' buffers hold at least that many.\<close>

definition write_record_le :: "u8 list \<Rightarrow> u8 list \<Rightarrow> u32 \<Rightarrow> u8 list" where
  "write_record_le out data sz = out @ le32 sz @ take (unat sz) data"

text \<open>
  \<open>stream_archive\<close> with the state the callback changes.  The flag is the result: true at the end of
  the file, false for a file that is not there, a cut header or body, and a size that is zero or more
  than a megabyte.
\<close>

definition max_record :: nat where
  "max_record = 2 ^ 20"

function stream_records :: "(u8 list \<Rightarrow> 's \<Rightarrow> 's option) \<Rightarrow> u8 list \<Rightarrow> 's \<Rightarrow> (bool \<times> 's) option" where
  "stream_records on_record file s =
     (if file = [] then Some (True, s)
      else if length file < 4 then Some (False, s)
      else
        let sz = unat (rd32 (take 4 file)); rest = drop 4 file
        in if sz = 0 \<or> max_record < sz then Some (False, s)
           else if length rest < sz then Some (False, s)
           else Option.bind (on_record (take sz rest) s) (\<lambda>s. stream_records on_record (drop sz rest) s))"
  by pat_completeness auto
termination
  by (relation "measure (\<lambda>(on_record, file, s). length file)") auto

declare stream_records.simps [simp del]

definition stream_archive :: "(u8 list \<Rightarrow> 's \<Rightarrow> 's option) \<Rightarrow> u8 list option \<Rightarrow> 's \<Rightarrow> (bool \<times> 's) option" where
  "stream_archive on_record file s =
     (case file of None \<Rightarrow> Some (False, s) | Some bs \<Rightarrow> stream_records on_record bs s)"


section \<open>The recorder\<close>

record recorder =
  rec_ring :: "byte_msg ring option"
  rec_out :: "u8 list"
  rec_written :: nat

definition record_msg :: "byte_msg \<Rightarrow> recorder \<Rightarrow> recorder" where
  "record_msg msg r =
     r\<lparr>rec_out := write_record_le (rec_out r) (mg_bytes msg) (ucast (mg_size msg)), rec_written := rec_written r + 1\<rparr>"

text \<open>One round of \<open>run_loop\<close>, and the drain after \<open>stop\<close>; \<open>None\<close> would be a drain that does not end.\<close>

definition record_round :: "recorder \<Rightarrow> recorder" where
  "record_round r =
     (case Option.bind (rec_ring r) ring_pop of
        None \<Rightarrow> r
      | Some (msg, q) \<Rightarrow> record_msg msg (r\<lparr>rec_ring := Some q\<rparr>))"

definition record_drain :: "recorder \<Rightarrow> recorder option" where
  "record_drain r =
     (case rec_ring r of
        None \<Rightarrow> Some r
      | Some q \<Rightarrow> map_option (\<lambda>(msgs, q). fold record_msg msgs (r\<lparr>rec_ring := Some q\<rparr>)) (drain ring_pop q))"

definition recorder_init :: "byte_msg ring option \<Rightarrow> recorder" where
  "recorder_init ring = \<lparr>rec_ring = ring, rec_out = [], rec_written = 0\<rparr>"


section \<open>The CSV loader\<close>

text \<open>\<open>std::getline\<close>: a file that ends with a line break has no line after it.\<close>

fun text_lines :: "string \<Rightarrow> string list" where
  "text_lines [] = []"
| "text_lines (c # cs) =
     (if c = CHR 0x0A then [] # text_lines cs
      else case text_lines cs of [] \<Rightarrow> [[c]] | l # ls \<Rightarrow> (c # l) # ls)"

definition parse_csv_row :: "string \<Rightarrow> string list" where
  "parse_csv_row line =
     (let (cols, cur) = foldl (\<lambda>(cols, cur) c.
            if c = CHR '','' then (cols @ [cur], []) else if c \<noteq> CHR 0x0D then (cols, cur @ [c]) else (cols, cur)) ([], []) line
      in cols @ [cur])"

definition parse_d :: "string \<Rightarrow> double" where
  "parse_d s = (case stod s of Some d \<Rightarrow> d | None \<Rightarrow> 0)"

definition parse_u64 :: "string \<Rightarrow> u64" where
  "parse_u64 s = (case stoull s of Some w \<Rightarrow> w | None \<Rightarrow> 0)"

text \<open>One row: the snapshot it becomes, and the volatility window after it (\<open>None\<close>: a window of zero).\<close>

definition csv_snapshot :: "string list \<Rightarrow> tick_vol \<Rightarrow> (market_snapshot \<times> tick_vol) option" where
  "csv_snapshot cols vol =
     (let bid = parse_d (cols ! 1);
          bid_qty = parse_d (cols ! 2);
          ask = parse_d (cols ! 3);
          ask_qty = parse_d (cols ! 4);
          tx_ms = parse_u64 (cols ! 5);
          ev_ms = parse_u64 (cols ! 6);
          mid = (if 0 < bid \<and> 0 < ask then (bid + ask) * (1 / 2) else 0);
          spread_bps = (if 0 < mid then (ask - bid) / mid * 10000 else 0)
      in map_option (\<lambda>vol.
           (\<lparr>ms_timestamp_ns = tx_ms * 1000000, ms_exchange_ts_ms = ev_ms, ms_best_bid = bid, ms_best_ask = ask,
             ms_mid_price = mid, ms_spread_bps = spread_bps, ms_bid_depth_5 = bid_qty, ms_ask_depth_5 = ask_qty,
             ms_last_trade_price = 0, ms_last_trade_qty = 0, ms_volatility = stdev_log_returns vol\<rparr>, vol))
           (if 0 < mid then push_mid mid vol else Some vol))"

text \<open>The rows after the header; \<open>enc\<close> is the FlatBuffers builder.\<close>

fun load_rows :: "(market_snapshot \<Rightarrow> u8 list) \<Rightarrow> string list \<Rightarrow> tick_vol \<times> u8 list \<times> nat \<Rightarrow> (tick_vol \<times> u8 list \<times> nat) option" where
  "load_rows enc [] st = Some st"
| "load_rows enc (line # ls) (vol, out, rows) =
     (if line = [] then load_rows enc ls (vol, out, rows)
      else
        let cols = parse_csv_row line
        in if length cols < 7 then load_rows enc ls (vol, out, rows)
           else
             (case csv_snapshot cols vol of
                None \<Rightarrow> None
              | Some (snap, vol) \<Rightarrow>
                  let fb = enc snap
                  in load_rows enc ls (vol, write_record_le out fb (word_of_nat (length fb)), rows + 1)))"

definition csv_window :: "config \<Rightarrow> nat" where
  "csv_window cfg =
     (if 0 < md_volatility_window (c_market_data cfg) then nat (md_volatility_window (c_market_data cfg)) else 100)"

text \<open>
  \<open>load_csv\<close>: the result and the output file, where one was opened (\<open>can_write\<close>).
\<close>

definition load_csv :: "(market_snapshot \<Rightarrow> u8 list) \<Rightarrow> config \<Rightarrow> string option \<Rightarrow> bool \<Rightarrow> (bool \<times> u8 list option) option" where
  "load_csv enc cfg csv can_write =
     (case csv of
        None \<Rightarrow> Some (False, None)
      | Some text \<Rightarrow>
          if \<not> can_write then Some (False, None)
          else
            (case text_lines text of
               [] \<Rightarrow> Some (False, Some [])
             | header # ls \<Rightarrow>
                 map_option (\<lambda>(vol, out, rows). (0 < rows, Some out))
                   (load_rows enc ls (vol_init (csv_window cfg), [], 0))))"

end
