(* ===== verification/ArchiveProps.thy ===== *)
theory ArchiveProps
  imports Archive
begin

text \<open>
  What the archives guarantee: reading inverts writing, a damaged file yields the records before the
  damage, the recorder loses nothing the ring accepted, and a CSV file becomes one record per row.
\<close>

section \<open>Records\<close>

lemma length_le32 [simp]: "length (le32 w) = 4"
  by (simp add: le32_def)

lemma low_byte: "x AND 0xFF = take_bit 8 x" for x :: u32
  by (simp add: take_bit_eq_mask mask_eq_exp_minus_1)

lemma rd32_le32 [simp]: "rd32 (le32 w @ bs) = w"
proof (rule bit_word_eqI)
  fix n
  assume "n < LENGTH(32)"
  have nth: "(le32 w @ bs) ! 0 = ucast (take_bit 8 w)" "(le32 w @ bs) ! 1 = ucast (take_bit 8 (drop_bit 8 w))"
    "(le32 w @ bs) ! 2 = ucast (take_bit 8 (drop_bit 16 w))" "(le32 w @ bs) ! 3 = ucast (take_bit 8 (drop_bit 24 w))"
    by (simp_all only: le32_def low_byte append_Cons nth_Cons_0 nth_Cons_Suc One_nat_def numeral_2_eq_2 numeral_3_eq_3)
  have n: "n < 32"
    using \<open>n < LENGTH(32)\<close> by simp
  consider "n < 8" | "8 \<le> n" "n < 16" | "16 \<le> n" "n < 24" | "24 \<le> n"
    by linarith
  then show "bit (rd32 (le32 w @ bs)) n \<longleftrightarrow> bit w n"
    unfolding rd32_def nth
    by cases (use n in \<open>simp_all only: bit_simps\<close>, auto)
qed


lemma le32_rd32:
  assumes "length lp = 4"
  shows "le32 (rd32 lp) = lp"
proof -
  obtain a b c d where lp: "lp = [a, b, c, d]"
    using assms by (auto simp: numeral_nat length_Suc_conv)
  have nth: "lp ! 0 = a" "lp ! 1 = b" "lp ! 2 = c" "lp ! 3 = d"
    by (simp_all only: lp nth_Cons_0 nth_Cons_Suc One_nat_def numeral_2_eq_2 numeral_3_eq_3)
  have "(ucast (rd32 lp AND 0xFF) :: u8) = a" "(ucast (drop_bit 8 (rd32 lp) AND 0xFF) :: u8) = b"
    "(ucast (drop_bit 16 (rd32 lp) AND 0xFF) :: u8) = c" "(ucast (drop_bit 24 (rd32 lp) AND 0xFF) :: u8) = d"
    unfolding low_byte rd32_def nth
    by (rule bit_word_eqI, simp only: bit_simps o_apply, (auto dest: bit_imp_le_length)[1])+
  then show ?thesis
    by (simp add: le32_def lp)
qed



section \<open>Reading back\<close>

definition record_ok :: "u8 list \<Rightarrow> bool" where
  "record_ok r \<longleftrightarrow> r \<noteq> [] \<and> length r \<le> max_record"

definition record_bytes :: "u8 list \<Rightarrow> u8 list" where
  "record_bytes r = le32 (word_of_nat (length r)) @ r"

definition starts_record :: "u8 list \<Rightarrow> bool" where
  "starts_record file \<longleftrightarrow> 4 \<le> length file \<and>
     (let sz = unat (rd32 (take 4 file)) in 0 < sz \<and> sz \<le> max_record \<and> sz \<le> length (drop 4 file))"

fun run_records :: "(u8 list \<Rightarrow> 's \<Rightarrow> 's option) \<Rightarrow> u8 list list \<Rightarrow> 's \<Rightarrow> 's option" where
  "run_records f [] s = Some s"
| "run_records f (r # rs) s = Option.bind (f r s) (run_records f rs)"

lemma run_records_append: "run_records f (rs @ rs') s = Option.bind (run_records f rs s) (run_records f rs')"
  by (induction rs arbitrary: s) (simp_all add: bind_assoc comp_def split: Option.bind_split)

lemma unat_record: "length r \<le> max_record \<Longrightarrow> unat (word_of_nat (length r) :: u32) = length r"
  by (simp add: unat_of_nat max_record_def)

lemma write_record_bytes:
  "record_ok r \<Longrightarrow> write_record_le out r (word_of_nat (length r)) = out @ record_bytes r"
  by (simp add: write_record_le_def record_bytes_def record_ok_def unat_record)

lemma stream_record:
  assumes "record_ok r"
  shows "stream_records f (record_bytes r @ rest) s = Option.bind (f r s) (\<lambda>s. stream_records f rest s)"
proof -
  have "take 4 (record_bytes r @ rest) = le32 (word_of_nat (length r))" "drop 4 (record_bytes r @ rest) = r @ rest"
    by (simp_all add: record_bytes_def)
  moreover have "unat (rd32 (le32 (word_of_nat (length r)))) = length r"
    using rd32_le32 [of "word_of_nat (length r)" "[]"] assms by (simp add: unat_record record_ok_def)
  moreover have "record_bytes r \<noteq> []" "\<not> length (record_bytes r @ rest) < 4"
    using assms by (simp_all add: record_bytes_def record_ok_def)
  ultimately show ?thesis
    using assms by (subst stream_records.simps) (simp add: Let_def record_ok_def)
qed

lemma stream_rest:
  "\<not> starts_record rest \<Longrightarrow> stream_records f rest s = Some (rest = [], s)"
  by (subst stream_records.simps) (auto simp: starts_record_def Let_def)

lemma stream_split:
  assumes "list_all record_ok rs" and "\<not> starts_record rest"
  shows "stream_records f (concat (map record_bytes rs) @ rest) s =
    map_option (Pair (rest = [])) (run_records f rs s)"
  using assms(1)
proof (induction rs arbitrary: s)
  case Nil
  then show ?case
    using stream_rest [OF assms(2)] by simp
next
  case (Cons r rs)
  then show ?case
    by (simp add: stream_record map_option_bind comp_def)
qed

lemma starts_record_split:
  assumes "starts_record file"
  obtains r rest where "record_ok r" "file = record_bytes r @ rest" "length rest < length file"
proof -
  define sz where "sz = unat (rd32 (take 4 file))"
  have sz: "4 \<le> length file" "0 < sz" "sz \<le> max_record" "sz \<le> length (drop 4 file)"
    using assms by (auto simp: starts_record_def sz_def Let_def)
  define r where "r = take sz (drop 4 file)"
  have len: "length r = sz"
    using sz(4) by (simp add: r_def)
  have "word_of_nat sz = rd32 (take 4 file)"
    by (simp add: sz_def)
  then have "record_bytes r = take 4 file @ r"
    using sz(1) by (simp add: record_bytes_def len le32_rd32)
  then have "file = record_bytes r @ drop sz (drop 4 file)"
    by (simp only: r_def append_assoc append_take_drop_id)
  moreover have "record_ok r"
    using sz len by (auto simp: record_ok_def)
  moreover have "length (drop sz (drop 4 file)) < length file"
    using sz by simp
  ultimately show ?thesis
    using that by blast
qed

lemma archive_split:
  "\<exists>rs rest. bs = concat (map record_bytes rs) @ rest \<and> list_all record_ok rs \<and> \<not> starts_record rest"
proof (induction "length bs" arbitrary: bs rule: less_induct)
  case less
  show ?case
  proof (cases "starts_record bs")
    case True
    then obtain r rest where r: "record_ok r" "bs = record_bytes r @ rest" "length rest < length bs"
      by (rule starts_record_split)
    obtain rs rest' where "rest = concat (map record_bytes rs) @ rest'" "list_all record_ok rs" "\<not> starts_record rest'"
      using less [OF r(3)] by blast
    then show ?thesis
      using r(1,2) by (intro exI [of _ "r # rs"] exI [of _ rest']) simp
  next
    case False
    then show ?thesis
      by (intro exI [of _ "[]"] exI [of _ bs]) simp
  qed
qed

text \<open>Every file, damaged or not, is a sequence of complete records followed by a rest that starts none
  (a cut header or body, a size of zero or over a megabyte): streaming hands the callback exactly those
  records in order, whatever it does with them, and reports success exactly when nothing is left over.\<close>

theorem archive_stream:
  "\<exists>rs rest. file = concat (map record_bytes rs) @ rest \<and> list_all record_ok rs \<and> \<not> starts_record rest \<and>
     (\<forall>f s. stream_archive f (Some file) s = map_option (Pair (rest = [])) (run_records f rs s))"
proof -
  obtain rs rest where "file = concat (map record_bytes rs) @ rest" "list_all record_ok rs" "\<not> starts_record rest"
    using archive_split by blast
  then show ?thesis
    using stream_split [of rs rest] by (auto simp: stream_archive_def)
qed



section \<open>The recorder\<close>

definition msg_bytes :: "byte_msg \<Rightarrow> u8 list" where
  "msg_bytes m = take (unat (mg_size m)) (mg_bytes m)"

definition msg_ok :: "byte_msg \<Rightarrow> bool" where
  "msg_ok m \<longleftrightarrow> mg_size m \<noteq> 0 \<and> unat (mg_size m) \<le> 512 \<and> length (mg_bytes m) = 512"

text \<open>The producer's pushes and the recorder's rounds, in any order.\<close>

fun rec_run :: "byte_msg queue_op list \<Rightarrow> recorder \<Rightarrow> recorder" where
  "rec_run [] r = r"
| "rec_run (Enq m # ops) r = rec_run ops (r\<lparr>rec_ring := push_or_warn m (rec_ring r)\<rparr>)"
| "rec_run (Deq # ops) r = rec_run ops (record_round r)"

definition recorded :: "byte_msg list \<Rightarrow> recorder \<Rightarrow> recorder" where
  "recorded ms r = r\<lparr>rec_out := rec_out r @ concat (map (\<lambda>m. write_record_le [] (mg_bytes m) (ucast (mg_size m))) ms),
     rec_written := rec_written r + length ms\<rparr>"

lemma recorded_simps [simp]:
  "rec_ring (recorded ms r) = rec_ring r" "recorded [] r = r"
  "rec_out (recorded ms r) = rec_out r @ concat (map (\<lambda>m. write_record_le [] (mg_bytes m) (ucast (mg_size m))) ms)"
  "rec_written (recorded ms r) = rec_written r + length ms"
  "recorded ms' (recorded ms r) = recorded (ms @ ms') r"
  "recorded ms (r\<lparr>rec_ring := q\<rparr>) = recorded ms r\<lparr>rec_ring := q\<rparr>"
  by (simp_all add: recorded_def)

lemma record_msg_recorded: "record_msg m r = recorded [m] r"
  by (simp add: record_msg_def recorded_def write_record_le_def)

lemma fold_record_msg: "fold record_msg ms r = recorded ms r"
  by (induction ms arbitrary: r) (simp_all add: record_msg_recorded)

lemma rec_run_recorded:
  assumes "rec_ring r = Some q" and "queue_run ring_push ring_pop ops q = (acc, out, q')"
  shows "rec_run ops r = (recorded out r)\<lparr>rec_ring := Some q'\<rparr>"
  using assms
proof (induction ops r arbitrary: q acc out q' rule: rec_run.induct)
  case (1 r)
  then show ?case
    by (cases r) (simp add: recorded_def)
next
  case (2 m ops r)
  obtain b q1 where q1: "ring_push q m = (b, q1)"
    by fastforce
  obtain acc1 out1 q2 where run: "queue_run ring_push ring_pop ops q1 = (acc1, out1, q2)"
    using prod_cases3 by blast
  have "rec_run ops (r\<lparr>rec_ring := push_or_warn m (rec_ring r)\<rparr>) =
      (recorded out1 (r\<lparr>rec_ring := push_or_warn m (rec_ring r)\<rparr>))\<lparr>rec_ring := Some q2\<rparr>"
    by (rule 2(1) [OF _ run]) (simp add: 2(2) q1)
  then show ?case
    using 2(3) q1 run by simp
next
  case (3 ops r)
  show ?case
  proof (cases "ring_pop q")
    case None
    have round: "record_round r = r"
      using None 3(2) by (simp add: record_round_def)
    have "queue_run ring_push ring_pop ops q = (acc, out, q')"
      using 3(3) None by simp
    then have "rec_run ops (record_round r) = (recorded out (record_round r))\<lparr>rec_ring := Some q'\<rparr>"
      by (intro 3(1)) (simp_all add: round 3(2))
    then show ?thesis
      by (simp add: round)
  next
    case (Some a)
    obtain m q1 where a: "a = (m, q1)"
      by fastforce
    obtain acc1 out1 q2 where run: "queue_run ring_push ring_pop ops q1 = (acc1, out1, q2)"
      using prod_cases3 by blast
    have round: "record_round r = record_msg m (r\<lparr>rec_ring := Some q1\<rparr>)"
      using Some a 3(2) by (simp add: record_round_def)
    have "rec_run ops (record_round r) = (recorded out1 (record_round r))\<lparr>rec_ring := Some q2\<rparr>"
      by (rule 3(1) [OF _ run]) (simp add: round record_msg_recorded)
    then show ?thesis
      using 3(3) Some a run by (simp add: round record_msg_recorded)
  qed
qed

lemma written_msg:
  assumes "msg_ok m"
  shows "record_ok (msg_bytes m) \<and> write_record_le [] (mg_bytes m) (ucast (mg_size m)) = record_bytes (msg_bytes m)"
proof -
  have len: "unat (mg_size m) < 2 ^ 16"
    using unsigned_less [of "mg_size m"] by simp
  have "unat (ucast (mg_size m) :: u32) = unat (mg_size m)" "word_of_nat (unat (mg_size m)) = (ucast (mg_size m) :: u32)"
    using len by (simp_all add: unsigned_ucast_eq take_bit_nat_eq_self of_nat_unat)
  moreover have "0 < unat (mg_size m)"
    using assms by (simp add: msg_ok_def unat_gt_0)
  moreover have "length (msg_bytes m) = unat (mg_size m)"
    using assms by (simp add: msg_ok_def msg_bytes_def)
  ultimately show ?thesis
    using assms by (simp add: msg_ok_def record_ok_def write_record_le_def record_bytes_def max_record_def
        flip: length_greater_0_conv) (simp add: msg_bytes_def)
qed

text \<open>C28: whatever the interleaving of the producer's pushes with the recorder's rounds, stopping the
  recorder leaves a file whose replay hands out exactly the messages the ring accepted, in order, and
  ends cleanly; a message is lost only where the ring was full.\<close>

theorem recorder_loses_nothing:
  assumes "1 \<le> k" and "k < 64" and "queue_run ring_push ring_pop ops (ring_init (2 ^ k) d) = (acc, out, q)"
    and "list_all msg_ok acc"
  shows "\<exists>r. record_drain (rec_run ops (recorder_init (Some (ring_init (2 ^ k) d)))) = Some r \<and> rec_written r = length acc \<and>
    (\<forall>f s. stream_archive f (Some (rec_out r)) s = map_option (Pair True) (run_records f (map msg_bytes acc) s))"
proof -
  have init: "ring_ok (ring_init (2 ^ k) d)" "ring_items (ring_init (2 ^ k) d) = []"
    using ring_init_ok [OF assms(1,2), of d] by auto
  have fifo: "acc = out @ ring_items q" "ring_ok q"
    using rq.run_fifo [OF init(1) assms(3)] init(2) by auto
  obtain q' where drain: "drain ring_pop q = Some (ring_items q, q')"
    using rq.drain_all [OF fifo(2)] by blast
  have run: "rec_run ops (recorder_init (Some (ring_init (2 ^ k) d))) =
      (recorded out (recorder_init (Some (ring_init (2 ^ k) d))))\<lparr>rec_ring := Some q\<rparr>"
    using assms(3) by (intro rec_run_recorded) (simp_all add: recorder_init_def)
  define r where "r = (recorded acc (recorder_init (Some (ring_init (2 ^ k) d))))\<lparr>rec_ring := Some q'\<rparr>"
  have "record_drain (rec_run ops (recorder_init (Some (ring_init (2 ^ k) d)))) = Some r"
    unfolding run record_drain_def by (simp add: drain fold_record_msg r_def fifo(1))
  moreover have "rec_written r = length acc"
    by (simp add: r_def recorder_init_def)
  moreover have "rec_out r = concat (map record_bytes (map msg_bytes acc)) @ []"
    using assms(4) by (simp add: r_def recorder_init_def comp_def written_msg list_all_iff cong: map_cong)
  moreover have "list_all record_ok (map msg_bytes acc)"
    using assms(4) by (simp add: list_all_iff written_msg)
  ultimately show ?thesis
    using stream_split [of "map msg_bytes acc" "[]"]
    by (auto simp: stream_archive_def starts_record_def)
qed

definition demo_msg :: byte_msg where
  "demo_msg = \<lparr>mg_size = 1, mg_bytes = 7 # replicate 511 0\<rparr>"

theorem recorder_loses_nothing_witness:
  "\<exists>r. record_drain (rec_run [Enq demo_msg, Deq, Enq demo_msg] (recorder_init (Some (ring_init 4 byte_msg0)))) = Some r \<and>
     rec_written r = 2 \<and> stream_archive (\<lambda>b n. Some (n + length b)) (Some (rec_out r)) 0 = Some (True, 2)"
proof -
  let ?run = "queue_run ring_push ring_pop [Enq demo_msg, Deq, Enq demo_msg] (ring_init (2 ^ 2) byte_msg0)"
  have acc: "fst ?run = [demo_msg, demo_msg]"
    by code_simp
  have ok: "msg_ok demo_msg" "msg_bytes demo_msg = [7]"
    by (simp_all add: msg_ok_def msg_bytes_def demo_msg_def)
  have run: "?run = ([demo_msg, demo_msg], fst (snd ?run), snd (snd ?run))"
    using acc by (metis prod.collapse)
  have "list_all msg_ok [demo_msg, demo_msg]"
    using ok by simp
  have "\<exists>r. record_drain (rec_run [Enq demo_msg, Deq, Enq demo_msg] (recorder_init (Some (ring_init (2 ^ 2) byte_msg0)))) = Some r \<and>
     rec_written r = length [demo_msg, demo_msg] \<and> (\<forall>(f :: u8 list \<Rightarrow> nat \<Rightarrow> nat option) s. stream_archive f (Some (rec_out r)) s =
       map_option (Pair True) (run_records f (map msg_bytes [demo_msg, demo_msg]) s))"
    by (rule recorder_loses_nothing [OF _ _ run]) (simp_all add: ok)
  then show ?thesis
    by (auto simp: ok)
qed



section \<open>CSV files\<close>

text \<open>The rows that count, and the reference for what they become: the snapshot's own fields from its row,
  its volatility the population standard deviation over the last positive mids up to it.\<close>

definition csv_rows :: "string list \<Rightarrow> string list list" where
  "csv_rows ls = filter (\<lambda>cols. 7 \<le> length cols) (map parse_csv_row (filter (\<lambda>l. l \<noteq> []) ls))"

definition csv_mid :: "string list \<Rightarrow> double" where
  "csv_mid cols =
     (if 0 < parse_d (cols ! 1) \<and> 0 < parse_d (cols ! 3) then (parse_d (cols ! 1) + parse_d (cols ! 3)) / 2 else 0)"

definition row_snapshot :: "string list \<Rightarrow> double \<Rightarrow> market_snapshot" where
  "row_snapshot cols vol =
     \<lparr>ms_timestamp_ns = parse_u64 (cols ! 5) * 1000000, ms_exchange_ts_ms = parse_u64 (cols ! 6),
      ms_best_bid = parse_d (cols ! 1), ms_best_ask = parse_d (cols ! 3), ms_mid_price = csv_mid cols,
      ms_spread_bps = (if 0 < csv_mid cols then (parse_d (cols ! 3) - parse_d (cols ! 1)) / csv_mid cols * 10000 else 0),
      ms_bid_depth_5 = parse_d (cols ! 2), ms_ask_depth_5 = parse_d (cols ! 4),
      ms_last_trade_price = 0, ms_last_trade_qty = 0, ms_volatility = vol\<rparr>"

fun csv_snaps :: "nat \<Rightarrow> double list \<Rightarrow> string list list \<Rightarrow> market_snapshot list" where
  "csv_snaps w seen [] = []"
| "csv_snaps w seen (cols # rows) =
     (let seen = (if 0 < csv_mid cols then seen @ [csv_mid cols] else seen)
      in row_snapshot cols (pop_stdev (log_returns (last_n w seen))) # csv_snaps w seen rows)"

lemma length_csv_snaps [simp]: "length (csv_snaps w seen rows) = length rows"
  by (induction w seen rows rule: csv_snaps.induct) (simp_all add: Let_def)

lemma csv_snapshot_mid:
  "csv_snapshot cols vol =
     map_option (\<lambda>vol. (row_snapshot cols (stdev_log_returns vol), vol))
       (if 0 < csv_mid cols then push_mid (csv_mid cols) vol else Some vol)"
  by (simp add: csv_snapshot_def row_snapshot_def csv_mid_def Let_def)

lemma csv_snapshot_ok:
  assumes "vol_ok vol" and "chron vol = last_n (tv_window vol) seen"
    and "seen' = (if 0 < csv_mid cols then seen @ [csv_mid cols] else seen)"
  obtains vol' where "csv_snapshot cols vol = Some (row_snapshot cols (pop_stdev (log_returns (last_n (tv_window vol) seen'))), vol')"
    "vol_ok vol'" "tv_window vol' = tv_window vol" "chron vol' = last_n (tv_window vol) seen'"
proof (cases "0 < csv_mid cols")
  case True
  obtain vol' where v: "push_mid (csv_mid cols) vol = Some vol'" "vol_ok vol'" "tv_window vol' = tv_window vol"
    "chron vol' = (if length (chron vol) < tv_window vol then chron vol else tl (chron vol)) @ [csv_mid cols]"
    using push_mid_pos [OF assms(1) True] by blast
  have w: "0 < tv_window vol"
    using assms(1) by (simp add: vol_ok_def)
  have c: "chron vol' = last_n (tv_window vol) seen'"
    using v(4) assms(2,3) True w by (auto simp: last_n_snoc) (simp_all add: last_n_def)
  then have "stdev_log_returns vol' = pop_stdev (log_returns (last_n (tv_window vol) seen'))"
    using v(2) by (simp add: stdev_log_returns_def vol_ok_def)
  then show ?thesis
    using that [OF _ v(2,3) c] v(1) True by (simp add: csv_snapshot_mid)
next
  case False
  then show ?thesis
    using that [of vol] assms by (simp add: csv_snapshot_mid stdev_log_returns_def vol_ok_def)
qed

lemma load_rows_ok:
  assumes "vol_ok vol" and "chron vol = last_n (tv_window vol) seen"
    and "list_all (\<lambda>snap. record_ok (enc snap)) (csv_snaps (tv_window vol) seen (csv_rows ls))"
  shows "\<exists>vol'. load_rows enc ls (vol, out, n) =
    Some (vol', out @ concat (map record_bytes (map enc (csv_snaps (tv_window vol) seen (csv_rows ls)))), n + length (csv_rows ls))"
  using assms
proof (induction ls arbitrary: vol seen out n)
  case Nil
  then show ?case
    by (simp add: csv_rows_def)
next
  case (Cons line ls)
  show ?case
  proof (cases "line = [] \<or> length (parse_csv_row line) < 7")
    case True
    then have "csv_rows (line # ls) = csv_rows ls" "load_rows enc (line # ls) (vol, out, n) = load_rows enc ls (vol, out, n)"
      by (auto simp: csv_rows_def)
    then show ?thesis
      using Cons.IH [OF Cons.prems(1,2)] Cons.prems(3) by simp
  next
    case False
    define cols where "cols = parse_csv_row line"
    define seen' where "seen' = (if 0 < csv_mid cols then seen @ [csv_mid cols] else seen)"
    define snap where "snap = row_snapshot cols (pop_stdev (log_returns (last_n (tv_window vol) seen')))"
    have rows: "csv_rows (line # ls) = cols # csv_rows ls"
      using False by (simp add: csv_rows_def cols_def)
    have snaps: "csv_snaps (tv_window vol) seen (cols # csv_rows ls) = snap # csv_snaps (tv_window vol) seen' (csv_rows ls)"
      by (simp add: seen'_def snap_def Let_def)
    note csv_snaps.simps(2) [simp del]
    obtain vol' where v: "csv_snapshot cols vol = Some (snap, vol')" "vol_ok vol'" "tv_window vol' = tv_window vol"
      "chron vol' = last_n (tv_window vol) seen'"
      using csv_snapshot_ok [OF Cons.prems(1,2) seen'_def] unfolding snap_def by blast
    have "load_rows enc (line # ls) (vol, out, n) = load_rows enc ls (vol', out @ record_bytes (enc snap), n + 1)"
      using False v(1) Cons.prems(3) by (simp add: cols_def [symmetric] Let_def rows snaps write_record_bytes)
    moreover have "\<exists>vol''. load_rows enc ls (vol', out @ record_bytes (enc snap), n + 1) =
        Some (vol'', (out @ record_bytes (enc snap)) @ concat (map record_bytes (map enc (csv_snaps (tv_window vol') seen' (csv_rows ls)))),
          (n + 1) + length (csv_rows ls))"
      using Cons.prems(3) v by (intro Cons.IH) (simp_all add: rows snaps)
    ultimately show ?thesis
      by (simp add: snaps rows v(3))
  qed
qed

lemma csv_window_pos: "0 < csv_window cfg"
  by (simp add: csv_window_def)

text \<open>The snapshots a whole file stands for; a file without a header line stands for none.\<close>

definition csv_file_snaps :: "config \<Rightarrow> string \<Rightarrow> market_snapshot list" where
  "csv_file_snaps cfg text =
     (case text_lines text of [] \<Rightarrow> [] | header # ls \<Rightarrow> csv_snaps (csv_window cfg) [] (csv_rows ls))"

lemma load_csv_records:
  assumes "list_all (\<lambda>snap. record_ok (enc snap)) (csv_file_snaps cfg text)"
  shows "load_csv enc cfg (Some text) True =
    Some (csv_file_snaps cfg text \<noteq> [], Some (concat (map record_bytes (map enc (csv_file_snaps cfg text)))))"
proof (cases "text_lines text")
  case Nil
  then show ?thesis
    by (simp add: load_csv_def csv_file_snaps_def)
next
  case (Cons header ls)
  define snaps where "snaps = csv_snaps (csv_window cfg) [] (csv_rows ls)"
  have snaps: "csv_file_snaps cfg text = snaps"
    using Cons by (simp add: csv_file_snaps_def snaps_def)
  have v: "vol_ok (vol_init (csv_window cfg))" "tv_window (vol_init (csv_window cfg)) = csv_window cfg"
    "chron (vol_init (csv_window cfg)) = last_n (csv_window cfg) []"
    by (simp_all add: vol_ok_init csv_window_pos) (simp_all add: vol_init_def chron_def last_n_def)
  obtain vol' where "load_rows enc ls (vol_init (csv_window cfg), [], 0) =
      Some (vol', concat (map record_bytes (map enc snaps)), length (csv_rows ls))"
    using load_rows_ok [OF v(1), of "[]" enc ls "[]" 0] v assms snaps by (auto simp: snaps_def)
  moreover have "0 < length (csv_rows ls) \<longleftrightarrow> snaps \<noteq> []"
    using length_csv_snaps [of "csv_window cfg" "[]" "csv_rows ls"] unfolding snaps_def by (metis length_greater_0_conv)
  ultimately show ?thesis
    by (simp add: load_csv_def Cons snaps)
qed

end
