(* ===== verification/Replay.thy ===== *)
theory Replay
  imports ArchiveProps
begin

text \<open>
  \<open>ReplayEngine\<close> of \<open>src/src/backtest/replay_engine.cpp\<close>.  \<open>dec\<close> is the FlatBuffers verifier and
  accessor of a snapshot, \<open>fs\<close> the files by name.  What other threads do while the engine waits is a
  parameter: \<open>others\<close> is one yield of the loop that waits for room on the ring, and \<open>rw_running\<close>,
  \<open>rw_paused\<close> are the readings of the two flags, in the order the loop makes them.
\<close>

section \<open>State\<close>

record step_state =
  ss_archives :: "string list"
  ss_idx :: nat
  ss_cur :: "u8 list option"

record 's replay =
  rp_running :: bool
  rp_finished :: bool
  rp_emitted :: nat
  rp_ring :: "byte_msg ring option"
  rp_step :: "step_state option"
  rp_clock :: clock
  rp_sleeps :: "nanos list"
  rp_reads :: nat
  rp_user :: 's

record replay_world =
  rw_others :: "byte_msg ring \<Rightarrow> byte_msg ring \<times> bool"
  rw_running :: "nat \<Rightarrow> bool"
  rw_paused :: "nat \<Rightarrow> bool"

type_synonym 's on_record = "(u8 list \<Rightarrow> u64 \<Rightarrow> double \<Rightarrow> double \<Rightarrow> double \<Rightarrow> double \<Rightarrow> 's \<Rightarrow> 's option) option"

definition replay_init :: "byte_msg ring option \<Rightarrow> clock \<Rightarrow> 's \<Rightarrow> 's replay" where
  "replay_init ring ck u = \<lparr>rp_running = False, rp_finished = False, rp_emitted = 0, rp_ring = ring, rp_step = None,
     rp_clock = ck, rp_sleeps = [], rp_reads = 0, rp_user = u\<rparr>"


section \<open>One record\<close>

text \<open>
  \<open>while (!out_ring->push(m)) { yield; if (!running_ && step_state_ == nullptr) return; }\<close>; the flag is
  whether the message went in, and \<open>None\<close> a loop that does not end.
\<close>

partial_function (option) push_wait ::
  "(byte_msg ring \<Rightarrow> byte_msg ring \<times> bool) \<Rightarrow> bool \<Rightarrow> byte_msg \<Rightarrow> byte_msg ring \<Rightarrow> (bool \<times> byte_msg ring) option" where
  "push_wait others stepping m r =
     (let (ok, r) = ring_push r m
      in if ok then Some (True, r)
         else
           let (r, running) = others r
           in if \<not> running \<and> \<not> stepping then Some (False, r) else push_wait others stepping m r)"

definition count_emitted :: "'s replay \<Rightarrow> 's replay" where
  "count_emitted st = st\<lparr>rp_emitted := rp_emitted st + 1\<rparr>"

definition call_on_record :: "'s on_record \<Rightarrow> u8 list \<Rightarrow> market_snapshot \<Rightarrow> 's \<Rightarrow> 's option" where
  "call_on_record cb data snap u =
     (case cb of
        None \<Rightarrow> Some u
      | Some g \<Rightarrow> g data (ms_timestamp_ns snap) (ms_best_bid snap) (ms_best_ask snap)
                   (ms_bid_depth_5 snap) (ms_ask_depth_5 snap) u)"

definition emit_record ::
  "replay_world \<Rightarrow> (u8 list \<Rightarrow> market_snapshot option) \<Rightarrow> 's on_record \<Rightarrow> u8 list \<Rightarrow> 's replay \<Rightarrow> 's replay option" where
  "emit_record world dec cb data st =
     (case dec data of
        None \<Rightarrow> Some st
      | Some snap \<Rightarrow>
          (case call_on_record cb data snap (rp_user st) of
             None \<Rightarrow> None
           | Some u \<Rightarrow>
               let st = st\<lparr>rp_user := u\<rparr>
               in (case (rp_ring st, fill_msg data) of
                     (Some r, Some m) \<Rightarrow>
                       (case push_wait (rw_others world) (rp_step st \<noteq> None) m r of
                          None \<Rightarrow> None
                        | Some (True, r) \<Rightarrow> Some (count_emitted (st\<lparr>rp_ring := Some r\<rparr>))
                        | Some (False, r) \<Rightarrow> Some (st\<lparr>rp_ring := Some r, rp_running := False\<rparr>))
                   | _ \<Rightarrow> Some (count_emitted st))))"


section \<open>Synchronous replay\<close>

fun stream_all :: "(u8 list \<Rightarrow> 's \<Rightarrow> 's option) \<Rightarrow> (string \<Rightarrow> u8 list option) \<Rightarrow> string list \<Rightarrow> 's \<Rightarrow> 's option" where
  "stream_all f fs [] s = Some s"
| "stream_all f fs (path # paths) s =
     Option.bind (stream_archive f (fs path) s) (\<lambda>(ok, s). stream_all f fs paths s)"

definition run_sync ::
  "replay_world \<Rightarrow> (u8 list \<Rightarrow> market_snapshot option) \<Rightarrow> 's on_record \<Rightarrow> (string \<Rightarrow> u8 list option) \<Rightarrow> string list
     \<Rightarrow> 's replay \<Rightarrow> (nat \<times> 's replay) option" where
  "run_sync world dec cb fs paths st =
     map_option (\<lambda>st. (rp_emitted st, st\<lparr>rp_running := False, rp_finished := True\<rparr>))
       (stream_all (emit_record world dec cb) fs paths (st\<lparr>rp_running := True\<rparr>))"


section \<open>Paced replay\<close>

text \<open>\<open>start\<close> and \<open>stop\<close>, without the thread they create and join; the flag is whether a thread starts.\<close>

definition replay_start :: "'s replay \<Rightarrow> bool \<times> 's replay" where
  "replay_start st =
     (if rp_running st then (False, st) else (True, st\<lparr>rp_running := True, rp_finished := False\<rparr>))"

definition replay_stop :: "'s replay \<Rightarrow> 's replay" where
  "replay_stop st = st\<lparr>rp_running := False\<rparr>"

definition read_running :: "replay_world \<Rightarrow> 's replay \<Rightarrow> bool \<times> 's replay" where
  "read_running world st = (rw_running world (rp_reads st), st\<lparr>rp_reads := Suc (rp_reads st)\<rparr>)"

text \<open>\<open>while (pause_flag && *pause_flag && running_) sleep_for(5ms);\<close>\<close>

partial_function (option) pause_wait :: "replay_world \<Rightarrow> bool \<Rightarrow> 's replay \<Rightarrow> 's replay option" where
  "pause_wait world has_flag st =
     (if \<not> has_flag then Some st
      else if \<not> rw_paused world (rp_reads st) then Some (st\<lparr>rp_reads := Suc (rp_reads st)\<rparr>)
      else
        let (running, st) = read_running world (st\<lparr>rp_reads := Suc (rp_reads st)\<rparr>)
        in if \<not> running then Some st else pause_wait world has_flag (st\<lparr>rp_sleeps := rp_sleeps st @ [ms_ns 5]\<rparr>))"

text \<open>The local variables of \<open>run_loop\<close>.\<close>

record pacing =
  pc_prev_ts :: u64
  pc_started :: bool
  pc_start_ts :: u64
  pc_wall_start :: nanos

definition pace ::
  "double \<Rightarrow> u64 \<Rightarrow> pacing \<times> 's replay \<Rightarrow> pacing \<times> 's replay" where
  "pace speed ts s =
     (let (pc, st) = s
      in if 0 < speed \<and> pc_prev_ts pc \<noteq> 0 \<and> pc_prev_ts pc < ts then
           let (pc, st) =
                 (if \<not> pc_started pc
                  then (pc\<lparr>pc_started := True, pc_start_ts := pc_prev_ts pc, pc_wall_start := steady_now (rp_clock st)\<rparr>,
                        st\<lparr>rp_clock := clock_tick (rp_clock st)\<rparr>)
                  else (pc, st));
               replay_dt = ts - pc_start_ts pc;
               wall_target = pc_wall_start pc + \<lfloor>real (unat replay_dt) / speed\<rfloor>;
               now = steady_now (rp_clock st);
               st = st\<lparr>rp_clock := clock_tick (rp_clock st)\<rparr>
           in (pc, if now < wall_target then st\<lparr>rp_sleeps := rp_sleeps st @ [wall_target - now]\<rparr> else st)
         else (pc, st))"

text \<open>The callback of \<open>run_loop\<close>: once \<open>running_\<close> is false the rest of the archive is read and dropped.\<close>

definition paced_record ::
  "replay_world \<Rightarrow> (u8 list \<Rightarrow> market_snapshot option) \<Rightarrow> 's on_record \<Rightarrow> double \<Rightarrow> bool \<Rightarrow> u8 list
     \<Rightarrow> pacing \<times> 's replay \<Rightarrow> (pacing \<times> 's replay) option" where
  "paced_record world dec cb speed has_flag data s =
     (let (pc, st) = s; (running, st) = read_running world st
      in if \<not> running then Some (pc, st)
         else
           (case pause_wait world has_flag st of
              None \<Rightarrow> None
            | Some st \<Rightarrow>
                (case dec data of
                   None \<Rightarrow> Some (pc, st)
                 | Some snap \<Rightarrow>
                     let (pc, st) = pace speed (ms_timestamp_ns snap) (pc, st);
                         pc = pc\<lparr>pc_prev_ts := ms_timestamp_ns snap\<rparr>
                     in map_option (Pair pc) (emit_record world dec cb data st))))"

fun run_archives ::
  "replay_world \<Rightarrow> (u8 list \<Rightarrow> pacing \<times> 's replay \<Rightarrow> (pacing \<times> 's replay) option) \<Rightarrow> (string \<Rightarrow> u8 list option)
     \<Rightarrow> string list \<Rightarrow> pacing \<times> 's replay \<Rightarrow> (pacing \<times> 's replay) option" where
  "run_archives world f fs [] s = Some s"
| "run_archives world f fs (path # paths) (pc, st) =
     (let (running, st) = read_running world st
      in if \<not> running then Some (pc, st)
         else Option.bind (stream_archive f (fs path) (pc, st)) (\<lambda>(ok, s). run_archives world f fs paths s))"

definition run_loop ::
  "replay_world \<Rightarrow> (u8 list \<Rightarrow> market_snapshot option) \<Rightarrow> 's on_record \<Rightarrow> double \<Rightarrow> bool \<Rightarrow> (string \<Rightarrow> u8 list option)
     \<Rightarrow> string list \<Rightarrow> 's replay \<Rightarrow> 's replay option" where
  "run_loop world dec cb speed has_flag fs paths st =
     (let pc = \<lparr>pc_prev_ts = 0, pc_started = False, pc_start_ts = 0, pc_wall_start = steady_now (rp_clock st)\<rparr>;
          st = st\<lparr>rp_clock := clock_tick (rp_clock st)\<rparr>
      in map_option (\<lambda>(pc, st). st\<lparr>rp_finished := True\<rparr>)
           (run_archives world (paced_record world dec cb speed has_flag) fs paths (pc, st)))"


section \<open>Step mode\<close>

text \<open>
  \<open>step_one\<close>: one record from the current archive, the next archive at the end of this one.  The
  constructor leaves \<open>step_state_\<close> null and nothing ever sets it.
\<close>

function step_from :: "(string \<Rightarrow> u8 list option) \<Rightarrow> step_state \<Rightarrow> u8 list option \<times> step_state" where
  "step_from fs s =
     (case ss_cur s of
        None \<Rightarrow>
          if length (ss_archives s) \<le> ss_idx s then (None, s)
          else
            (case fs (ss_archives s ! ss_idx s) of
               None \<Rightarrow> step_from fs (s\<lparr>ss_idx := Suc (ss_idx s)\<rparr>)
             | Some bs \<Rightarrow> step_from fs (s\<lparr>ss_cur := Some bs\<rparr>))
      | Some bs \<Rightarrow>
          if length bs < 4 then step_from fs (s\<lparr>ss_cur := None, ss_idx := Suc (ss_idx s)\<rparr>)
          else
            let sz = unat (rd32 (take 4 bs)); rest = drop 4 bs
            in if length rest < sz then (None, s\<lparr>ss_cur := Some []\<rparr>)
               else (Some (take sz rest), s\<lparr>ss_cur := Some (drop sz rest)\<rparr>))"
  by pat_completeness auto
termination
proof (relation "measure (\<lambda>(fs, s). let k = length (ss_archives s) - ss_idx s
    in if ss_cur s = None then 2 * k else if k = 0 then 1 else 2 * k - 1)")
qed (auto simp: Let_def)

declare step_from.simps [simp del]

definition step_one ::
  "replay_world \<Rightarrow> (u8 list \<Rightarrow> market_snapshot option) \<Rightarrow> 's on_record \<Rightarrow> (string \<Rightarrow> u8 list option) \<Rightarrow> 's replay
     \<Rightarrow> (bool \<times> 's replay) option" where
  "step_one world dec cb fs st =
     (case rp_step st of
        None \<Rightarrow> Some (False, st)
      | Some s \<Rightarrow>
          (case step_from fs s of
             (None, s) \<Rightarrow> Some (False, st\<lparr>rp_step := Some s\<rparr>)
           | (Some data, s) \<Rightarrow> map_option (Pair True) (emit_record world dec cb data (st\<lparr>rp_step := Some s\<rparr>))))"

end
