(* ===== verification/ReplayProps.thy ===== *)
theory ReplayProps
  imports Replay
begin

text \<open>
  What replay guarantees: a converted CSV file reaches the callback row by row, pacing changes when a
  record is emitted but not what is, and a ring that nobody reads stops the synchronous replay.
\<close>

section \<open>From the CSV file to the callback\<close>

lemma stream_all_records:
  assumes "\<And>p. p \<in> set paths \<Longrightarrow> fs p = Some (concat (map record_bytes (recs p))) \<and> list_all record_ok (recs p)"
  shows "stream_all f fs paths s = run_records f (concat (map recs paths)) s"
  using assms
proof (induction paths arbitrary: s)
  case (Cons p paths)
  have "stream_archive f (fs p) s = map_option (Pair True) (run_records f (recs p) s)"
    using Cons.prems [of p] stream_split [of "recs p" "[]" f s]
    by (simp add: stream_archive_def starts_record_def)
  then show ?case
    using Cons by (cases "run_records f (recs p) s") (simp_all add: run_records_append)
qed simp

lemma emit_to_callback:
  assumes "dec data = Some snap" and "rp_ring st = None"
  shows "emit_record world dec (Some (\<lambda>d t b a bq aq u. Some (g d t b a bq aq u))) data st =
    Some (count_emitted (st\<lparr>rp_user := g data (ms_timestamp_ns snap) (ms_best_bid snap) (ms_best_ask snap)
      (ms_bid_depth_5 snap) (ms_ask_depth_5 snap) (rp_user st)\<rparr>))"
  using assms by (simp add: emit_record_def call_on_record_def)

definition hand_over ::
  "(market_snapshot \<Rightarrow> u8 list) \<Rightarrow> (u8 list \<Rightarrow> u64 \<Rightarrow> double \<Rightarrow> double \<Rightarrow> double \<Rightarrow> double \<Rightarrow> 's \<Rightarrow> 's) \<Rightarrow> market_snapshot \<Rightarrow> 's \<Rightarrow> 's" where
  "hand_over enc g snap u =
     g (enc snap) (ms_timestamp_ns snap) (ms_best_bid snap) (ms_best_ask snap) (ms_bid_depth_5 snap) (ms_ask_depth_5 snap) u"

lemma emit_all:
  assumes "list_all (\<lambda>snap. dec (enc snap) = Some snap) snaps" and "rp_ring st = None"
  shows "run_records (emit_record world dec (Some (\<lambda>d t b a bq aq u. Some (g d t b a bq aq u)))) (map enc snaps) st =
    Some (st\<lparr>rp_user := fold (hand_over enc g) snaps (rp_user st), rp_emitted := rp_emitted st + length snaps\<rparr>)"
  using assms
proof (induction snaps arbitrary: st)
  case (Cons snap snaps)
  then show ?case
    by (simp add: emit_to_callback count_emitted_def hand_over_def)
qed simp

text \<open>C27: replaying archives converted from CSV files calls the record hook once per row of at least seven
  columns, files in the given order and rows in file order, with the row's timestamp, prices and sizes,
  and returns the number of those rows; a row's volatility is the population standard deviation of the
  log returns of the last \<open>window\<close> positive mids of its file.\<close>

theorem csv_replay_exact:
  assumes "\<And>p. p \<in> set paths \<Longrightarrow> load_csv enc cfg (Some (csv p)) True = Some (ok p, fs p)"
    and "snaps = concat (map (\<lambda>p. csv_file_snaps cfg (csv p)) paths)"
    and "list_all (\<lambda>snap. record_ok (enc snap) \<and> dec (enc snap) = Some snap) snaps"
  shows "\<exists>st. run_sync world dec (Some (\<lambda>d t b a bq aq u. Some (g d t b a bq aq u))) fs paths (replay_init None ck u) =
      Some (length snaps, st) \<and> rp_user st = fold (hand_over enc g) snaps u"
proof -
  have files: "fs p = Some (concat (map record_bytes (map enc (csv_file_snaps cfg (csv p))))) \<and>
      list_all record_ok (map enc (csv_file_snaps cfg (csv p)))" if "p \<in> set paths" for p
  proof -
    have "list_all (\<lambda>snap. record_ok (enc snap)) (csv_file_snaps cfg (csv p))"
      using assms(2,3) that by (auto simp: list_all_iff)
    then show ?thesis
      using assms(1) [OF that] load_csv_records [of enc cfg "csv p"] by (simp add: list_all_iff)
  qed
  have "concat (map (\<lambda>p. map enc (csv_file_snaps cfg (csv p))) paths) = map enc snaps"
    by (simp add: assms(2) map_concat comp_def)
  then have stream: "stream_all f fs paths s = run_records f (map enc snaps) s" for f s
    using stream_all_records [of paths fs "\<lambda>p. map enc (csv_file_snaps cfg (csv p))" f s] files by simp
  have "list_all (\<lambda>snap. dec (enc snap) = Some snap) snaps"
    using assms(3) by (simp add: list_all_iff)
  from emit_all [OF this, of "(replay_init None ck u)\<lparr>rp_running := True\<rparr>" world g] show ?thesis
    by (simp add: run_sync_def stream replay_init_def)
qed


definition demo_csv :: string where
  "demo_csv = ''h'' @ [CHR 0x0A] @ ''1,99,2,101,3,5,6'' @ [CHR 0x0A] @ ''1,2''"

definition demo_snap :: market_snapshot where
  "demo_snap = hd (csv_file_snaps (load_config toml_empty) demo_csv)"

lemma demo_csv_snaps: "csv_file_snaps (load_config toml_empty) demo_csv = [demo_snap]"
proof -
  have "text_lines demo_csv = ''h'' # tl (text_lines demo_csv)" "length (csv_rows (tl (text_lines demo_csv))) = 1"
    unfolding demo_csv_def by code_simp+
  then have "length (csv_file_snaps (load_config toml_empty) demo_csv) = 1"
    unfolding csv_file_snaps_def by (metis length_csv_snaps list.simps(5))
  then show ?thesis
    by (auto simp: demo_snap_def length_Suc_conv)
qed

definition demo_world :: replay_world where
  "demo_world = \<lparr>rw_others = (\<lambda>r. (r, True)), rw_running = (\<lambda>_. True), rw_paused = (\<lambda>_. False)\<rparr>"

theorem csv_replay_exact_witness:
  "\<exists>st. run_sync demo_world (\<lambda>_. Some demo_snap) (Some (\<lambda>d t b a bq aq u. Some (u + b)))
     (\<lambda>_. snd (the (load_csv (\<lambda>_. [1]) (load_config toml_empty) (Some demo_csv) True))) [''a'', ''b'']
     (replay_init None demo_clock 0) = Some (2, st) \<and> rp_user st = ms_best_bid demo_snap + ms_best_bid demo_snap"
proof -
  have l: "load_csv (\<lambda>_. [1]) (load_config toml_empty) (Some demo_csv) True =
      Some (True, snd (the (load_csv (\<lambda>_. [1]) (load_config toml_empty) (Some demo_csv) True)))"
    by (subst (1 2) load_csv_records) (simp_all add: demo_csv_snaps record_ok_def max_record_def)
  have "\<exists>st. run_sync demo_world (\<lambda>_. Some demo_snap) (Some (\<lambda>d t b a bq aq u. Some ((\<lambda>d t b a bq aq u. u + b) d t b a bq aq u)))
      (\<lambda>_. snd (the (load_csv (\<lambda>_. [1]) (load_config toml_empty) (Some demo_csv) True))) [''a'', ''b'']
      (replay_init None demo_clock 0) = Some (length [demo_snap, demo_snap], st) \<and>
      rp_user st = fold (hand_over (\<lambda>_. [1]) (\<lambda>d t b a bq aq u. u + b)) [demo_snap, demo_snap] 0"
    by (rule csv_replay_exact [where csv = "\<lambda>_. demo_csv" and ok = "\<lambda>_. True" and cfg = "load_config toml_empty"])
      (use l in \<open>simp_all add: demo_csv_snaps record_ok_def max_record_def\<close>)
  then show ?thesis
    by (simp add: hand_over_def numeral_2_eq_2)
qed


section \<open>Pacing\<close>

definition replay_view :: "'s replay \<Rightarrow> nat \<times> byte_msg ring option \<times> step_state option \<times> 's" where
  "replay_view st = (rp_emitted st, rp_ring st, rp_step st, rp_user st)"

lemma emit_view:
  assumes "replay_view st = replay_view st'"
  shows "map_option replay_view (emit_record world dec cb data st) = map_option replay_view (emit_record world dec cb data st')"
  using assms
  by (auto simp: emit_record_def replay_view_def count_emitted_def Let_def split: option.split prod.split bool.split)

lemma pace_view: "replay_view (snd (pace speed ts (pc, st))) = replay_view st"
  by (auto simp: pace_def replay_view_def Let_def)

lemma pause_ends:
  assumes "\<And>n. rw_running world n" and "\<not> rw_paused world (rp_reads st + 2 * i)"
  shows "\<exists>st'. pause_wait world has_flag st = Some st' \<and> replay_view st' = replay_view st"
  using assms(2)
proof (induction i arbitrary: st)
  case 0
  then show ?case
    by (subst pause_wait.simps) (simp add: replay_view_def)
next
  case (Suc i)
  define st1 where "st1 = st\<lparr>rp_reads := rp_reads st + 2, rp_sleeps := rp_sleeps st @ [ms_ns 5]\<rparr>"
  have "\<not> rw_paused world (rp_reads st1 + 2 * i)"
    using Suc.prems by (simp add: st1_def)
  then obtain st' where "pause_wait world has_flag st1 = Some st'" "replay_view st' = replay_view st1"
    using Suc.IH by blast
  moreover have "replay_view st1 = replay_view st"
    by (simp add: st1_def replay_view_def)
  ultimately show ?case
    by (subst pause_wait.simps) (auto simp: read_running_def assms(1) st1_def replay_view_def)
qed

text \<open>Two runs agree on what replay has done so far.\<close>

definition same_view :: "(pacing \<times> 's replay) option \<Rightarrow> 's replay option \<Rightarrow> bool" where
  "same_view a b \<longleftrightarrow> map_option (replay_view \<circ> snd) a = map_option replay_view b"

lemma paced_record_view:
  assumes "\<And>n. rw_running world n" and "\<And>n. \<exists>i. \<not> rw_paused world (n + 2 * i)"
    and "replay_view (snd s) = replay_view st"
  shows "same_view (paced_record world dec cb speed has_flag data s) (emit_record world dec cb data st)"
proof -
  obtain pc st0 where s: "s = (pc, st0)"
    by fastforce
  define st1 where "st1 = st0\<lparr>rp_reads := Suc (rp_reads st0)\<rparr>"
  obtain i where "\<not> rw_paused world (rp_reads st1 + 2 * i)"
    using assms(2) by blast
  then obtain st2 where st2: "pause_wait world has_flag st1 = Some st2" "replay_view st2 = replay_view st1"
    using pause_ends [OF assms(1)] by blast
  have v: "replay_view st2 = replay_view st"
    using st2(2) assms(3) by (simp add: st1_def s replay_view_def)
  show ?thesis
  proof (cases "dec data")
    case None
    then have "emit_record world dec cb data st = Some st"
      by (simp add: emit_record_def)
    then show ?thesis
      using None st2 v by (simp add: paced_record_def read_running_def s assms(1) same_view_def flip: st1_def)
  next
    case (Some snap)
    obtain pc3 st3 where p: "pace speed (ms_timestamp_ns snap) (pc, st2) = (pc3, st3)"
      by fastforce
    have "replay_view st3 = replay_view st"
      using pace_view [of speed "ms_timestamp_ns snap" pc st2] p v by simp
    then have "map_option replay_view (emit_record world dec cb data st3) = map_option replay_view (emit_record world dec cb data st)"
      by (rule emit_view)
    then show ?thesis
      using Some st2 p
      by (simp add: paced_record_def read_running_def s assms(1) same_view_def option.map_comp comp_def flip: st1_def)
  qed
qed

lemma same_view_bind:
  assumes "same_view a b" and "\<And>s st. replay_view (snd s) = replay_view st \<Longrightarrow> same_view (f s) (g st)"
  shows "same_view (Option.bind a f) (Option.bind b g)"
  using assms by (cases a; cases b) (auto simp: same_view_def)

lemma stream_view:
  assumes "\<And>data s st. replay_view (snd s) = replay_view st \<Longrightarrow> same_view (f data s) (g data st)"
    and "replay_view (snd s) = replay_view st"
  shows "map_option (replay_view \<circ> snd \<circ> snd) (stream_archive f fl s) = map_option (replay_view \<circ> snd) (stream_archive g fl st)"
proof (cases fl)
  case None
  then show ?thesis
    using assms(2) by (simp add: stream_archive_def)
next
  case (Some bs)
  obtain rs rest where split: "bs = concat (map record_bytes rs) @ rest" "list_all record_ok rs" "\<not> starts_record rest"
    using archive_split by blast
  have "same_view (run_records f rs s) (run_records g rs st)" for rs
    using assms(2)
  proof (induction rs arbitrary: s st)
    case (Cons r rs)
    show ?case
      unfolding run_records.simps by (rule same_view_bind [OF assms(1) [OF Cons.prems] Cons.IH])
  qed (simp add: same_view_def)
  from this [of rs] show ?thesis
    by (simp add: Some stream_archive_def split(1) stream_split [OF split(2,3)] option.map_comp comp_def same_view_def)
qed

text \<open>Pacing, pausing and speed change when a record is handed out but not what is: a replay that is not
  stopped and not paused for ever leaves the hook's state, the ring and the record count exactly as the
  synchronous replay of the same files does, and does not return exactly when that one does not.\<close>

theorem paced_replay_same_records:
  assumes "\<And>n. rw_running world n" and "\<And>n. \<exists>i. \<not> rw_paused world (n + 2 * i)"
  shows "map_option replay_view (run_loop world dec cb speed has_flag fs paths st) =
    map_option (replay_view \<circ> snd) (run_sync world dec cb fs paths st)"
proof -
  have run: "same_view (run_archives world (paced_record world dec cb speed has_flag) fs paths s)
      (stream_all (emit_record world dec cb) fs paths st)" if "replay_view (snd s) = replay_view st" for s st
    using that
  proof (induction paths arbitrary: s st)
    case Nil
    then show ?case
      by (simp add: same_view_def)
  next
    case (Cons p paths)
    obtain pc st0 where s: "s = (pc, st0)"
      by fastforce
    define st1 where "st1 = st0\<lparr>rp_reads := Suc (rp_reads st0)\<rparr>"
    have "replay_view st1 = replay_view st"
      using Cons.prems by (simp add: s st1_def replay_view_def)
    then have "map_option (replay_view \<circ> snd \<circ> snd) (stream_archive (paced_record world dec cb speed has_flag) (fs p) (pc, st1)) =
        map_option (replay_view \<circ> snd) (stream_archive (emit_record world dec cb) (fs p) st)"
      by (intro stream_view paced_record_view assms) simp_all
    then show ?case
      using Cons.IH
      by (cases "stream_archive (paced_record world dec cb speed has_flag) (fs p) (pc, st1)";
          cases "stream_archive (emit_record world dec cb) (fs p) st")
        (auto simp: s read_running_def assms(1) same_view_def simp flip: st1_def)
  qed
  define pc where "pc = \<lparr>pc_prev_ts = 0, pc_started = False, pc_start_ts = 0, pc_wall_start = steady_now (rp_clock st)\<rparr>"
  define st0 where "st0 = st\<lparr>rp_clock := clock_tick (rp_clock st)\<rparr>"
  have "same_view (run_archives world (paced_record world dec cb speed has_flag) fs paths (pc, st0))
      (stream_all (emit_record world dec cb) fs paths (st\<lparr>rp_running := True\<rparr>))"
    by (rule run) (simp add: st0_def replay_view_def)
  moreover have "replay_view (s\<lparr>rp_finished := b\<rparr>) = replay_view s" "replay_view (s\<lparr>rp_running := a, rp_finished := b\<rparr>) = replay_view s" for s :: "'a replay" and a b
    by (simp_all add: replay_view_def)
  ultimately show ?thesis
    by (simp add: run_loop_def run_sync_def same_view_def option.map_comp comp_def case_prod_beta flip: pc_def st0_def)
qed


theorem paced_replay_same_records_witness:
  "\<exists>st. run_loop demo_world (\<lambda>_. Some demo_snap) None 10 True (\<lambda>_. Some (record_bytes [7])) [''a'']
     (replay_init None demo_clock ()) = Some st \<and> rp_emitted st = 1"
proof -
  have "stream_archive (emit_record demo_world (\<lambda>_. Some demo_snap) None) (Some (record_bytes [7])) st =
      Some (True, count_emitted (st\<lparr>rp_user := rp_user st\<rparr>))" if "rp_ring st = None" for st :: "unit replay"
    using stream_split [of "[[7]]" "[]" "emit_record demo_world (\<lambda>_. Some demo_snap) None" st] that
    by (simp add: stream_archive_def starts_record_def record_ok_def max_record_def emit_record_def call_on_record_def)
  then have "map_option (replay_view \<circ> snd) (run_sync demo_world (\<lambda>_. Some demo_snap) None (\<lambda>_. Some (record_bytes [7])) [''a'']
      (replay_init None demo_clock ())) = Some (1, None, None, ())"
    by (simp add: run_sync_def replay_init_def replay_view_def count_emitted_def)
  moreover have "map_option replay_view (run_loop demo_world (\<lambda>_. Some demo_snap) None 10 True (\<lambda>_. Some (record_bytes [7])) [''a'']
      (replay_init None demo_clock ())) = map_option (replay_view \<circ> snd) (run_sync demo_world (\<lambda>_. Some demo_snap) None
      (\<lambda>_. Some (record_bytes [7])) [''a''] (replay_init None demo_clock ()))"
    by (rule paced_replay_same_records) (simp_all add: demo_world_def)
  ultimately show ?thesis
    by (auto simp: replay_view_def)
qed


section \<open>A ring that nobody reads\<close>

lemma push_wait_stuck:
  assumes "ring_push r m = (False, r)" and "others r = (r, True)"
  shows "push_wait others stepping m r = None"
proof -
  have "\<not> (ring_push r m = (False, r) \<and> others r = (r, True))" if "push_wait others stepping m r = Some y" for y
    using that by (rule push_wait.raw_induct [rotated]) (auto simp: Let_def split: prod.splits if_splits)
  then show ?thesis
    using assms by (cases "push_wait others stepping m r") auto
qed

lemma push_wait_room:
  assumes "ring_push r m = (True, r')"
  shows "push_wait others stepping m r = Some (True, r')"
  using assms by (subst push_wait.simps) simp

lemma emit_unread:
  assumes "rw_others world = (\<lambda>r. (r, True))" and "rp_ring st = Some r" and "ring_ok r"
    and "record_ok data" and "length data \<le> 512" and "dec data \<noteq> None"
  shows "if ring_count r < ring_capacity r
    then \<exists>r'. emit_record world dec None data st = Some (count_emitted (st\<lparr>rp_ring := Some r'\<rparr>)) \<and> ring_ok r' \<and>
      ring_count r' = Suc (ring_count r) \<and> ring_capacity r' = ring_capacity r
    else emit_record world dec None data st = None"
proof -
  obtain m where m: "fill_msg data = Some m"
    using assms(5) by (simp add: fill_msg_def)
  obtain snap where snap: "dec data = Some snap"
    using assms(6) by auto
  show ?thesis
  proof (cases "ring_count r < ring_capacity r")
    case True
    then obtain r' where r': "ring_push r m = (True, r')" "ring_ok r'" "ring_items r' = ring_items r @ [m]"
      "ring_capacity r' = ring_capacity r"
      using ring_push_room [OF assms(3)] by blast
    have "ring_count r' = Suc (ring_count r)"
      using arg_cong [OF r'(3), of length] by simp
    then show ?thesis
      using True r' m snap assms(2) push_wait_room [OF r'(1)]
      by (auto simp: emit_record_def call_on_record_def intro!: exI [of _ r'])
  next
    case False
    then have "ring_count r = ring_capacity r"
      using ring_count_le [OF assms(3)] by simp
    then have "ring_push r m = (False, r)"
      by (rule ring_push_full [OF assms(3)])
    then show ?thesis
      using False m snap assms(1,2) push_wait_stuck [of r m "rw_others world"]
      by (simp add: emit_record_def call_on_record_def)
  qed
qed

lemma emit_unread_all:
  assumes "rw_others world = (\<lambda>r. (r, True))" and "rp_ring st = Some r" and "ring_ok r"
    and "list_all (\<lambda>d. record_ok d \<and> length d \<le> 512 \<and> dec d \<noteq> None) rs"
  shows "run_records (emit_record world dec None) rs st = None \<longleftrightarrow> ring_capacity r < ring_count r + length rs"
  using assms(2-4)
proof (induction rs arbitrary: st r)
  case Nil
  then show ?case
    using ring_count_le [of r] by simp
next
  case (Cons d rs)
  have d: "record_ok d" "length d \<le> 512" "dec d \<noteq> None"
    using Cons.prems(3) by simp_all
  note e = emit_unread [where dec = dec and data = d, OF assms(1) Cons.prems(1,2) d]
  show ?case
  proof (cases "ring_count r < ring_capacity r")
    case True
    then obtain r' where r': "emit_record world dec None d st = Some (count_emitted (st\<lparr>rp_ring := Some r'\<rparr>))" "ring_ok r'"
      "ring_count r' = Suc (ring_count r)" "ring_capacity r' = ring_capacity r"
      using e by auto
    have "run_records (emit_record world dec None) rs (count_emitted (st\<lparr>rp_ring := Some r'\<rparr>)) = None \<longleftrightarrow>
        ring_capacity r' < ring_count r' + length rs"
      using Cons.prems(3) r'(2) by (intro Cons.IH) (simp_all add: count_emitted_def)
    then show ?thesis
      using r' by simp
  next
    case False
    then show ?thesis
      using e ring_count_le [OF Cons.prems(2)] by simp
  qed
qed

text \<open>The synchronous replay pushes into the ring it is given and waits while that is full, on the very
  thread that would have to read it: replaying an archive into an empty ring that no other thread reads
  returns exactly when the archive has no more records than the ring has room for.\<close>

theorem sync_replay_needs_reader:
  assumes "rw_others world = (\<lambda>r. (r, True))" and "1 \<le> k" and "k < 64"
    and "list_all (\<lambda>d. record_ok d \<and> length d \<le> 512 \<and> dec d \<noteq> None) rs"
    and "fs path = Some (concat (map record_bytes rs))"
  shows "run_sync world dec None fs [path] (replay_init (Some (ring_init (2 ^ k) m)) ck u) = None \<longleftrightarrow> 2 ^ k - 1 < length rs"
proof -
  let ?st = "(replay_init (Some (ring_init (2 ^ k) m)) ck u)\<lparr>rp_running := True\<rparr>"
  have init: "ring_ok (ring_init (2 ^ k) m)" "ring_items (ring_init (2 ^ k) m) = []"
    using ring_init_ok [OF assms(2,3), of m] by auto
  have "run_records (emit_record world dec None) rs ?st = None \<longleftrightarrow>
      ring_capacity (ring_init (2 ^ k) m) < ring_count (ring_init (2 ^ k) m) + length rs"
    using init(1) assms(4) by (intro emit_unread_all [OF assms(1)]) (simp_all add: replay_init_def)
  moreover have "ring_count (ring_init (2 ^ k) m) = 0" "ring_capacity (ring_init (2 ^ k) m) = 2 ^ k - 1"
    using arg_cong [OF init(2), of length] by (simp_all add: ring_capacity_def ring_init_def)
  moreover have "list_all record_ok rs"
    using assms(4) by (simp add: list_all_iff)
  then have "stream_all (emit_record world dec None) fs [path] ?st = run_records (emit_record world dec None) rs ?st"
    using stream_all_records [of "[path]" fs "\<lambda>_. rs"] assms(5) by simp
  ultimately show ?thesis
    by (simp add: run_sync_def)
qed

theorem sync_replay_needs_reader_witness:
  "run_sync demo_world (\<lambda>_. Some demo_snap) None (\<lambda>_. Some (concat (map record_bytes [[1], [2], [3], [4]]))) [''a'']
     (replay_init (Some (ring_init 4 byte_msg0)) demo_clock ()) = None"
proof -
  have "run_sync demo_world (\<lambda>_. Some demo_snap) None (\<lambda>_. Some (concat (map record_bytes [[1], [2], [3], [4]]))) [''a'']
      (replay_init (Some (ring_init (2 ^ 2) byte_msg0)) demo_clock ()) = None \<longleftrightarrow> 2 ^ 2 - 1 < length [[1], [2], [3], [4 :: u8]]"
    by (rule sync_replay_needs_reader) (simp_all add: demo_world_def record_ok_def max_record_def)
  then show ?thesis
    by simp
qed

text \<open>Step mode never starts: the state it needs is null in a new engine and no operation sets it.\<close>

lemma step_one_idle: "step_one world dec cb fs (replay_init ring ck u) = Some (False, replay_init ring ck u)"
  by (simp add: step_one_def replay_init_def)

end
