(* ===== verification/BacktestReporter.thy ===== *)
theory BacktestReporter
  imports Volatility OkxRest
begin

text \<open>
  \<open>BacktestReporter\<close> of \<open>src/src/backtest/backtest_reporter.cpp\<close>: the equity curve and fill counters of a
  run, the statistics computed from them, and the results file.
\<close>

section \<open>State and operations\<close>

record backtest_stats =
  bs_total_pnl :: double
  bs_sharpe_ratio :: double
  bs_max_drawdown_pct :: double
  bs_fill_count :: nat
  bs_maker_ratio :: double
  bs_avg_spread_captured_bps :: double
  bs_initial_capital :: double
  bs_final_equity :: double

definition stats0 :: backtest_stats where
  "stats0 = \<lparr>bs_total_pnl = 0, bs_sharpe_ratio = 0, bs_max_drawdown_pct = 0, bs_fill_count = 0, bs_maker_ratio = 0,
     bs_avg_spread_captured_bps = 0, bs_initial_capital = 0, bs_final_equity = 0\<rparr>"

record backtest_reporter =
  br_initial_capital :: double
  br_risk_free_rate :: double
  br_flush_interval_ms :: int
  br_equity_curve :: "double list"
  br_peak_equity :: double
  br_max_dd_pct :: double
  br_fill_count :: nat
  br_maker_fill_count :: nat
  br_sum_spread_bps :: double

definition reporter_init :: "double \<Rightarrow> double \<Rightarrow> int \<Rightarrow> backtest_reporter" where
  "reporter_init initial_capital risk_free_rate flush_interval_ms =
     \<lparr>br_initial_capital = initial_capital, br_risk_free_rate = risk_free_rate,
      br_flush_interval_ms = (if 0 < flush_interval_ms then flush_interval_ms else 1000),
      br_equity_curve = [], br_peak_equity = initial_capital, br_max_dd_pct = 0, br_fill_count = 0,
      br_maker_fill_count = 0, br_sum_spread_bps = 0\<rparr>"

definition on_equity_sample :: "double \<Rightarrow> backtest_reporter \<Rightarrow> backtest_reporter" where
  "on_equity_sample eq r =
     (let r = r\<lparr>br_equity_curve := br_equity_curve r @ [eq]\<rparr>;
          r = (if br_peak_equity r < eq then r\<lparr>br_peak_equity := eq\<rparr> else r)
      in if 0 < br_peak_equity r then
           let dd = (br_peak_equity r - eq) / br_peak_equity r * 100
           in if br_max_dd_pct r < dd then r\<lparr>br_max_dd_pct := dd\<rparr> else r
         else r)"

definition reporter_on_fill :: "double \<Rightarrow> bool \<Rightarrow> backtest_reporter \<Rightarrow> backtest_reporter" where
  "reporter_on_fill spread_bps_at_fill maker r =
     r\<lparr>br_fill_count := br_fill_count r + 1,
       br_maker_fill_count := (if maker then br_maker_fill_count r + 1 else br_maker_fill_count r),
       br_sum_spread_bps := br_sum_spread_bps r + spread_bps_at_fill\<rparr>"

definition equity_returns :: "double list \<Rightarrow> double list" where
  "equity_returns curve =
     foldl (\<lambda>rets i. let prev = curve ! (i - 1) in if 0 < prev then rets @ [(curve ! i - prev) / prev] else rets)
       [] [1..<length curve]"

definition sharpe_of :: "double \<Rightarrow> int \<Rightarrow> double list \<Rightarrow> double" where
  "sharpe_of risk_free_rate flush_interval_ms rets =
     (if rets = [] then 0
      else
        let mean = foldl (+) 0 rets / real (length rets);
            var = foldl (\<lambda>v r. v + (r - mean) * (r - mean)) 0 rets / real (length rets);
            stdev = sqrt var;
            samples_per_year = 252 * 24 * 60 * 60 * 1000 / of_int flush_interval_ms;
            rf_per_sample = risk_free_rate / samples_per_year
        in if 1 / 10 ^ 12 < stdev then (mean - rf_per_sample) / stdev * sqrt samples_per_year else 0)"

definition finalize :: "backtest_reporter \<Rightarrow> backtest_stats" where
  "finalize r =
     (let n = br_fill_count r; curve = br_equity_curve r;
          s = stats0\<lparr>bs_initial_capital := br_initial_capital r, bs_fill_count := n,
                bs_maker_ratio := (if 0 < n then real (br_maker_fill_count r) / real n else 0),
                bs_avg_spread_captured_bps := (if 0 < n then br_sum_spread_bps r / real n else 0),
                bs_max_drawdown_pct := br_max_dd_pct r\<rparr>;
          s = (if curve = [] then s
               else s\<lparr>bs_final_equity := last curve, bs_total_pnl := last curve - br_initial_capital r\<rparr>)
      in if 2 \<le> length curve
         then s\<lparr>bs_sharpe_ratio := sharpe_of (br_risk_free_rate r) (br_flush_interval_ms r) (equity_returns curve)\<rparr>
         else s)"


section \<open>The results file\<close>

definition results_header :: string where
  "results_header = ''run_ts,total_pnl,sharpe_ratio,max_drawdown_pct,fill_count,maker_ratio,'' @
     ''avg_spread_captured_bps,initial_capital,final_equity'' @ [CHR 0x0A]"

text \<open>\<open>strftime("%Y-%m-%dT%H:%M:%SZ")\<close> of a wall-clock reading.\<close>

definition run_ts :: "nanos \<Rightarrow> string" where
  "run_ts now =
     (let tt = trunc_div now 1000000000; (y, mo, d) = civil_of_days (tt div 86400); s = tt mod 86400
      in dec_int y @ ''-'' @ fmt_0d 2 mo @ ''-'' @ fmt_0d 2 d @ ''T'' @ fmt_0d 2 (s div 3600) @ '':'' @
         fmt_0d 2 (s mod 3600 div 60) @ '':'' @ fmt_0d 2 (s mod 60) @ ''Z'')"

definition stats_row :: "nanos \<Rightarrow> backtest_stats \<Rightarrow> string" where
  "stats_row now s =
     c_buf 512 (c_buf 32 (run_ts now) @ '','' @ fmt_fixed 8 (bs_total_pnl s) @ '','' @ fmt_fixed 6 (bs_sharpe_ratio s) @ '','' @
       fmt_fixed 6 (bs_max_drawdown_pct s) @ '','' @ dec_nat (bs_fill_count s) @ '','' @ fmt_fixed 6 (bs_maker_ratio s) @ '','' @
       fmt_fixed 6 (bs_avg_spread_captured_bps s) @ '','' @ fmt_fixed 6 (bs_initial_capital s) @ '','' @
       fmt_fixed 8 (bs_final_equity s) @ [CHR 0x0A])"

text \<open>
  \<open>write_csv\<close>: \<open>old\<close> is the file if it can be read, \<open>can_write\<close> whether it can be opened for writing; the
  result and the file afterwards.  A file that does not begin with the header is replaced.
\<close>

definition write_csv :: "string option \<Rightarrow> bool \<Rightarrow> nanos \<Rightarrow> backtest_stats \<Rightarrow> bool \<times> string option" where
  "write_csv old can_write now s =
     (let first = (case old of None \<Rightarrow> None | Some [] \<Rightarrow> None | Some t \<Rightarrow> Some (takeWhile (\<lambda>c. c \<noteq> CHR 0x0A) t));
          needs_header = (case first of None \<Rightarrow> True | Some l \<Rightarrow> l @ [CHR 0x0A] \<noteq> results_header)
      in if \<not> can_write then (False, old)
         else if needs_header then (True, Some (results_header @ stats_row now s))
         else (True, map_option (\<lambda>t. t @ stats_row now s) old))"


section \<open>Reference\<close>

datatype reporter_op = Sample double | Fill double bool

fun reporter_step :: "reporter_op \<Rightarrow> backtest_reporter \<Rightarrow> backtest_reporter" where
  "reporter_step (Sample e) r = on_equity_sample e r"
| "reporter_step (Fill sp mk) r = reporter_on_fill sp mk r"

definition samples :: "reporter_op list \<Rightarrow> double list" where
  "samples ops = concat (map (\<lambda>op. case op of Sample e \<Rightarrow> [e] | _ \<Rightarrow> []) ops)"

definition fill_ops :: "reporter_op list \<Rightarrow> (double \<times> bool) list" where
  "fill_ops ops = concat (map (\<lambda>op. case op of Fill sp mk \<Rightarrow> [(sp, mk)] | _ \<Rightarrow> []) ops)"

text \<open>The drawdown at a sample: from the highest of the initial capital and the samples up to it.\<close>

definition drawdown_pct :: "double \<Rightarrow> double list \<Rightarrow> nat \<Rightarrow> double" where
  "drawdown_pct capital curve i =
     (let peak = Max (insert capital (set (take (Suc i) curve)))
      in if 0 < peak then (peak - curve ! i) / peak * 100 else 0)"

definition pct_returns :: "double list \<Rightarrow> double list" where
  "pct_returns curve = map (\<lambda>(a, b). (b - a) / a) (filter (\<lambda>(a, b). 0 < a) (zip curve (tl curve)))"

definition annual_sharpe :: "double \<Rightarrow> double \<Rightarrow> double list \<Rightarrow> double" where
  "annual_sharpe rf per_year rets =
     (if 1 / 10 ^ 12 < pop_stdev rets
      then (sum_list rets / real (length rets) - rf / per_year) / pop_stdev rets * sqrt per_year else 0)"


section \<open>Lemmas\<close>

lemma samples_simps [simp]:
  "samples [] = []" "samples (ops @ [op]) = samples ops @ (case op of Sample e \<Rightarrow> [e] | _ \<Rightarrow> [])"
  by (simp_all add: samples_def)

lemma fill_ops_simps [simp]:
  "fill_ops [] = []" "fill_ops (ops @ [op]) = fill_ops ops @ (case op of Fill sp mk \<Rightarrow> [(sp, mk)] | _ \<Rightarrow> [])"
  by (simp_all add: fill_ops_def)

definition dd_max :: "double \<Rightarrow> double list \<Rightarrow> double" where
  "dd_max capital curve = Max (insert 0 (drawdown_pct capital curve ` {..<length curve}))"

lemma peak_snoc:
  "Max (insert c (set (curve @ [e]))) = max (Max (insert c (set curve))) e" for c e :: double
  by (metis List.finite_set Max_insert finite_insert insert_commute insert_not_empty list.simps(15) max.commute rotate1.simps(2) set_rotate1)

lemma drawdown_prefix: "i < length curve \<Longrightarrow> drawdown_pct c (curve @ [e]) i = drawdown_pct c curve i"
  by (simp add: drawdown_pct_def nth_append Let_def)

lemma dd_max_snoc: "dd_max c (curve @ [e]) = max (dd_max c curve) (drawdown_pct c (curve @ [e]) (length curve))"
proof -
  have "drawdown_pct c (curve @ [e]) ` {..<length curve} = drawdown_pct c curve ` {..<length curve}"
    by (rule image_cong) (simp_all add: drawdown_prefix)
  then have "insert 0 (drawdown_pct c (curve @ [e]) ` {..<length (curve @ [e])}) =
      insert (drawdown_pct c (curve @ [e]) (length curve)) (insert 0 (drawdown_pct c curve ` {..<length curve}))"
    by (auto simp: lessThan_Suc)
  then show ?thesis
    unfolding dd_max_def by (simp add: max.commute)
qed

lemma dd_max_nonneg: "0 \<le> dd_max c curve"
  unfolding dd_max_def by (rule Max_ge) auto

lemma drawdown_last_nonneg: "0 \<le> drawdown_pct c (curve @ [e]) (length curve)"
proof -
  have "e \<le> Max (insert c (set (curve @ [e])))"
    by (rule Max_ge) auto
  then show ?thesis
    by (simp add: drawdown_pct_def Let_def)
qed

lemma sample_fields:
  assumes "0 \<le> D"
  shows "on_equity_sample e (r\<lparr>br_equity_curve := cs, br_peak_equity := M, br_max_dd_pct := D, br_fill_count := a,
      br_maker_fill_count := b, br_sum_spread_bps := s\<rparr>) =
    r\<lparr>br_equity_curve := cs @ [e], br_peak_equity := max M e,
      br_max_dd_pct := max D (if 0 < max M e then (max M e - e) / max M e * 100 else 0), br_fill_count := a,
      br_maker_fill_count := b, br_sum_spread_bps := s\<rparr>"
  using assms by (cases "M < e") (auto simp: on_equity_sample_def Let_def max_def)

lemma reporter_run:
  "fold reporter_step ops (reporter_init c rf ms) =
    (reporter_init c rf ms)\<lparr>br_equity_curve := samples ops, br_peak_equity := Max (insert c (set (samples ops))),
      br_max_dd_pct := dd_max c (samples ops), br_fill_count := length (fill_ops ops),
      br_maker_fill_count := length (filter snd (fill_ops ops)), br_sum_spread_bps := sum_list (map fst (fill_ops ops))\<rparr>"
proof (induction ops rule: rev_induct)
  case Nil
  show ?case
    by (simp add: reporter_init_def dd_max_def)
next
  case (snoc op ops)
  show ?case
  proof (cases op)
    case (Sample e)
    have m: "Max (insert c (set (samples ops @ [e]))) = max (Max (insert c (set (samples ops)))) e"
      by (rule peak_snoc)
    have "drawdown_pct c (samples ops @ [e]) (length (samples ops)) =
        (let peak = max (Max (insert c (set (samples ops)))) e in if 0 < peak then (peak - e) / peak * 100 else 0)"
      unfolding drawdown_pct_def by (simp only: take_all length_append_singleton order_refl m nth_append_length)
    then have d: "dd_max c (samples ops @ [e]) = max (dd_max c (samples ops))
        (let peak = max (Max (insert c (set (samples ops)))) e in if 0 < peak then (peak - e) / peak * 100 else 0)"
      by (simp only: dd_max_snoc)
    have s: "samples (ops @ [op]) = samples ops @ [e]" "fill_ops (ops @ [op]) = fill_ops ops"
      "fold reporter_step (ops @ [op]) (reporter_init c rf ms) = on_equity_sample e (fold reporter_step ops (reporter_init c rf ms))"
      by (simp_all add: Sample)
    show ?thesis
      unfolding s m d snoc.IH sample_fields [OF dd_max_nonneg] Let_def ..
  next
    case (Fill sp mk)
    have s: "samples (ops @ [op]) = samples ops" "fill_ops (ops @ [op]) = fill_ops ops @ [(sp, mk)]"
      "fold reporter_step (ops @ [op]) (reporter_init c rf ms) = reporter_on_fill sp mk (fold reporter_step ops (reporter_init c rf ms))"
      by (simp_all add: Fill)
    show ?thesis
      unfolding s snoc.IH by (simp add: reporter_on_fill_def)
  qed
qed

text \<open>The loop over consecutive samples, and the standard deviation it is divided by.\<close>

lemma equity_returns_pct: "equity_returns curve = pct_returns curve"
proof -
  have "n < length curve \<Longrightarrow>
      foldl (\<lambda>rets i. let prev = curve ! (i - 1) in if 0 < prev then rets @ [(curve ! i - prev) / prev] else rets) [] [1..<Suc n] =
      map (\<lambda>(a, b). (b - a) / a) (filter (\<lambda>(a, b). 0 < a) (take n (zip curve (tl curve))))" for n
  proof (induction n)
    case (Suc n)
    have "take (Suc n) (zip curve (tl curve)) = take n (zip curve (tl curve)) @ [(curve ! n, curve ! Suc n)]"
      using Suc.prems by (simp add: take_Suc_conv_app_nth nth_tl)
    then show ?case
      using Suc by (simp add: Let_def)
  qed simp
  note loop = this [of "length curve - 1"]
  show ?thesis
  proof (cases "curve = []")
    case False
    then have "length curve - 1 < length curve" "Suc (length curve - 1) = length curve"
      "take (length curve - 1) (zip curve (tl curve)) = zip curve (tl curve)"
      by simp_all
    with loop show ?thesis
      by (simp only: equity_returns_def pct_returns_def)
  qed (simp add: equity_returns_def pct_returns_def)
qed

lemma sharpe_annual:
  "sharpe_of rf ms rets = annual_sharpe rf (252 * 24 * 60 * 60 * 1000 / of_int ms) rets"
proof (cases "rets = []")
  case True
  then show ?thesis
    by (simp add: sharpe_of_def annual_sharpe_def pop_stdev_def)
next
  case False
  then show ?thesis
    by (simp add: sharpe_of_def annual_sharpe_def pop_stdev_def Let_def foldl_plus_sum_list foldl_sq_sum_list)
qed

text \<open>C29: whatever samples and fills a run reports, in any order, the statistics it ends with are the offline
  ones of its equity curve: the profit is the last sample less the initial capital, the maximum drawdown
  the largest of the samples' drawdowns from the running peak (the initial capital included), the Sharpe
  ratio that of the returns between consecutive samples, annualised at the sampling interval, and the
  ratios are those of the fills.\<close>

theorem backtest_stats_exact:
  "finalize (fold reporter_step ops (reporter_init capital rf ms)) =
    \<lparr>bs_total_pnl = (if samples ops = [] then 0 else last (samples ops) - capital),
     bs_sharpe_ratio = annual_sharpe rf (252 * 24 * 60 * 60 * 1000 / of_int (if 0 < ms then ms else 1000)) (pct_returns (samples ops)),
     bs_max_drawdown_pct = Max (insert 0 (drawdown_pct capital (samples ops) ` {..<length (samples ops)})),
     bs_fill_count = length (fill_ops ops),
     bs_maker_ratio = real (length (filter snd (fill_ops ops))) / real (length (fill_ops ops)),
     bs_avg_spread_captured_bps = sum_list (map fst (fill_ops ops)) / real (length (fill_ops ops)),
     bs_initial_capital = capital,
     bs_final_equity = (if samples ops = [] then 0 else last (samples ops))\<rparr>"
proof -
  have short: "annual_sharpe rf y (pct_returns (samples ops)) = 0" if "\<not> 2 \<le> length (samples ops)" for y
  proof -
    have "pct_returns (samples ops) = []"
      using that by (cases "samples ops"; cases "tl (samples ops)") (auto simp: pct_returns_def)
    then show ?thesis
      by (simp add: annual_sharpe_def pop_stdev_def)
  qed
  show ?thesis
    unfolding reporter_run dd_max_def [symmetric]
    by (auto simp: finalize_def Let_def stats0_def reporter_init_def sharpe_annual equity_returns_pct short)
qed

end
