(* ===== verification/Backtest.thy ===== *)
theory Backtest
  imports ReplayProps BacktestReporter SimRest Strategy OrderManager "HOL-Library.List_Lexorder" "HOL-Library.Char_ord"
begin

text \<open>
  \<open>backtest_runner.cpp\<close>: one backtest wires the replay engine, the simulated exchange, the strategy and
  the order manager together in a single thread (\<open>run_one\<close>), and the entry points run one or a grid of
  them.  The FlatBuffers codecs are the fields of \<open>backtest_codecs\<close>.
\<close>

section \<open>State\<close>

record backtest_codecs =
  xc_enc_quote :: "quote_update \<Rightarrow> u8 list"
  xc_dec_quote :: "u8 list \<Rightarrow> quote_update option"
  xc_dec_snap :: "u8 list \<Rightarrow> market_snapshot option"

text \<open>
  What the fill callback captures: the reporter, the database reporter and the counter of
  \<open>wall_now_ns\<close>, which is static and so survives from one run to the next.
\<close>

record backtest_user =
  bu_reporter :: backtest_reporter
  bu_db :: db_ring
  bu_counter :: u64

type_synonym backtest_env = "backtest_user sim_env"

record backtest =
  bx_om :: order_manager
  bx_env :: backtest_env
  bx_maker :: market_maker
  bx_signals :: signals
  bx_last_sample :: u64

definition upd_user :: "(backtest_user \<Rightarrow> backtest_user) \<Rightarrow> backtest_env \<Rightarrow> backtest_env" where
  "upd_user f e = upd_sim (\<lambda>s. s\<lparr>sr_user := f (sr_user s)\<rparr>) e"

definition user :: "backtest_env \<Rightarrow> backtest_user" where
  "user e = sr_user (en_rest e)"

definition wall_now_ns :: "backtest_env \<Rightarrow> u64 \<times> backtest_env" where
  "wall_now_ns e =
     (word_of_int (wall_now (en_clock e)) + bu_counter (user e),
      env_tick (upd_user (\<lambda>u. u\<lparr>bu_counter := bu_counter u + 1\<rparr>) e))"

definition push_db :: "(u64 \<Rightarrow> db_event) \<Rightarrow> backtest_env \<Rightarrow> backtest_env" where
  "push_db ev e =
     (if bu_db (user e) = None then e
      else
        let (ts, e) = wall_now_ns e
        in upd_user (\<lambda>u. u\<lparr>bu_db := db_push (ev ts) (bu_db u)\<rparr>) e)"


section \<open>Fills\<close>

text \<open>The callback installed with \<open>set_on_fill\<close>.\<close>

definition backtest_fill :: "fill_input \<Rightarrow> backtest_env \<Rightarrow> backtest_env" where
  "backtest_fill f e =
     (let e = e\<lparr>en_pt := snd (apply_fill f (en_pt e))\<rparr>;
          e = upd_user (\<lambda>u. u\<lparr>bu_reporter := reporter_on_fill 0 True (bu_reporter u)\<rparr>) e
      in push_db (\<lambda>ts. DbTrade \<lparr>dt_order_id = c_buf 40 (fi_order_id f), dt_side = fi_side f, dt_price = fi_price f,
           dt_qty = fi_qty f, dt_fee = fi_fee f, dt_fee_asset = c_buf 8 (fi_fee_asset f), dt_ts_ns = ts,
           dt_is_maker = True\<rparr>) e)"

abbreviation backtest_client :: "backtest_user sim_rest rest_client" where
  "backtest_client \<equiv> sim_client (Some backtest_fill)"


section \<open>One record\<close>

definition set_om_state :: "backtest_user sim_rest om_state \<Rightarrow> backtest \<Rightarrow> backtest" where
  "set_om_state st bx = bx\<lparr>bx_om := fst st, bx_env := snd st\<rparr>"

definition upd_env :: "(backtest_env \<Rightarrow> backtest_env) \<Rightarrow> backtest \<Rightarrow> backtest" where
  "upd_env f bx = bx\<lparr>bx_env := f (bx_env bx)\<rparr>"

text \<open>\<open>OrderManagerBacktestAccess::on_quote\<close>\<close>

definition drive_quote :: "config \<Rightarrow> quote_update \<Rightarrow> backtest \<Rightarrow> backtest" where
  "drive_quote cfg q bx =
     set_om_state (on_quote cfg backtest_client (qu_bid_price q) (qu_ask_price q) (qu_qty q) (bx_om bx, bx_env bx)) bx"

text \<open>The loop over the quote ring; \<open>None\<close> is a loop that does not end.\<close>

partial_function (option) drain_quotes ::
  "backtest_codecs \<Rightarrow> config \<Rightarrow> byte_msg ring \<Rightarrow> backtest \<Rightarrow> (byte_msg ring \<times> backtest) option" where
  "drain_quotes xc cfg r bx =
     (case ring_pop r of
        None \<Rightarrow> Some (r, bx)
      | Some (m, r) \<Rightarrow>
          drain_quotes xc cfg r
            (case xc_dec_quote xc (take (unat (mg_size m)) (mg_bytes m)) of None \<Rightarrow> bx | Some q \<Rightarrow> drive_quote cfg q bx))"

definition run_maker :: "backtest_codecs \<Rightarrow> config \<Rightarrow> inventory_manager \<Rightarrow> backtest \<Rightarrow> backtest" where
  "run_maker xc cfg im bx =
     (let e = bx_env bx;
          (sent, mm, rm, ck, db) =
            on_signals (xc_enc_quote xc) cfg im (en_pt e) (env_halted e) (bx_signals bx)
              (bx_maker bx, Some (en_rm e), en_clock e, en_db e)
      in bx\<lparr>bx_maker := mm, bx_env := e\<lparr>en_rm := the rm, en_clock := ck, en_db := db\<rparr>\<rparr>)"

definition strategy_step ::
  "backtest_codecs \<Rightarrow> config \<Rightarrow> inventory_manager \<Rightarrow> u8 list \<Rightarrow> backtest \<Rightarrow> backtest option" where
  "strategy_step xc cfg im fb bx =
     (case fill_msg fb of
        None \<Rightarrow> Some bx
      | Some msg \<Rightarrow>
          let (ok, sig) = ingest (xc_dec_snap xc) msg (bx_signals bx);
              bx = bx\<lparr>bx_signals := sig\<rparr>
          in if \<not> ok then Some bx
             else
               let bx = run_maker xc cfg im bx
               in (case mm_out_ring (bx_maker bx) of
                     None \<Rightarrow> Some bx
                   | Some r \<Rightarrow>
                       map_option (\<lambda>(r, bx). bx\<lparr>bx_maker := (bx_maker bx)\<lparr>mm_out_ring := Some r\<rparr>\<rparr>)
                         (drain_quotes xc cfg r bx)))"

definition sample_interval_ns :: "config \<Rightarrow> u64" where
  "sample_interval_ns cfg =
     word_of_int (if 0 < rp_flush_interval_ms (c_reporter cfg) then rp_flush_interval_ms (c_reporter cfg) else 1000) * 1000000"

definition sample_now :: "config \<Rightarrow> u64 \<Rightarrow> u64 \<Rightarrow> bool" where
  "sample_now cfg last_sample ts \<longleftrightarrow>
     last_sample = 0 \<or> (last_sample < ts \<and> sample_interval_ns cfg \<le> ts - last_sample)"

definition sample_equity :: "config \<Rightarrow> backtest_env \<Rightarrow> backtest_env" where
  "sample_equity cfg e =
     upd_user (\<lambda>u. u\<lparr>bu_reporter := on_equity_sample (bt_initial_capital (c_backtest cfg) + equity (en_pt e)) (bu_reporter u)\<rparr>) e"

definition position_event ::
  "config \<Rightarrow> double \<Rightarrow> double \<Rightarrow> double \<Rightarrow> double \<Rightarrow> position_tracker \<Rightarrow> u64 \<Rightarrow> db_event" where
  "position_event cfg bid ask bid_qty ask_qty pt ts =
     DbPosition \<lparr>dp_ts_ns = ts, dp_inventory = pt_inventory pt, dp_avg_entry = pt_avg_entry pt, dp_realized = pt_realized pt,
       dp_unrealized = unrealized_pnl pt, dp_fees = pt_fees pt, dp_mid = (bid + ask) * (1 / 2), dp_best_bid = bid,
       dp_best_ask = ask, dp_spread_bps = (if 0 < bid then (ask - bid) / ((bid + ask) * (1 / 2)) * 10000 else 0),
       dp_bid_qty = bid_qty, dp_ask_qty = ask_qty, dp_volatility = 0, dp_gamma = st_gamma (c_strategy cfg),
       dp_k = st_k (c_strategy cfg), dp_T = st_horizon (c_strategy cfg), dp_lat_p50_us = 0, dp_lat_p95_us = 0,
       dp_lat_p99_us = 0, dp_open_orders = 0\<rparr>"

definition take_sample :: "config \<Rightarrow> u64 \<Rightarrow> double \<Rightarrow> double \<Rightarrow> double \<Rightarrow> double \<Rightarrow> backtest \<Rightarrow> backtest" where
  "take_sample cfg ts bid ask bid_qty ask_qty bx =
     (if sample_now cfg (bx_last_sample bx) ts then
        let e = sample_equity cfg (bx_env bx)
        in bx\<lparr>bx_last_sample := ts, bx_env := push_db (position_event cfg bid ask bid_qty ask_qty (en_pt e)) e\<rparr>
      else bx)"

text \<open>The record hook of \<open>run_one\<close>.  The inventory manager is the one the run constructs.\<close>

definition qty_floor :: "double \<Rightarrow> double" where
  "qty_floor q = (if q \<le> 0 then 1 / 1000 else q)"

definition market_step :: "double \<Rightarrow> double \<Rightarrow> double \<Rightarrow> double \<Rightarrow> backtest_env \<Rightarrow> backtest_env" where
  "market_step bid ask bid_qty ask_qty e =
     (let e = update_market (Some backtest_fill) bid ask bid_qty ask_qty 0 e
      in e\<lparr>en_pt := update_mid ((bid + ask) * (1 / 2)) (en_pt e)\<rparr>)"

definition on_record ::
  "backtest_codecs \<Rightarrow> config \<Rightarrow> inventory_manager \<Rightarrow> u8 list \<Rightarrow> u64 \<Rightarrow> double \<Rightarrow> double \<Rightarrow> double \<Rightarrow> double
     \<Rightarrow> backtest \<Rightarrow> backtest option" where
  "on_record xc cfg im fb ts bid ask bid_qty ask_qty bx =
     map_option (take_sample cfg ts bid ask (qty_floor bid_qty) (qty_floor ask_qty))
       (strategy_step xc cfg im fb (upd_env (market_step bid ask (qty_floor bid_qty) (qty_floor ask_qty)) bx))"


section \<open>One backtest\<close>

definition backtest_init :: "config \<Rightarrow> db_ring \<Rightarrow> u64 \<Rightarrow> clock \<Rightarrow> backtest" where
  "backtest_init cfg db counter ck =
     (let flush = (if 0 < rp_flush_interval_ms (c_reporter cfg) then rp_flush_interval_ms (c_reporter cfg) else 1000);
          u = \<lparr>bu_reporter = reporter_init (bt_initial_capital (c_backtest cfg)) (bt_risk_free_rate (c_backtest cfg)) flush,
               bu_db = db, bu_counter = counter\<rparr>;
          (om, ck) = om_init ck
      in \<lparr>bx_om = om,
          bx_env = \<lparr>en_pt = tracker_init, en_rm = risk_init, en_cb = breaker_init (Some (ring_init 1024 byte_msg0)),
            en_db = None, en_clock = ck, en_rest = sim_init (md_symbol (c_market_data cfg)) u\<rparr>,
          bx_maker = maker_init (Some (ring_init 16384 byte_msg0)), bx_signals = signals0, bx_last_sample = 0\<rparr>)"

definition run_one ::
  "backtest_codecs \<Rightarrow> replay_world \<Rightarrow> (string \<Rightarrow> u8 list option) \<Rightarrow> config \<Rightarrow> string list \<Rightarrow> db_ring \<Rightarrow> u64 \<Rightarrow> clock
     \<Rightarrow> (backtest_stats \<times> backtest) option" where
  "run_one xc world fs cfg archives db counter ck =
     map_option (\<lambda>(n, rp). let bx = upd_env (sample_equity cfg) (rp_user rp)
                     in (finalize (bu_reporter (user (bx_env bx))), bx))
       (run_sync world (xc_dec_snap xc) (Some (on_record xc cfg \<lparr>im_inventory = 0\<rparr>)) fs archives
          (replay_init None ck (backtest_init cfg db counter ck)))"


section \<open>Entry points\<close>

text \<open>\<open>ev.daily.date\<close>\<close>

definition date_int :: "nanos \<Rightarrow> int" where
  "date_int now =
     (let (y, mo, d) = civil_of_days (trunc_div now 1000000000 div 86400) in y * 10000 + mo * 100 + d)"

definition daily_event :: "backtest_stats \<Rightarrow> nanos \<Rightarrow> db_event" where
  "daily_event s now =
     DbDaily \<lparr>dd_date = date_int now, dd_realized = bs_total_pnl s, dd_unrealized = 0, dd_fees = 0, dd_total = bs_total_pnl s\<rparr>"

text \<open>\<open>run_backtest\<close>: the statistics, the results file and the database ring; the two clock readings at the
  end are \<open>now_csv\<close> and \<open>now_day\<close>.\<close>

definition run_backtest ::
  "backtest_codecs \<Rightarrow> replay_world \<Rightarrow> (string \<Rightarrow> u8 list option) \<Rightarrow> config \<Rightarrow> string list \<Rightarrow> string option \<Rightarrow> bool
     \<Rightarrow> nanos \<Rightarrow> nanos \<Rightarrow> db_ring \<Rightarrow> u64 \<Rightarrow> clock \<Rightarrow> (backtest_stats \<times> string option \<times> db_ring) option" where
  "run_backtest xc world fs cfg archives csv can_write now_csv now_day db counter ck =
     map_option (\<lambda>(s, bx). (s, snd (write_csv csv can_write now_csv s),
         db_push (daily_event s now_day) (bu_db (user (bx_env bx)))))
       (run_one xc world fs cfg (sort archives) db counter ck)"

text \<open>The calibration grid: eight configurations, the rows ordered by their Sharpe ratio.\<close>

definition calibration_grid :: "config \<Rightarrow> config list" where
  "calibration_grid cfg =
     concat (map (\<lambda>g. concat (map (\<lambda>k. map (\<lambda>h.
       cfg\<lparr>c_strategy := (c_strategy cfg)\<lparr>st_gamma := g, st_k := k, st_horizon := h\<rparr>\<rparr>)
       [1, 30]) [1, 3])) [1 / 20, 1 / 5])"

text \<open>Each run starts where the counter and the clock of the one before it stopped.\<close>

fun run_grid ::
  "backtest_codecs \<Rightarrow> replay_world \<Rightarrow> (string \<Rightarrow> u8 list option) \<Rightarrow> string list \<Rightarrow> config list \<Rightarrow> u64 \<Rightarrow> clock
     \<Rightarrow> (config \<times> backtest_stats) list option" where
  "run_grid xc world fs archives [] counter ck = Some []"
| "run_grid xc world fs archives (c # cs) counter ck =
     (case run_one xc world fs c archives None counter ck of
        None \<Rightarrow> None
      | Some (s, bx) \<Rightarrow>
          map_option ((#) (c, s))
            (run_grid xc world fs archives cs (bu_counter (user (bx_env bx))) (en_clock (bx_env bx))))"

definition calibration_row :: "config \<times> backtest_stats \<Rightarrow> string" where
  "calibration_row r =
     (let st = c_strategy (fst r); s = snd r
      in fmt_fixed 4 (st_gamma st) @ '','' @ fmt_fixed 4 (st_k st) @ '','' @ fmt_fixed 4 (st_horizon st) @ '','' @
         fmt_fixed 8 (bs_total_pnl s) @ '','' @ fmt_fixed 6 (bs_sharpe_ratio s) @ '','' @ fmt_fixed 6 (bs_max_drawdown_pct s) @ '','' @
         dec_nat (bs_fill_count s) @ '','' @ fmt_fixed 6 (bs_maker_ratio s) @ [CHR 0x0A])"

definition calibration_header :: string where
  "calibration_header = ''gamma,k,horizon,total_pnl,sharpe,max_dd_pct,fills,maker_ratio'' @ [CHR 0x0A]"

definition run_calibration_smoke ::
  "backtest_codecs \<Rightarrow> replay_world \<Rightarrow> (string \<Rightarrow> u8 list option) \<Rightarrow> config \<Rightarrow> string list \<Rightarrow> bool \<Rightarrow> string option
     \<Rightarrow> u64 \<Rightarrow> clock \<Rightarrow> (backtest_stats \<times> string option) option" where
  "run_calibration_smoke xc world fs cfg archives can_write csv counter ck =
     map_option (\<lambda>rows.
         let rows = sort_key (\<lambda>r. - bs_sharpe_ratio (snd r)) rows
         in (case rows of [] \<Rightarrow> stats0 | r # _ \<Rightarrow> snd r,
             if can_write then Some (calibration_header @ concat (map calibration_row rows)) else csv))
       (run_grid xc world fs archives (calibration_grid cfg) counter ck)"

text \<open>The members of the class \<open>BacktestRunner\<close> itself are stubs.\<close>

definition runner_run :: "string list \<Rightarrow> backtest_stats" where
  "runner_run archives = stats0"

definition runner_discover_archives :: "string list" where
  "runner_discover_archives = []"

end
