(* ===== verification/BacktestProps.thy ===== *)
theory BacktestProps
  imports Backtest OrderInvariant
begin

text \<open>
  What a backtest computes: it always ends, its statistics account for exactly the fills of the
  simulated exchange, and the order manager it drives never learns of them.
\<close>

section \<open>Replaying under an invariant\<close>

lemma stream_all_invariant:
  assumes "\<And>data s. J s \<Longrightarrow> \<exists>s'. f data s = Some s' \<and> J s'" and "J s"
  shows "\<exists>s'. stream_all f fs paths s = Some s' \<and> J s'"
proof -
  have records: "\<exists>s'. run_records f rs s = Some s' \<and> J s'" if "J s" for rs s
    using that
  proof (induction rs arbitrary: s)
    case (Cons r rs)
    obtain s1 where "f r s = Some s1" "J s1"
      using assms(1) [OF Cons.prems] by blast
    then show ?case
      using Cons.IH by simp
  qed simp
  have archive: "\<exists>ok s'. stream_archive f fl s = Some (ok, s') \<and> J s'" if js: "J s" for fl s
  proof (cases fl)
    case (Some bs)
    obtain rs rest where split: "bs = concat (map record_bytes rs) @ rest" "list_all record_ok rs" "\<not> starts_record rest"
      using archive_split by blast
    obtain s' where "run_records f rs s = Some s'" "J s'"
      using records [OF js] by blast
    then show ?thesis
      by (simp add: Some stream_archive_def split(1) stream_split [OF split(2,3)])
  qed (use js in \<open>auto simp: stream_archive_def\<close>)
  show ?thesis
    using assms(2)
  proof (induction paths arbitrary: s)
    case (Cons p paths)
    obtain ok s1 where "stream_archive f (fs p) s = Some (ok, s1)" "J s1"
      using archive [OF Cons.prems] by blast
    then show ?case
      using Cons.IH by simp
  qed simp
qed


section \<open>The client's state under a quote\<close>

text \<open>An invariant of the client's own state that placing and cancelling keep.\<close>

locale rest_invariant =
  fixes rest :: "'r rest_client" and Inv :: "'r \<Rightarrow> bool"
  assumes place_inv: "Inv (en_rest e) \<Longrightarrow> Inv (en_rest (snd (rest_place rest side qty price po cid e)))"
    and cancel_inv: "Inv (en_rest e) \<Longrightarrow> Inv (en_rest (snd (rest_cancel rest cid oid e)))"
begin

lemma cancel_attempts_inv:
  "Inv (en_rest (snd st)) \<Longrightarrow> Inv (en_rest (snd (snd (cancel_attempts rest i n st))))"
proof (induction n arbitrary: st)
  case 0
  then show ?case
    by (cases st) simp
next
  case (Suc n)
  obtain om e where st: "st = (om, e)"
    by fastforce
  have "Inv (en_rest (snd (rest_cancel rest (sl_cid (slot i om)) (sl_oid (slot i om)) (env_record_cancel e))))"
    using Suc.prems by (intro cancel_inv) (simp add: st)
  then show ?case
    using Suc.IH by (simp add: st case_prod_beta Let_def)
qed

lemma cancel_slot_inv: "Inv (en_rest (snd st)) \<Longrightarrow> Inv (en_rest (snd (snd (cancel_slot rest i st))))"
  using cancel_attempts_inv by (simp add: cancel_slot_def case_prod_beta)

lemma place_new_inv: "Inv (en_rest (snd st)) \<Longrightarrow> Inv (en_rest (snd (snd (place_new cfg rest i price qty st))))"
proof -
  assume inv: "Inv (en_rest (snd st))"
  obtain om e where p: "prepare_slot i price qty st = (om, e)"
    by fastforce
  have e: "Inv (en_rest e)"
    using prepare_slot_spec(8) [of i price qty "fst st" "snd st" om e] p inv by simp
  let ?s = "slot i om"
  obtain rr e1 where c: "env_pre_trade_check (c_risk cfg) (of_int (sl_side ?s) * qty) price e = (rr, e1)"
    by fastforce
  have e1: "Inv (en_rest e1)"
    using e arg_cong [OF c, of "\<lambda>p. en_rest (snd p)"] by simp
  let ?call = "rest_place rest (side_str ?s) qty price True (sl_cid ?s) (env_record_submission e1)"
  have "Inv (en_rest (snd ?call))"
    using e1 by (intro place_inv) simp
  then show ?thesis
    using e e1 by (simp add: place_new_def p c case_prod_beta Let_def)
qed

lemma place_side_inv: "Inv (en_rest (snd st)) \<Longrightarrow> Inv (en_rest (snd (place_side cfg rest i price qty st)))"
  unfolding place_side_def by (rule place_new_inv) simp

lemma maybe_requote_side_inv:
  "Inv (en_rest (snd st)) \<Longrightarrow> Inv (en_rest (snd (maybe_requote_side cfg rest i price qty st)))"
  using cancel_slot_inv [of st i]
  by (simp add: maybe_requote_side_def Let_def place_side_inv case_prod_beta)

lemma on_quote_inv: "Inv (en_rest (snd st)) \<Longrightarrow> Inv (en_rest (snd (on_quote cfg rest bid ask qty st)))"
  by (simp add: on_quote_def maybe_requote_side_inv)

end


section \<open>Slots that are never told of a fill\<close>

definition unfilled :: "order_manager \<Rightarrow> bool" where
  "unfilled om \<longleftrightarrow>
     (\<forall>i. sl_executed (slot i om) = 0 \<and> sl_state (slot i om) \<noteq> S_FILLED \<and> sl_state (slot i om) \<noteq> S_PARTIALLY_FILLED)"

lemma unfilled_upd:
  "unfilled om \<Longrightarrow> (\<And>s. sl_executed s = 0 \<Longrightarrow> sl_state s \<noteq> S_FILLED \<Longrightarrow> sl_state s \<noteq> S_PARTIALLY_FILLED \<Longrightarrow>
     sl_executed (f s) = 0 \<and> sl_state (f s) \<noteq> S_FILLED \<and> sl_state (f s) \<noteq> S_PARTIALLY_FILLED) \<Longrightarrow> unfilled (upd_slot i f om)"
  unfolding unfilled_def by (metis slot_upd)

lemma unfilled_transition:
  "unfilled (fst st) \<Longrightarrow> to \<noteq> S_FILLED \<Longrightarrow> to \<noteq> S_PARTIALLY_FILLED \<Longrightarrow> unfilled (fst (transition i to st))"
  by (cases st) (auto simp: transition_def intro: unfilled_upd)

lemma unfilled_make_cid [simp]: "unfilled (snd (make_cid om)) = unfilled om"
  by (simp add: unfilled_def)

lemma unfilled_prepare: "unfilled (fst st) \<Longrightarrow> unfilled (fst (prepare_slot i price qty st))"
  unfolding prepare_slot_def case_prod_beta Let_def fst_conv
  by (intro unfilled_upd unfilled_transition) (auto intro!: unfilled_upd split: if_splits)

lemma unfilled_cancel_attempts: "unfilled (fst st) \<Longrightarrow> unfilled (fst (snd (cancel_attempts rest i n st)))"
proof (induction n arbitrary: st)
  case 0
  then show ?case
    by (cases st) (auto intro: unfilled_upd)
next
  case (Suc n)
  then show ?case
    by (cases st) (auto simp: case_prod_beta Let_def cancel_done_def intro!: unfilled_upd unfilled_transition)
qed

lemma unfilled_cancel_slot: "unfilled (fst st) \<Longrightarrow> unfilled (fst (snd (cancel_slot rest i st)))"
  by (simp add: cancel_slot_def case_prod_beta unfilled_cancel_attempts)

lemma unfilled_acknowledge: "unfilled (fst st) \<Longrightarrow> unfilled (fst (acknowledge i a st))"
proof -
  assume u: "unfilled (fst st)"
  have "unfilled (fst (transition i S_ACKNOWLEDGED (set_slot i (\<lambda>s. s\<lparr>sl_oid := oa_exchange_order_id a\<rparr>) st)))"
    using u by (intro unfilled_transition) (auto intro: unfilled_upd)
  then show ?thesis
    by (simp add: acknowledge_def Let_def case_prod_beta unfilled_def)
qed

lemma unfilled_place_new: "unfilled (fst st) \<Longrightarrow> unfilled (fst (snd (place_new cfg rest i price qty st)))"
proof -
  assume "unfilled (fst st)"
  then have "unfilled (fst (prepare_slot i price qty st))"
    by (rule unfilled_prepare)
  then show ?thesis
    by (auto simp: place_new_def case_prod_beta Let_def reject_new_def accept_new_def
        intro: unfilled_transition unfilled_acknowledge)
qed

lemma unfilled_place_side: "unfilled (fst st) \<Longrightarrow> unfilled (fst (place_side cfg rest i price qty st))"
  unfolding place_side_def by (rule unfilled_place_new) (auto intro: unfilled_upd)

lemma unfilled_maybe_requote: "unfilled (fst st) \<Longrightarrow> unfilled (fst (maybe_requote_side cfg rest i price qty st))"
proof -
  assume u: "unfilled (fst st)"
  then have "unfilled (upd_slot i (\<lambda>s. s\<lparr>sl_active := False\<rparr>) (fst st))"
    by (auto intro: unfilled_upd)
  then show ?thesis
    using u unfilled_cancel_slot [OF u]
    by (auto simp: maybe_requote_side_def Let_def case_prod_beta intro!: unfilled_place_side)
qed

lemma unfilled_on_quote: "unfilled (fst st) \<Longrightarrow> unfilled (fst (on_quote cfg rest bid ask qty st))"
  by (simp add: on_quote_def unfilled_maybe_requote)

lemma unfilled_init: "unfilled (fst (om_init ck))"
  unfolding unfilled_def all_slots by (simp add: om_init_def slot_init_def Let_def)



section \<open>The books of a run\<close>

text \<open>The reporter has seen the fills the simulator counted, each as a maker fill at no spread.\<close>

definition books_ok :: "config \<Rightarrow> backtest_user sim_rest \<Rightarrow> bool" where
  "books_ok cfg s \<longleftrightarrow>
     (\<exists>ops ms. bu_reporter (sr_user s) =
        fold reporter_step ops (reporter_init (bt_initial_capital (c_backtest cfg)) (bt_risk_free_rate (c_backtest cfg)) ms) \<and>
      length (fill_ops ops) = sr_fill_count s \<and> set (fill_ops ops) \<subseteq> {(0, True)})"

lemma books_ok_same:
  "books_ok cfg s \<Longrightarrow> bu_reporter (sr_user s') = bu_reporter (sr_user s) \<Longrightarrow> sr_fill_count s' = sr_fill_count s \<Longrightarrow>
   books_ok cfg s'"
  by (simp add: books_ok_def)

lemma books_ok_fill:
  assumes "books_ok cfg s" and "bu_reporter (sr_user s') = reporter_on_fill 0 True (bu_reporter (sr_user s))"
    and "sr_fill_count s' = sr_fill_count s + 1"
  shows "books_ok cfg s'"
proof -
  obtain ops ms where ops: "bu_reporter (sr_user s) =
      fold reporter_step ops (reporter_init (bt_initial_capital (c_backtest cfg)) (bt_risk_free_rate (c_backtest cfg)) ms)"
    "length (fill_ops ops) = sr_fill_count s" "set (fill_ops ops) \<subseteq> {(0, True)}"
    using assms(1) by (auto simp: books_ok_def)
  then show ?thesis
    unfolding books_ok_def
    by (intro exI [of _ "ops @ [Fill 0 True]"] exI [of _ ms]) (simp add: assms(2,3))
qed

lemma books_ok_sample:
  assumes "books_ok cfg s" and "bu_reporter (sr_user s') = on_equity_sample eq (bu_reporter (sr_user s))"
    and "sr_fill_count s' = sr_fill_count s"
  shows "books_ok cfg s'"
proof -
  obtain ops ms where ops: "bu_reporter (sr_user s) =
      fold reporter_step ops (reporter_init (bt_initial_capital (c_backtest cfg)) (bt_risk_free_rate (c_backtest cfg)) ms)"
    "length (fill_ops ops) = sr_fill_count s" "set (fill_ops ops) \<subseteq> {(0, True)}"
    using assms(1) by (auto simp: books_ok_def)
  then show ?thesis
    unfolding books_ok_def
    by (intro exI [of _ "ops @ [Sample eq]"] exI [of _ ms]) (simp add: assms(2,3))
qed

lemma push_db_frame [simp]:
  "en_pt (push_db ev e) = en_pt e" "en_rm (push_db ev e) = en_rm e" "env_halted (push_db ev e) = env_halted e"
  "same_clock (en_clock e) (en_clock (push_db ev e))" "en_db (push_db ev e) = en_db e"
  "\<exists>u. en_rest (push_db ev e) = (en_rest e)\<lparr>sr_user := u\<rparr>"
  "bu_reporter (user (push_db ev e)) = bu_reporter (user e)"
  "sr_fill_count (en_rest (push_db ev e)) = sr_fill_count (en_rest e)"
proof -
  show "\<exists>u. en_rest (push_db ev e) = (en_rest e)\<lparr>sr_user := u\<rparr>"
  proof (cases "bu_db (user e) = None")
    case True
    then show ?thesis
      by (intro exI [of _ "sr_user (en_rest e)"]) (simp add: push_db_def)
  qed (auto simp: push_db_def wall_now_ns_def upd_user_def upd_sim_def env_tick_def)
qed (simp_all add: push_db_def wall_now_ns_def upd_user_def upd_sim_def env_tick_def env_halted_def user_def Let_def)

lemma backtest_fill_frame:
  "rest_frame e (backtest_fill f e)" "\<exists>u. en_rest (backtest_fill f e) = (en_rest e)\<lparr>sr_user := u\<rparr>"
  "bu_reporter (sr_user (en_rest (backtest_fill f e))) = reporter_on_fill 0 True (bu_reporter (sr_user (en_rest e)))"
  "sr_fill_count (en_rest (backtest_fill f e)) = sr_fill_count (en_rest e)"
proof -
  define e1 where "e1 = upd_user (\<lambda>u. u\<lparr>bu_reporter := reporter_on_fill 0 True (bu_reporter u)\<rparr>) (e\<lparr>en_pt := snd (apply_fill f (en_pt e))\<rparr>)"
  obtain ev where b: "backtest_fill f e = push_db ev e1"
    by (simp add: backtest_fill_def e1_def)
  have e1: "en_rm e1 = en_rm e" "env_halted e1 = env_halted e" "en_clock e1 = en_clock e" "en_db e1 = en_db e"
    "en_rest e1 = (en_rest e)\<lparr>sr_user := (sr_user (en_rest e))\<lparr>bu_reporter := reporter_on_fill 0 True (bu_reporter (sr_user (en_rest e)))\<rparr>\<rparr>"
    by (simp_all add: e1_def upd_user_def upd_sim_def env_halted_def)
  show "rest_frame e (backtest_fill f e)"
    using push_db_frame(4) [of e1 ev] by (simp add: b rest_frame_def e1)
  show "sr_fill_count (en_rest (backtest_fill f e)) = sr_fill_count (en_rest e)"
    by (simp add: b e1)
  show "bu_reporter (sr_user (en_rest (backtest_fill f e))) = reporter_on_fill 0 True (bu_reporter (sr_user (en_rest e)))"
    using push_db_frame(7) [of ev e1] by (simp add: b user_def e1)
  obtain u where "en_rest (push_db ev e1) = (en_rest e1)\<lparr>sr_user := u\<rparr>"
    using push_db_frame(6) [of ev e1] by blast
  then show "\<exists>u. en_rest (backtest_fill f e) = (en_rest e)\<lparr>sr_user := u\<rparr>"
    by (intro exI [of _ u]) (simp add: b e1)
qed

interpretation backtest_rest: rest_contract backtest_client
  by (rule sim_contract) (simp add: on_fill_quiet_def backtest_fill_frame)

lemma books_ok_scan_one:
  assumes "books_ok cfg (en_rest (snd s))"
  shows "books_ok cfg (en_rest (snd (scan_one (Some backtest_fill) cid s)))"
proof -
  obtain finished e where s: "s = (finished, e)"
    by fastforce
  show ?thesis
  proof (cases "map_of (sr_pending (en_rest e)) cid")
    case None
    then show ?thesis
      using assms by (simp add: s scan_one_def)
  next
    case (Some p)
    show ?thesis
    proof (cases "po_qty p - po_executed p \<le> 0 \<or> crossed_qty (en_rest e) p \<le> 0")
      case True
      then show ?thesis
        using assms Some by (auto simp: s scan_one_def Let_def)
    next
      case False
      let ?q = "crossed_qty (en_rest e) p"
      define e1 where "e1 = upd_sim (apply_inv_fill (if 0 < po_side p then ?q else - ?q) (po_price p))
        (upd_sim (\<lambda>s. s\<lparr>sr_pending := AList.update cid (p\<lparr>po_executed := po_executed p + ?q\<rparr>) (sr_pending s),
           sr_fill_count := sr_fill_count s + 1\<rparr>) e)"
      have e1: "sr_user (en_rest e1) = sr_user (en_rest e)" "sr_fill_count (en_rest e1) = sr_fill_count (en_rest e) + 1"
        by (simp_all add: e1_def apply_inv_fill_def Let_def)
      have "snd (scan_one (Some backtest_fill) cid s) =
          backtest_fill (sim_fill cid (po_symbol p) (po_side p) (po_price p) ?q (sr_last_ts_ns (en_rest e1))) e1"
        using Some False by (simp add: s scan_one_def Let_def call_on_fill_def e1_def split: option.split)
      then show ?thesis
        using books_ok_fill [OF assms] e1 by (simp add: s backtest_fill_frame)
    qed
  qed
qed

lemma books_ok_scan:
  assumes "books_ok cfg (en_rest e)"
  shows "books_ok cfg (en_rest (scan_fills (Some backtest_fill) e))"
proof -
  have "books_ok cfg (en_rest (snd (fold (scan_one (Some backtest_fill)) cids s)))" if "books_ok cfg (en_rest (snd s))" for cids s
    using that by (induction cids arbitrary: s) (simp_all add: books_ok_scan_one)
  from this [of "([], e)" "map fst (sr_pending (en_rest e))"] assms show ?thesis
    by (auto simp: scan_fills_def Let_def case_prod_beta intro: books_ok_same)
qed

lemma books_ok_place:
  assumes "books_ok cfg (en_rest e)"
  shows "books_ok cfg (en_rest (snd (rest_place backtest_client side qty price po cid e)))"
  using assms
  by (auto simp: sim_client_def sim_place_order_def rest_order_def next_oid_def Let_def case_prod_beta
      intro!: books_ok_scan intro: books_ok_same)

lemma books_ok_cancel:
  assumes "books_ok cfg (en_rest e)"
  shows "books_ok cfg (en_rest (snd (rest_cancel backtest_client cid oid e)))"
  using assms by (auto simp: sim_client_def sim_cancel_order_def Let_def split: option.split intro: books_ok_same)

interpretation backtest_books: rest_invariant backtest_client "books_ok cfg" for cfg
  by unfold_locales (rule books_ok_place books_ok_cancel, assumption)+


section \<open>One record\<close>

definition backtest_ok :: "config \<Rightarrow> backtest \<Rightarrow> bool" where
  "backtest_ok cfg bx \<longleftrightarrow>
     (\<exists>r. mm_out_ring (bx_maker bx) = Some r \<and> ring_ok r) \<and> unfilled (bx_om bx) \<and> books_ok cfg (en_rest (bx_env bx))"

lemma drive_quote_ok:
  assumes "unfilled (bx_om bx)" and "books_ok cfg (en_rest (bx_env bx))"
  shows "unfilled (bx_om (drive_quote cfg q bx)) \<and> books_ok cfg (en_rest (bx_env (drive_quote cfg q bx)))"
  using assms unfilled_on_quote [of "(bx_om bx, bx_env bx)"] backtest_books.on_quote_inv [of cfg "(bx_om bx, bx_env bx)"]
  by (simp add: drive_quote_def set_om_state_def)

lemma drain_quotes_ok:
  assumes "ring_ok r" and "unfilled (bx_om bx)" and "books_ok cfg (en_rest (bx_env bx))"
  shows "\<exists>r' bx'. drain_quotes xc cfg r bx = Some (r', bx') \<and> ring_ok r' \<and> unfilled (bx_om bx') \<and>
    books_ok cfg (en_rest (bx_env bx'))"
  using assms
proof (induction "ring_items r" arbitrary: r bx)
  case Nil
  then have "ring_pop r = None"
    by (intro ring_pop_Nil) simp_all
  then show ?case
    using Nil.prems by (subst drain_quotes.simps) simp
next
  case (Cons m ms)
  obtain r1 where r1: "ring_pop r = Some (m, r1)" "ring_ok r1" "ring_items r1 = ms"
    using ring_pop_Cons [OF Cons.prems(1)] Cons.hyps(2) by metis
  define bx1 where "bx1 = (case xc_dec_quote xc (take (unat (mg_size m)) (mg_bytes m)) of None \<Rightarrow> bx | Some q \<Rightarrow> drive_quote cfg q bx)"
  have "unfilled (bx_om bx1)" "books_ok cfg (en_rest (bx_env bx1))"
    using drive_quote_ok [OF Cons.prems(2,3)] Cons.prems(2,3) by (auto simp: bx1_def split: option.split)
  from Cons.hyps(1) [OF r1(3) [symmetric] r1(2) this] show ?case
    by (subst drain_quotes.simps) (simp add: r1(1) bx1_def)
qed

lemma run_maker_ok:
  assumes "backtest_ok cfg bx"
  shows "backtest_ok cfg (run_maker xc cfg im bx)"
proof -
  obtain r where r: "mm_out_ring (bx_maker bx) = Some r" "ring_ok r"
    using assms by (auto simp: backtest_ok_def)
  obtain sent mm rm ck db where o: "on_signals (xc_enc_quote xc) cfg im (en_pt (bx_env bx)) (env_halted (bx_env bx)) (bx_signals bx)
      (bx_maker bx, Some (en_rm (bx_env bx)), en_clock (bx_env bx), en_db (bx_env bx)) = (sent, mm, rm, ck, db)"
    using prod_cases5 by blast
  have "mm_out_ring mm = Some r \<or> (\<exists>m. mm_out_ring mm = push_or_warn m (Some r))"
    using o r(1)
    by (auto simp: on_signals_def emit_quote_def Let_def case_prod_beta split: if_splits option.splits prod.splits)
  then have "\<exists>r'. mm_out_ring mm = Some r' \<and> ring_ok r'"
    using rq.enq_ok [OF r(2)] r(2) by auto
  then show ?thesis
    using assms by (simp add: run_maker_def o backtest_ok_def Let_def)
qed

lemma strategy_step_ok:
  assumes "backtest_ok cfg bx"
  shows "\<exists>bx'. strategy_step xc cfg im fb bx = Some bx' \<and> backtest_ok cfg bx'"
proof (cases "fill_msg fb")
  case None
  then show ?thesis
    using assms by (simp add: strategy_step_def)
next
  case (Some msg)
  obtain ok sig where i: "ingest (xc_dec_snap xc) msg (bx_signals bx) = (ok, sig)"
    by fastforce
  define bx1 where "bx1 = bx\<lparr>bx_signals := sig\<rparr>"
  have 1: "backtest_ok cfg bx1"
    using assms by (simp add: bx1_def backtest_ok_def)
  define bx2 where "bx2 = run_maker xc cfg im bx1"
  have 2: "backtest_ok cfg bx2"
    unfolding bx2_def using 1 by (rule run_maker_ok)
  then obtain r where r: "mm_out_ring (bx_maker bx2) = Some r" "ring_ok r"
    by (auto simp: backtest_ok_def)
  obtain r' bx3 where "drain_quotes xc cfg r bx2 = Some (r', bx3)" "ring_ok r'" "unfilled (bx_om bx3)"
    "books_ok cfg (en_rest (bx_env bx3))"
    using drain_quotes_ok [OF r(2), of bx2 cfg xc] 2 unfolding backtest_ok_def by blast
  then show ?thesis
    using 1 r(1) by (simp add: strategy_step_def Some i Let_def bx1_def [symmetric] bx2_def [symmetric]) (simp add: backtest_ok_def)
qed

lemma books_ok_market:
  assumes "books_ok cfg (en_rest e)"
  shows "books_ok cfg (en_rest (market_step bid ask bid_qty ask_qty e))"
proof -
  let ?e = "upd_sim (\<lambda>s. s\<lparr>sr_last_bid := bid, sr_last_ask := ask, sr_last_bid_qty := bid_qty, sr_last_ask_qty := ask_qty,
       sr_last_ts_ns := 0\<rparr>) e"
  have "books_ok cfg (en_rest ?e)"
    using assms by (rule books_ok_same) simp_all
  from books_ok_scan [OF this] show ?thesis
    by (simp add: market_step_def update_market_def Let_def)
qed

lemma sample_equity_frame [simp]:
  "en_pt (sample_equity cfg e) = en_pt e"
  "bu_reporter (sr_user (en_rest (sample_equity cfg e))) =
     on_equity_sample (bt_initial_capital (c_backtest cfg) + equity (en_pt e)) (bu_reporter (sr_user (en_rest e)))"
  "sr_fill_count (en_rest (sample_equity cfg e)) = sr_fill_count (en_rest e)"
  by (simp_all add: sample_equity_def upd_user_def upd_sim_def)

lemma books_ok_sampled: "books_ok cfg (en_rest e) \<Longrightarrow> books_ok cfg (en_rest (sample_equity cfg e))"
  by (rule books_ok_sample [OF _ sample_equity_frame(2,3)])

lemma take_sample_ok:
  assumes "backtest_ok cfg bx"
  shows "backtest_ok cfg (take_sample cfg ts bid ask bid_qty ask_qty bx)"
proof -
  let ?e = "sample_equity cfg (bx_env bx)"
  have "books_ok cfg (en_rest ?e)"
    using assms by (simp add: backtest_ok_def books_ok_sampled)
  then have "books_ok cfg (en_rest (push_db ev ?e))" for ev
    by (rule books_ok_same) (use push_db_frame(7) [of ev ?e] in \<open>simp_all add: user_def\<close>)
  then show ?thesis
    using assms by (simp add: take_sample_def Let_def backtest_ok_def)
qed

lemma on_record_ok:
  assumes "backtest_ok cfg bx"
  shows "\<exists>bx'. on_record xc cfg im fb ts bid ask bid_qty ask_qty bx = Some bx' \<and> backtest_ok cfg bx'"
proof -
  have "backtest_ok cfg (upd_env (market_step bid ask (qty_floor bid_qty) (qty_floor ask_qty)) bx)"
    using assms by (simp add: backtest_ok_def upd_env_def books_ok_market)
  from strategy_step_ok [OF this, of xc im fb] show ?thesis
    by (auto simp: on_record_def take_sample_ok)
qed

lemma backtest_ok_init: "backtest_ok cfg (backtest_init cfg db counter ck)"
proof -
  obtain om ck' where om: "om_init ck = (om, ck')"
    by fastforce
  have "unfilled om"
    using unfilled_init [of ck] by (simp add: om)
  moreover have "ring_ok (ring_init 16384 byte_msg0)"
    using ring_init_ok [of 14 byte_msg0] by simp
  moreover have "books_ok cfg (sim_init sym \<lparr>bu_reporter = reporter_init (bt_initial_capital (c_backtest cfg))
      (bt_risk_free_rate (c_backtest cfg)) ms, bu_db = db, bu_counter = counter\<rparr>)" for sym ms
    unfolding books_ok_def by (intro exI [of _ "[]"] exI [of _ ms]) (simp add: sim_init_def)
  ultimately show ?thesis
    by (simp add: backtest_init_def om Let_def backtest_ok_def maker_init_def)
qed



lemma run_one_state:
  "\<exists>bx. run_one xc world fs cfg archives db counter ck =
      Some (finalize (bu_reporter (user (sample_equity cfg (bx_env bx)))), upd_env (sample_equity cfg) bx) \<and> backtest_ok cfg bx"
proof -
  define J where "J rp \<longleftrightarrow> rp_ring rp = None \<and> backtest_ok cfg (rp_user rp)" for rp :: "backtest replay"
  have step: "\<exists>rp'. emit_record world (xc_dec_snap xc) (Some (on_record xc cfg im)) data rp = Some rp' \<and> J rp'"
    if j: "J rp" for data rp im
  proof (cases "xc_dec_snap xc data")
    case None
    then show ?thesis
      using j by (simp add: emit_record_def)
  next
    case (Some snap)
    obtain bx where "on_record xc cfg im data (ms_timestamp_ns snap) (ms_best_bid snap) (ms_best_ask snap)
        (ms_bid_depth_5 snap) (ms_ask_depth_5 snap) (rp_user rp) = Some bx" "backtest_ok cfg bx"
      using on_record_ok j unfolding J_def by blast
    then show ?thesis
      using Some j by (auto simp: emit_record_def call_on_record_def count_emitted_def J_def)
  qed
  have "J ((replay_init None ck (backtest_init cfg db counter ck))\<lparr>rp_running := True\<rparr>)"
    by (simp add: J_def replay_init_def backtest_ok_init)
  then have "\<exists>rp. stream_all (emit_record world (xc_dec_snap xc) (Some (on_record xc cfg \<lparr>im_inventory = 0\<rparr>))) fs archives
      ((replay_init None ck (backtest_init cfg db counter ck))\<lparr>rp_running := True\<rparr>) = Some rp \<and> J rp"
    by (rule stream_all_invariant [rotated]) (rule step)
  then obtain rp where "stream_all (emit_record world (xc_dec_snap xc) (Some (on_record xc cfg \<lparr>im_inventory = 0\<rparr>))) fs archives
      ((replay_init None ck (backtest_init cfg db counter ck))\<lparr>rp_running := True\<rparr>) = Some rp" "J rp"
    by blast
  then show ?thesis
    by (intro exI [of _ "rp_user rp"]) (simp add: run_one_def run_sync_def J_def Let_def upd_env_def)
qed


section \<open>Properties\<close>

text \<open>C36: a backtest always ends: whatever the archives hold, damaged records included, and whatever the codecs
  answer, \<open>run_one\<close> returns statistics, no quote loop or replay loop running for ever.\<close>

theorem backtest_terminates: "\<exists>s bx. run_one xc world fs cfg archives db counter ck = Some (s, bx)"
  using run_one_state [of xc world fs cfg archives db counter ck] by blast

text \<open>C30: the statistics of a backtest account for exactly what happened in it: as many fills as the simulated
  exchange made, all of them maker fills at no captured spread, and a profit and final equity that are
  those of the position tracker when the last record has been replayed.\<close>

theorem backtest_accounting:
  assumes "run_one xc world fs cfg archives db counter ck = Some (s, bx)"
  shows "bs_fill_count s = sr_fill_count (en_rest (bx_env bx)) \<and>
    bs_maker_ratio s = (if bs_fill_count s = 0 then 0 else 1) \<and> bs_avg_spread_captured_bps s = 0 \<and>
    bs_total_pnl s = equity (en_pt (bx_env bx)) \<and>
    bs_final_equity s = bt_initial_capital (c_backtest cfg) + equity (en_pt (bx_env bx))"
proof -
  obtain bx0 where bx: "s = finalize (bu_reporter (user (sample_equity cfg (bx_env bx0))))" "bx = upd_env (sample_equity cfg) bx0"
    "backtest_ok cfg bx0"
    using run_one_state [of xc world fs cfg archives db counter ck] assms by auto
  obtain ops ms where ops: "bu_reporter (sr_user (en_rest (bx_env bx0))) =
      fold reporter_step ops (reporter_init (bt_initial_capital (c_backtest cfg)) (bt_risk_free_rate (c_backtest cfg)) ms)"
    "length (fill_ops ops) = sr_fill_count (en_rest (bx_env bx0))" "set (fill_ops ops) \<subseteq> {(0, True)}"
    using bx(3) by (auto simp: backtest_ok_def books_ok_def)
  define eq where "eq = bt_initial_capital (c_backtest cfg) + equity (en_pt (bx_env bx0))"
  have r: "bu_reporter (user (sample_equity cfg (bx_env bx0))) =
      fold reporter_step (ops @ [Sample eq]) (reporter_init (bt_initial_capital (c_backtest cfg)) (bt_risk_free_rate (c_backtest cfg)) ms)"
    by (simp add: user_def ops(1) eq_def)
  have "x = (0, True)" if "x \<in> set (fill_ops ops)" for x
    using ops(3) that by blast
  then have "filter snd (fill_ops ops) = fill_ops ops" "map fst (fill_ops ops) = replicate (length (fill_ops ops)) 0"
    by (force simp: filter_id_conv intro!: replicate_eqI)+
  then show ?thesis
    unfolding bx(1) r reporter_run
    by (simp add: finalize_def Let_def stats0_def reporter_init_def bx(2) upd_env_def ops(2) eq_def sum_list_replicate)
qed

text \<open>The order manager of a backtest never learns of a fill: the simulated exchange reports fills to the
  position tracker only, so in the end, however many fills there were, no slot is filled or partly filled
  and none has executed anything; an order that has traded still counts as live.\<close>

theorem backtest_fills_unseen:
  assumes "run_one xc world fs cfg archives db counter ck = Some (s, bx)"
  shows "sl_executed (slot i (bx_om bx)) = 0 \<and> sl_state (slot i (bx_om bx)) \<noteq> S_FILLED \<and>
    sl_state (slot i (bx_om bx)) \<noteq> S_PARTIALLY_FILLED"
proof -
  obtain bx0 where "bx = upd_env (sample_equity cfg) bx0" "backtest_ok cfg bx0"
    using run_one_state [of xc world fs cfg archives db counter ck] assms by auto
  then show ?thesis
    by (simp add: backtest_ok_def unfilled_def upd_env_def)
qed

definition demo_xc :: backtest_codecs where
  "demo_xc = \<lparr>xc_enc_quote = (\<lambda>_. [1]), xc_dec_quote = (\<lambda>_. None), xc_dec_snap = (\<lambda>_. None)\<rparr>"

theorem backtest_accounting_witness:
  "\<exists>s bx. run_one demo_xc demo_world (\<lambda>_. None) demo_cfg [''a''] None 0 demo_clock = Some (s, bx) \<and>
     bs_total_pnl s = equity (en_pt (bx_env bx)) \<and> bs_avg_spread_captured_bps s = 0"
proof -
  obtain s bx where "run_one demo_xc demo_world (\<lambda>_. None) demo_cfg [''a''] None 0 demo_clock = Some (s, bx)"
    using run_one_state [of demo_xc demo_world "\<lambda>_. None" demo_cfg "[''a'']" None 0 demo_clock] by blast
  then show ?thesis
    using backtest_accounting by fastforce
qed

theorem backtest_fills_unseen_witness:
  "\<exists>s bx. run_one demo_xc demo_world (\<lambda>_. None) demo_cfg [''a''] None 0 demo_clock = Some (s, bx) \<and>
     sl_state (slot BID (bx_om bx)) \<noteq> S_FILLED"
proof -
  obtain s bx where "run_one demo_xc demo_world (\<lambda>_. None) demo_cfg [''a''] None 0 demo_clock = Some (s, bx)"
    using run_one_state [of demo_xc demo_world "\<lambda>_. None" demo_cfg "[''a'']" None 0 demo_clock] by blast
  then show ?thesis
    using backtest_fills_unseen by fastforce
qed


section \<open>Calibration\<close>

lemma run_grid_rows:
  "\<exists>rows. run_grid xc world fs archives cs counter ck = Some rows \<and> map fst rows = cs \<and>
     list_all (\<lambda>(c, s). \<exists>counter ck bx. run_one xc world fs c archives None counter ck = Some (s, bx)) rows"
proof (induction cs arbitrary: counter ck)
  case (Cons c cs)
  obtain s bx where r: "run_one xc world fs c archives None counter ck = Some (s, bx)"
    using run_one_state [of xc world fs c archives None counter ck] by blast
  obtain rows where "run_grid xc world fs archives cs (bu_counter (user (bx_env bx))) (en_clock (bx_env bx)) = Some rows" "map fst rows = cs"
    "list_all (\<lambda>(c, s). \<exists>counter ck bx. run_one xc world fs c archives None counter ck = Some (s, bx)) rows"
    using Cons by blast
  then show ?case
    using r by auto
qed simp

text \<open>Calibration runs a backtest for each of the eight configurations that replace \<open>gamma\<close>, \<open>k\<close> and the
  horizon by 0.05 or 0.2, 1 or 3, and 1 or 30 and nothing else, and returns statistics of one of these
  runs whose Sharpe ratio none of the others exceeds.\<close>

theorem calibration_best:
  "\<exists>rows best csv'. run_calibration_smoke xc world fs cfg archives can_write csv counter ck = Some (best, csv') \<and>
     map fst rows = [cfg\<lparr>c_strategy := (c_strategy cfg)\<lparr>st_gamma := g, st_k := k, st_horizon := h\<rparr>\<rparr>.
       g \<leftarrow> [1 / 20, 1 / 5], k \<leftarrow> [1, 3], h \<leftarrow> [1, 30]] \<and>
     list_all (\<lambda>(c, s). \<exists>counter ck bx. run_one xc world fs c archives None counter ck = Some (s, bx)) rows \<and>
     best \<in> set (map snd rows) \<and> list_all (\<lambda>(c, s). bs_sharpe_ratio s \<le> bs_sharpe_ratio best) rows"
proof -
  obtain rows where rows: "run_grid xc world fs archives (calibration_grid cfg) counter ck = Some rows"
    "map fst rows = calibration_grid cfg"
    "list_all (\<lambda>(c, s). \<exists>counter ck bx. run_one xc world fs c archives None counter ck = Some (s, bx)) rows"
    using run_grid_rows by blast
  define sorted_rows where "sorted_rows = sort_key (\<lambda>r. - bs_sharpe_ratio (snd r)) rows"
  have "length (map fst rows) = 8"
    unfolding rows(2) by (simp add: calibration_grid_def)
  then have "sorted_rows \<noteq> []"
    by (auto simp: sorted_rows_def simp flip: length_greater_0_conv)
  then obtain r rs where r: "sorted_rows = r # rs"
    by (cases sorted_rows) auto
  have set: "set sorted_rows = set rows"
    by (simp add: sorted_rows_def)
  have "sorted (map (\<lambda>r. - bs_sharpe_ratio (snd r)) sorted_rows)"
    by (simp add: sorted_rows_def)
  then have best: "\<forall>x \<in> set rows. bs_sharpe_ratio (snd x) \<le> bs_sharpe_ratio (snd r)"
    using set r by auto
  have "run_calibration_smoke xc world fs cfg archives can_write csv counter ck =
      Some (snd r, if can_write then Some (calibration_header @ concat (map calibration_row sorted_rows)) else csv)"
    using r by (simp add: run_calibration_smoke_def rows(1) Let_def flip: sorted_rows_def)
  moreover have "map fst rows = [cfg\<lparr>c_strategy := (c_strategy cfg)\<lparr>st_gamma := g, st_k := k, st_horizon := h\<rparr>\<rparr>.
       g \<leftarrow> [1 / 20, 1 / 5], k \<leftarrow> [1, 3], h \<leftarrow> [1, 30]]"
    by (simp add: rows(2) calibration_grid_def)
  moreover have "snd r \<in> set (map snd rows)"
    using set r by auto
  moreover have "list_all (\<lambda>(c, s). bs_sharpe_ratio s \<le> bs_sharpe_ratio (snd r)) rows"
    using best by (auto simp: list_all_iff)
  ultimately show ?thesis
    using rows(3) by blast
qed

end
