(* ===== verification/DepthRest.thy ===== *)
theory DepthRest
  imports OkxRest PublicWs
begin

text \<open>
  The REST depth snapshot of \<open>src/src/market_data/depth_snapshot.cpp\<close>, which the tick processor asks for
  when its book is out of sequence: the request, the judgement of the reply and its decoding.  libcurl
  is the parameter \<open>perform\<close>, the JSON parser the parameter \<open>parse\<close>; a level that is not an array of at
  least two elements counts as an exception of the parser.
\<close>

section \<open>The request\<close>

text \<open>\<open>toupper\<close> in the C locale.\<close>

definition upper_char :: "char \<Rightarrow> char" where
  "upper_char c = (if 97 \<le> (of_char c :: nat) \<and> (of_char c :: nat) \<le> 122 then char_of ((of_char c :: nat) - 32) else c)"

definition upper :: "string \<Rightarrow> string" where
  "upper s = map upper_char s"

definition depth_url :: "config \<Rightarrow> string" where
  "depth_url cfg =
     md_rest_depth_url (c_market_data cfg) @ ''?symbol='' @ upper (md_symbol (c_market_data cfg)) @ ''&limit='' @
     dec_int (md_depth_levels (c_market_data cfg))"

definition depth_request :: "config \<Rightarrow> http_request" where
  "depth_request cfg = \<lparr>hq_method = ''GET'', hq_url = depth_url cfg, hq_headers = [''User-Agent: spreadara/0.1''],
     hq_body = None, hq_timeout_ms = 5000\<rparr>"


section \<open>The reply\<close>

text \<open>\<open>parse_double\<close>, whose output starts at zero in the two callers.\<close>

definition depth_double :: "json \<Rightarrow> double" where
  "depth_double v =
     (case v of
        JStr s \<Rightarrow> (case stod s of Some d \<Rightarrow> d | None \<Rightarrow> 0)
      | _ \<Rightarrow> (case as_double (Some v) of Some d \<Rightarrow> d | None \<Rightarrow> 0))"

definition depth_level :: "json \<Rightarrow> price_level option" where
  "depth_level v =
     (case as_array (Some v) of
        Some (p # q # _) \<Rightarrow> Some \<lparr>pl_price = depth_double p, pl_qty = depth_double q\<rparr>
      | _ \<Rightarrow> None)"

text \<open>One side of the book; \<open>None\<close> is an exception.\<close>

definition depth_side :: "string \<Rightarrow> json \<Rightarrow> price_level list option" where
  "depth_side key doc =
     (case as_array (jfield key doc) of None \<Rightarrow> None | Some vs \<Rightarrow> those (map depth_level (take 20 vs)))"

definition depth_of_json :: "json \<Rightarrow> depth_snapshot option" where
  "depth_of_json doc =
     (case as_int (jfield ''lastUpdateId'' doc) of
        None \<Rightarrow> None
      | Some lu \<Rightarrow>
          if \<not> (- (2 ^ 63) \<le> lu \<and> lu < 2 ^ 63) then None
          else
            (case (depth_side ''bids'' doc, depth_side ''asks'' doc) of
               (Some bids, Some asks) \<Rightarrow>
                 if bids = [] \<or> asks = [] then None
                 else Some \<lparr>ds_last_update_id = word_of_int lu,
                   ds_bids = bids @ replicate (20 - length bids) level0, ds_asks = asks @ replicate (20 - length asks) level0,
                   ds_bid_count = length bids, ds_ask_count = length asks\<rparr>
             | _ \<Rightarrow> None))"

definition depth_reply :: "(string \<Rightarrow> json option) \<Rightarrow> http_reply \<Rightarrow> depth_snapshot option" where
  "depth_reply parse rep =
     (case rep of
        HttpFail rc \<Rightarrow> None
      | HttpReply code body \<Rightarrow> if code < 200 \<or> 300 \<le> code then None else Option.bind (parse body) depth_of_json)"

definition fetch_depth_snapshot :: "(string \<Rightarrow> json option) \<Rightarrow> (http_request \<Rightarrow> http_reply) \<Rightarrow> config \<Rightarrow> depth_snapshot option" where
  "fetch_depth_snapshot parse perform cfg = depth_reply parse (perform (depth_request cfg))"


section \<open>Into the book\<close>

lemma depth_side_length: "depth_side key doc = Some ls \<Longrightarrow> length ls \<le> 20"
  by (auto simp: depth_side_def dest!: length_those split: option.splits)

lemma depth_of_json_cases:
  assumes "depth_of_json doc = Some s"
  obtains lu bids asks where "as_int (jfield ''lastUpdateId'' doc) = Some lu" and "ds_last_update_id s = word_of_int lu"
    and "depth_side ''bids'' doc = Some bids" and "depth_side ''asks'' doc = Some asks" and "bids \<noteq> []" and "asks \<noteq> []"
    and "ds_bids s = bids @ replicate (20 - length bids) level0" and "ds_bid_count s = length bids"
    and "ds_asks s = asks @ replicate (20 - length asks) level0" and "ds_ask_count s = length asks"
  using assms by (auto simp: depth_of_json_def split: option.splits if_splits)

lemma fetch_depth_shape: "fetch_shape (fetch_depth_snapshot parse perform cfg)"
proof (cases "fetch_depth_snapshot parse perform cfg")
  case (Some s)
  then obtain doc where "depth_of_json doc = Some s"
    by (auto simp: fetch_depth_snapshot_def depth_reply_def bind_eq_Some_conv split: http_reply.splits if_splits)
  then obtain bids asks where "depth_side ''bids'' doc = Some bids" "depth_side ''asks'' doc = Some asks"
    "ds_bids s = bids @ replicate (20 - length bids) level0" "ds_asks s = asks @ replicate (20 - length asks) level0"
    by (rule depth_of_json_cases)
  then show ?thesis
    using depth_side_length Some by (simp add: fetch_shape_def snapshot_shape_def kMaxLevels_def)
qed (simp add: fetch_shape_def)

text \<open>C32: a depth update that finds the book out of sequence makes the processor fetch a snapshot; where the reply
  is a success with a readable \<open>lastUpdateId\<close> and two non-empty sides, the book afterwards has exactly
  the first twenty levels of each side, bids from the highest price down and asks from the lowest up,
  at the snapshot's update id, whatever it held before.\<close>

theorem resync_from_rest:
  assumes "\<not> dpe_is_snapshot ev" and "ob_needs_resync b \<or> \<not> has_data b"
    and "perform (depth_request cfg) = HttpReply code body" and "200 \<le> code" and "code < 300" and "parse body = Some doc"
    and "as_int (jfield ''lastUpdateId'' doc) = Some lu" and "- (2 ^ 63) \<le> lu" and "lu < 2 ^ 63"
    and "depth_side ''bids'' doc = Some bids" and "depth_side ''asks'' doc = Some asks" and "bids \<noteq> []" and "asks \<noteq> []"
  shows "live_bids (apply_depth (fetch_depth_snapshot parse perform cfg) ev b) = sort_key (\<lambda>l. - pl_price l) bids \<and>
    live_asks (apply_depth (fetch_depth_snapshot parse perform cfg) ev b) = sort_key pl_price asks \<and>
    ob_last_update_id (apply_depth (fetch_depth_snapshot parse perform cfg) ev b) = word_of_int lu \<and>
    \<not> ob_needs_resync (apply_depth (fetch_depth_snapshot parse perform cfg) ev b)"
proof -
  have len: "length bids \<le> 20" "length asks \<le> 20"
    using assms(10,11) depth_side_length by auto
  have "fetch_depth_snapshot parse perform cfg =
      Some \<lparr>ds_last_update_id = word_of_int lu,
        ds_bids = bids @ replicate (20 - length bids) level0, ds_asks = asks @ replicate (20 - length asks) level0,
        ds_bid_count = length bids, ds_ask_count = length asks\<rparr>"
    using assms(3-13) by (simp add: fetch_depth_snapshot_def depth_reply_def depth_of_json_def)
  then have "apply_depth (fetch_depth_snapshot parse perform cfg) ev b =
      apply_snapshot (bids @ replicate (20 - length bids) level0) (length bids)
        (asks @ replicate (20 - length asks) level0) (length asks) (word_of_int lu) b"
    using assms(1,2) by (auto simp: apply_depth_def Let_def)
  then show ?thesis
    using len by (simp add: live_snapshot kMaxLevels_def) (simp add: apply_snapshot_def Let_def)
qed

definition demo_depth_doc :: json where
  "demo_depth_doc = JObj [(''lastUpdateId'', JInt 9), (''bids'', JArr [JArr [JStr ''99'', JStr ''1''], JArr [JStr ''98'', JStr ''2'']]),
     (''asks'', JArr [JArr [JStr ''101'', JInt 3]])]"

theorem resync_from_rest_witness:
  "length (live_bids (apply_depth (fetch_depth_snapshot (\<lambda>_. Some demo_depth_doc) (\<lambda>_. HttpReply 200 []) (load_config toml_empty))
     (me_depth market_event0) book_init)) = 2"
proof -
  obtain bids asks where l: "depth_side ''bids'' demo_depth_doc = Some bids" "length bids = 2"
    "depth_side ''asks'' demo_depth_doc = Some asks" "length asks = 1"
    by (simp add: demo_depth_doc_def depth_side_def depth_level_def numeral_nat)
  have "\<not> dpe_is_snapshot (me_depth market_event0)" "\<not> has_data book_init" "as_int (jfield ''lastUpdateId'' demo_depth_doc) = Some 9"
    by (simp_all add: market_event0_def has_data_def book_init_def demo_depth_doc_def)
  with l show ?thesis
    using resync_from_rest [of "me_depth market_event0" book_init "\<lambda>_. HttpReply 200 []" "load_config toml_empty" 200 "[]" "\<lambda>_. Some demo_depth_doc"
        demo_depth_doc 9 bids asks] by (auto simp: length_0_conv [symmetric] simp del: length_0_conv)
qed

end
