(* ===== verification/Startup.thy ===== *)
theory Startup
  imports Backtest
begin

text \<open>
  The first half of \<open>main\<close> in \<open>src/src/main.cpp\<close>: the command line, \<open>--validate-config\<close>, the testnet
  override, the search for backtest archives and the credentials.  The environment is a lookup, the
  data directory the list of its entries in the order the iterator gives them, text and binary files
  are looked up by path.  Everything up to the point where the live threads are created is one
  function, \<open>start_up\<close>.
\<close>

section \<open>The command line\<close>

record cli =
  cl_cfg_path :: string
  cl_backtest :: bool
  cl_calibration_smoke :: bool
  cl_record :: bool
  cl_validate_config :: bool

definition cli0 :: cli where
  "cli0 = \<lparr>cl_cfg_path = ''config/config.toml'', cl_backtest = False, cl_calibration_smoke = False,
     cl_record = False, cl_validate_config = False\<rparr>"

definition parse_arg :: "string \<Rightarrow> cli \<Rightarrow> cli" where
  "parse_arg a c =
     (if a = ''--backtest'' then c\<lparr>cl_backtest := True\<rparr>
      else if a = ''--calibration-smoke'' \<or> a = ''--calibration_smoke'' then c\<lparr>cl_calibration_smoke := True\<rparr>
      else if a = ''--record'' then c\<lparr>cl_record := True\<rparr>
      else if a = ''--validate-config'' then c\<lparr>cl_validate_config := True\<rparr>
      else if a \<noteq> [] \<and> hd a \<noteq> CHR ''-'' then c\<lparr>cl_cfg_path := a\<rparr>
      else c)"

definition parse_args :: "string list \<Rightarrow> cli" where
  "parse_args argv = fold parse_arg argv cli0"


section \<open>Checking a configuration\<close>

type_synonym getenv = "string \<Rightarrow> string option"

definition env_set :: "getenv \<Rightarrow> string \<Rightarrow> bool" where
  "env_set getenv v = (case getenv v of None \<Rightarrow> False | Some s \<Rightarrow> s \<noteq> [])"

definition okx_vars :: "string list" where
  "okx_vars = [''SPREADARA_OKX_API_KEY'', ''SPREADARA_OKX_API_SECRET'', ''SPREADARA_OKX_PASSPHRASE'']"

definition pg_dsn_var :: string where
  "pg_dsn_var = ''SPREADARA_PG_DSN''"

definition okx_name :: string where
  "okx_name = ''okx''"

definition has_prefix :: "string \<Rightarrow> string \<Rightarrow> bool" where
  "has_prefix p s \<longleftrightarrow> take (length p) s = p"

text \<open>The name, the verdict and the detail of each \<open>report\<close>, in order.\<close>

definition validate_checks :: "config \<Rightarrow> getenv \<Rightarrow> (string \<times> bool \<times> string) list" where
  "validate_checks cfg getenv =
     (let name = ex_name (c_exchange cfg);
          ws = md_ws_base_url (c_market_data cfg);
          rs = ec_rest_base_url (c_execution cfg)
      in [(''exchange_name'', name = [] \<or> name = okx_name,
             ''cfg.exchange.name must be '' @ [CHR 0x27] @ ''okx'' @ [CHR 0x27] @ '' or empty; got '' @ [CHR 0x27] @ name @ [CHR 0x27]),
          (''ws_base_url'', has_prefix ''wss://'' ws, ''expect wss:// scheme: '' @ ws),
          (''rest_base_url'', has_prefix ''https://'' rs, ''expect https:// scheme: '' @ rs),
          (''min_tick_positive'', 0 < st_min_tick (c_strategy cfg), ''min_tick='' @ to_string_f (st_min_tick (c_strategy cfg))),
          (''qty_step_positive'', 0 < st_qty_step (c_strategy cfg), ''qty_step='' @ to_string_f (st_qty_step (c_strategy cfg))),
          (''symbol_set'', md_symbol (c_market_data cfg) \<noteq> [], ''market_data.symbol empty'')] @
         (if name = okx_name then map (\<lambda>v. (v, env_set getenv v, ''env var unset'')) okx_vars else []) @
         [(pg_dsn_var, env_set getenv pg_dsn_var, ''env var unset'')] @
         (if name = okx_name
          then [(''contract_size_positive'', 0 < ex_contract_size (c_exchange cfg), ''exchange.contract_size must be > 0 for OKX'')]
          else []))"

definition report_line :: "string \<times> bool \<times> string \<Rightarrow> string" where
  "report_line r =
     (case r of (name, ok, detail) \<Rightarrow>
       (if ok then ''PASS '' @ name else ''FAIL '' @ name @ '': '' @ detail) @ [CHR 0x0A])"

text \<open>The output and the exit code.\<close>

definition validate_config :: "config \<Rightarrow> getenv \<Rightarrow> string \<times> int" where
  "validate_config cfg getenv =
     (let rs = validate_checks cfg getenv;
          fails = length (filter (\<lambda>(name, ok, detail). \<not> ok) rs)
      in (concat (map report_line rs), if fails = 0 then 0 else 1))"


section \<open>Testnet and credentials\<close>

definition apply_testnet :: "config \<Rightarrow> config" where
  "apply_testnet cfg =
     (let tn = c_testnet cfg in
      if \<not> tn_enabled tn then cfg
      else
        let cfg = (if tn_ws_base_url tn = [] then cfg
                   else cfg\<lparr>c_market_data := (c_market_data cfg)\<lparr>md_ws_base_url := tn_ws_base_url tn\<rparr>\<rparr>)
        in if tn_rest_base_url tn = [] then cfg
           else cfg\<lparr>c_execution := (c_execution cfg)\<lparr>ec_rest_base_url := tn_rest_base_url tn\<rparr>\<rparr>)"

definition load_creds :: "getenv \<Rightarrow> credentials option" where
  "load_creds getenv =
     (case (getenv (okx_vars ! 0), getenv (okx_vars ! 1), getenv (okx_vars ! 2)) of
        (Some key, Some sec, Some pass) \<Rightarrow>
          if key = [] \<or> sec = [] \<or> pass = [] then None
          else Some \<lparr>cr_api_key = key, cr_api_secret = sec, cr_api_passphrase = pass\<rparr>
      | _ \<Rightarrow> None)"


section \<open>Backtest archives\<close>

text \<open>\<open>filename\<close>, \<open>extension\<close> and \<open>replace_extension\<close> of \<open>std::filesystem::path\<close>, and \<open>find\<close>.\<close>

definition file_name :: "string \<Rightarrow> string" where
  "file_name p = rev (takeWhile (\<lambda>c. c \<noteq> CHR ''/'') (rev p))"

definition file_ext :: "string \<Rightarrow> string" where
  "file_ext p =
     (let f = rev (file_name p); rest = dropWhile (\<lambda>c. c \<noteq> CHR ''.'') f
      in if rest = [] \<or> tl rest = [] \<or> f = ''..'' then [] else ''.'' @ rev (takeWhile (\<lambda>c. c \<noteq> CHR ''.'') f))"

definition replace_ext :: "string \<Rightarrow> string \<Rightarrow> string" where
  "replace_ext p ext = take (length p - length (file_ext p)) p @ ext"

fun occurs :: "string \<Rightarrow> string \<Rightarrow> bool" where
  "occurs w [] \<longleftrightarrow> w = []"
| "occurs w (c # s) \<longleftrightarrow> has_prefix w (c # s) \<or> occurs w s"

definition entry_matches :: "string \<Rightarrow> string \<Rightarrow> string \<Rightarrow> bool" where
  "entry_matches ext symbol p \<longleftrightarrow> file_ext p = ext \<and> occurs symbol (file_name p)"

definition bin_ext :: string where "bin_ext = ''.bin''"
definition csv_ext :: string where "csv_ext = ''.csv''"

record files =
  fl_bins :: "string \<Rightarrow> u8 list option"
  fl_csvs :: "string \<Rightarrow> string option"
  fl_can_write :: "string \<Rightarrow> bool"

text \<open>One CSV file of the directory: the archive joins the list if it has a row; the file is there either way.\<close>

definition convert_csv ::
  "(market_snapshot \<Rightarrow> u8 list) \<Rightarrow> config \<Rightarrow> string \<Rightarrow> string list \<times> files \<Rightarrow> (string list \<times> files) option" where
  "convert_csv enc cfg p s =
     (let (archives, fl) = s; bin = replace_ext p bin_ext
      in map_option (\<lambda>(ok, out).
           (if ok then archives @ [bin] else archives,
            case out of None \<Rightarrow> fl | Some bs \<Rightarrow> fl\<lparr>fl_bins := (fl_bins fl)(bin := Some bs)\<rparr>))
           (load_csv enc cfg (fl_csvs fl p) (fl_can_write fl bin)))"

fun convert_csvs ::
  "(market_snapshot \<Rightarrow> u8 list) \<Rightarrow> config \<Rightarrow> string list \<Rightarrow> string list \<times> files \<Rightarrow> (string list \<times> files) option" where
  "convert_csvs enc cfg [] s = Some s"
| "convert_csvs enc cfg (p # ps) s = Option.bind (convert_csv enc cfg p s) (convert_csvs enc cfg ps)"

definition find_archives ::
  "(market_snapshot \<Rightarrow> u8 list) \<Rightarrow> config \<Rightarrow> string list \<Rightarrow> files \<Rightarrow> (string list \<times> files) option" where
  "find_archives enc cfg dir fl =
     (let symbol = md_symbol (c_market_data cfg);
          archives = filter (entry_matches bin_ext symbol) dir
      in map_option (\<lambda>(archives, fl). (sort archives, fl))
           (if archives = [] then convert_csvs enc cfg (filter (entry_matches csv_ext symbol) dir) ([], fl)
            else Some (archives, fl)))"


section \<open>The decision of main\<close>

datatype start_result =
    StartExit int
  | StartCalibration config "string list"
  | StartBacktest config "string list"
  | StartLive config credentials

text \<open>\<open>load\<close> reads and parses the configuration file, \<open>None\<close> where it throws; \<open>dir\<close> is the data
  directory, which the configuration names.\<close>

definition offline_start ::
  "(market_snapshot \<Rightarrow> u8 list) \<Rightarrow> cli \<Rightarrow> config \<Rightarrow> (string \<Rightarrow> string list) \<Rightarrow> files \<Rightarrow> (start_result \<times> files) option" where
  "offline_start enc c cfg dir fl =
     map_option (\<lambda>(archives, fl).
       (if archives = [] then StartExit 3
        else if cl_calibration_smoke c then StartCalibration cfg archives
        else StartBacktest cfg archives, fl))
       (find_archives enc cfg (dir (bt_data_dir (c_backtest cfg))) fl)"

definition live_start :: "getenv \<Rightarrow> config \<Rightarrow> start_result" where
  "live_start getenv cfg = (case load_creds getenv of None \<Rightarrow> StartExit 2 | Some cr \<Rightarrow> StartLive cfg cr)"

definition start_up ::
  "(market_snapshot \<Rightarrow> u8 list) \<Rightarrow> (string \<Rightarrow> toml option) \<Rightarrow> getenv \<Rightarrow> (string \<Rightarrow> string list) \<Rightarrow> string list \<Rightarrow> files
     \<Rightarrow> (start_result \<times> files) option" where
  "start_up enc load getenv dir argv fl =
     (let c = parse_args argv in
      case load (cl_cfg_path c) of
        None \<Rightarrow> Some (StartExit 1, fl)
      | Some tbl \<Rightarrow>
          let cfg = load_config tbl in
          if cl_validate_config c then Some (StartExit (snd (validate_config cfg getenv)), fl)
          else if ex_name (c_exchange cfg) \<noteq> [] \<and> ex_name (c_exchange cfg) \<noteq> okx_name then Some (StartExit 4, fl)
          else
            let cfg = apply_testnet cfg
            in if cl_backtest c \<or> cl_calibration_smoke c then offline_start enc c cfg dir fl
               else Some (live_start getenv cfg, fl))"

text \<open>What the offline modes run, the statistics they print.\<close>

definition run_offline ::
  "backtest_codecs \<Rightarrow> replay_world \<Rightarrow> files \<Rightarrow> start_result \<Rightarrow> string option \<Rightarrow> bool \<Rightarrow> nanos \<Rightarrow> nanos \<Rightarrow> db_ring
     \<Rightarrow> clock \<Rightarrow> backtest_stats option" where
  "run_offline xc world fl r out can_write now_csv now_day db ck =
     (case r of
        StartCalibration cfg archives \<Rightarrow>
          map_option fst (run_calibration_smoke xc world (fl_bins fl) cfg archives can_write out 0 ck)
      | StartBacktest cfg archives \<Rightarrow>
          map_option fst (run_backtest xc world (fl_bins fl) cfg archives out can_write now_csv now_day db 0 ck)
      | _ \<Rightarrow> None)"

end
