(* ===== verification/StartupProps.thy ===== *)
theory StartupProps
  imports Startup
begin

text \<open>
  What the first half of \<open>main\<close> guarantees: a configuration that \<open>--validate-config\<close> passes starts the
  engine, the testnet switch replaces the endpoints but not the keys, and a CSV file without rows
  changes what the next start does.
\<close>

section \<open>Validation\<close>

lemma has_creds_iff: "load_creds getenv \<noteq> None \<longleftrightarrow> list_all (env_set getenv) okx_vars"
  by (simp add: load_creds_def okx_vars_def env_set_def nth_Cons' split: option.split)

lemma validate_passes:
  "snd (validate_config cfg getenv) = 0 \<longleftrightarrow> list_all (\<lambda>r. fst (snd r)) (validate_checks cfg getenv)"
  by (force simp: validate_config_def Let_def filter_empty_conv list_all_iff)

text \<open>C35: a configuration and environment that \<open>--validate-config\<close> accepts start the live engine with the same
  arguments less that flag, with the testnet endpoints in place and the credentials of the
  environment; the one way it can still fail is that no exchange name is set, where the validation
  does not look at the credentials and the start does (exit code 2).\<close>

theorem validated_config_starts:
  assumes "load (cl_cfg_path (parse_args argv)) = Some tbl"
    and "snd (validate_config (load_config tbl) getenv) = 0"
    and "\<not> cl_validate_config (parse_args argv)" and "\<not> cl_backtest (parse_args argv)"
    and "\<not> cl_calibration_smoke (parse_args argv)"
  shows "start_up enc load getenv dir argv fl =
      Some (case load_creds getenv of None \<Rightarrow> StartExit 2 | Some cr \<Rightarrow> StartLive (apply_testnet (load_config tbl)) cr, fl) \<and>
    (load_creds getenv = None \<longrightarrow> ex_name (c_exchange (load_config tbl)) = [])"
proof -
  define cfg where "cfg = load_config tbl"
  have checks: "list_all (\<lambda>r. fst (snd r)) (validate_checks cfg getenv)"
    using assms(2) by (simp only: validate_passes cfg_def)
  then have name: "ex_name (c_exchange cfg) = [] \<or> ex_name (c_exchange cfg) = okx_name"
    by (simp add: validate_checks_def Let_def)
  have "load_creds getenv \<noteq> None" if "ex_name (c_exchange cfg) = okx_name"
    unfolding has_creds_iff using checks that by (simp add: validate_checks_def Let_def list_all_iff)
  then show ?thesis
    using assms(1,3,4,5) name
    by (auto simp: start_up_def Let_def live_start_def simp flip: cfg_def split: option.split)
qed


text \<open>A configuration file with an exchange section and the testnet switched on, and an environment.\<close>

definition demo_url :: string where "demo_url = ''https://t''"
definition demo_ws_url :: string where "demo_ws_url = ''wss://t''"

definition demo_start_toml :: toml where
  "demo_start_toml = toml_empty\<lparr>
     tm_str := (\<lambda>sec key. if key = ''name'' then Some okx_name else if key = ''symbol'' then Some ''B''
       else if key = ''ws_base_url'' then Some demo_ws_url else if key = ''rest_base_url'' then Some demo_url else None),
     tm_f64 := (\<lambda>sec key. if key = ''contract_size'' then Some 1 else None),
     tm_bool := (\<lambda>sec key. if sec = ''testnet'' then Some True else None)\<rparr>"

definition demo_env :: getenv where
  "demo_env = (\<lambda>v. Some v)"

definition demo_files :: files where
  "demo_files = \<lparr>fl_bins = (\<lambda>_. None), fl_csvs = (\<lambda>_. Some ''h''), fl_can_write = (\<lambda>_. True)\<rparr>"

lemma demo_start_cfg:
  "ex_name (c_exchange (load_config demo_start_toml)) = okx_name"
  "md_symbol (c_market_data (load_config demo_start_toml)) = ''B''"
  "md_ws_base_url (c_market_data (load_config demo_start_toml)) = demo_ws_url"
  "ec_rest_base_url (c_execution (load_config demo_start_toml)) = demo_url"
  "tn_enabled (c_testnet (load_config demo_start_toml))"
  "tn_rest_base_url (c_testnet (load_config demo_start_toml)) = demo_url"
  "0 < st_min_tick (c_strategy (load_config demo_start_toml))"
  "0 < st_qty_step (c_strategy (load_config demo_start_toml))"
  "0 < ex_contract_size (c_exchange (load_config demo_start_toml))"
  by (simp_all add: load_config_def mirror_exchange_def load_exchange_def load_market_data_def load_execution_def
      load_strategy_def load_testnet_def demo_start_toml_def toml_empty_def okx_name_def demo_ws_url_def demo_url_def)

lemma demo_creds:
  "load_creds demo_env = Some \<lparr>cr_api_key = okx_vars ! 0, cr_api_secret = okx_vars ! 1, cr_api_passphrase = okx_vars ! 2\<rparr>"
  by (simp add: load_creds_def demo_env_def okx_vars_def)

lemma demo_checks: "snd (validate_config (load_config demo_start_toml) demo_env) = 0"
  unfolding validate_passes
  by (simp add: validate_checks_def demo_start_cfg Let_def demo_env_def env_set_def okx_vars_def pg_dsn_var_def)
    (simp add: has_prefix_def demo_ws_url_def demo_url_def)

lemma demo_args:
  "parse_args [] = cli0" "parse_args [''--backtest''] = cli0\<lparr>cl_backtest := True\<rparr>"
  by (simp_all add: parse_args_def parse_arg_def)

theorem validated_config_starts_witness:
  "start_up (\<lambda>_. [1]) (\<lambda>_. Some demo_start_toml) demo_env (\<lambda>_. []) [] demo_files =
    Some (StartLive (apply_testnet (load_config demo_start_toml))
      \<lparr>cr_api_key = okx_vars ! 0, cr_api_secret = okx_vars ! 1, cr_api_passphrase = okx_vars ! 2\<rparr>, demo_files)"
  using validated_config_starts [of "\<lambda>_. Some demo_start_toml" "[]" demo_start_toml demo_env "\<lambda>_. [1]" "\<lambda>_. []" demo_files, OF _ demo_checks]
  by (simp add: demo_args demo_creds) (simp add: cli0_def)


section \<open>Testnet\<close>

text \<open>Whatever the testnet switch says, the keys of a live start are the production keys of the environment:
  with the switch on, the market data and REST endpoints are the configured testnet ones and the
  credentials sent to them are still those of \<open>SPREADARA_OKX_API_KEY\<close>, \<open>SPREADARA_OKX_API_SECRET\<close>
  and \<open>SPREADARA_OKX_PASSPHRASE\<close>; no other variable is read for them.\<close>

theorem testnet_uses_production_keys:
  assumes "start_up enc load getenv dir argv fl = Some (StartLive cfg cr, fl')"
    and "tn_enabled (c_testnet cfg)"
  shows "map getenv okx_vars = [Some (cr_api_key cr), Some (cr_api_secret cr), Some (cr_api_passphrase cr)] \<and>
    (tn_rest_base_url (c_testnet cfg) \<noteq> [] \<longrightarrow> ec_rest_base_url (c_execution cfg) = tn_rest_base_url (c_testnet cfg)) \<and>
    (tn_ws_base_url (c_testnet cfg) \<noteq> [] \<longrightarrow> md_ws_base_url (c_market_data cfg) = tn_ws_base_url (c_testnet cfg))"
proof -
  obtain cfg0 where cfg: "cfg = apply_testnet cfg0" "load_creds getenv = Some cr"
    using assms(1)
    by (auto simp: start_up_def live_start_def offline_start_def Let_def split: option.splits if_splits)
  have tn: "c_testnet cfg = c_testnet cfg0"
    by (simp add: cfg(1) apply_testnet_def Let_def)
  moreover have "map getenv okx_vars = [Some (cr_api_key cr), Some (cr_api_secret cr), Some (cr_api_passphrase cr)]"
    using cfg(2) by (auto simp: load_creds_def okx_vars_def split: option.splits if_splits)
  moreover have "tn_enabled (c_testnet cfg0)"
    using assms(2) by (simp only: tn)
  ultimately show ?thesis
    by (simp add: cfg(1) apply_testnet_def Let_def)
qed

theorem testnet_uses_production_keys_witness:
  "\<exists>cfg cr. start_up (\<lambda>_. [1]) (\<lambda>_. Some demo_start_toml) demo_env (\<lambda>_. []) [] demo_files = Some (StartLive cfg cr, demo_files) \<and>
     tn_enabled (c_testnet cfg) \<and> Some (cr_api_key cr) = demo_env (hd okx_vars) \<and> ec_rest_base_url (c_execution cfg) = demo_url"
proof -
  let ?cfg = "apply_testnet (load_config demo_start_toml)"
  let ?cr = "\<lparr>cr_api_key = okx_vars ! 0, cr_api_secret = okx_vars ! 1, cr_api_passphrase = okx_vars ! 2\<rparr>"
  have start: "start_up (\<lambda>_. [1]) (\<lambda>_. Some demo_start_toml) demo_env (\<lambda>_. []) [] demo_files = Some (StartLive ?cfg ?cr, demo_files)"
    by (simp add: start_up_def demo_args Let_def live_start_def demo_creds demo_start_cfg) (simp add: cli0_def)
  have tn: "c_testnet ?cfg = c_testnet (load_config demo_start_toml)"
    by (simp add: apply_testnet_def Let_def)
  have "demo_url \<noteq> []"
    by (simp add: demo_url_def)
  then have "map demo_env okx_vars = [Some (cr_api_key ?cr), Some (cr_api_secret ?cr), Some (cr_api_passphrase ?cr)] \<and>
      ec_rest_base_url (c_execution ?cfg) = demo_url"
    using testnet_uses_production_keys [OF start] by (simp add: tn demo_start_cfg)
  then have "Some (cr_api_key ?cr) = demo_env (hd okx_vars) \<and> ec_rest_base_url (c_execution ?cfg) = demo_url"
    by (simp add: okx_vars_def)
  then show ?thesis
    using start demo_start_cfg(5) tn by metis
qed


section \<open>Archives\<close>

lemma load_csv_no_rows:
  assumes "csv_file_snaps cfg body = []"
  shows "load_csv enc cfg (Some body) True = Some (False, Some [])"
  using load_csv_records [of enc cfg body] assms by simp

text \<open>A CSV file without a usable row turns an error into an empty success: the first backtest start finds
  nothing to replay and exits with code 3, but leaves the empty archive it opened; the next start,
  the directory now listing that archive, replays it and reports a run without a fill or a profit.\<close>

theorem failed_conversion_sticks:
  assumes "load (cl_cfg_path (parse_args argv)) = Some tbl" and "cfg = load_config tbl" and "ex_name (c_exchange cfg) = okx_name"
    and "\<not> cl_validate_config (parse_args argv)" and "cl_backtest (parse_args argv)" and "\<not> cl_calibration_smoke (parse_args argv)"
    and "file_ext csv = csv_ext" and "occurs (md_symbol (c_market_data (apply_testnet cfg))) (file_name csv)"
    and "entry_matches bin_ext (md_symbol (c_market_data (apply_testnet cfg))) (replace_ext csv bin_ext)"
    and "fl_csvs fl csv = Some body" and "fl_can_write fl (replace_ext csv bin_ext)"
    and "csv_file_snaps (apply_testnet cfg) body = []"
  shows "\<exists>fl'. start_up enc load getenv (\<lambda>_. [csv]) argv fl = Some (StartExit 3, fl') \<and>
    start_up enc load getenv (\<lambda>_. [csv, replace_ext csv bin_ext]) argv fl' =
      Some (StartBacktest (apply_testnet cfg) [replace_ext csv bin_ext], fl') \<and>
    (\<exists>s. run_offline xc world fl' (StartBacktest (apply_testnet cfg) [replace_ext csv bin_ext]) out can_write now_csv now_day db ck = Some s \<and>
      bs_fill_count s = 0 \<and> bs_total_pnl s = 0)"
proof -
  define bin where "bin = replace_ext csv bin_ext"
  define fl' where "fl' = fl\<lparr>fl_bins := (fl_bins fl)(bin := Some [])\<rparr>"
  let ?tn = "apply_testnet cfg"
  let ?r = "finalize (bu_reporter (user (bx_env (upd_env (sample_equity ?tn) (backtest_init ?tn db 0 ck)))))"
  have ext: "csv_ext \<noteq> bin_ext" "okx_name \<noteq> []"
    by (simp_all add: csv_ext_def bin_ext_def okx_name_def)
  have starts: "start_up enc load getenv dir argv files = offline_start enc (parse_args argv) ?tn dir files" for dir files
    using assms(1-6) ext(2) by (simp add: start_up_def Let_def)
  have "convert_csv enc ?tn csv ([], fl) = Some ([], fl')"
    using assms(10-12) by (simp add: convert_csv_def load_csv_no_rows fl'_def Let_def flip: bin_def)
  then have "find_archives enc ?tn [csv] fl = Some ([], fl')"
    using assms(7,8) ext by (simp add: find_archives_def entry_matches_def Let_def)
  moreover have "find_archives enc ?tn [csv, bin] fl' = Some ([bin], fl')"
    using assms(7,9) ext by (simp add: find_archives_def entry_matches_def Let_def flip: bin_def)
  moreover have "run_offline xc world fl' (StartBacktest ?tn [bin]) out can_write now_csv now_day db ck = Some ?r"
    by (simp add: run_offline_def run_backtest_def run_one_def run_sync_def stream_archive_def fl'_def stream_records.simps
        replay_init_def option.map_comp comp_def Let_def)
  moreover have "bs_fill_count ?r = 0 \<and> bs_total_pnl ?r = 0"
    by (simp add: finalize_def Let_def stats0_def user_def upd_env_def sample_equity_def upd_user_def upd_sim_def
        backtest_init_def case_prod_beta sim_init_def reporter_init_def on_equity_sample_def equity_def tracker_init_def
        unrealized_pnl_def)
  ultimately show ?thesis
    unfolding bin_def [symmetric]
    by (intro exI [of _ fl'] conjI exI [of _ ?r]) (simp_all add: starts offline_start_def assms(6))
qed

definition demo_csv_path :: string where "demo_csv_path = ''B.csv''"

lemma demo_path:
  "file_ext demo_csv_path = csv_ext" "occurs ''B'' (file_name demo_csv_path)"
  "entry_matches bin_ext ''B'' (replace_ext demo_csv_path bin_ext)"
  by code_simp+

theorem failed_conversion_sticks_witness:
  "\<exists>fl'. start_up (\<lambda>_. [1]) (\<lambda>_. Some demo_start_toml) demo_env (\<lambda>_. [demo_csv_path]) [''--backtest''] demo_files = Some (StartExit 3, fl') \<and>
    (\<exists>cfg a. start_up (\<lambda>_. [1]) (\<lambda>_. Some demo_start_toml) demo_env (\<lambda>_. [demo_csv_path, replace_ext demo_csv_path bin_ext]) [''--backtest''] fl' =
      Some (StartBacktest cfg [a], fl'))"
proof -
  have sym: "md_symbol (c_market_data (apply_testnet (load_config demo_start_toml))) = ''B''"
    using demo_start_cfg(2) by (simp add: apply_testnet_def Let_def)
  have "csv_file_snaps cfg ''h'' = []" for cfg
    by (simp add: csv_file_snaps_def csv_rows_def)
  moreover have "\<not> cl_validate_config (parse_args [''--backtest''])" "cl_backtest (parse_args [''--backtest''])"
    "\<not> cl_calibration_smoke (parse_args [''--backtest''])"
    by (simp_all add: demo_args cli0_def)
  ultimately show ?thesis
    using failed_conversion_sticks [where enc = "\<lambda>_. [1]" and load = "\<lambda>_. Some demo_start_toml" and argv = "[''--backtest'']" and csv = demo_csv_path
        and fl = demo_files and body = "''h''", OF refl refl demo_start_cfg(1)]
    by (fastforce simp: sym demo_path demo_files_def)
qed

end
