(* ===== verification/Tools.thy ===== *)
theory Tools
  imports Startup
begin

text \<open>
  The small parts around the engine: the time-stamp counter (\<open>src/src/infra/rdtsc.cpp\<close>), the core pinning
  of \<open>src/src/infra/cpu_affinity.cpp\<close>, the log level of \<open>src/src/infra/logger.cpp\<close>, the credentials
  check of \<open>src/src/execution/credentials.cpp\<close>, the standalone converter \<open>src/tools/convert_binance_csv.cpp\<close>, and
  the stubs \<open>FixClient\<close> and \<open>DashboardServer\<close>.
\<close>

section \<open>The time-stamp counter\<close>

text \<open>The counter per nanosecond over the sleep of 50 ms; the counter is read as an unsigned difference.\<close>

definition calibrate_tsc :: "clock \<Rightarrow> double \<times> clock" where
  "calibrate_tsc ck =
     (let t0 = steady_now ck; ck = clock_tick ck;
          c0 = tsc_now ck; ck = clock_tick ck;
          t1 = steady_now ck; ck = clock_tick ck;
          c1 = tsc_now ck; ck = clock_tick ck;
          ns = of_int (t1 - t0);
          cycles = real (unat (c1 - c0))
      in (cycles / ns, ck))"

text \<open>The cast is defined while the quotient fits 64 bits.\<close>

definition cycles_to_ns :: "double \<Rightarrow> u64 \<Rightarrow> u64" where
  "cycles_to_ns ghz cycles = (if ghz \<le> 0 then 0 else word_of_int \<lfloor>real (unat cycles) / ghz\<rfloor>)"

text \<open>
  With a counter of \<open>f\<close> cycles per nanosecond that may wrap around, calibration finds \<open>f\<close>, and from then
  on the cycles of \<open>n\<close> nanoseconds are read as \<open>n\<close>.
\<close>

lemma calibrated_cycles:
  assumes "steady_now (clock_tick (clock_tick ck)) = steady_now ck + int ns" and "0 < ns"
    and "tsc_now (clock_tick (clock_tick (clock_tick ck))) = tsc_now (clock_tick ck) + of_nat (f * ns)"
    and "f * ns < 2 ^ 64"
  shows "fst (calibrate_tsc ck) = real f"
    and "0 < f \<Longrightarrow> f * n < 2 ^ 64 \<Longrightarrow> cycles_to_ns (fst (calibrate_tsc ck)) (of_nat (f * n)) = of_nat n"
proof -
  have "unat (of_nat (f * ns) :: u64) = f * ns"
    using assms(4) by (simp add: unat_of_nat del: of_nat_mult)
  moreover have "tsc_now (clock_tick (clock_tick (clock_tick ck))) - tsc_now (clock_tick ck) = of_nat (f * ns)"
    using assms(3) by (simp only: add_diff_cancel_left')
  moreover have "steady_now (clock_tick (clock_tick ck)) - steady_now ck = int ns"
    using assms(1) by (simp only: add_diff_cancel_left')
  ultimately have "fst (calibrate_tsc ck) = real (f * ns) / of_int (int ns)"
    by (simp only: calibrate_tsc_def Let_def fst_conv)
  with assms(2) show 1: "fst (calibrate_tsc ck) = real f"
    by simp
  show "cycles_to_ns (fst (calibrate_tsc ck)) (of_nat (f * n)) = of_nat n" if f: "0 < f" "f * n < 2 ^ 64"
  proof -
    have "unat (of_nat (f * n) :: u64) = f * n"
      using f(2) by (simp add: unat_of_nat del: of_nat_mult)
    then have "\<lfloor>real (unat (of_nat (f * n) :: u64)) / real f\<rfloor> = int n"
      using f(1) by simp
    then show ?thesis
      unfolding 1 cycles_to_ns_def using f(1) by (simp del: of_nat_mult)
  qed
qed

text \<open>\<open>pinned\<close> is the answer of \<open>pthread_setaffinity_np\<close>.\<close>

definition pin_current_thread_to_core :: "(int \<Rightarrow> bool) \<Rightarrow> int \<Rightarrow> bool" where
  "pin_current_thread_to_core pinned core = (if core < 0 then False else pinned core)"


section \<open>The converter\<close>

text \<open>\<open>csv.substr(0, csv.find_last_of('.')) + ".bin"\<close>; without a dot \<open>substr\<close> takes all.\<close>

definition converted_path :: "string \<Rightarrow> string" where
  "converted_path csv =
     (if CHR ''.'' \<in> set csv then rev (tl (dropWhile (\<lambda>c. c \<noteq> CHR ''.'') (rev csv))) else csv) @ bin_ext"

text \<open>
  The arguments without the program's name; \<open>cfg0\<close> is a \<open>Config\<close> whose members have not been set.  The
  exit code and the files afterwards.
\<close>

definition convert_main ::
  "(market_snapshot \<Rightarrow> u8 list) \<Rightarrow> (string \<Rightarrow> toml option) \<Rightarrow> config \<Rightarrow> string list \<Rightarrow> files \<Rightarrow> (int \<times> files) option" where
  "convert_main enc load cfg0 argv fl =
     (case argv of
        [] \<Rightarrow> Some (1, fl)
      | csv # rest \<Rightarrow>
          let bin = (if rest = [] then converted_path csv else rest ! 0);
              cfg_path = (if 2 \<le> length rest then rest ! 1 else ''config/config.toml'');
              cfg = (case load cfg_path of
                       Some tbl \<Rightarrow> load_config tbl
                     | None \<Rightarrow> cfg0\<lparr>c_market_data := (c_market_data cfg0)\<lparr>md_volatility_window := 100\<rparr>\<rparr>)
          in map_option (\<lambda>(ok, out).
               (if ok then 0 else 2,
                case out of None \<Rightarrow> fl | Some bs \<Rightarrow> fl\<lparr>fl_bins := (fl_bins fl)(bin := Some bs)\<rparr>))
               (load_csv enc cfg (fl_csvs fl csv) (fl_can_write fl bin)))"

lemma csv_file_snaps_window:
  "csv_window cfg = csv_window cfg' \<Longrightarrow> csv_file_snaps cfg text = csv_file_snaps cfg' text"
  by (simp add: csv_file_snaps_def split: list.split)

text \<open>
  A run of the converter on a readable file: the archive streams as exactly the snapshots of the file, and
  the exit code says whether there is one.  Without a configuration file it converts as with the default one.
\<close>

lemma convert_main_archive:
  assumes "fl_csvs fl csv = Some body" and "fl_can_write fl bin"
    and "cfg = load_config (case load cfg_path of Some tbl \<Rightarrow> tbl | None \<Rightarrow> toml_empty)"
    and "list_all (\<lambda>snap. record_ok (enc snap)) (csv_file_snaps cfg body)"
  shows "\<exists>fl'. convert_main enc load cfg0 [csv, bin, cfg_path] fl =
      Some (if csv_file_snaps cfg body = [] then 2 else 0, fl') \<and>
    (\<forall>f s. stream_archive f (fl_bins fl' bin) s = map_option (Pair True) (run_records f (map enc (csv_file_snaps cfg body)) s))"
proof -
  define c where "c = (case load cfg_path of
      Some tbl \<Rightarrow> load_config tbl | None \<Rightarrow> cfg0\<lparr>c_market_data := (c_market_data cfg0)\<lparr>md_volatility_window := 100\<rparr>\<rparr>)"
  have "csv_window c = csv_window cfg"
    by (cases "load cfg_path")
      (simp_all add: c_def assms(3) csv_window_def load_config_def mirror_exchange_def Let_def load_market_data_def toml_empty_def)
  then have s: "csv_file_snaps c body = csv_file_snaps cfg body"
    by (rule csv_file_snaps_window)
  let ?out = "concat (map record_bytes (map enc (csv_file_snaps cfg body)))"
  have "load_csv enc c (Some body) True = Some (csv_file_snaps cfg body \<noteq> [], Some ?out)"
    using load_csv_records [of enc c body] assms(4) by (simp only: s)
  then have "convert_main enc load cfg0 [csv, bin, cfg_path] fl =
      Some (if csv_file_snaps cfg body = [] then 2 else 0, fl\<lparr>fl_bins := (fl_bins fl)(bin := Some ?out)\<rparr>)"
    using assms(1,2) by (simp add: convert_main_def Let_def flip: c_def)
  moreover have "stream_archive f (Some ?out) s = map_option (Pair True) (run_records f (map enc (csv_file_snaps cfg body)) s)" for f s
    using stream_split [of "map enc (csv_file_snaps cfg body)" "[]" f s] assms(4)
    by (simp add: stream_archive_def starts_record_def list_all_iff)
  ultimately show ?thesis
    by fastforce
qed

text \<open>The last dot may belong to a directory: a path without an extension loses its file name.\<close>

lemma converted_path_dot: "converted_path ''./dump'' = ''.bin''" "converted_path ''data/dump.csv'' = ''data/dump.bin''"
  by code_simp+

text \<open>
  An archive that is already there hides every CSV file of the directory: they are neither read nor
  converted, whatever days they hold.
\<close>

lemma archives_hide_csvs:
  assumes "filter (entry_matches bin_ext (md_symbol (c_market_data cfg))) dir \<noteq> []"
  shows "find_archives enc cfg dir fl = Some (sort (filter (entry_matches bin_ext (md_symbol (c_market_data cfg))) dir), fl)"
  using assms by (simp add: find_archives_def Let_def)


section \<open>Log level and credentials\<close>

datatype log_level = LTrace | LDebug | LInfo | LWarn | LErr | LCritical

definition parse_level :: "string \<Rightarrow> log_level" where
  "parse_level s =
     (if s = ''trace'' then LTrace
      else if s = ''debug'' then LDebug
      else if s = ''info'' then LInfo
      else if s = ''warn'' \<or> s = ''warning'' then LWarn
      else if s = ''error'' then LErr
      else if s = ''critical'' then LCritical
      else LInfo)"

definition credentials_present :: "getenv \<Rightarrow> bool" where
  "credentials_present getenv \<longleftrightarrow> env_set getenv ''SPREADARA_API_KEY'' \<and> env_set getenv ''SPREADARA_API_SECRET''"

text \<open>
  The variables it looks at are not those \<open>main\<close> needs: an environment may have the one set and not
  the other, either way.
\<close>

lemma credentials_checks_differ:
  "\<exists>getenv. credentials_present getenv \<and> load_creds getenv = None"
  "\<exists>getenv. \<not> credentials_present getenv \<and> load_creds getenv \<noteq> None"
proof -
  let ?readme = "\<lambda>v. if v = ''SPREADARA_API_KEY'' \<or> v = ''SPREADARA_API_SECRET'' then Some ''x'' else None"
  have "credentials_present ?readme \<and> load_creds ?readme = None"
    by code_simp
  then show "\<exists>getenv. credentials_present getenv \<and> load_creds getenv = None"
    by blast
  let ?main = "\<lambda>v. if list_ex (\<lambda>u. u = v) okx_vars then Some ''x'' else None"
  have "\<not> credentials_present ?main \<and> load_creds ?main \<noteq> None"
    by code_simp
  then show "\<exists>getenv. \<not> credentials_present getenv \<and> load_creds getenv \<noteq> None"
    by blast
qed


section \<open>Stubs\<close>

text \<open>Every method of \<open>FixClient\<close> logs and returns a value-initialised result.\<close>

definition fix_place_order :: "string \<Rightarrow> double \<Rightarrow> double \<Rightarrow> bool \<Rightarrow> string \<Rightarrow> order_ack" where
  "fix_place_order side qty price post_only cid = order_ack0"

definition fix_cancel_order :: "string \<Rightarrow> int \<Rightarrow> cancel_ack" where
  "fix_cancel_order cid oid = cancel_ack0"

definition fix_amend_order :: "int \<Rightarrow> double \<Rightarrow> double \<Rightarrow> string \<Rightarrow> bool \<Rightarrow> string \<Rightarrow> amend_ack" where
  "fix_amend_order oid price qty side post_only cid = amend_ack0"

definition fix_query_positions :: positions_snapshot where
  "fix_query_positions = \<lparr>ps_ok = False, ps_positions = [], ps_http_code = 0\<rparr>"

definition fix_query_open_orders :: open_orders_snapshot where
  "fix_query_open_orders = \<lparr>os_ok = False, os_orders = [], os_http_code = 0\<rparr>"

definition dashboard_start :: "string \<Rightarrow> int \<Rightarrow> bool" where
  "dashboard_start bind_host port = False"

definition dashboard_stop :: bool where
  "dashboard_stop = False"

end
