(* ===== verification/Engine.thy ===== *)
theory Engine
  imports Startup OrderTrace TickProcessor
begin

text \<open>
  The second half of \<open>main\<close> in \<open>src/src/main.cpp\<close>: the preflight against the exchange, and the running
  engine as the interleaving of its threads, each thread contributing one round of its loop at a
  time.  The threads are the processor of the feed, the strategy, the order manager's quote, fill,
  halt and reconcile loops, the breaker's poll, the private stream that injects fills, and the
  once-a-second reporting thread.  A round that the process would not survive is \<open>None\<close>.
\<close>

section \<open>Preflight\<close>

text \<open>The orders found at the start are cancelled one by one; the first that cannot be ends the start.\<close>

fun preflight_cancels :: "'r rest_client \<Rightarrow> open_order_entry list \<Rightarrow> 'r env \<Rightarrow> bool \<times> 'r env" where
  "preflight_cancels rest [] e = (True, e)"
| "preflight_cancels rest (ord # ords) e =
     (let (c, e) = rest_cancel rest (oe_client_order_id ord) (oe_exchange_order_id ord) e;
          gone = (ca_ok c \<or> ca_exchange_code c = 51400 \<or> ca_exchange_code c = - 2011)
      in if \<not> gone then (False, e) else preflight_cancels rest ords e)"

definition preflight_cid :: "nanos \<Rightarrow> string" where
  "preflight_cid now = ''sprpf'' @ dec_int now"

definition preflight_flatten :: "config \<Rightarrow> 'r rest_client \<Rightarrow> positions_snapshot \<Rightarrow> 'r env \<Rightarrow> bool \<times> 'r env" where
  "preflight_flatten cfg rest ps e =
     (let net = foldl (\<lambda>net p. net + pe_position_amt p) 0 (ps_positions ps);
          thr = ec_flatten_threshold (c_execution cfg)
      in if thr < net \<or> net < - thr then
           let side = (if 0 < net then ''SELL'' else ''BUY'');
               qty = (if 0 < net then net else - net);
               cid = preflight_cid (steady_now (en_clock e));
               (a, e) = rest_market rest side qty cid (env_tick e)
           in (oa_ok a, e)
         else (True, e))"

text \<open>The flag is false where the process exits with code 1.\<close>

definition preflight :: "config \<Rightarrow> 'r rest_client \<Rightarrow> 'r env \<Rightarrow> bool \<times> 'r env" where
  "preflight cfg rest e =
     (let (oo, e) = rest_open_orders rest e
      in if \<not> os_ok oo then (False, e)
         else
           let (ok, e) = preflight_cancels rest (os_orders oo) e
           in if \<not> ok then (False, e)
              else
                let (ps, e) = rest_positions rest e
                in if \<not> ps_ok ps then (False, e) else preflight_flatten cfg rest ps e)"


section \<open>The engine\<close>

record 'r engine =
  eg_tick :: tick_proc
  eg_signals :: signals
  eg_maker :: market_maker
  eg_om :: order_manager
  eg_env :: "'r env"

record engine_codecs =
  ek_enc_snap :: "market_snapshot \<Rightarrow> u8 list"
  ek_dec_snap :: "u8 list \<Rightarrow> market_snapshot option"
  ek_enc_quote :: "quote_update \<Rightarrow> u8 list"
  ek_dec_quote :: "u8 list \<Rightarrow> quote_update option"
  ek_orders :: codecs

text \<open>The components as \<open>main\<close> constructs them around the environment the preflight leaves.\<close>

definition env_new :: "db_ring \<Rightarrow> clock \<Rightarrow> 'r \<Rightarrow> 'r env" where
  "env_new db ck r =
     \<lparr>en_pt = tracker_init, en_rm = risk_init, en_cb = breaker_init (Some (ring_init 1024 byte_msg0)),
      en_db = db, en_clock = ck, en_rest = r\<rparr>"

definition engine_init :: "config \<Rightarrow> bool \<Rightarrow> 'r env \<Rightarrow> 'r engine" where
  "engine_init cfg recording e =
     (let (om, ck) = om_init (en_clock e)
      in \<lparr>eg_tick = tick_init cfg (Some (ring_init 16384 byte_msg0))
             (if recording then Some (ring_init 16384 byte_msg0) else None) ck,
          eg_signals = signals0,
          eg_maker = maker_init (Some (ring_init 16384 byte_msg0)),
          eg_om = om,
          eg_env = e\<lparr>en_clock := ck\<rparr>\<rparr>)"

definition engine_start :: "config \<Rightarrow> 'r rest_client \<Rightarrow> bool \<Rightarrow> db_ring \<Rightarrow> clock \<Rightarrow> 'r \<Rightarrow> 'r engine option" where
  "engine_start cfg rest recording db ck r =
     (let (ok, e) = preflight cfg rest (env_new db ck r) in if ok then Some (engine_init cfg recording e) else None)"


section \<open>The strategy thread\<close>

text \<open>The inventory manager is the one \<open>main\<close> constructs; nothing calls its \<open>apply_fill\<close>.\<close>

definition engine_inventory :: inventory_manager where
  "engine_inventory = \<lparr>im_inventory = 0\<rparr>"

definition strategy_signals :: "engine_codecs \<Rightarrow> config \<Rightarrow> 'r engine \<Rightarrow> 'r engine" where
  "strategy_signals ek cfg g =
     (let sig = eg_signals g;
          e = eg_env g;
          e = (if 0 < sg_mid sig then e\<lparr>en_pt := update_mid (sg_mid sig) (en_pt e)\<rparr> else e);
          (sent, mm, rm, ck, db) =
            on_signals (ek_enc_quote ek) cfg engine_inventory (en_pt e) (env_halted e) sig
              (eg_maker g, Some (en_rm e), en_clock e, en_db e)
      in g\<lparr>eg_maker := mm, eg_env := e\<lparr>en_rm := the rm, en_clock := ck, en_db := db\<rparr>\<rparr>)"

definition strategy_round :: "engine_codecs \<Rightarrow> config \<Rightarrow> 'r engine \<Rightarrow> 'r engine" where
  "strategy_round ek cfg g =
     (case Option.bind (tk_snap_ring (eg_tick g)) ring_pop of
        None \<Rightarrow> g
      | Some (msg, r) \<Rightarrow>
          let g = g\<lparr>eg_tick := (eg_tick g)\<lparr>tk_snap_ring := Some r\<rparr>\<rparr>;
              (ok, sig) = ingest (ek_dec_snap ek) msg (eg_signals g);
              g = g\<lparr>eg_signals := sig\<rparr>
          in if ok then strategy_signals ek cfg g else g)"


section \<open>The order manager's threads\<close>

definition set_orders :: "'r om_state \<Rightarrow> 'r engine \<Rightarrow> 'r engine" where
  "set_orders st g = g\<lparr>eg_om := fst st, eg_env := snd st\<rparr>"

text \<open>One round of \<open>quote_loop\<close>: a quote from the ring, or the acknowledgement watchdog.\<close>

definition quote_round :: "engine_codecs \<Rightarrow> config \<Rightarrow> 'r rest_client \<Rightarrow> 'r engine \<Rightarrow> 'r engine" where
  "quote_round ek cfg rest g =
     (let st = (eg_om g, eg_env g) in
      case Option.bind (mm_out_ring (eg_maker g)) ring_pop of
        None \<Rightarrow> set_orders (check_ack_timeouts cfg rest (word_of_int (steady_now (en_clock (eg_env g))))
                  (eg_om g, env_tick (eg_env g))) g
      | Some (msg, r) \<Rightarrow>
          let g = g\<lparr>eg_maker := (eg_maker g)\<lparr>mm_out_ring := Some r\<rparr>\<rparr>
          in (case decode_quote (ek_dec_quote ek) msg of
                None \<Rightarrow> g
              | Some (bid, ask, qty) \<Rightarrow> set_orders (on_quote cfg rest bid ask qty st) g))"


section \<open>The reporting thread\<close>

definition live_snapshot :: "config \<Rightarrow> double \<Rightarrow> u64 \<Rightarrow> 'r engine \<Rightarrow> db_position_snapshot" where
  "live_snapshot cfg ghz ts g =
     (let pt = en_pt (eg_env g); ob = tk_book (eg_tick g);
          (p50, p95, p99) = latency_percentiles ghz (eg_om g)
      in \<lparr>dp_ts_ns = ts, dp_inventory = pt_inventory pt, dp_avg_entry = pt_avg_entry pt, dp_realized = pt_realized pt,
          dp_unrealized = unrealized_pnl pt, dp_fees = pt_fees pt, dp_mid = pt_mid pt,
          dp_best_bid = best_bid ob, dp_best_ask = best_ask ob, dp_spread_bps = spread_bps ob,
          dp_bid_qty = depth_sum True 1 ob, dp_ask_qty = depth_sum False 1 ob,
          dp_volatility = stdev_log_returns (tk_vol (eg_tick g)),
          dp_gamma = st_gamma (c_strategy cfg), dp_k = st_k (c_strategy cfg), dp_T = st_horizon (c_strategy cfg),
          dp_lat_p50_us = p50, dp_lat_p95_us = p95, dp_lat_p99_us = p99,
          dp_open_orders = rm_open_order_count (en_rm (eg_env g))\<rparr>)"

definition live_daily :: "nanos \<Rightarrow> position_tracker \<Rightarrow> db_daily_pnl" where
  "live_daily now pt =
     (let realized = pt_realized pt; unreal = unrealized_pnl pt; fees = pt_fees pt
      in \<lparr>dd_date = date_int now, dd_realized = realized, dd_unrealized = unreal, dd_fees = fees,
          dd_total = realized + unreal - fees\<rparr>)"

definition report_round :: "config \<Rightarrow> double \<Rightarrow> 'r engine \<Rightarrow> 'r engine" where
  "report_round cfg ghz g =
     (let e = eg_env g;
          snap = live_snapshot cfg ghz (wall_ns (en_clock e)) g;
          e = env_tick (e\<lparr>en_db := db_push (DbPosition snap) (en_db e)\<rparr>);
          daily = live_daily (wall_now (en_clock e)) (en_pt e);
          e = env_tick (e\<lparr>en_db := db_push (DbDaily daily) (en_db e)\<rparr>)
      in g\<lparr>eg_env := e\<rparr>)"


section \<open>The threads together\<close>

text \<open>\<open>fatal_cb\<close>, less the stopping of the event loop.\<close>

definition fatal_callback :: "'r env \<Rightarrow> 'r env" where
  "fatal_callback e =
     (let (cb, ck, db) = notify_ws_disconnect_exhausted (en_cb e, en_clock e, en_db e)
      in e\<lparr>en_cb := cb, en_clock := ck, en_db := db\<rparr>)"

datatype engine_op =
    EgFeed market_event "depth_snapshot option"
  | EgStrategy
  | EgQuote
  | EgFill fill_input
  | EgApplyFill
  | EgHaltWatch
  | EgReconcile
  | EgRiskPoll
  | EgReport double
  | EgFatal
  | EgShutdown

text \<open>The rounds that are operations of the order manager alone.\<close>

fun orders_op :: "engine_op \<Rightarrow> om_op option" where
  "orders_op (EgFill f) = Some (OFill f)"
| "orders_op EgApplyFill = Some OApplyFill"
| "orders_op EgHaltWatch = Some OHaltWatch"
| "orders_op EgReconcile = Some OReconcile"
| "orders_op EgRiskPoll = Some OTick"
| "orders_op EgShutdown = Some OShutdown"
| "orders_op _ = None"

definition engine_step :: "engine_codecs \<Rightarrow> config \<Rightarrow> 'r rest_client \<Rightarrow> engine_op \<Rightarrow> 'r engine \<Rightarrow> 'r engine option" where
  "engine_step ek cfg rest op g =
     (case orders_op op of
        Some om_op \<Rightarrow> Some (set_orders (om_step cfg rest (ek_orders ek) om_op (eg_om g, eg_env g)) g)
      | None \<Rightarrow>
          (case op of
             EgFeed ev fetch \<Rightarrow> map_option (\<lambda>t. g\<lparr>eg_tick := t\<rparr>) (process_event (ek_enc_snap ek) fetch ev (eg_tick g))
           | EgStrategy \<Rightarrow> Some (strategy_round ek cfg g)
           | EgQuote \<Rightarrow> Some (quote_round ek cfg rest g)
           | EgReport ghz \<Rightarrow> Some (report_round cfg ghz g)
           | _ \<Rightarrow> Some (g\<lparr>eg_env := fatal_callback (eg_env g)\<rparr>)))"

fun engine_run :: "engine_codecs \<Rightarrow> config \<Rightarrow> 'r rest_client \<Rightarrow> engine_op list \<Rightarrow> 'r engine \<Rightarrow> 'r engine option" where
  "engine_run ek cfg rest [] g = Some g"
| "engine_run ek cfg rest (op # ops) g = Option.bind (engine_step ek cfg rest op g) (engine_run ek cfg rest ops)"

end
