(* ===== verification/PreflightProps.thy ===== *)
theory PreflightProps
  imports Engine OrderProps
begin

text \<open>
  What the preflight of \<open>main\<close> guarantees: which calls it makes, and, for every exchange whose answers
  mean what they say (locale \<open>exchange\<close>), that the engine starts with no order and no position there.
\<close>

section \<open>Calls\<close>

lemma logged_calls:
  "snd (en_rest (snd (rest_cancel (logged r) cid oid e))) = snd (en_rest e) @ [CallCancel cid oid (env_halted e)]"
  "snd (en_rest (snd (rest_market (logged r) side qty cid e))) = snd (en_rest e) @ [CallMarket side qty cid (env_halted e)]"
  "snd (en_rest (snd (rest_positions (logged r) e))) = snd (en_rest e) @ [CallOther]"
  "snd (en_rest (snd (rest_open_orders (logged r) e))) = snd (en_rest e) @ [CallOther]"
  by (simp_all add: logged_def call_logged_calls)

definition cancels_order :: "open_order_entry \<Rightarrow> rest_call \<Rightarrow> bool" where
  "cancels_order ord c \<longleftrightarrow> (\<exists>h. c = CallCancel (oe_client_order_id ord) (oe_exchange_order_id ord) h)"

lemma preflight_cancels_calls:
  assumes "preflight_cancels (logged r) ords e = (ok, e')"
  shows "\<exists>cancels n. snd (en_rest e') = snd (en_rest e) @ cancels \<and> list_all2 cancels_order (take n ords) cancels \<and>
    (ok \<longrightarrow> n = length ords)"
  using assms
proof (induction ords arbitrary: e)
  case (Cons ord ords)
  obtain c e1 where c: "rest_cancel (logged r) (oe_client_order_id ord) (oe_exchange_order_id ord) e = (c, e1)"
    by (rule prod.exhaust)
  define call where "call = CallCancel (oe_client_order_id ord) (oe_exchange_order_id ord) (env_halted e)"
  have call: "snd (en_rest e1) = snd (en_rest e) @ [call]" "cancels_order ord call"
    using logged_calls(1) [of r "oe_client_order_id ord" "oe_exchange_order_id ord" e] c
    by (auto simp: call_def cancels_order_def)
  show ?case
  proof (cases "ca_ok c \<or> ca_exchange_code c = 51400 \<or> ca_exchange_code c = - 2011")
    case True
    then have "preflight_cancels (logged r) ords e1 = (ok, e')"
      using Cons.prems by (auto simp: c Let_def split: if_splits)
    from Cons.IH [OF this] obtain cancels n where "snd (en_rest e') = snd (en_rest e1) @ cancels"
      "list_all2 cancels_order (take n ords) cancels" "ok \<longrightarrow> n = length ords"
      by blast
    then show ?thesis
      using call by (intro exI [of _ "call # cancels"] exI [of _ "Suc n"]) simp
  next
    case False
    then show ?thesis
      using Cons.prems call by (intro exI [of _ "[call]"] exI [of _ 1]) (simp add: c Let_def)
  qed
qed auto

lemma net_position_foldl: "foldl (\<lambda>net p. net + pe_position_amt p) 0 (ps_positions ps) = net_position ps"
  by (simp add: net_position_def)

lemma preflight_flatten_calls:
  assumes "preflight_flatten cfg (logged r) ps e = (ok, e')"
  shows "\<exists>cid h. snd (en_rest e') = snd (en_rest e) @
    (if \<bar>net_position ps\<bar> \<le> ec_flatten_threshold (c_execution cfg) then []
     else [CallMarket (if 0 < net_position ps then ''SELL'' else ''BUY'') \<bar>net_position ps\<bar> cid h])"
proof (cases "\<bar>net_position ps\<bar> \<le> ec_flatten_threshold (c_execution cfg)")
  case True
  then have "\<not> (ec_flatten_threshold (c_execution cfg) < net_position ps \<or> net_position ps < - ec_flatten_threshold (c_execution cfg))"
    by linarith
  then show ?thesis
    using assms True by (simp add: preflight_flatten_def net_position_foldl Let_def)
next
  case False
  have abs: "(if 0 < net_position ps then net_position ps else - net_position ps) = \<bar>net_position ps\<bar>"
    by simp
  have out: "ec_flatten_threshold (c_execution cfg) < net_position ps \<or> net_position ps < - ec_flatten_threshold (c_execution cfg)"
    using False by linarith
  let ?side = "if 0 < net_position ps then ''SELL'' else ''BUY''"
  let ?qty = "if 0 < net_position ps then net_position ps else - net_position ps"
  let ?cid = "preflight_cid (steady_now (en_clock e))"
  obtain a e1 where a: "rest_market (logged r) ?side ?qty ?cid (env_tick e) = (a, e1)"
    by (rule prod.exhaust)
  have "e1 = e'"
    using assms out a by (auto simp: preflight_flatten_def net_position_foldl Let_def)
  then have "e' = snd (rest_market (logged r) ?side \<bar>net_position ps\<bar> ?cid (env_tick e))"
    using a unfolding abs by simp
  then show ?thesis
    using logged_calls(2) [of r ?side "\<bar>net_position ps\<bar>" ?cid "env_tick e"] False by auto
qed

lemma preflight_parts:
  assumes "preflight cfg rest e = (True, e')"
  obtains oo e1 e2 ps e3 where "rest_open_orders rest e = (oo, e1)" and "os_ok oo"
    and "preflight_cancels rest (os_orders oo) e1 = (True, e2)"
    and "rest_positions rest e2 = (ps, e3)" and "ps_ok ps" and "preflight_flatten cfg rest ps e3 = (True, e')"
proof -
  obtain oo e1 where oo: "rest_open_orders rest e = (oo, e1)"
    by (rule prod.exhaust)
  obtain ok e2 where c: "preflight_cancels rest (os_orders oo) e1 = (ok, e2)"
    by (rule prod.exhaust)
  obtain ps e3 where ps: "rest_positions rest e2 = (ps, e3)"
    by (rule prod.exhaust)
  have "os_ok oo \<and> ok \<and> ps_ok ps \<and> preflight_flatten cfg rest ps e3 = (True, e')"
    using assms by (auto simp: preflight_def oo c ps split: if_splits)
  then show ?thesis
    using that oo c ps by simp
qed

text \<open>A preflight that succeeds asks for the open orders, sends one cancel for each order of the answer, in its
  order, asks for the positions, and then sends nothing more or, exactly when the net position of that
  answer is beyond the flatten threshold, one market order of its size on the other side.\<close>

theorem preflight_calls:
  assumes "preflight cfg (logged r) e = (True, e')"
  shows "\<exists>oo e1 e2 ps e3 cancels cid h.
    rest_open_orders (logged r) e = (oo, e1) \<and> os_ok oo \<and> list_all2 cancels_order (os_orders oo) cancels \<and>
    snd (en_rest e2) = snd (en_rest e) @ CallOther # cancels \<and> rest_positions (logged r) e2 = (ps, e3) \<and> ps_ok ps \<and>
    snd (en_rest e') = snd (en_rest e2) @ CallOther #
      (if \<bar>net_position ps\<bar> \<le> ec_flatten_threshold (c_execution cfg) then []
       else [CallMarket (if 0 < net_position ps then ''SELL'' else ''BUY'') \<bar>net_position ps\<bar> cid h])"
proof -
  obtain oo e1 e2 ps e3 where p: "rest_open_orders (logged r) e = (oo, e1)" "os_ok oo"
    "preflight_cancels (logged r) (os_orders oo) e1 = (True, e2)"
    "rest_positions (logged r) e2 = (ps, e3)" "ps_ok ps" "preflight_flatten cfg (logged r) ps e3 = (True, e')"
    using assms by (rule preflight_parts)
  obtain cancels where c: "snd (en_rest e2) = snd (en_rest e1) @ cancels" "list_all2 cancels_order (os_orders oo) cancels"
    using preflight_cancels_calls [OF p(3)] by auto
  obtain cid h where f: "snd (en_rest e') = snd (en_rest e3) @
    (if \<bar>net_position ps\<bar> \<le> ec_flatten_threshold (c_execution cfg) then []
     else [CallMarket (if 0 < net_position ps then ''SELL'' else ''BUY'') \<bar>net_position ps\<bar> cid h])"
    using preflight_flatten_calls [OF p(6)] by blast
  have "snd (en_rest e1) = snd (en_rest e) @ [CallOther]" "snd (en_rest e3) = snd (en_rest e2) @ [CallOther]"
    using logged_calls(3) [of r e2] logged_calls(4) [of r e] p(1,4) by simp_all
  then show ?thesis
    using p c f
    by (intro exI [of _ oo] exI [of _ e1] exI [of _ e2] exI [of _ ps] exI [of _ e3] exI [of _ cancels] exI [of _ cid] exI [of _ h])
      simp
qed


section \<open>An exchange that means what it says\<close>

text \<open>
  The exchange's side of the preflight: the identifiers of the orders resting there and the net
  position, and what a positive answer says about them.  A cancel is also positive where the exchange
  says the order does not exist.
\<close>

locale exchange =
  fixes rest :: "'r rest_client"
    and open_ids :: "'r env \<Rightarrow> (string \<times> int) set"
    and net :: "'r env \<Rightarrow> double"
  assumes listed: "rest_open_orders rest e = (oo, e') \<Longrightarrow> os_ok oo \<Longrightarrow>
      open_ids e' \<subseteq> (\<lambda>ord. (oe_client_order_id ord, oe_exchange_order_id ord)) ` set (os_orders oo)"
    and cancelled: "rest_cancel rest cid oid e = (c, e') \<Longrightarrow>
      ca_ok c \<or> ca_exchange_code c = 51400 \<or> ca_exchange_code c = - 2011 \<Longrightarrow> open_ids e' \<subseteq> open_ids e - {(cid, oid)}"
    and reported: "rest_positions rest e = (ps, e') \<Longrightarrow> ps_ok ps \<Longrightarrow> net e' = net_position ps \<and> open_ids e' \<subseteq> open_ids e"
    and executed: "rest_market rest side qty cid (env_tick e) = (a, e') \<Longrightarrow> oa_ok a \<Longrightarrow> open_ids e = {} \<Longrightarrow>
      open_ids e' = {} \<and> net e' = net e + (if side = ''BUY'' then qty else - qty)"
begin

lemma preflight_cancels_all:
  assumes "preflight_cancels rest ords e = (True, e')"
  shows "open_ids e' \<subseteq> open_ids e - (\<lambda>ord. (oe_client_order_id ord, oe_exchange_order_id ord)) ` set ords"
  using assms
proof (induction ords arbitrary: e)
  case (Cons ord ords)
  obtain c e1 where c: "rest_cancel rest (oe_client_order_id ord) (oe_exchange_order_id ord) e = (c, e1)"
    by (rule prod.exhaust)
  have gone: "ca_ok c \<or> ca_exchange_code c = 51400 \<or> ca_exchange_code c = - 2011"
    and "preflight_cancels rest ords e1 = (True, e')"
    using Cons.prems by (auto simp: c Let_def split: if_splits)
  then show ?case
    using cancelled [OF c gone] Cons.IH [of e1] by fastforce
qed simp

lemma preflight_flattens:
  assumes "preflight_flatten cfg rest ps e = (True, e')" and "net e = net_position ps" and "open_ids e = {}"
  shows "open_ids e' = {} \<and> (net e' = 0 \<or> \<bar>net e'\<bar> \<le> ec_flatten_threshold (c_execution cfg))"
proof (cases "ec_flatten_threshold (c_execution cfg) < net_position ps \<or> net_position ps < - ec_flatten_threshold (c_execution cfg)")
  case True
  let ?side = "if 0 < net_position ps then ''SELL'' else ''BUY''"
  let ?qty = "if 0 < net_position ps then net_position ps else - net_position ps"
  obtain a e1 where a: "rest_market rest ?side ?qty (preflight_cid (steady_now (en_clock e))) (env_tick e) = (a, e1)"
    by (rule prod.exhaust)
  have "oa_ok a" "e1 = e'"
    using assms(1) True a by (auto simp: preflight_flatten_def net_position_foldl Let_def)
  then show ?thesis
    using executed [OF a _ assms(3)] assms(2) by (auto split: if_splits)
next
  case False
  then have "e' = e"
    using assms(1) by (simp add: preflight_flatten_def net_position_foldl Let_def)
  then show ?thesis
    using assms(2,3) False by auto
qed

lemma preflight_clean:
  assumes "preflight cfg rest e = (True, e')"
  shows "open_ids e' = {} \<and> (net e' = 0 \<or> \<bar>net e'\<bar> \<le> ec_flatten_threshold (c_execution cfg))"
proof -
  obtain oo e1 e2 ps e3 where p: "rest_open_orders rest e = (oo, e1)" "os_ok oo"
    "preflight_cancels rest (os_orders oo) e1 = (True, e2)"
    "rest_positions rest e2 = (ps, e3)" "ps_ok ps" "preflight_flatten cfg rest ps e3 = (True, e')"
    using assms by (rule preflight_parts)
  have "open_ids e3 = {}"
    using preflight_cancels_all [OF p(3)] listed [OF p(1,2)] reported [OF p(4,5)] by blast
  then show ?thesis
    using preflight_flattens [OF p(6)] reported [OF p(4,5)] by blast
qed

end

text \<open>The simulated exchange is one.\<close>

definition sim_open_ids :: "'u sim_env \<Rightarrow> (string \<times> int) set" where
  "sim_open_ids e = (\<lambda>(cid, p). (cid, po_oid p)) ` set (sr_pending (en_rest e))"

lemma apply_inv_fill_inv: "sr_inv (apply_inv_fill q px s) = sr_inv s + q" "sr_pending (apply_inv_fill q px s) = sr_pending s"
  by (simp_all add: apply_inv_fill_def Let_def)

interpretation sim_exchange: exchange "sim_client (Some track_fill)" sim_open_ids "\<lambda>e. sr_inv (en_rest e)"
proof (standard, goal_cases)
  case (1 e oo e')
  then show ?case
    by (force simp: sim_client_def sim_query_open_orders_def sim_open_ids_def)
next
  case (2 cid oid e c e')
  have "set (AList.delete cid al) \<subseteq> set al - {p. fst p = cid}" for al :: "(string \<times> pending_order) list"
    by (auto simp: AList.delete_eq)
  then show ?case
    using 2(1)
    by (force simp: sim_client_def sim_cancel_order_def sim_open_ids_def Let_def dest: map_of_eq_None_iff [THEN iffD1]
        split: option.splits)
next
  case (3 e ps e')
  then show ?case
    by (auto simp: sim_client_def sim_query_positions_def net_position_def Let_def)
next
  case (4 side qty cid e a e')
  then show ?case
    by (auto simp: sim_client_def sim_place_market_order_def Let_def next_oid_def sim_open_ids_def apply_inv_fill_inv
        call_on_fill_def track_fill_def env_tick_def split: if_splits)
qed

text \<open>C8: on any exchange whose positive answers are true (locale \<open>exchange\<close>), a successful preflight leaves no
  order of the account resting and no net position beyond the flatten threshold, whatever was there
  before.\<close>

theorem preflight_leaves_nothing:
  assumes "exchange rest open_ids net" and "preflight cfg rest e = (True, e')"
  shows "open_ids e' = {} \<and> (net e' = 0 \<or> \<bar>net e'\<bar> \<le> ec_flatten_threshold (c_execution cfg))"
  using assms by (rule exchange.preflight_clean)

text \<open>An account with an orphaned order and a position.\<close>

definition orphan_sim :: "unit sim_rest" where
  "orphan_sim = (sim_init ''S'' ())\<lparr>sr_pending := [(''a'', \<lparr>po_oid = 7, po_symbol = ''S'', po_side = 1, po_qty = 1,
     po_price = 90, po_executed = 0\<rparr>)], sr_inv := 5, sr_last_bid := 100, sr_last_ask := 101\<rparr>"

lemma orphan_preflight:
  "\<exists>e'. preflight demo_cfg demo_sim (demo_env orphan_sim) = (True, e')"
  "\<exists>e'. preflight demo_cfg (logged demo_sim) (demo_env (orphan_sim, [])) = (True, e')"
  by (simp_all add: preflight_def preflight_flatten_def demo_sim_def sim_client_def sim_query_open_orders_def orphan_sim_def
      demo_env_def sim_cancel_order_def Let_def sim_query_positions_def upd_sim_def sim_init_def sim_place_market_order_def
      next_oid_def logged_def call_logged_def unlog_def relog_def env_tick_def order_ack0_def cancel_ack0_def)

theorem preflight_calls_witness:
  "\<exists>e' calls. preflight demo_cfg (logged demo_sim) (demo_env (orphan_sim, [])) = (True, e') \<and>
     snd (en_rest e') = CallOther # calls"
proof -
  obtain e' where e': "preflight demo_cfg (logged demo_sim) (demo_env (orphan_sim, [])) = (True, e')"
    using orphan_preflight(2) by blast
  have nil: "snd (en_rest (demo_env (orphan_sim, []))) = []"
    by (simp add: demo_env_def)
  from preflight_calls [OF e'] have "\<exists>calls. snd (en_rest e') = CallOther # calls"
    unfolding nil by (elim exE conjE) (metis append_Cons append_Nil)
  then show ?thesis
    using e' by blast
qed

theorem preflight_leaves_nothing_witness:
  "\<exists>e'. preflight demo_cfg demo_sim (demo_env orphan_sim) = (True, e') \<and> sim_open_ids e' = {} \<and> \<bar>sr_inv (en_rest e')\<bar> \<le> 1 / 1000"
proof -
  obtain e' where e': "preflight demo_cfg demo_sim (demo_env orphan_sim) = (True, e')"
    using orphan_preflight(1) by blast
  have "exchange demo_sim sim_open_ids (\<lambda>e. sr_inv (en_rest e))"
    unfolding demo_sim_def by (rule sim_exchange.exchange_axioms)
  from preflight_leaves_nothing [OF this e'] show ?thesis
    using e' by auto
qed

end
