(* ===== verification/EngineDemo.thy ===== *)
theory EngineDemo
  imports PreflightProps OrderQuoting
begin

text \<open>
  A concrete engine, for the witnesses: one event on the feed, one snapshot, one quote of 99 and 101,
  and the two orders it becomes on the simulated exchange.
\<close>

section \<open>Events and codecs\<close>

definition engine_ticker :: market_event where
  "engine_ticker = market_event0\<lparr>me_type := EvBookTicker, me_book_ticker :=
     (me_book_ticker market_event0)\<lparr>bte_best_bid_price := 99, bte_best_bid_qty := 20, bte_best_ask_price := 101, bte_best_ask_qty := 20\<rparr>\<rparr>"

definition engine_snap :: market_snapshot where
  "engine_snap = \<lparr>ms_timestamp_ns = 0, ms_exchange_ts_ms = 0, ms_best_bid = 99, ms_best_ask = 101, ms_mid_price = 100,
     ms_spread_bps = 200, ms_bid_depth_5 = 20, ms_ask_depth_5 = 20, ms_last_trade_price = 0, ms_last_trade_qty = 0, ms_volatility = 0\<rparr>"

definition engine_quote :: quote_update where
  "engine_quote = make_quote (c_strategy demo_cfg) 99 101 0 0 (steady_now (snd (om_init demo_clock)))"

definition demo_ek :: engine_codecs where
  "demo_ek = \<lparr>ek_enc_snap = (\<lambda>_. [1]), ek_dec_snap = (\<lambda>_. Some engine_snap),
     ek_enc_quote = (\<lambda>q. if q = engine_quote then [1] else [2]),
     ek_dec_quote = (\<lambda>bs. if bs = [1] then Some engine_quote else None), ek_orders = demo_codecs\<rparr>"



section \<open>Placing a quote\<close>

text \<open>A state in which the demo limits approve another \<open>2 - n\<close> orders and the simulated market crosses none.\<close>

definition demo_ready :: "nat \<Rightarrow> (unit sim_rest \<times> rest_call list) env \<Rightarrow> bool" where
  "demo_ready n e \<longleftrightarrow> pt_inventory (en_pt e) = 0 \<and> pt_realized (en_pt e) = 0 \<and> (pt_mid (en_pt e) = 0 \<or> pt_mid (en_pt e) = 100) \<and>
     \<not> env_halted e \<and> length (rm_order_times (en_rm e)) \<le> n \<and> rm_open_order_count (en_rm e) \<le> 2 \<and>
     sr_last_bid (fst (en_rest e)) = 0"

lemma demo_limits:
  "rk_max_position (c_risk demo_cfg) = 2" "rk_max_order_size (c_risk demo_cfg) = 1" "rk_price_sanity_pct (c_risk demo_cfg) = 2"
  "rk_rate_limit_threshold (c_risk demo_cfg) = 1" "rk_max_daily_loss (c_risk demo_cfg) = 500" "rk_max_open_orders (c_risk demo_cfg) = 10"
  by (simp_all add: demo_cfg_def demo_risk_def load_risk_def toml_empty_def)

lemma demo_check:
  assumes "demo_ready n e" and "n \<le> 1" and "qty = 1 / 100 \<or> qty = - (1 / 100)" and "price = 99 \<or> price = 101"
  shows "\<exists>e'. env_pre_trade_check (c_risk demo_cfg) qty price e = (APPROVED, e') \<and> demo_ready n e' \<and> en_rest e' = en_rest e"
proof -
  let ?v = "risk_verdict (c_risk demo_cfg) (en_pt e) (steady_now (en_clock e)) qty price (pt_mid (en_pt e)) (en_rm e)"
  have "int (length (purge c (rm_order_times (en_rm e)))) \<le> 1" for c
    using length_purge_le [of c "rm_order_times (en_rm e)"] assms(1,2) by (simp add: demo_ready_def)
  then have v: "fst ?v = APPROVED"
    unfolding risk_verdict_APPROVED within_limits_def demo_limits
    using assms by (auto simp: demo_ready_def equity_def unrealized_pnl_def)
  then obtain rm where rm: "?v = (APPROVED, rm)"
    by (metis prod.collapse)
  have "length (rm_order_times rm) \<le> n" "rm_open_order_count rm = rm_open_order_count (en_rm e)"
    using risk_verdict_orders [of "c_risk demo_cfg" "en_pt e" "steady_now (en_clock e)" qty price "pt_mid (en_pt e)" "en_rm e"]
      risk_verdict_frame(3) [of "c_risk demo_cfg" "en_pt e" "steady_now (en_clock e)" qty price "pt_mid (en_pt e)" "en_rm e"]
      length_purge_le assms(1) by (auto simp: rm demo_ready_def intro: le_trans)
  then show ?thesis
    using assms(1) by (simp add: env_pre_trade_check_def pre_trade_check_def rm Let_def demo_ready_def env_halted_def)
qed

lemma demo_sim_place:
  assumes "sr_last_bid (fst (en_rest e)) = 0"
  shows "\<exists>a e'. rest_place (logged demo_sim) side qty price po cid e = (a, e') \<and> oa_ok a \<and> en_pt e' = en_pt e \<and> en_rm e' = en_rm e \<and>
    env_halted e' = env_halted e \<and> sr_last_bid (fst (en_rest e')) = 0 \<and>
    snd (en_rest e') = snd (en_rest e) @ [CallPlace side qty price po cid (env_halted e)]"
  using assms
  by (simp add: logged_def call_logged_def demo_sim_def sim_client_def sim_place_order_def rest_order_def next_oid_def scan_fills_def
      unlog_def relog_def Let_def env_halted_def)

lemma accept_new_env:
  "en_pt (snd (snd (accept_new i a st))) = en_pt (snd st)"
  "rm_order_times (en_rm (snd (snd (accept_new i a st)))) = rm_order_times (en_rm (snd st))"
  "rm_open_order_count (en_rm (snd (snd (accept_new i a st)))) = live_count (fst (snd (accept_new i a st)))"
  by (cases st; simp add: accept_new_def sync_open_orders_def acknowledge_def transition_def set_slot_def set_open_order_count_def Let_def)+

lemma demo_place:
  assumes "demo_ready n e" and "n \<le> 1" and "sl_side (slot i om) = slot_side i" and "price = 99 \<or> price = 101"
  shows "\<exists>om' e' cid. place_new demo_cfg (logged demo_sim) i price (1 / 100) (om, e) = (True, om', e') \<and> demo_ready (Suc n) e' \<and>
    is_live (slot i om') \<and> (\<forall>j. j \<noteq> i \<longrightarrow> slot j om' = slot j om) \<and>
    snd (en_rest e') = snd (en_rest e) @ [CallPlace (order_side i) (1 / 100) price True cid False]"
proof -
  obtain om1 e1 where p: "prepare_slot i price (1 / 100) (om, e) = (om1, e1)"
    by fastforce
  note p1 = prepare_slot_spec [OF p]
  have r1: "demo_ready n e1"
    using assms(1) p1(8-11) by (simp add: demo_ready_def env_halted_def)
  have "of_int (sl_side (slot i om1)) * (1 / 100) = (1 / 100 :: double) \<or> of_int (sl_side (slot i om1)) * (1 / 100) = (- (1 / 100) :: double)"
    using assms(3) p1(3) by (cases i) auto
  from demo_check [OF r1 assms(2) this assms(4)] obtain e2 where e2:
    "env_pre_trade_check (c_risk demo_cfg) (of_int (sl_side (slot i om1)) * (1 / 100)) price e1 = (APPROVED, e2)"
    "demo_ready n e2" "en_rest e2 = en_rest e1"
    by blast
  have "sr_last_bid (fst (en_rest (env_record_submission e2))) = 0"
    using e2(2) by (simp add: demo_ready_def)
  from demo_sim_place [OF this, of "side_str (slot i om1)" "1 / 100" price True "sl_cid (slot i om1)"] obtain a e3 where e3:
    "rest_place (logged demo_sim) (side_str (slot i om1)) (1 / 100) price True (sl_cid (slot i om1)) (env_record_submission e2) = (a, e3)"
    "oa_ok a" "en_pt e3 = en_pt e2" "en_rm e3 = en_rm (env_record_submission e2)" "env_halted e3 = env_halted e2" "sr_last_bid (fst (en_rest e3)) = 0"
    "snd (en_rest e3) = snd (en_rest e2) @ [CallPlace (side_str (slot i om1)) (1 / 100) price True (sl_cid (slot i om1)) (env_halted e2)]"
    by (auto simp: env_halted_def)
  have side: "side_str (slot i om1) = order_side i"
    using assms(3) p1(3) by (intro side_str_slot) simp
  obtain om' e' where acc: "accept_new i a (om1, e3) = (True, om', e')"
    by (simp add: accept_new_def) fastforce
  have place: "place_new demo_cfg (logged demo_sim) i price (1 / 100) (om, e) = (True, om', e')"
    using r1 by (simp add: place_new_def p e2(1) [simplified] e3(1,2) Let_def acc demo_ready_def)
  have "length (rm_order_times (en_rm (env_record_submission e2))) \<le> Suc n"
    using e2(2) length_purge_le [of _ "rm_order_times (en_rm e2)"]
    by (simp add: env_record_submission_def record_submission_def record_in_def demo_ready_def case_prod_beta) (meson Suc_le_mono le_trans)
  moreover have "live_count om2 \<le> 2" for om2
    by (simp add: live_count_def)
  ultimately have "demo_ready (Suc n) (snd (snd (accept_new i a (om1, e3))))"
    using e2(2) e3(3-6) unfolding demo_ready_def accept_new_env accept_new_frame by simp
  then have "demo_ready (Suc n) e'"
    by (simp add: acc)
  moreover have om': "om' = fst (acknowledge i a (om1, e3))"
    using arg_cong [OF acc, of "\<lambda>p. fst (snd p)"] by (simp add: accept_new_def)
  moreover have "slot i om' = (slot i om1)\<lparr>sl_oid := oa_exchange_order_id a, sl_state := S_ACKNOWLEDGED\<rparr>"
    using p1(2) by (simp add: om' Let_def)
  then have "is_live (slot i om')"
    using p1(1) by (simp add: is_live_def)
  moreover have "slot j om' = slot j om" if "j \<noteq> i" for j
    using p1(7) [OF that] that by (simp add: om')
  moreover have "snd (en_rest e') = snd (en_rest e) @ [CallPlace (order_side i) (1 / 100) price True (sl_cid (slot i om1)) False]"
    using acc accept_new_frame(2) [of i a "(om1, e3)"] e3(7) e2 p1(8) side by (simp add: demo_ready_def)
  ultimately show ?thesis
    using place by blast
qed

lemma demo_on_quote:
  assumes "demo_ready 0 e" and "\<And>i. \<not> sl_active (slot i om)"
  shows "\<exists>om' e' cid cid'. on_quote demo_cfg (logged demo_sim) 99 101 (1 / 100) (om, e) = (om', e') \<and>
    (\<forall>i. is_live (slot i om')) \<and>
    snd (en_rest e') = snd (en_rest e) @ [CallPlace ''BUY'' (1 / 100) 99 True cid False, CallPlace ''SELL'' (1 / 100) 101 True cid' False]"
proof -
  let ?side = "\<lambda>i. upd_slot i (\<lambda>s. s\<lparr>sl_side := slot_side i\<rparr>)"
  have requote: "maybe_requote_side demo_cfg (logged demo_sim) i price (1 / 100) (om, e) =
      snd (place_new demo_cfg (logged demo_sim) i price (1 / 100) (?side i om, e))" if "\<not> sl_active (slot i om)" for i price om e
    using that by (simp add: maybe_requote_side_def place_side_def set_slot_def)
  have "sl_side (slot BID (?side BID om)) = slot_side BID"
    by simp
  from demo_place [OF assms(1) _ this, of 99] obtain om1 e1 cid where 1:
    "place_new demo_cfg (logged demo_sim) BID 99 (1 / 100) (?side BID om, e) = (True, om1, e1)" "demo_ready 1 e1" "is_live (slot BID om1)"
    "\<forall>j. j \<noteq> BID \<longrightarrow> slot j om1 = slot j (?side BID om)"
    "snd (en_rest e1) = snd (en_rest e) @ [CallPlace ''BUY'' (1 / 100) 99 True cid False]"
    by auto
  have "sl_side (slot ASK (?side ASK om1)) = slot_side ASK"
    by simp
  from demo_place [OF 1(2) _ this, of 101] obtain om2 e2 cid' where 2:
    "place_new demo_cfg (logged demo_sim) ASK 101 (1 / 100) (?side ASK om1, e1) = (True, om2, e2)" "is_live (slot ASK om2)"
    "\<forall>j. j \<noteq> ASK \<longrightarrow> slot j om2 = slot j (?side ASK om1)"
    "snd (en_rest e2) = snd (en_rest e1) @ [CallPlace ''SELL'' (1 / 100) 101 True cid' False]"
    by auto
  have "slot ASK om1 = slot ASK om"
    using 1(4) [rule_format, of ASK] by simp
  then have "\<not> sl_active (slot ASK om1)"
    using assms(2) [of ASK] by simp
  then have "on_quote demo_cfg (logged demo_sim) 99 101 (1 / 100) (om, e) = (om2, e2)"
    using assms(1) requote [of BID om 99 e] requote [of ASK om1 101 e1] 1(1) 2(1) assms(2) [of BID]
    by (simp add: on_quote_def demo_ready_def)
  moreover have "is_live (slot i om2)" for i
    using 1(3) 2(2) 2(3) [rule_format, of BID] by (cases i) simp_all
  ultimately show ?thesis
    using 1(5) 2(4) by auto
qed

section \<open>The strategy on that snapshot\<close>

lemma engine_snap_signals: "sg_mid (signals_of engine_snap) = 100" "sg_valid (signals_of engine_snap)"
  by (simp_all add: signals_of_def engine_snap_def Let_def)

lemma engine_snap_prices: "quote_prices (c_strategy demo_cfg) engine_inventory (signals_of engine_snap) = (99, 101)"
  using ln_2_less_1
  by (simp add: quote_prices_def demo_cfg_def load_strategy_def toml_empty_def signals_of_def engine_snap_def engine_inventory_def
      final_spread_def minimum_spread_def im_skew_bps_def widen_factor_def vol_stress_def
      depth_stress_def inv_stress_def max_def Let_def)

lemma demo_qty: "st_quote_qty (c_strategy demo_cfg) = 1 / 100"
  by (simp add: demo_cfg_def load_strategy_def toml_empty_def)

lemma demo_risk_both:
  assumes "pt_inventory pt = 0" and "pt_realized pt = 0"
  shows "\<exists>rm' ck'. risk_both demo_cfg pt 99 101 100 (Some risk_init, ck, db) = (True, Some rm', ck', db) \<and>
    rm_order_times rm' = [] \<and> rm_open_order_count rm' = 0"
  using assms
  by (simp add: risk_both_def pre_trade_check_def risk_verdict_def demo_limits demo_qty risk_init_def purge_def equity_def unrealized_pnl_def
      Let_def)


lemma ring_init_16384: "ring_ok (ring_init 16384 m)" "ring_items (ring_init 16384 m) = []"
  "ring_count (ring_init 16384 m) < ring_capacity (ring_init 16384 m)"
  using ring_init_ok [of 14 m] by simp_all (simp add: ring_count_def ring_init_def ring_capacity_def)

section \<open>From the feed to the exchange\<close>

definition demo_engine :: "(unit sim_rest \<times> rest_call list) engine" where
  "demo_engine = engine_init demo_cfg False (demo_env (sim_init ''S'' (), []))"

lemma demo_feed:
  "\<exists>t r m. process_event (ek_enc_snap demo_ek) None engine_ticker (eg_tick demo_engine) = Some t \<and> tk_snap_ring t = Some r \<and>
     ring_pop r = Some m \<and> fill_msg [1] = Some (fst m)"
proof -
  let ?t = "(eg_tick demo_engine)\<lparr>tk_book := apply_book_ticker (me_book_ticker engine_ticker) (tk_book (eg_tick demo_engine))\<rparr>"
  have book: "tk_book (eg_tick demo_engine) = book_init" "tk_snap_ring (eg_tick demo_engine) = Some (ring_init 16384 byte_msg0)"
    by (simp_all add: demo_engine_def engine_init_def case_prod_beta tick_init_def)
  have has: "has_data (tk_book ?t)"
    by (simp add: book apply_book_ticker_def has_data_def book_init_def mark_resync_def apply_snapshot_def Let_def kMaxLevels_def)
  obtain msg where msg: "fill_msg [1 :: u8] = Some msg"
    by (simp add: fill_msg_def)
  let ?r = "snd (ring_push (ring_init 16384 byte_msg0) msg)"
  have items: "ring_items ?r = [msg]" "ring_ok ?r"
    using ring_push_items [OF ring_init_16384(1,3), of byte_msg0 msg] ring_init_16384(2) [of byte_msg0] by simp_all
  obtain r' where "ring_pop ?r = Some (msg, r')"
    using rq.deq_Cons [OF items(2,1)] by blast
  moreover have "tk_snap_ring (emit_snapshot (ek_enc_snap demo_ek) ts ?t) = Some ?r" for ts
    using has book(2) msg by (simp add: emit_snapshot_def demo_ek_def Let_def)
  moreover have "process_event (ek_enc_snap demo_ek) None engine_ticker (eg_tick demo_engine) =
      Some (emit_snapshot (ek_enc_snap demo_ek) (bte_exchange_ts_ms (me_book_ticker engine_ticker)) ?t)"
    by (simp add: process_event_def engine_ticker_def Let_def)
  ultimately show ?thesis
    using msg by auto
qed

lemma fill_msg_read:
  assumes "fill_msg [b] = Some m"
  shows "mg_size m = 1" "take 1 (mg_bytes m) = [b]"
  using fill_msg_Some [OF assms] by simp_all

lemma engine_flat: "im_inventory engine_inventory = 0" "im_skew_bps st engine_inventory = 0"
  by (simp_all add: engine_inventory_def im_skew_bps_def)

lemma requote_first: "should_requote st bid ask tier regime tp (maker_init ring)"
  by (simp add: should_requote_def maker_init_def)

lemma demo_quote_round:
  assumes "Option.bind (mm_out_ring (eg_maker g)) ring_pop = Some (q, r)" and "decode_quote (ek_dec_quote demo_ek) q = Some (99, 101, 1 / 100)"
    and "demo_ready 0 (eg_env g)" and "\<And>i. \<not> sl_active (slot i (eg_om g))"
  shows "\<exists>cid cid'. (\<forall>i. is_live (slot i (eg_om (quote_round demo_ek demo_cfg (logged demo_sim) g)))) \<and>
    snd (en_rest (eg_env (quote_round demo_ek demo_cfg (logged demo_sim) g))) = snd (en_rest (eg_env g)) @
      [CallPlace ''BUY'' (1 / 100) 99 True cid False, CallPlace ''SELL'' (1 / 100) 101 True cid' False]"
proof -
  obtain om' e' cid cid' where "on_quote demo_cfg (logged demo_sim) 99 101 (1 / 100) (eg_om g, eg_env g) = (om', e')"
    "\<forall>i. is_live (slot i om')"
    "snd (en_rest e') = snd (en_rest (eg_env g)) @ [CallPlace ''BUY'' (1 / 100) 99 True cid False, CallPlace ''SELL'' (1 / 100) 101 True cid' False]"
    using demo_on_quote [OF assms(3,4)] by blast
  then show ?thesis
    using assms(1,2) by (intro exI [of _ cid] exI [of _ cid']) (simp add: quote_round_def set_orders_def)
qed

text \<open>The feed and the strategy leave a quote on the ring that the order manager is ready to place.\<close>

lemma demo_run:
  "\<exists>g q r. engine_run demo_ek demo_cfg (logged demo_sim) [EgFeed engine_ticker None, EgStrategy] demo_engine = Some g \<and>
     Option.bind (mm_out_ring (eg_maker g)) ring_pop = Some (q, r) \<and> decode_quote (ek_dec_quote demo_ek) q = Some (99, 101, 1 / 100) \<and>
     demo_ready 0 (eg_env g) \<and> (\<forall>i. \<not> sl_active (slot i (eg_om g))) \<and> snd (en_rest (eg_env g)) = []"
proof -
  obtain t r msg r1 where t: "process_event (ek_enc_snap demo_ek) None engine_ticker (eg_tick demo_engine) = Some t"
    "tk_snap_ring t = Some r" "ring_pop r = Some (msg, r1)" "fill_msg [1] = Some msg"
    using demo_feed by fastforce
  have i: "ingest (ek_dec_snap demo_ek) msg sig = (True, signals_of engine_snap)" for sig
    using fill_msg_read [OF t(4)] by (simp add: ingest_def read_msg_def demo_ek_def)
  let ?e = "eg_env demo_engine"
  have e: "en_rm ?e = risk_init" "pt_inventory (en_pt ?e) = 0" "pt_realized (en_pt ?e) = 0" "\<not> env_halted ?e"
    "en_clock ?e = snd (om_init demo_clock)" "en_pt ?e = tracker_init" "en_rest ?e = (sim_init ''S'' (), [])"
    by (simp_all add: demo_engine_def engine_init_def case_prod_beta demo_env_def env_halted_def breaker_init_def tracker_init_def)
  have d: "eg_om demo_engine = fst (om_init demo_clock)" "eg_maker demo_engine = maker_init (Some (ring_init 16384 byte_msg0))"
    by (simp_all add: demo_engine_def engine_init_def case_prod_beta demo_env_def)
  let ?pt = "update_mid 100 (en_pt ?e)"
  obtain rm' ck' where rb: "risk_both demo_cfg ?pt 99 101 100 (Some risk_init, clock_tick (en_clock ?e), en_db ?e) = (True, Some rm', ck', en_db ?e)"
    "rm_order_times rm' = []" "rm_open_order_count rm' = 0"
    using demo_risk_both [of ?pt] e(2,3) by (fastforce simp: update_mid_def)
  define mm where "mm = emit_quote (ek_enc_quote demo_ek) (c_strategy demo_cfg) 99 101 0 0 (steady_now (en_clock ?e)) (eg_maker demo_engine)"
  define tier regime where "tier = classify_inventory (c_strategy demo_cfg) 0"
    and "regime = classify_vol (c_strategy demo_cfg) (sg_realized_vol (signals_of engine_snap))"
  have sent: "on_signals (ek_enc_quote demo_ek) demo_cfg engine_inventory ?pt False (signals_of engine_snap)
      (eg_maker demo_engine, Some (en_rm ?e), en_clock ?e, en_db ?e) =
      (True, mm\<lparr>mm_last_tier := tier, mm_last_regime := regime\<rparr>, Some rm', ck', en_db ?e)"
    using rb(1) e(1)
    by (simp add: on_signals_def engine_snap_signals engine_snap_prices d(2) requote_first mm_def tier_def regime_def Let_def engine_flat)
  define g where "g = demo_engine\<lparr>eg_tick := t\<lparr>tk_snap_ring := Some r1\<rparr>, eg_signals := signals_of engine_snap,
      eg_maker := mm\<lparr>mm_last_tier := tier, mm_last_regime := regime\<rparr>, eg_env := ?e\<lparr>en_pt := ?pt, en_rm := rm', en_clock := ck'\<rparr>\<rparr>"
  have "strategy_round demo_ek demo_cfg (demo_engine\<lparr>eg_tick := t\<rparr>) = g"
    using e(4) sent
    by (simp add: strategy_round_def t i strategy_signals_def engine_snap_signals Let_def g_def env_halted_def)
  then have run: "engine_run demo_ek demo_cfg (logged demo_sim) [EgFeed engine_ticker None, EgStrategy] demo_engine = Some g"
    by (simp add: engine_step_def t(1))
  obtain q where q: "fill_msg [1 :: u8] = Some q"
    by (simp add: fill_msg_def)
  have "ek_enc_quote demo_ek (make_quote (c_strategy demo_cfg) 99 101 0 0 (steady_now (en_clock ?e))) = [1]"
    by (simp add: demo_ek_def engine_quote_def e(5))
  then have "mm_out_ring mm = Some (snd (ring_push (ring_init 16384 byte_msg0) q))"
    using q by (simp add: mm_def emit_quote_def d(2) Let_def) (simp add: maker_init_def)
  moreover have items: "ring_items (snd (ring_push (ring_init 16384 byte_msg0) q)) = [q]" "ring_ok (snd (ring_push (ring_init 16384 byte_msg0) q))"
    using ring_push_items [OF ring_init_16384(1,3), of byte_msg0 q] ring_init_16384(2) [of byte_msg0] by simp_all
  moreover obtain r2 where "ring_pop (snd (ring_push (ring_init 16384 byte_msg0) q)) = Some (q, r2)"
    using rq.deq_Cons [OF items(2,1)] by blast
  ultimately have pop: "Option.bind (mm_out_ring (eg_maker g)) ring_pop = Some (q, r2)"
    by (simp add: g_def)
  have dec: "decode_quote (ek_dec_quote demo_ek) q = Some (99, 101, 1 / 100)"
    using fill_msg_read [OF q] by (simp add: decode_quote_def demo_ek_def engine_quote_def make_quote_def demo_qty)
  have ready: "demo_ready 0 (eg_env g)"
    using e rb(2,3) by (simp add: demo_ready_def g_def update_mid_def sim_init_def env_halted_def)
  have dead: "\<not> sl_active (slot i (eg_om g))" for i
    by (cases i) (simp_all add: g_def d(1) om_init_def slot_init_def case_prod_beta)
  show ?thesis
    using run pop dec ready dead e(7) by (intro exI [of _ g] exI [of _ q] exI [of _ r2]) (simp add: g_def)
qed

end
