(* ===== verification/EngineProps.thy ===== *)
theory EngineProps
  imports EngineDemo
begin

text \<open>
  The running engine: whatever the interleaving of its threads, every order it places carries a price
  the strategy computed from the signals of an earlier moment of the same run.  The locale of traced
  clients gives the calls each thread adds; the quote ring carries the strategy's quotes to the order
  manager unchanged.
\<close>

section \<open>Quotes of the model\<close>

definition model_spread :: "strategy_cfg \<Rightarrow> signals \<Rightarrow> double" where
  "model_spread st sig =
     final_spread st (st_gamma st * sg_sigma_sq sig * st_horizon st + (2 / st_gamma st) * ln (1 + st_gamma st / st_k st)) sig 0"

lemma engine_quote_prices:
  "quote_prices st engine_inventory sig = (sg_mid sig - model_spread st sig / 2, sg_mid sig + model_spread st sig / 2)"
  by (simp add: quote_prices_def engine_inventory_def im_skew_bps_def model_spread_def Let_def)

definition model_quote :: "config \<Rightarrow> signals set \<Rightarrow> double \<times> double \<times> double \<Rightarrow> bool" where
  "model_quote cfg S q \<longleftrightarrow>
     (\<exists>sig \<in> S. sg_valid sig \<and> 0 < sg_mid sig \<and>
       q = (sg_mid sig - model_spread (c_strategy cfg) sig / 2, sg_mid sig + model_spread (c_strategy cfg) sig / 2,
            st_quote_qty (c_strategy cfg)))"

definition model_order :: "config \<Rightarrow> signals set \<Rightarrow> string \<Rightarrow> double \<Rightarrow> double \<Rightarrow> bool" where
  "model_order cfg S side qty price \<longleftrightarrow>
     (\<exists>bid ask. model_quote cfg S (bid, ask, qty) \<and> (side = ''BUY'' \<and> price = bid \<or> side = ''SELL'' \<and> price = ask))"

definition quotes_ok :: "engine_codecs \<Rightarrow> config \<Rightarrow> signals set \<Rightarrow> market_maker \<Rightarrow> bool" where
  "quotes_ok ek cfg S mm \<longleftrightarrow>
     (\<forall>r. mm_out_ring mm = Some r \<longrightarrow> ring_ok r \<and>
       (\<forall>m q. m \<in> set (ring_items r) \<and> decode_quote (ek_dec_quote ek) m = Some q \<longrightarrow> model_quote cfg S q))"

text \<open>What is read back from the ring is what was written.\<close>

definition quotes_decode :: "engine_codecs \<Rightarrow> bool" where
  "quotes_decode ek \<longleftrightarrow> (\<forall>q q'. ek_dec_quote ek (ek_enc_quote ek q) = Some q' \<longrightarrow> q' = q)"

lemma push_items: "ring_ok r \<Longrightarrow> set (ring_items (snd (ring_push r m))) \<subseteq> insert m (set (ring_items r))"
  using rq.enq_cases [of r m] by auto

lemma pop_items:
  assumes "ring_ok r" and "ring_pop r = Some (m, r')"
  shows "ring_ok r'" and "ring_items r = m # ring_items r'"
proof -
  obtain x xs where "ring_items r = x # xs"
    using rq.deq_Nil [OF assms(1)] assms(2) by (cases "ring_items r") auto
  with rq.deq_Cons [OF assms(1)] assms(2) show "ring_ok r'" "ring_items r = m # ring_items r'"
    by fastforce+
qed

lemma emit_quotes_ok:
  assumes "quotes_decode ek" and "quotes_ok ek cfg S mm" and "sig \<in> S" and "sg_valid sig" and "0 < sg_mid sig"
    and "quote_prices (c_strategy cfg) engine_inventory sig = (bid, ask)"
  shows "quotes_ok ek cfg S (emit_quote (ek_enc_quote ek) (c_strategy cfg) bid ask q skew tp mm)"
proof -
  define u where "u = make_quote (c_strategy cfg) bid ask q skew tp"
  show ?thesis
  proof (cases "fill_msg (ek_enc_quote ek u)")
    case None
    then show ?thesis
      using assms(2) by (simp add: emit_quote_def quotes_ok_def flip: u_def)
  next
    case (Some m)
    have ring: "mm_out_ring (emit_quote (ek_enc_quote ek) (c_strategy cfg) bid ask q skew tp mm) = push_or_warn m (mm_out_ring mm)"
      using Some by (intro emit_quote_ring) (simp flip: u_def)
    have good: "model_quote cfg S p" if d: "decode_quote (ek_dec_quote ek) m = Some p" for p
    proof -
      have "map_option (\<lambda>q. (qu_bid_price q, qu_ask_price q, qu_qty q)) (ek_dec_quote ek (ek_enc_quote ek u)) = Some p"
        using d fill_msg_Some [OF Some] by (simp add: decode_quote_def split: if_splits)
      then have "p = (qu_bid_price u, qu_ask_price u, qu_qty u)"
        using assms(1) by (auto simp: quotes_decode_def)
      then show ?thesis
        using assms(3-6) by (auto simp: u_def make_quote_def model_quote_def engine_quote_prices)
    qed
    show ?thesis
      unfolding quotes_ok_def ring
    proof (intro allI impI)
      fix r'
      assume "push_or_warn m (mm_out_ring mm) = Some r'"
      then obtain r where r: "mm_out_ring mm = Some r" "r' = snd (ring_push r m)"
        by (auto simp: push_or_warn_def)
      have ok: "ring_ok r"
        using assms(2) r(1) by (simp add: quotes_ok_def)
      show "ring_ok r' \<and> (\<forall>m q. m \<in> set (ring_items r') \<and> decode_quote (ek_dec_quote ek) m = Some q \<longrightarrow> model_quote cfg S q)"
        using push_items [OF ok, of m] rq.enq_ok [OF ok, of m] good assms(2) r by (fastforce simp: quotes_ok_def)
    qed
  qed
qed

text \<open>The strategy thread: its quotes, and what it leaves alone.\<close>

lemma strategy_signals_ok:
  assumes "quotes_decode ek" and "quotes_ok ek cfg S (eg_maker g)" and "eg_signals g \<in> S"
  shows "quotes_ok ek cfg S (eg_maker (strategy_signals ek cfg g))"
    and "eg_om (strategy_signals ek cfg g) = eg_om g" and "en_rest (eg_env (strategy_signals ek cfg g)) = en_rest (eg_env g)"
    and "eg_signals (strategy_signals ek cfg g) = eg_signals g"
proof -
  let ?e = "if 0 < sg_mid (eg_signals g) then (eg_env g)\<lparr>en_pt := update_mid (sg_mid (eg_signals g)) (en_pt (eg_env g))\<rparr> else eg_env g"
  obtain sent mm rm ck db where s: "on_signals (ek_enc_quote ek) cfg engine_inventory (en_pt ?e) (env_halted ?e) (eg_signals g)
      (eg_maker g, Some (en_rm ?e), en_clock ?e, en_db ?e) = (sent, mm, rm, ck, db)"
    using prod_cases5 by blast
  have g: "strategy_signals ek cfg g = g\<lparr>eg_maker := mm, eg_env := ?e\<lparr>en_rm := the rm, en_clock := ck, en_db := db\<rparr>\<rparr>"
    unfolding strategy_signals_def Let_def s by simp
  obtain bid ask where p: "quote_prices (c_strategy cfg) engine_inventory (eg_signals g) = (bid, ask)"
    by (rule prod.exhaust)
  obtain tp ck1 where t: "maker_now (eg_maker g) (en_clock ?e) = (tp, ck1)"
    by (rule prod.exhaust)
  note c = on_signals_cases [OF s p t]
  have upd: "quotes_ok ek cfg S (mm'\<lparr>mm_last_tier := a, mm_last_regime := b\<rparr>) = quotes_ok ek cfg S mm'" for mm' a b
    by (simp add: quotes_ok_def)
  show "quotes_ok ek cfg S (eg_maker (strategy_signals ek cfg g))"
    using c emit_quotes_ok [OF assms(1,2,3) _ _ p] assms(2) by (cases sent) (simp_all add: g upd)
qed (simp_all add: strategy_signals_def Let_def case_prod_beta)

lemma strategy_round_ok:
  assumes "quotes_decode ek" and "quotes_ok ek cfg S (eg_maker g)" and "eg_signals (strategy_round ek cfg g) \<in> S"
  shows "quotes_ok ek cfg S (eg_maker (strategy_round ek cfg g))"
    and "eg_om (strategy_round ek cfg g) = eg_om g" and "en_rest (eg_env (strategy_round ek cfg g)) = en_rest (eg_env g)"
proof -
  have "quotes_ok ek cfg S (eg_maker (strategy_round ek cfg g)) \<and> eg_om (strategy_round ek cfg g) = eg_om g \<and>
      en_rest (eg_env (strategy_round ek cfg g)) = en_rest (eg_env g)"
  proof (cases "Option.bind (tk_snap_ring (eg_tick g)) ring_pop")
    case None
    then show ?thesis
      using assms(2) by (simp add: strategy_round_def)
  next
    case (Some p)
    obtain msg r where p: "p = (msg, r)"
      by fastforce
    obtain ok sig where i: "ingest (ek_dec_snap ek) msg (eg_signals g) = (ok, sig)"
      by fastforce
    define g1 where "g1 = g\<lparr>eg_tick := (eg_tick g)\<lparr>tk_snap_ring := Some r\<rparr>, eg_signals := sig\<rparr>"
    have g: "strategy_round ek cfg g = (if ok then strategy_signals ek cfg g1 else g1)"
      by (simp add: strategy_round_def Some p i g1_def Let_def)
    have g1: "quotes_ok ek cfg S (eg_maker g1)" "eg_om g1 = eg_om g" "en_rest (eg_env g1) = en_rest (eg_env g)"
      using assms(2) by (simp_all add: g1_def)
    have "eg_signals g1 \<in> S"
      using assms(3) by (simp add: g strategy_signals_def Let_def case_prod_beta split: if_splits)
    then show ?thesis
      using strategy_signals_ok [OF assms(1) g1(1)] g1 by (simp add: g)
  qed
  then show "quotes_ok ek cfg S (eg_maker (strategy_round ek cfg g))"
    "eg_om (strategy_round ek cfg g) = eg_om g" "en_rest (eg_env (strategy_round ek cfg g)) = en_rest (eg_env g)"
    by simp_all
qed


section \<open>The calls of a run\<close>

context rest_trace
begin

definition eng_traced :: "nat \<Rightarrow> 'r engine \<Rightarrow> 'r engine \<Rightarrow> bool" where
  "eng_traced k g g' \<longleftrightarrow> traced k (eg_om g, eg_env g) (eg_om g', eg_env g')"

lemma set_orders_traced: "traced k (eg_om g, eg_env g) st \<Longrightarrow> eng_traced k g (set_orders st h)"
  by (cases st) (simp add: eng_traced_def set_orders_def)

lemma eng_traced_quiet: "eg_om g' = eg_om g \<Longrightarrow> en_rest (eg_env g') = en_rest (eg_env g) \<Longrightarrow> eng_traced k g g'"
  unfolding eng_traced_def by (rule traced_quiet) simp_all

lemma quote_round_ok:
  assumes "quotes_ok ek cfg S (eg_maker g)" and "\<And>side qty price. model_order cfg S side qty price \<Longrightarrow> good side qty price"
  shows "eng_traced 2 g (quote_round ek cfg rest g)" and "quotes_ok ek cfg S (eg_maker (quote_round ek cfg rest g))"
proof -
  have "eng_traced 2 g (quote_round ek cfg rest g) \<and> quotes_ok ek cfg S (eg_maker (quote_round ek cfg rest g))"
  proof (cases "Option.bind (mm_out_ring (eg_maker g)) ring_pop")
    case None
    have "traced 2 (eg_om g, eg_env g) (check_ack_timeouts cfg rest now (eg_om g, env_tick (eg_env g)))" for now
      by (rule traced_trans0 [OF traced_env traced_mono [OF check_ack_timeouts_traced]]) simp_all
    then show ?thesis
      using assms(1) set_orders_traced by (simp add: quote_round_def None set_orders_def)
  next
    case (Some p)
    obtain msg r where p: "p = (msg, r)"
      by fastforce
    obtain r0 where r0: "mm_out_ring (eg_maker g) = Some r0" "ring_pop r0 = Some (msg, r)"
      using Some p by (auto simp: bind_eq_Some_conv)
    have ok: "ring_ok r0"
      using assms(1) r0(1) by (simp add: quotes_ok_def)
    note items = pop_items [OF ok r0(2)]
    define g1 where "g1 = g\<lparr>eg_maker := (eg_maker g)\<lparr>mm_out_ring := Some r\<rparr>\<rparr>"
    have g1: "quotes_ok ek cfg S (eg_maker g1)" "eg_om g1 = eg_om g" "eg_env g1 = eg_env g"
      using assms(1) r0(1) items by (auto simp: g1_def quotes_ok_def)
    have round: "quote_round ek cfg rest g = (case decode_quote (ek_dec_quote ek) msg of
        None \<Rightarrow> g1 | Some (bid, ask, qty) \<Rightarrow> set_orders (on_quote cfg rest bid ask qty (eg_om g, eg_env g)) g1)"
      unfolding quote_round_def Some p g1_def by (simp add: Let_def)
    show ?thesis
    proof (cases "decode_quote (ek_dec_quote ek) msg")
      case None
      then show ?thesis
        using g1 eng_traced_quiet [of g1 g] by (simp add: round)
    next
      case (Some q)
      obtain bid ask qty where q: "q = (bid, ask, qty)"
        by (rule prod_cases3)
      have "model_quote cfg S (bid, ask, qty)"
        using assms(1) r0(1) items(2) Some q by (auto simp: quotes_ok_def)
      then have "good ''BUY'' qty bid" "good ''SELL'' qty ask"
        by (auto intro!: assms(2) simp: model_order_def)
      from on_quote_traced [OF this, of "(eg_om g, eg_env g)" cfg] show ?thesis
        using g1(1) set_orders_traced by (simp add: round Some q) (simp add: set_orders_def)
    qed
  qed
  then show "eng_traced 2 g (quote_round ek cfg rest g)" "quotes_ok ek cfg S (eg_maker (quote_round ek cfg rest g))"
    by simp_all
qed

lemma engine_step_ok:
  assumes "engine_step ek cfg rest op g = Some g'" and "quotes_decode ek" and "quotes_ok ek cfg S (eg_maker g)"
    and "eg_signals g' \<in> S" and "\<And>side qty price. model_order cfg S side qty price \<Longrightarrow> good side qty price"
  shows "eng_traced 2 g g' \<and> quotes_ok ek cfg S (eg_maker g')"
proof (cases "orders_op op")
  case (Some om_op)
  then have "op_good good om_op"
    by (cases op) auto
  from om_step_traced [OF this, of "(eg_om g, eg_env g)" cfg "ek_orders ek"] show ?thesis
    using assms(1,3) Some set_orders_traced by (auto simp: engine_step_def set_orders_def)
next
  case None
  show ?thesis
  proof (cases op)
    case (EgFeed ev fetch)
    then show ?thesis
      using assms(1,3) eng_traced_quiet by (auto simp: engine_step_def)
  next
    case EgStrategy
    then have "g' = strategy_round ek cfg g"
      using assms(1) by (simp add: engine_step_def)
    then show ?thesis
      using strategy_round_ok [OF assms(2,3)] assms(4) eng_traced_quiet by simp
  next
    case EgQuote
    then show ?thesis
      using assms(1) quote_round_ok [OF assms(3,5)] by (auto simp: engine_step_def)
  next
    case (EgReport ghz)
    then show ?thesis
      using assms(1,3) eng_traced_quiet [of "report_round cfg ghz g" g]
      by (auto simp: engine_step_def) (simp_all add: report_round_def Let_def)
  next
    case EgFatal
    then show ?thesis
      using assms(1,3) eng_traced_quiet [of "g\<lparr>eg_env := fatal_callback (eg_env g)\<rparr>" g]
      by (auto simp: engine_step_def) (simp_all add: fatal_callback_def case_prod_beta)
  qed (use None in simp_all)
qed

lemma engine_run_ok:
  assumes "engine_run ek cfg rest ops g = Some g'" and "quotes_decode ek" and "quotes_ok ek cfg S (eg_maker g)"
    and "\<And>side qty price. model_order cfg S side qty price \<Longrightarrow> good side qty price"
    and "\<And>ops1 ops2 g1. ops = ops1 @ ops2 \<Longrightarrow> engine_run ek cfg rest ops1 g = Some g1 \<Longrightarrow> eg_signals g1 \<in> S"
  shows "eng_traced (2 * length ops) g g'"
  using assms(1,3,5)
proof (induction ops arbitrary: g)
  case Nil
  then show ?case
    by (simp add: eng_traced_def)
next
  case (Cons op ops)
  obtain g1 where g1: "engine_step ek cfg rest op g = Some g1" "engine_run ek cfg rest ops g1 = Some g'"
    using Cons.prems(1) by (auto simp: bind_eq_Some_conv)
  have "eg_signals g1 \<in> S"
    using Cons.prems(3) [of "[op]" ops g1] g1(1) by simp
  note step = engine_step_ok [OF g1(1) assms(2) Cons.prems(2) this assms(4)]
  have "eng_traced (2 * length ops) g1 g'"
  proof (rule Cons.IH [OF g1(2)])
    show "quotes_ok ek cfg S (eg_maker g1)"
      using step by simp
    show "eg_signals g2 \<in> S" if "ops = ops1 @ ops2" "engine_run ek cfg rest ops1 g1 = Some g2" for ops1 ops2 g2
      using Cons.prems(3) [of "op # ops1" ops2 g2] that g1(1) by simp
  qed
  then show ?case
    using step traced_trans [of 2 "(eg_om g, eg_env g)" "(eg_om g1, eg_env g1)" "2 * length ops" "(eg_om g', eg_env g')"]
    by (simp add: eng_traced_def)
qed

end

text \<open>The signals an engine holds at some moment of a run.\<close>

definition run_signals :: "engine_codecs \<Rightarrow> config \<Rightarrow> 'r rest_client \<Rightarrow> engine_op list \<Rightarrow> 'r engine \<Rightarrow> signals set" where
  "run_signals ek cfg rest ops g =
     {sig. \<exists>ops1 ops2 g1. ops = ops1 @ ops2 \<and> engine_run ek cfg rest ops1 g = Some g1 \<and> sig = eg_signals g1}"

lemma engine_init_ok:
  "quotes_ok ek cfg S (eg_maker (engine_init cfg recording e))"
  "om_cid_counter (eg_om (engine_init cfg recording e)) = 0"
  "en_rest (eg_env (engine_init cfg recording e)) = en_rest e"
proof -
  have "ring_ok (ring_init 16384 m)" "ring_items (ring_init 16384 m) = []" for m :: byte_msg
    using ring_init_ok [of 14 m] by simp_all
  then show "quotes_ok ek cfg S (eg_maker (engine_init cfg recording e))"
    "om_cid_counter (eg_om (engine_init cfg recording e)) = 0"
    "en_rest (eg_env (engine_init cfg recording e)) = en_rest e"
    by (simp_all add: quotes_ok_def engine_init_def maker_init_def om_init_def case_prod_beta)
qed


section \<open>Properties\<close>

text \<open>C1: whatever order the threads of the engine run in, every order it places after the preflight is post-only,
  placed while the breaker is not halted, for the configured quantity, and priced half the model's
  spread below (a bid) or above (an ask) the mid price of the signals the strategy held at an earlier
  moment of the run; no client order id is used twice.  The position never enters the price: the
  quotes are centred on the mid whatever the tracker holds.\<close>

theorem engine_orders_modelled:
  assumes "rest_contract r" and "quotes_decode ek" and "2 * length ops < 2 ^ 64"
    and "engine_run ek cfg (logged r) ops (engine_init cfg recording e) = Some g"
  shows "\<exists>new. snd (en_rest (eg_env g)) = snd (en_rest e) @ new \<and> distinct (concat (map call_cid new)) \<and>
    (\<forall>side qty price po cid h. CallPlace side qty price po cid h \<in> set new \<longrightarrow>
      \<not> h \<and> po \<and> qty = st_quote_qty (c_strategy cfg) \<and>
      (\<exists>ops1 ops2 g1. ops = ops1 @ ops2 \<and> engine_run ek cfg (logged r) ops1 (engine_init cfg recording e) = Some g1 \<and>
        0 < sg_mid (eg_signals g1) \<and>
        (side = ''BUY'' \<and> price = sg_mid (eg_signals g1) - model_spread (c_strategy cfg) (eg_signals g1) / 2 \<or>
         side = ''SELL'' \<and> price = sg_mid (eg_signals g1) + model_spread (c_strategy cfg) (eg_signals g1) / 2)))"
proof -
  let ?g0 = "engine_init cfg recording e"
  let ?S = "run_signals ek cfg (logged r) ops ?g0"
  have "eng_ok": "rest_trace.traced snd (model_order cfg ?S) (2 * length ops) (eg_om ?g0, eg_env ?g0) (eg_om g, eg_env g)"
    using rest_trace.engine_run_ok [OF rest_trace_logged [OF assms(1)] assms(4,2) engine_init_ok(1), of ?S "model_order cfg ?S"]
    by (auto simp: run_signals_def rest_trace.eng_traced_def [OF rest_trace_logged [OF assms(1)]])
  then obtain new where new: "snd (en_rest (eg_env g)) = snd (en_rest (eg_env ?g0)) @ new" "list_all (call_ok (model_order cfg ?S)) new"
    "ids_ok (om_start_ms (eg_om ?g0)) (unat (om_cid_counter (eg_om ?g0))) (unat (om_cid_counter (eg_om g))) new"
    using assms(3) engine_init_ok(2) [of cfg recording e]
    by (auto simp: rest_trace.traced_def [OF rest_trace_logged [OF assms(1)]])
  have placed: "\<not> h \<and> po \<and> model_order cfg ?S side qty price" if "CallPlace side qty price po cid h \<in> set new"
    for side qty price po cid h
    using new(2) that by (force simp: list_all_iff)
  show ?thesis
  proof (intro exI [of _ new] conjI allI impI)
    show "snd (en_rest (eg_env g)) = snd (en_rest e) @ new"
      using new(1) by (simp add: engine_init_ok(3))
    show "distinct (concat (map call_cid new))"
      using new(3) by (rule ids_ok_distinct)
  next
    fix side qty price po cid h
    assume "CallPlace side qty price po cid h \<in> set new"
    note p = placed [OF this]
    then show "\<not> h" "po"
      by simp_all
    obtain bid ask where "model_quote cfg ?S (bid, ask, qty)" "side = ''BUY'' \<and> price = bid \<or> side = ''SELL'' \<and> price = ask"
      using p unfolding model_order_def by blast
    then show "qty = st_quote_qty (c_strategy cfg)"
      "\<exists>ops1 ops2 g1. ops = ops1 @ ops2 \<and> engine_run ek cfg (logged r) ops1 (engine_init cfg recording e) = Some g1 \<and>
        0 < sg_mid (eg_signals g1) \<and>
        (side = ''BUY'' \<and> price = sg_mid (eg_signals g1) - model_spread (c_strategy cfg) (eg_signals g1) / 2 \<or>
         side = ''SELL'' \<and> price = sg_mid (eg_signals g1) + model_spread (c_strategy cfg) (eg_signals g1) / 2)"
      unfolding model_quote_def run_signals_def by blast+
  qed
qed

theorem engine_orders_modelled_witness:
  "\<exists>g cid ops1 g1. engine_run demo_ek demo_cfg (logged demo_sim) [EgFeed engine_ticker None, EgStrategy, EgQuote] demo_engine = Some g \<and>
     CallPlace ''BUY'' (1 / 100) 99 True cid False \<in> set (snd (en_rest (eg_env g))) \<and>
     engine_run demo_ek demo_cfg (logged demo_sim) ops1 demo_engine = Some g1 \<and>
     99 = sg_mid (eg_signals g1) - model_spread (c_strategy demo_cfg) (eg_signals g1) / 2"
proof -
  obtain g q r where g: "engine_run demo_ek demo_cfg (logged demo_sim) [EgFeed engine_ticker None, EgStrategy] demo_engine = Some g"
    "Option.bind (mm_out_ring (eg_maker g)) ring_pop = Some (q, r)" "decode_quote (ek_dec_quote demo_ek) q = Some (99, 101, 1 / 100)"
    "demo_ready 0 (eg_env g)" "\<And>i. \<not> sl_active (slot i (eg_om g))" "snd (en_rest (eg_env g)) = []"
    using demo_run by blast
  let ?ops = "[EgFeed engine_ticker None, EgStrategy, EgQuote]" and ?g = "quote_round demo_ek demo_cfg (logged demo_sim) g"
  obtain cid cid' where calls: "snd (en_rest (eg_env ?g)) =
      [CallPlace ''BUY'' (1 / 100) 99 True cid False, CallPlace ''SELL'' (1 / 100) 101 True cid' False]"
    using demo_quote_round [OF g(2-5)] g(6) by auto
  have run: "engine_run demo_ek demo_cfg (logged demo_sim) ?ops demo_engine = Some ?g"
    using g(1) by (auto simp: bind_eq_Some_conv) (simp add: engine_step_def)
  have ek: "quotes_decode demo_ek"
    by (simp add: quotes_decode_def demo_ek_def)
  have "2 * length ?ops < 2 ^ 64"
    by simp
  from engine_orders_modelled [OF demo_sim_contract ek this run [unfolded demo_engine_def], folded demo_engine_def]
  obtain new where new: "snd (en_rest (eg_env ?g)) = snd (en_rest (demo_env (sim_init ''S'' (), []))) @ new"
    and placed: "\<And>side qty price po cid h. CallPlace side qty price po cid h \<in> set new \<Longrightarrow>
      \<exists>ops1 ops2 g1. ?ops = ops1 @ ops2 \<and> engine_run demo_ek demo_cfg (logged demo_sim) ops1 demo_engine = Some g1 \<and>
        0 < sg_mid (eg_signals g1) \<and>
        (side = ''BUY'' \<and> price = sg_mid (eg_signals g1) - model_spread (c_strategy demo_cfg) (eg_signals g1) / 2 \<or>
         side = ''SELL'' \<and> price = sg_mid (eg_signals g1) + model_spread (c_strategy demo_cfg) (eg_signals g1) / 2)"
    by blast
  have "CallPlace ''BUY'' (1 / 100) 99 True cid False \<in> set new"
    using calls new by (simp add: demo_env_def)
  from placed [OF this] have "\<exists>ops1 g1. engine_run demo_ek demo_cfg (logged demo_sim) ops1 demo_engine = Some g1 \<and>
      99 = sg_mid (eg_signals g1) - model_spread (c_strategy demo_cfg) (eg_signals g1) / 2"
    by auto
  then show ?thesis
    using run calls by auto
qed


text \<open>The shutdown of \<open>main\<close> cancels and flattens while the quote thread still runs (it is stopped two
  calls later), and where no slot is live and no position is open it changes nothing at all: a quote
  that is on the quote ring when it happens is popped and placed afterwards exactly as it would have
  been before.\<close>

theorem shutdown_does_not_stop_quotes:
  assumes "\<And>i. \<not> is_live (slot i (eg_om g))"
    and "\<bar>pt_inventory (en_pt (eg_env g))\<bar> \<le> ec_flatten_threshold (c_execution cfg)"
  shows "engine_run ek cfg rest [EgShutdown, EgQuote] g =
    engine_run ek cfg rest [EgQuote] (g\<lparr>eg_env := env_tick (eg_env g)\<rparr>)"
  using assms(1) [of BID] assms(1) [of ASK] assms(2)
  by (simp add: engine_step_def shutdown_cancel_all_def shutdown_cancel_def set_orders_def Let_def)

theorem shutdown_does_not_stop_quotes_witness:
  "\<exists>g. engine_run demo_ek demo_cfg (logged demo_sim) [EgFeed engine_ticker None, EgStrategy, EgShutdown, EgQuote] demo_engine = Some g \<and>
     (\<forall>i. is_live (slot i (eg_om g)))"
proof -
  obtain g q r where g: "engine_run demo_ek demo_cfg (logged demo_sim) [EgFeed engine_ticker None, EgStrategy] demo_engine = Some g"
    "Option.bind (mm_out_ring (eg_maker g)) ring_pop = Some (q, r)" "decode_quote (ek_dec_quote demo_ek) q = Some (99, 101, 1 / 100)"
    "demo_ready 0 (eg_env g)" "\<And>i. \<not> sl_active (slot i (eg_om g))"
    using demo_run by blast
  let ?h = "g\<lparr>eg_env := env_tick (eg_env g)\<rparr>"
  have h: "Option.bind (mm_out_ring (eg_maker ?h)) ring_pop = Some (q, r)" "demo_ready 0 (eg_env ?h)" "\<And>i. \<not> sl_active (slot i (eg_om ?h))"
    using g by (simp_all add: demo_ready_def)
  have "\<And>i. \<not> is_live (slot i (eg_om g))" "\<bar>pt_inventory (en_pt (eg_env g))\<bar> \<le> ec_flatten_threshold (c_execution demo_cfg)"
    using g(4,5) by (simp_all add: is_live_def demo_ready_def)
  then have "engine_run demo_ek demo_cfg (logged demo_sim) [EgShutdown, EgQuote] g =
      engine_run demo_ek demo_cfg (logged demo_sim) [EgQuote] ?h"
    by (rule shutdown_does_not_stop_quotes)
  then have "engine_run demo_ek demo_cfg (logged demo_sim) [EgFeed engine_ticker None, EgStrategy, EgShutdown, EgQuote] demo_engine =
      Some (quote_round demo_ek demo_cfg (logged demo_sim) ?h)"
    using g(1) by (auto simp: bind_eq_Some_conv engine_step_def)
  then show ?thesis
    using demo_quote_round [OF h(1) g(3) h(2,3)] by blast
qed

end
