(* ===== verification/EngineEvents.thy ===== *)
theory EngineEvents
  imports PgStart EngineProps PgSchema
begin

text \<open>
  The database side of the running engine: what each operation of the order manager, the strategy and
  the reporting thread queues for the reporter, over any client that keeps the REST contract, and that
  the schema of the reporter accepts every row of it.
\<close>

section \<open>What an operation reports\<close>

abbreviation open_count :: "'r env \<Rightarrow> int" where
  "open_count e \<equiv> rm_open_order_count (en_rm e)"

text \<open>
  From \<open>e\<close> to \<open>e'\<close> rows in range were queued, of which the trades are those of the fills \<open>fs\<close> in their order;
  the clocks are the same and the open-order count was left alone or set to that of two slots.
\<close>

definition reports :: "fill_input list \<Rightarrow> 'r env \<Rightarrow> 'r env \<Rightarrow> bool" where
  "reports fs e e' \<longleftrightarrow> same_clock (en_clock e) (en_clock e') \<and>
     (open_count e' = open_count e \<or> 0 \<le> open_count e' \<and> open_count e' \<le> 2) \<and>
     (\<exists>evs. list_all event_in_range evs \<and> filter is_trade evs = map trade_event_of fs \<and>
        en_db e' = fold db_push evs (en_db e))"

lemma reportsI:
  assumes "same_clock (en_clock e) (en_clock e')" and "open_count e' = open_count e"
    and "list_all event_in_range evs" and "filter is_trade evs = map trade_event_of fs"
    and "en_db e' = fold db_push evs (en_db e)"
  shows "reports fs e e'"
  unfolding reports_def using assms by blast

lemma reports_trans:
  assumes "reports fs a b" and "reports gs b c"
  shows "reports (fs @ gs) a c"
proof -
  obtain xs ys where xs: "list_all event_in_range xs" "filter is_trade xs = map trade_event_of fs" "en_db b = fold db_push xs (en_db a)"
    and ys: "list_all event_in_range ys" "filter is_trade ys = map trade_event_of gs" "en_db c = fold db_push ys (en_db b)"
    using assms by (auto simp: reports_def)
  have "\<exists>evs. list_all event_in_range evs \<and> filter is_trade evs = map trade_event_of (fs @ gs) \<and>
      en_db c = fold db_push evs (en_db a)"
    using xs ys by (intro exI [of _ "xs @ ys"]) simp
  then show ?thesis
    using assms same_clock_trans unfolding reports_def by metis
qed

lemma reports_quiet_trans: "reports [] a b \<Longrightarrow> reports fs b c \<Longrightarrow> reports fs a c"
  using reports_trans [of "[]" a b fs c] by simp

lemma reports_refl [simp]: "reports [] e e"
  by (rule reportsI [of _ _ "[]"]) simp_all

lemma system_rows: "list_all is_system evs \<Longrightarrow> list_all event_in_range evs \<and> filter is_trade evs = []"
proof (induction evs)
  case (Cons ev evs)
  then show ?case
    by (cases ev) simp_all
qed simp

lemma reports_system:
  assumes "same_clock (en_clock e) (en_clock e')" and "open_count e' = open_count e" and "db_notes (en_db e) (en_db e')"
  shows "reports [] e e'"
proof -
  obtain evs where "list_all is_system evs" "en_db e' = fold db_push evs (en_db e)"
    using assms(3) by (auto simp: db_notes_def)
  then show ?thesis
    using assms(1,2) system_rows [of evs] by (intro reportsI [of _ _ evs]) simp_all
qed

lemma reports_frame: "rest_frame e e' \<Longrightarrow> reports [] e e'"
  by (rule reports_system) (simp_all add: rest_frame_def)

lemma notify_notes: "same_clock ck (fst (snd (notify t d (cb, ck, db)))) \<and> db_notes db (snd (snd (notify t d (cb, ck, db))))"
  by (simp add: notify_def set_halt_synchronously_def enqueue_def Let_def)

lemma is_system_rejection [simp]: "is_system (rejection_event pt n ts result qty price mid)"
  by (simp add: rejection_event_def)

lemma pre_trade_notes:
  assumes "pre_trade_check rc pt qty price mid (rm, ck, db) = (res, rm', ck', db')"
  shows "rm_open_order_count rm' = rm_open_order_count rm \<and> same_clock ck ck' \<and> db_notes db db'"
proof -
  obtain result rm1 where v: "risk_verdict rc pt (steady_now ck) qty price mid rm = (result, rm1)"
    by fastforce
  have "rm_open_order_count rm1 = rm_open_order_count rm"
    using risk_verdict_frame(3) [of rc pt "steady_now ck" qty price mid rm] by (simp add: v)
  then show ?thesis
    using assms by (auto simp: pre_trade_check_def v record_rejection_def Let_def split: if_splits)
qed

lemma reports_ops [simp]:
  "reports [] e (env_tick e)" "reports [] e (env_notify_exception d e)"
  "reports [] e (env_record_submission e)" "reports [] e (env_record_cancel e)"
  "reports [] e (snd (env_pre_trade_check rc qty price e))"
  "reports [] e (e\<lparr>en_pt := pt\<rparr>)" "reports [] (snd st) (snd (sync_open_orders st))"
  "reports [] (snd st) (snd (transition i to st))"
proof -
  show "reports [] e (env_record_submission e)" "reports [] e (env_record_cancel e)"
    by (rule reports_system; simp add: env_record_submission_def env_record_cancel_def record_submission_def record_cancel_def)+
  obtain res rm ck db where c: "pre_trade_check rc (en_pt e) qty price (pt_mid (en_pt e)) (en_rm e, en_clock e, en_db e) = (res, rm, ck, db)"
    using prod_cases4 by blast
  show "reports [] e (snd (env_pre_trade_check rc qty price e))"
    using pre_trade_notes [OF c] by (intro reports_system) (simp_all add: env_pre_trade_check_def c)
  show "reports [] e (e\<lparr>en_pt := pt\<rparr>)"
    by (rule reports_system) simp_all
  show "reports [] (snd st) (snd (sync_open_orders st))"
    by (cases st) (auto simp: sync_open_orders_def reports_def live_count_def set_open_order_count_def intro!: exI [of _ "[]"])
  show "reports [] (snd st) (snd (transition i to st))"
    by (cases st) (simp add: transition_def reports_frame)
qed (simp_all add: reports_frame)

text \<open>The same after an operation that reported nothing but system events.\<close>

lemma reports_then:
  "reports fs a e \<Longrightarrow> reports fs a (env_tick e)" "reports fs a e \<Longrightarrow> reports fs a (env_notify_exception d e)"
  "reports fs a e \<Longrightarrow> reports fs a (env_record_submission e)" "reports fs a e \<Longrightarrow> reports fs a (env_record_cancel e)"
  "reports fs a e \<Longrightarrow> reports fs a (snd (env_pre_trade_check rc qty price e))"
  "reports fs a (snd st) \<Longrightarrow> reports fs a (snd (sync_open_orders st))"
  "reports fs a (snd st) \<Longrightarrow> reports fs a (snd (transition i to st))"
  "reports fs a e \<Longrightarrow> rest_frame e e' \<Longrightarrow> reports fs a e'"
  using reports_trans [of fs a _ "[]"] reports_ops reports_frame by (metis append_Nil2)+


section \<open>The order manager\<close>

context rest_contract
begin

lemma cancel_attempts_reports: "reports [] a (snd st) \<Longrightarrow> reports [] a (snd (snd (cancel_attempts rest i n st)))"
proof (induction n arbitrary: st)
  case 0
  obtain om e where st: "st = (om, e)"
    by fastforce
  show ?case
    using 0 by (simp add: st) (rule reports_then(6), simp add: reports_then)
next
  case (Suc n)
  obtain om e where st: "st = (om, e)"
    by fastforce
  obtain c e1 where c: "rest_cancel rest (sl_cid (slot i om)) (sl_oid (slot i om)) (env_record_cancel e) = (c, e1)"
    by fastforce
  have 1: "reports [] a e1"
    using reports_then(8) [OF reports_then(4) cancel_frame, of "[]" a e "sl_cid (slot i om)" "sl_oid (slot i om)"] Suc.prems
    by (simp add: c st)
  then have "reports [] a (snd (cancel_done i (om, e1)))"
    unfolding cancel_done_def by (intro reports_then(6)) (simp add: reports_then)
  then show ?case
    using 1 Suc.IH [of "(om, e1)"] by (simp add: st c)
qed

lemma cancel_slot_reports: "reports [] a (snd st) \<Longrightarrow> reports [] a (snd (snd (cancel_slot rest i st)))"
  using cancel_attempts_reports [of a st i kMaxCancelAttempts] by (cases st) (simp add: cancel_slot_def)

lemma prepare_slot_reports: "reports [] (snd st) (snd (prepare_slot i price qty st))"
  by (rule reports_system) (simp_all add: prepare_slot_def transition_def make_cid_def Let_def case_prod_beta env_tick_def)

lemma acknowledge_reports: "reports [] (snd st) (snd (acknowledge i a st))"
  by (rule reports_system) (simp_all add: acknowledge_def set_slot_def transition_def Let_def case_prod_beta env_tick_def)

lemma place_new_reports:
  assumes "reports [] a (snd st)"
  shows "reports [] a (snd (snd (place_new cfg rest i price qty st)))"
proof -
  obtain om e where p: "prepare_slot i price qty st = (om, e)"
    by fastforce
  have e: "reports [] a e"
    using reports_quiet_trans [OF assms prepare_slot_reports [of st i price qty]] by (simp add: p)
  obtain rr e1 where c: "env_pre_trade_check (c_risk cfg) (of_int (sl_side (slot i om)) * qty) price e = (rr, e1)"
    by fastforce
  have e1: "reports [] a e1"
    using reports_then(5) [OF e, of "c_risk cfg" "of_int (sl_side (slot i om)) * qty" price] by (simp add: c)
  obtain ack e2 where r: "rest_place rest (side_str (slot i om)) qty price True (sl_cid (slot i om)) (env_record_submission e1) = (ack, e2)"
    by fastforce
  have e2: "reports [] a e2"
    using reports_then(8) [OF reports_then(3) [OF e1] place_frame] by (metis r snd_conv)
  have "reports [] a (snd (snd (reject_new i (om, x))))" if "reports [] a x" for x
    using that by (simp add: reject_new_def reports_then)
  moreover have "reports [] a (snd (snd (accept_new i ack (om, e2))))"
    using reports_quiet_trans [OF e2 acknowledge_reports [of "(om, e2)" i ack, unfolded snd_conv]]
    by (simp add: accept_new_def reports_then)
  ultimately show ?thesis
    using e e1 e2 by (simp add: place_new_def p c r Let_def)
qed

lemma place_side_reports: "reports [] a (snd st) \<Longrightarrow> reports [] a (snd (place_side cfg rest i price qty st))"
  unfolding place_side_def by (rule place_new_reports) simp

lemma maybe_requote_side_reports: "reports [] a (snd st) \<Longrightarrow> reports [] a (snd (maybe_requote_side cfg rest i price qty st))"
  using cancel_slot_reports [of a st i] by (simp add: maybe_requote_side_def Let_def case_prod_beta place_side_reports)

lemma on_quote_reports: "reports [] a (snd st) \<Longrightarrow> reports [] a (snd (on_quote cfg rest bid ask qty st))"
  by (simp add: on_quote_def maybe_requote_side_reports)

lemma check_ack_timeouts_reports: "reports [] a (snd st) \<Longrightarrow> reports [] a (snd (check_ack_timeouts cfg rest now st))"
  by (simp add: check_ack_timeouts_def check_ack_slot_def Let_def cancel_slot_reports)

lemma flatten_market_reports: "reports [] a (snd st) \<Longrightarrow> reports [] a (snd (snd (flatten_market rest pos st)))"
  using reports_then(8) [OF reports_then(3) market_frame] by (auto simp: flatten_market_def Let_def case_prod_beta)

lemma cancel_live_reports: "reports [] a (snd st) \<Longrightarrow> reports [] a (snd (cancel_live rest i st))"
  by (simp add: cancel_live_def cancel_slot_reports)

lemma halt_watch_reports:
  assumes "reports [] a (snd st)"
  shows "reports [] a (snd (halt_watch cfg rest st))"
proof -
  have "reports [] a (snd (snd (cancel_and_flatten_locked cfg rest s)))" if s: "reports [] a (snd s)" for s
  proof -
    obtain om e where c: "cancel_live rest ASK (cancel_live rest BID s) = (om, e)"
      by fastforce
    obtain ps e1 where ps: "rest_positions rest e = (ps, e1)"
      by fastforce
    have "reports [] a (snd (cancel_live rest ASK (cancel_live rest BID s)))"
      using s by (simp add: cancel_live_reports)
    then have "reports [] a e1"
      using reports_then(8) [OF _ positions_frame [of e], of "[]" a] by (simp add: c ps)
    then show ?thesis
      using flatten_market_reports [of a "(om, e1)"] by (simp add: cancel_and_flatten_locked_def c ps Let_def)
  qed
  then show ?thesis
    using assms by (cases st) (simp add: halt_watch_def on_halt_def)
qed

lemma shutdown_reports:
  assumes "reports [] a (snd st)"
  shows "reports [] a (snd (shutdown_cancel_all cfg rest st))"
proof -
  have one: "reports [] a (snd (shutdown_cancel rest deadline i s))" if "reports [] a (snd s)" for deadline i s
    using that cancel_slot_reports [of a "(fst s, env_tick (snd s))" i]
    by (cases s) (simp add: shutdown_cancel_def reports_then)
  obtain om e where st: "st = (om, e)"
    by fastforce
  let ?d = "steady_now (en_clock e) + ms_ns 5000"
  obtain om1 e1 where c: "shutdown_cancel rest ?d ASK (shutdown_cancel rest ?d BID (om, env_tick e)) = (om1, e1)"
    by fastforce
  have "reports [] a (snd (shutdown_cancel rest ?d ASK (shutdown_cancel rest ?d BID (om, env_tick e))))"
    using assms by (intro one) (simp add: st reports_then)
  then have "reports [] a e1"
    by (simp add: c)
  then show ?thesis
    by (simp add: shutdown_cancel_all_def st c Let_def reports_then flatten_market_reports)
qed

lemma reconcile_reports:
  assumes "reports [] a (snd st)"
  shows "reports [] a (snd (reconcile_now cfg rest st))"
proof -
  obtain om e where st: "st = (om, e)"
    by fastforce
  obtain ps e1 where ps: "rest_positions rest e = (ps, e1)"
    by fastforce
  obtain oo e2 where oo: "rest_open_orders rest e1 = (oo, e2)"
    by fastforce
  have "reports [] a e1"
    using reports_then(8) [OF _ positions_frame [of e], of "[]" a] assms by (simp add: st ps)
  then have "reports [] a e2"
    using reports_then(8) [OF _ open_orders_frame [of e1], of "[]" a] by (simp add: oo)
  then show ?thesis
    by (simp add: reconcile_now_def reconcile_positions_def st ps oo reports_then)
qed

end

text \<open>Fills and the breaker need no client.\<close>

lemma book_fill_reports: "reports [] a (snd st) \<Longrightarrow> reports [] a (snd (book_fill f st))"
proof -
  have "reports [] a (snd (slot_fill i f st))" if "reports [] a (snd st)" for i
    using that by (simp add: slot_fill_def Let_def case_prod_beta reports_then)
  then show "reports [] a (snd st) \<Longrightarrow> ?thesis"
    by (simp add: book_fill_def)
qed

lemma inject_fill_reports:
  assumes "int_fits 8 (fi_side f)"
  shows "reports [f] (snd st) (snd (snd (inject_fill enc f st)))"
proof -
  obtain om e where st: "st = (om, e)"
    by fastforce
  let ?e = "e\<lparr>en_db := db_push (trade_event_of f) (en_db e)\<rparr>"
  have "reports [f] e ?e"
    using assms by (intro reportsI [of _ _ "[trade_event_of f]"]) (simp_all add: trade_event_of_def)
  then have "reports [f] e (snd (book_fill f (om, ?e)))"
    using reports_trans [of "[f]" e ?e "[]"] book_fill_reports [of ?e "(om, ?e)" f] by simp
  then show ?thesis
    by (simp add: inject_fill_def st case_prod_beta Let_def split: option.split)
qed

lemma fill_apply_reports: "reports [] (snd st) (snd (fill_apply_step dec st))"
  by (cases st) (simp add: fill_apply_step_def split: option.split)

definition breaker_notes :: "breaker_state \<Rightarrow> breaker_state \<Rightarrow> bool" where
  "breaker_notes s s' \<longleftrightarrow> same_clock (fst (snd s)) (fst (snd s')) \<and> db_notes (snd (snd s)) (snd (snd s'))"

lemma breaker_notes_trans: "breaker_notes a b \<Longrightarrow> breaker_notes b c \<Longrightarrow> breaker_notes a c"
  unfolding breaker_notes_def using same_clock_trans db_notes_trans by blast

lemma trip_notes: "breaker_notes (cb, ck, db) (trip t d (cb', ck, db))"
  by (simp add: breaker_notes_def trip_def set_halt_synchronously_def enqueue_def Let_def)

lemma check_notes:
  "breaker_notes s (check_drawdown rc pt s)" "breaker_notes s (check_unhedged rc pt now s)"
  "breaker_notes s (check_daily_loss rc pt s)" "breaker_notes s (check_rejections rc rej s)"
  by (cases s; simp add: check_drawdown_def check_unhedged_def check_daily_loss_def check_rejections_def trip_notes Let_def;
      simp add: breaker_notes_def)+

lemma breaker_tick_reports: "reports [] e (env_breaker_tick enc rc e)"
proof -
  let ?s = "(en_cb e, clock_tick (en_clock e), en_db e)"
  obtain rej rm where r: "consecutive_rejections_in_window (steady_now (en_clock e)) (en_rm e) = (rej, rm)"
    by fastforce
  obtain cb ck db where c: "check_rejections rc rej (check_daily_loss rc (en_pt e)
      (check_unhedged rc (en_pt e) (steady_now (en_clock e)) (check_drawdown rc (en_pt e) ?s))) = (cb, ck, db)"
    using prod_cases3 by blast
  have "breaker_notes ?s (cb, ck, db)"
    unfolding c [symmetric] by (intro breaker_notes_trans [OF _ check_notes(4)] breaker_notes_trans [OF _ check_notes(3)]
        breaker_notes_trans [OF check_notes(1) check_notes(2)])
  moreover have "env_breaker_tick enc rc e = e\<lparr>en_rm := rm, en_cb := publish_pending enc cb, en_clock := ck, en_db := db\<rparr>"
    by (simp add: env_breaker_tick_def tick_now_def do_tick_def r c Let_def)
  moreover have "rm_open_order_count rm = open_count e"
    using r by (auto simp: consecutive_rejections_in_window_def Let_def)
  ultimately show ?thesis
    by (intro reports_system) (simp_all add: breaker_notes_def same_clock_def clock_tick_def)
qed

fun om_fills :: "om_op \<Rightarrow> fill_input list" where
  "om_fills (OFill f) = [f]"
| "om_fills _ = []"

context rest_contract
begin

lemma om_step_reports:
  "list_all (\<lambda>f. int_fits 8 (fi_side f)) (om_fills op) \<Longrightarrow> reports (om_fills op) (snd st) (snd (om_step cfg rest cs op st))"
  by (cases op) (simp_all add: on_quote_reports check_ack_timeouts_reports inject_fill_reports fill_apply_reports halt_watch_reports
    shutdown_reports reconcile_reports breaker_tick_reports)

end


section \<open>The rows of the reporting thread\<close>

text \<open>A crude bound is enough: eight decimal digits hold every date a 64-bit count of nanoseconds can reach.\<close>

lemma div_between:
  fixes x k :: int
  assumes "q = x div k" and "0 < k"
  shows "k * q \<le> x" and "x < k * q + k"
proof -
  have "k * q + x mod k = x"
    unfolding assms(1) by (rule mult_div_mod_eq)
  moreover have "0 \<le> x mod k" "x mod k < k"
    using assms(2) by simp_all
  ultimately show "k * q \<le> x" "x < k * q + k"
    by simp_all
qed

lemma civil_of_days_bounds:
  assumes "0 \<le> n" and "n \<le> 106751" and "civil_of_days n = (y, m, d)"
  shows "1500 \<le> y \<and> y \<le> 2500 \<and> - 20 \<le> m \<and> m \<le> 20 \<and> - 1000 \<le> d \<and> d \<le> 1000"
proof -
  define doe where "doe = (n + 719468) mod 146097"
  define era where "era = (n + 719468) div 146097"
  define q1 q2 q3 where "q1 = doe div 1460" and "q2 = doe div 36524" and "q3 = doe div 146096"
  define yoe where "yoe = (doe - q1 + q2 - q3) div 365"
  define q4 q5 where "q4 = yoe div 4" and "q5 = yoe div 100"
  define doy where "doy = doe - (365 * yoe + q4 - q5)"
  define mp where "mp = (5 * doy + 2) div 153"
  define q6 where "q6 = (153 * mp + 2) div 5"
  note q = div_between [OF q1_def] div_between [OF q2_def] div_between [OF q3_def] div_between [OF yoe_def]
    div_between [OF q4_def] div_between [OF q5_def] div_between [OF mp_def] div_between [OF q6_def]
  have era: "4 \<le> era" "era \<le> 5" and doe: "0 \<le> doe" "doe < 146097"
    using assms(1,2) by (simp_all add: era_def doe_def)
  have q1: "0 \<le> q1" "q1 \<le> 101" and q2: "0 \<le> q2" "q2 \<le> 5" and q3: "0 \<le> q3" "q3 \<le> 1"
    using doe by (simp_all add: q1_def q2_def q3_def)
  have yoe: "365 * yoe \<le> doe + 5" "doe - 500 \<le> 365 * yoe"
    using q(7,8) q1 q2 q3 by linarith+
  have y: "- 1 \<le> yoe" "yoe \<le> 401"
    using yoe doe by linarith+
  have doy: "- 200 \<le> doy" "doy \<le> 510"
    using yoe y q(9-12) doy_def by linarith+
  have mp: "- 10 \<le> mp" "mp \<le> 17"
    using doy q(13,14) by linarith+
  have d: "- 800 \<le> doy - q6" "doy - q6 \<le> 900"
    using doy mp q(15,16) by linarith+
  have "civil_of_days n = (yoe + era * 400 + (if (if mp < 10 then mp + 3 else mp - 9) \<le> 2 then 1 else 0),
      if mp < 10 then mp + 3 else mp - 9, doy - q6 + 1)"
    unfolding civil_of_days_def Let_def era_def q6_def mp_def doy_def q4_def q5_def yoe_def q1_def q2_def q3_def doe_def ..
  then have "y = yoe + era * 400 + (if (if mp < 10 then mp + 3 else mp - 9) \<le> 2 then 1 else 0)"
    "m = (if mp < 10 then mp + 3 else mp - 9)" "d = doy - q6 + 1"
    using assms(3) by simp_all
  then show ?thesis
    using era y mp d by (simp split: if_split)
qed

lemma date_int_range:
  assumes "0 \<le> now" and "now < 2 ^ 63"
  shows "0 \<le> date_int now \<and> date_int now < 100000000"
proof -
  obtain y m d where c: "civil_of_days (trunc_div now 1000000000 div 86400) = (y, m, d)"
    using prod_cases3 by blast
  have day: "trunc_div now 1000000000 div 86400 = now div 86400000000000"
    using assms(1) by (cases "now = 0") (simp_all add: trunc_div_def flip: zdiv_zmult2_eq)
  have "0 \<le> trunc_div now 1000000000 div 86400" "trunc_div now 1000000000 div 86400 \<le> 106751"
    using assms by (simp_all add: day)
  from civil_of_days_bounds [OF this c] show ?thesis
    by (simp add: date_int_def c)
qed

text \<open>A clock whose every reading is a 64-bit count of nanoseconds from 1970 on.\<close>

definition wall_sane :: "clock \<Rightarrow> bool" where
  "wall_sane ck \<longleftrightarrow> (\<forall>n. 0 \<le> ck_wall ck n \<and> ck_wall ck n < 2 ^ 63)"

lemma wall_sane_same: "same_clock ck ck' \<Longrightarrow> wall_sane ck \<Longrightarrow> wall_sane ck'"
  by (simp add: wall_sane_def same_clock_def)

lemma report_round_reports:
  assumes "wall_sane (en_clock (eg_env g))" and "0 \<le> open_count (eg_env g)" and "open_count (eg_env g) \<le> 2"
  shows "reports [] (eg_env g) (eg_env (report_round cfg ghz g))"
proof -
  let ?e = "eg_env g" and ?ck = "clock_tick (en_clock (eg_env g))"
  let ?snap = "live_snapshot cfg ghz (wall_ns (en_clock ?e)) g" and ?daily = "live_daily (wall_now ?ck) (en_pt ?e)"
  have "dp_open_orders ?snap = open_count ?e"
    by (simp add: live_snapshot_def case_prod_beta Let_def)
  moreover have "0 \<le> dd_date ?daily \<and> dd_date ?daily < 100000000"
    using date_int_range [of "wall_now ?ck"] assms(1)
    by (simp add: live_daily_def Let_def wall_sane_def wall_now_def clock_tick_def)
  ultimately have "list_all event_in_range [DbPosition ?snap, DbDaily ?daily]"
    using assms(2,3) by simp
  then show ?thesis
    by (rule reportsI [rotated 2]) (simp_all add: report_round_def Let_def env_tick_def)
qed


section \<open>The engine\<close>

lemma risk_both_notes:
  assumes "risk_both cfg pt bid ask mid (Some rm, ck, db) = (ok, rm', ck', db')"
  shows "\<exists>rm1. rm' = Some rm1 \<and> rm_open_order_count rm1 = rm_open_order_count rm \<and> same_clock ck ck' \<and> db_notes db db'"
proof -
  let ?qty = "st_quote_qty (c_strategy cfg)"
  obtain br rm1 ck1 db1 where b: "pre_trade_check (c_risk cfg) pt ?qty bid mid (rm, ck, db) = (br, rm1, ck1, db1)"
    using prod_cases4 by blast
  obtain ar rm2 ck2 db2 where a: "pre_trade_check (c_risk cfg) pt (- ?qty) ask mid (rm1, ck1, db1) = (ar, rm2, ck2, db2)"
    using prod_cases4 by blast
  show ?thesis
    using assms pre_trade_notes [OF b] pre_trade_notes [OF a] same_clock_trans db_notes_trans
    by (auto simp: risk_both_def a b Let_def)
qed

lemma strategy_signals_reports: "reports [] (eg_env g) (eg_env (strategy_signals ek cfg g))"
proof -
  let ?e = "if 0 < sg_mid (eg_signals g) then (eg_env g)\<lparr>en_pt := update_mid (sg_mid (eg_signals g)) (en_pt (eg_env g))\<rparr> else eg_env g"
  obtain sent mm rm ck db where s: "on_signals (ek_enc_quote ek) cfg engine_inventory (en_pt ?e) (env_halted ?e) (eg_signals g)
      (eg_maker g, Some (en_rm ?e), en_clock ?e, en_db ?e) = (sent, mm, rm, ck, db)"
    using prod_cases5 by blast
  have g: "eg_env (strategy_signals ek cfg g) = ?e\<lparr>en_rm := the rm, en_clock := ck, en_db := db\<rparr>"
    unfolding strategy_signals_def Let_def s by simp
  obtain bid ask where p: "quote_prices (c_strategy cfg) engine_inventory (eg_signals g) = (bid, ask)"
    by (rule prod.exhaust)
  obtain tp ck1 where t: "maker_now (eg_maker g) (en_clock ?e) = (tp, ck1)"
    by (rule prod.exhaust)
  have t1: "same_clock (en_clock ?e) ck1"
    using t by (auto simp: maker_now_def split: option.splits)
  obtain ok rm1 ck2 db1 where b: "risk_both cfg (en_pt ?e) bid ask (sg_mid (eg_signals g)) (Some (en_rm ?e), ck1, en_db ?e) = (ok, rm1, ck2, db1)"
    using prod_cases4 by blast
  obtain rm2 where n: "rm1 = Some rm2" "rm_open_order_count rm2 = open_count ?e" "same_clock ck1 ck2" "db_notes (en_db ?e) db1"
    using risk_both_notes [OF b] by auto
  have "(rm, ck, db) = (Some (en_rm ?e), en_clock ?e, en_db ?e) \<or> (rm, ck, db) = (Some (en_rm ?e), ck1, en_db ?e) \<or> (rm, ck, db) = (rm1, ck2, db1)"
    using s unfolding on_signals_def Let_def by (auto simp only: p t b case_prod_conv prod.inject split: if_splits)
  then have "open_count ?e = rm_open_order_count (the rm) \<and> same_clock (en_clock ?e) ck \<and> db_notes (en_db ?e) db"
    using n t1 same_clock_trans [OF t1 n(3)] by (elim disjE) simp_all
  then show ?thesis
    unfolding g by (intro reports_system) (simp_all split: if_splits)
qed

lemma strategy_round_reports: "reports [] (eg_env g) (eg_env (strategy_round ek cfg g))"
  using strategy_signals_reports [of "g\<lparr>eg_tick := t, eg_signals := s\<rparr>" ek cfg for t s]
  by (simp add: strategy_round_def Let_def case_prod_beta split: option.split)

fun engine_fills :: "engine_op list \<Rightarrow> fill_input list" where
  "engine_fills [] = []"
| "engine_fills (EgFill f # ops) = f # engine_fills ops"
| "engine_fills (_ # ops) = engine_fills ops"

context rest_contract
begin

lemma quote_round_reports: "reports [] (eg_env g) (eg_env (quote_round ek cfg rest g))"
  using check_ack_timeouts_reports [of "eg_env g" "(eg_om g, env_tick (eg_env g))"] on_quote_reports [of "eg_env g" "(eg_om g, eg_env g)"]
  by (simp add: quote_round_def set_orders_def Let_def split: option.split prod.split)

lemma fatal_reports: "reports [] e (fatal_callback e)"
proof -
  obtain cb ck db where n: "notify_ws_disconnect_exhausted (en_cb e, en_clock e, en_db e) = (cb, ck, db)"
    using prod_cases3 by blast
  then have "same_clock (en_clock e) ck" "db_notes (en_db e) db"
    using notify_notes [of "en_clock e" "''ws_disconnect''" "''reconnect_exhausted''" "en_cb e" "en_db e"]
    by (simp_all add: notify_ws_disconnect_exhausted_def)
  then show ?thesis
    by (intro reports_system) (simp_all add: fatal_callback_def n)
qed

lemma engine_step_reports:
  assumes "engine_step ek cfg rest op g = Some g'" and "list_all (\<lambda>f. int_fits 8 (fi_side f)) (engine_fills [op])"
    and "wall_sane (en_clock (eg_env g))" and "0 \<le> open_count (eg_env g)" and "open_count (eg_env g) \<le> 2"
  shows "reports (engine_fills [op]) (eg_env g) (eg_env g')"
proof (cases "orders_op op")
  case (Some om_op)
  then have "om_fills om_op = engine_fills [op]"
    by (cases op) auto
  then show ?thesis
    using om_step_reports [of om_op "(eg_om g, eg_env g)" cfg "ek_orders ek"] assms(1,2) Some
    by (auto simp: engine_step_def set_orders_def)
next
  case None
  then show ?thesis
  proof (cases op)
    case (EgReport ghz)
    then have "g' = report_round cfg ghz g"
      using assms(1) by (simp add: engine_step_def)
    then show ?thesis
      using report_round_reports [OF assms(3-5)] EgReport by simp
  qed (use None assms(1) quote_round_reports strategy_round_reports fatal_reports in \<open>auto simp: engine_step_def\<close>)
qed

lemma engine_fills_Cons: "engine_fills (op # ops) = engine_fills [op] @ engine_fills ops"
  by (cases op) simp_all

lemma engine_run_reports:
  assumes "engine_run ek cfg rest ops g = Some g'" and "list_all (\<lambda>f. int_fits 8 (fi_side f)) (engine_fills ops)"
    and "wall_sane (en_clock (eg_env g))" and "0 \<le> open_count (eg_env g)" and "open_count (eg_env g) \<le> 2"
  shows "reports (engine_fills ops) (eg_env g) (eg_env g')"
  using assms
proof (induction ops arbitrary: g)
  case (Cons op ops)
  obtain g1 where g1: "engine_step ek cfg rest op g = Some g1" "engine_run ek cfg rest ops g1 = Some g'"
    using Cons.prems(1) by (auto simp: bind_eq_Some_conv)
  have fits: "list_all (\<lambda>f. int_fits 8 (fi_side f)) (engine_fills [op] @ engine_fills ops)"
    using Cons.prems(2) by (simp only: engine_fills_Cons [of op ops])
  have step: "reports (engine_fills [op]) (eg_env g) (eg_env g1)"
    using fits Cons.prems(3-5) by (intro engine_step_reports [OF g1(1)]) simp_all
  have "reports (engine_fills ops) (eg_env g1) (eg_env g')"
    using fits step Cons.prems(3-5) wall_sane_same by (intro Cons.IH [OF g1(2)]) (auto simp: reports_def)
  then show ?case
    unfolding engine_fills_Cons [of op ops] by (rule reports_trans [OF step])
qed simp

lemma preflight_reports: "reports [] e (snd (preflight cfg rest e))"
proof -
  have cancels: "reports [] a (snd (preflight_cancels rest ords x))" if "reports [] a x" for a ords x
    using that
  proof (induction ords arbitrary: x)
    case (Cons ord ords)
    then show ?case
      using reports_then(8) [OF Cons.prems cancel_frame] by (simp add: case_prod_beta Let_def)
  qed simp
  have flatten: "reports [] a (snd (preflight_flatten cfg rest ps x))" if "reports [] a x" for a ps x
    using reports_then(8) [OF reports_then(1) [OF that] market_frame] that
    by (simp add: preflight_flatten_def case_prod_beta Let_def)
  obtain oo e1 where o1: "rest_open_orders rest e = (oo, e1)"
    by fastforce
  obtain ok e2 where c: "preflight_cancels rest (os_orders oo) e1 = (ok, e2)"
    by fastforce
  obtain ps e3 where p: "rest_positions rest e2 = (ps, e3)"
    by fastforce
  have e1: "reports [] e e1"
    using reports_frame [OF open_orders_frame [of e]] by (simp add: o1)
  have e2: "reports [] e e2"
    using cancels [OF e1, of "os_orders oo"] by (simp add: c)
  have "reports [] e e3"
    using reports_then(8) [OF e2 positions_frame [of e2]] by (simp add: p)
  then show ?thesis
    using e1 e2 flatten by (simp add: preflight_def o1 c p)
qed

end


section \<open>Properties\<close>

lemma engine_fills_set: "f \<in> set (engine_fills ops) \<longleftrightarrow> EgFill f \<in> set ops"
  by (induction ops rule: engine_fills.induct) auto

text \<open>C14: from its start, with an empty database or one of an earlier release, and over any client that keeps
  the REST contract, whatever the interleaving of its threads, the engine queues for the reporter only
  rows the created schema accepts, and the trades among them are those of the injected fills, each once
  and in order.  (The sides are 8-bit and the wall clock a 64-bit count of nanoseconds.)\<close>

theorem engine_audit_trail:
  assumes "rest_contract r" and "earlier_release cat" and "wall_sane ck"
    and "\<And>f. EgFill f \<in> set ops \<Longrightarrow> int_fits 8 (fi_side f)"
    and "engine_start cfg r recording (Some ring) ck w = Some g0" and "engine_run ek cfg r ops g0 = Some g"
  shows "\<exists>cat' evs. run_ddl kSchemaSql cat = Some cat' \<and> list_all (\<lambda>ev. stmt_accepted cat' (sql_of ev)) evs \<and>
    filter is_trade evs = map trade_event_of (engine_fills ops) \<and> en_db (eg_env g) = fold db_push evs (Some ring)"
proof -
  let ?e = "env_new (Some ring) ck w :: 'a env"
  obtain ok e1 where p: "preflight cfg r ?e = (ok, e1)"
    by fastforce
  have g0: "g0 = engine_init cfg recording e1"
    using assms(5) by (simp add: engine_start_def p split: if_splits)
  have e1: "reports [] ?e e1"
    using rest_contract.preflight_reports [OF assms(1), of ?e cfg] by (simp add: p)
  have "eg_env g0 = env_tick e1"
    by (simp add: g0 engine_init_def om_init_def env_tick_def Let_def)
  then have start: "reports [] ?e (eg_env g0)"
    using reports_then(1) [OF e1] by simp
  then have "wall_sane (en_clock (eg_env g0))" "0 \<le> open_count (eg_env g0)" "open_count (eg_env g0) \<le> 2"
    using wall_sane_same [OF _ assms(3)] by (auto simp: reports_def env_new_def risk_init_def)
  from rest_contract.engine_run_reports [OF assms(1,6) _ this]
  have "reports (engine_fills ops) ?e (eg_env g)"
    using reports_quiet_trans [OF start] assms(4) by (simp add: list_all_iff engine_fills_set)
  then obtain evs where evs: "list_all event_in_range evs" "filter is_trade evs = map trade_event_of (engine_fills ops)"
    "en_db (eg_env g) = fold db_push evs (Some ring)"
    by (auto simp: reports_def env_new_def)
  obtain cat' where "run_ddl kSchemaSql cat = Some cat'" "\<forall>ev. event_in_range ev \<longrightarrow> stmt_accepted cat' (sql_of ev)"
    using schema_accepts_events [OF assms(2)] by blast
  then show ?thesis
    using evs by (intro exI [of _ cat'] exI [of _ evs]) (auto simp: list_all_iff)
qed

text \<open>One fill and one round of the reporting thread, over the tables of the first release.\<close>

definition demo_ring :: "db_event ring" where
  "demo_ring = ring_init 16 (system_event 0 [] [] [] [])"

definition still_clock :: clock where
  "still_clock = demo_clock\<lparr>ck_wall := (\<lambda>_. 1000000000)\<rparr>"

theorem engine_audit_trail_witness:
  "\<exists>g cat' evs. Option.bind (engine_start demo_cfg (sim_client (Some track_fill)) False (Some demo_ring) still_clock (sim_init ''S'' ()))
      (engine_run demo_ek demo_cfg (sim_client (Some track_fill)) [EgFill (demo_fill 1 100 2), EgReport 3]) = Some g \<and>
    run_ddl kSchemaSql first_release = Some cat' \<and> list_all (\<lambda>ev. stmt_accepted cat' (sql_of ev)) evs \<and>
    filter is_trade evs = [trade_event_of (demo_fill 1 100 2)] \<and> en_db (eg_env g) = fold db_push evs (Some demo_ring)"
proof -
  let ?r = "sim_client (Some track_fill)" and ?ops = "[EgFill (demo_fill 1 100 2), EgReport 3]"
  let ?e = "env_new (Some demo_ring) still_clock (sim_init ''S'' ())"
  have "fst (preflight demo_cfg ?r ?e)"
    by (simp add: preflight_def preflight_flatten_def sim_client_def sim_query_open_orders_def sim_query_positions_def env_new_def
        sim_init_def Let_def)
  then obtain g0 where g0: "engine_start demo_cfg ?r False (Some demo_ring) still_clock (sim_init ''S'' ()) = Some g0"
    by (auto simp: engine_start_def case_prod_beta)
  obtain g where g: "engine_run demo_ek demo_cfg ?r ?ops g0 = Some g"
    by (simp add: engine_step_def)
  have old: "earlier_release first_release"
    by (simp add: earlier_release_def first_release_def released_def)
  have ck: "wall_sane still_clock"
    by (simp add: wall_sane_def still_clock_def)
  have side: "\<And>f. EgFill f \<in> set ?ops \<Longrightarrow> int_fits 8 (fi_side f)"
    by (simp add: demo_fill_def)
  from engine_audit_trail [OF sim.rest_contract_axioms old ck side g0 g] show ?thesis
    using g0 g by auto
qed

end
