(* ===== verification/Spec2Isabelle.thy ===== *)
theory Spec2Isabelle
  imports Prelude Ring RingConc Config MarketData OrderBook Volatility TickProcessor PositionTracker
    DbEvents RiskManager CircuitBreaker Strategy RestApi OrderManager OrderInvariant OrderTrace
    SimRest OrderProps OrderQuoting FillPath SimProps PgReporter PgSchema PgStart
    Json OkxRest OkxProps WsSession WsProgress PublicWs PrivateWs PrivateProps LoginChurn
    Archive ArchiveProps Replay ReplayProps BacktestReporter Backtest BacktestProps
    DepthRest Startup StartupProps Tools Engine PreflightProps EngineDemo EngineProps EngineEvents
begin

text \<open>
  A verification development for the market-making engine under \<open>src/\<close> (all paths below are relative
  to \<open>src/src\<close>).  The engine keeps an order book from the public WebSocket feed of an exchange, computes
  an Avellaneda-Stoikov quote around the mid price, places one bid and one ask over the REST interface
  of the exchange, receives its fills over a private WebSocket stream, and is watched by a pre-trade risk
  check and a circuit breaker.  What happened is queued for a PostgreSQL database.  The same strategy and
  order manager run over recorded archives in the backtest, against a simulated exchange.

  \<^bold>\<open>The flow.\<close>
  \<^item> feed: \<open>okx_ws_client\<close> pushes market events on a ring; \<open>tick_processor\<close> pops them, maintains
    \<open>orderbook\<close> and \<open>volatility\<close>, asks \<open>depth_snapshot\<close> for a snapshot when out of sequence, and pushes
    encoded market snapshots on the strategy ring and, while recording, on the ring of \<open>recorder\<close>;
  \<^item> quoting: \<open>market_maker\<close> pops snapshots through \<open>signal_aggregator\<close>, prices with \<open>spread_model\<close> and
    \<open>inventory_manager\<close>, asks \<open>risk_manager\<close> about both sides and pushes a quote on the quote ring;
  \<^item> orders: \<open>order_manager\<close> pops quotes and cancels, amends or places the orders of its two slots through
    \<open>i_rest_client\<close>, which is \<open>okx_rest_client\<close> live and \<open>simulated_rest_client\<close> in the backtest;
  \<^item> fills: \<open>okx_private_ws_client\<close> (live) or the fill callback (backtest) injects fills; a thread of the
    order manager applies them to \<open>position_tracker\<close>; another reconciles the tracker with the exchange;
  \<^item> safety: \<open>circuit_breaker\<close> ticks every second on the tracker and halts the engine; a watcher of the
    order manager then cancels the live orders and flattens the position;
  \<^item> records: trades, snapshots, risk events and daily rows go through \<open>pg_reporter\<close> to PostgreSQL.

  \<^bold>\<open>Theories, code and what is shown.\<close>

  \<^theory_text>\<open>Prelude\<close>: conventions (doubles, words, clocks), formatting of numbers, and the facts on lists, options
  and folds the components share.

  \<^theory_text>\<open>Ring\<close>, \<^theory_text>\<open>RingConc\<close>: \<open>transport/spsc_ring_buffer.hpp\<close>.  \<^theory_text>\<open>Ring\<close> has \<open>push\<close> and \<open>pop\<close> as functions and states
  the contract of a bounded queue (locale \<open>bounded_queue\<close>), interpreted on the ring as \<open>rq\<close>; every
  component that owns a ring argues through that interpretation.  \<^theory_text>\<open>RingConc\<close> splits both operations into
  their loads and stores and shows, for every interleaving of one producer and one consumer, that the
  ring is a FIFO of at most \<open>N - 1\<close> items and that the two sides never touch the same slot.

  \<^theory_text>\<open>Config\<close>: \<open>infra/config.hpp\<close>, \<open>config.cpp\<close>.  Records field by field and \<open>load_config\<close> with its defaults.

  \<^theory_text>\<open>MarketData\<close>, \<^theory_text>\<open>OrderBook\<close>, \<^theory_text>\<open>Volatility\<close>, \<^theory_text>\<open>TickProcessor\<close>, \<^theory_text>\<open>DepthRest\<close>: \<open>market_data/\<close> without the clients.
  The book is the pair of 20-level arrays the code has; its live prefixes stay ordered and hold what the
  applied messages say; the window of mids yields the standard deviation of the log returns of the
  last mids; a processed event never fails on an event of the shape the feed produces; a resync installs
  exactly the first levels of the REST reply.

  \<^theory_text>\<open>PositionTracker\<close>, \<^theory_text>\<open>RiskManager\<close>, \<^theory_text>\<open>CircuitBreaker\<close>: \<open>risk/\<close>.  The tracker refines a cash ledger; the
  pre-trade check reports the first breach in the order of the enumerators (\<open>risk_result\<close> is a linear
  order) and its rate limit is exact over the sliding window; the breaker halts exactly when one of its
  four conditions holds at a tick or a trigger is raised.

  \<^theory_text>\<open>Strategy\<close>: \<open>strategy/\<close>.  The published prices, the throttle between quotes, the skew and the floor.

  \<^theory_text>\<open>RestApi\<close>, \<^theory_text>\<open>OrderManager\<close>: \<open>execution/i_rest_client.hpp\<close> and \<open>order_manager.hpp\<close>, \<open>.cpp\<close>.  A REST client is
  a record of six operations on the environment the components share (clock, breaker, database ring, the
  state of the client).  Locale \<open>rest_contract\<close> is what the order manager relies on: an operation leaves
  the risk manager alone, never clears a halt and queues at most system events for the database.  \<^theory_text>\<open>OrderInvariant\<close> proves
  the invariant of the order manager under every operation within that contract; \<^theory_text>\<open>OrderTrace\<close> extends the
  contract by the list of calls made (locale \<open>rest_trace\<close>) and proves what calls each operation adds.
  \<^theory_text>\<open>OrderProps\<close>, \<^theory_text>\<open>OrderQuoting\<close> and \<^theory_text>\<open>FillPath\<close> are the properties over histories of operations: the count
  of open orders, silence while halted, one flattening per halt, the outcome of a cancel, the way of a
  fill from \<open>inject_fill\<close> to the tracker and what a reconciliation makes of a queued fill.

  \<^theory_text>\<open>SimRest\<close>, \<^theory_text>\<open>SimProps\<close>: \<open>execution/simulated_rest_client.cpp\<close>, interpreted as \<open>sim\<close> (\<open>rest_contract\<close>) and
  \<open>sim_trace\<close>; its inventory is the tracker's, and it fills no order beyond its size.

  \<^theory_text>\<open>Json\<close>, \<^theory_text>\<open>OkxRest\<close>, \<^theory_text>\<open>OkxProps\<close>: \<open>execution/okx_rest_client.cpp\<close>, interpreted as \<open>okx\<close> and \<open>okx_trace\<close>: when a
  placement counts as accepted, what the error codes cause, and their joint behaviour with the order manager.

  \<^theory_text>\<open>WsSession\<close>, \<^theory_text>\<open>WsProgress\<close>: the connection code both WebSocket clients contain (locales \<open>ws_client\<close> and
  \<open>ws_passive\<close>): a step machine in which a step completes one pending operation, fires one timer or stops
  the client.  \<^theory_text>\<open>PublicWs\<close>, \<^theory_text>\<open>PrivateWs\<close>, \<^theory_text>\<open>PrivateProps\<close> instantiate it (\<open>pub\<close>, \<open>priv\<close>) with the decoding of
  the channels, the login and the conversion of order updates to fills: an orders frame moves the position
  by the executions it reports on the wire.  \<^theory_text>\<open>LoginChurn\<close> follows the sessions after a rejected login.

  \<^theory_text>\<open>DbEvents\<close>, \<^theory_text>\<open>PgReporter\<close>, \<^theory_text>\<open>PgSchema\<close>, \<^theory_text>\<open>PgStart\<close>: \<open>db/pg_reporter.hpp\<close>, \<open>.cpp\<close>.  Batching, the three attempts of a
  flush and the shutdown drain; the text of the schema as a list of statements with their effect on a
  catalogue of tables; the thread from its start.  No event is written twice, on a healthy server none is
  lost, every insert fits the created tables, and a schema missed at the start is never made up for.

  \<^theory_text>\<open>Archive\<close>, \<^theory_text>\<open>ArchiveProps\<close>, \<^theory_text>\<open>Replay\<close>, \<^theory_text>\<open>ReplayProps\<close>, \<^theory_text>\<open>BacktestReporter\<close>, \<^theory_text>\<open>Backtest\<close>, \<^theory_text>\<open>BacktestProps\<close>:
  \<open>backtest/\<close>.  Record framing and its inverse, the conversion of CSV files, synchronous, paced and stepped
  replay, the statistics of a run and the run itself.  The client of the backtest is interpreted as
  \<open>backtest_rest\<close>, and the books of the run are kept under locale \<open>rest_invariant\<close> (\<open>backtest_books\<close>).

  \<^theory_text>\<open>Startup\<close>, \<^theory_text>\<open>StartupProps\<close>, \<^theory_text>\<open>Engine\<close>, \<^theory_text>\<open>PreflightProps\<close>, \<^theory_text>\<open>EngineDemo\<close>, \<^theory_text>\<open>EngineProps\<close>,
  \<^theory_text>\<open>EngineEvents\<close>: \<open>main.cpp\<close>.  The decision
  taken from the command line to the created engine; the preflight, over the contract of an exchange
  whose positive answers are true (locale \<open>exchange\<close>, interpreted on the simulated one as
  \<open>sim_exchange\<close>); and the running engine as the interleaving of one-round steps of its threads, for which
  every order placed is traced back to the signals it was priced from, and everything queued for the
  database is a row the schema accepts, with one trade for every injected fill.

  \<^theory_text>\<open>Tools\<close>: \<open>infra/rdtsc.cpp\<close>, \<open>cpu_affinity.cpp\<close>, \<open>execution/credentials.cpp\<close>, \<open>tools/convert_binance_csv.cpp\<close>,
  the log levels and the two classes that are stubs in the code (\<open>FixClient\<close>, \<open>DashboardServer\<close>).

  \<^bold>\<open>Loops.\<close>  A loop that may not end is a partial function into \<open>option\<close>: draining a ring (\<open>drain\<close>,
  \<open>drain_quotes\<close>, \<open>collect\<close>), waiting for room or for the end of a pause (\<open>push_wait\<close>, \<open>pause_wait\<close>);
  that they return is proved where it holds (a backtest always ends) and that they need not is proved
  where it does not (a ring nobody reads).  Reading an archive and stepping through several of them are
  functions with a measure.  The bounded retries of the code are lists of attempts.  No fuel is used.

  \<^bold>\<open>Idealisations.\<close>
  \<^item> \<open>double\<close> is \<open>real\<close>: no rounding, no NaN, no infinities; \<open>std::log1p\<close> is \<open>ln (1 + x)\<close>.  Integers that can
    wrap keep their width.
  \<^item> \<open>std::sort\<close> is a stable sort; an unordered map is an association list, so that the visiting order of
    a scan is that of the list.
  \<^item> libcurl, OpenSSL (HMAC, base64), simdjson, toml++, libpqxx, Boost.Asio and Beast, the generated
    FlatBuffers code and the system call behind core pinning are parameters.  What is used of them is a
    hypothesis of the theorem concerned: \<open>codec_at\<close> (decoding an encoded table gives it back),
    transactions are all-or-nothing, an \<open>IF NOT EXISTS\<close> statement skips what is there, the real
    exchange does what its positive answers say.  simdjson parses on demand; here a document is parsed as
    a whole, so that one which is malformed after the last field the code reads counts as rejected, and
    a level of fewer than two elements counts as an exception.
  \<^item> an operation under one mutex, and one round of a thread loop, is one step; only the ring is modelled
    at the level of single memory accesses.  Atomics are sequentially consistent, except that
    \<open>fill_stores\<close> keeps the separate stores of a fill.
  \<^item> the back-off of a reconnection and its attempt counter are unbounded, so that an \<open>int\<close> overflow under an
    absurdly large configured maximum is outside the model; a transaction whose commit is in doubt is
    excluded by \<open>pg_atomic\<close>, and \<open>pg_healthy\<close> is a server that takes every date of the ISO shape;
  \<^item> clocks are counters that never go back; sleeping is one reading of them.
  \<^item> log statements are left out: no code reads a log.

  \<^bold>\<open>Not modelled.\<close>  The set-up of the logging sinks (\<open>infra/logger.cpp\<close>), creating, naming, pinning and
  joining of threads and the destructors (they are the boundaries of the interleavings above), the code
  FlatBuffers generates from \<open>schemas/\<close> (not in the repository), the benchmark and the tests, and the
  helpers that exist for the tests only.  \<open>dashboard_backend/\<close> (Go) and \<open>dashboard/\<close> (TypeScript) are
  separate programs that read the database; \<open>deploy/\<close>, \<open>config/\<close> and \<open>data/\<close> hold no code of the engine.
\<close>

end
